(* ===== verification/Runner_Prelude.thy ===== *)
theory Runner_Prelude
  imports Main "HOL-Library.Sublist"
begin

text \<open>
  The prelude of the development: the types and abbreviations every component shares, the
  collections that carry the component proofs, and the generic lemmas on lists, maps and byte
  strings that more than one component needs.

  A Go \<open>string\<close> or \<open>[]byte\<close> is a \<open>string\<close> of HOL, a list of bytes, so \<open>length\<close> counts
  bytes as Go's \<open>len\<close> does. A \<open>time.Time\<close> and a \<open>time.Duration\<close> are integers that count
  nanoseconds; where the width of a duration matters (the shift of \<open>clampBackoffDuration\<close>) the
  component uses a 64-bit word instead.
\<close>

section \<open>Shared types\<close>

type_synonym bytes = string
type_synonym time = int
type_synonym duration = int

abbreviation second :: duration where
  "second \<equiv> 1000000000"

section \<open>Collections\<close>

named_theorems ok_intros \<open>preservation of the components' well-formedness invariants\<close>
named_theorems abs_simps \<open>the operations seen through the components' abstraction functions\<close>
named_theorems frame_simps \<open>the fields an operation leaves alone\<close>

section \<open>Lists\<close>

lemma filter_neq_hd_distinct:
  "distinct (map f (x # xs)) \<Longrightarrow> filter (\<lambda>y. f y \<noteq> f x) (x # xs) = xs"
  by (auto simp: filter_id_conv image_iff)

lemma distinct_map_filter_keys:
  "distinct (map f xs) \<Longrightarrow> distinct (map f (filter P xs))"
  by (induction xs) auto

lemma sorted_wrt_filter_keys:
  "sorted_wrt R xs \<Longrightarrow> sorted_wrt R (filter P xs)"
  by (induction xs) auto

text \<open>
  The early return of the sweep loops: on a list in ascending order of \<open>f\<close>, dropping from the
  front while the element is old is the same as filtering out every old element.
\<close>

lemma dropWhile_eq_filter_sorted:
  assumes "sorted_wrt (\<lambda>x y. f x \<le> (f y :: 'b :: linorder)) xs"
  shows "dropWhile (\<lambda>x. f x \<le> c) xs = filter (\<lambda>x. \<not> f x \<le> c) xs"
  using assms
proof (induction xs)
  case (Cons a xs)
  show ?case
  proof (cases "f a \<le> c")
    case False
    with Cons.prems have "\<forall>x \<in> set xs. \<not> f x \<le> c" by fastforce
    with False show ?thesis by simp
  qed (use Cons in simp)
qed simp

lemma in_set_dropWhileI: "x \<in> set xs \<Longrightarrow> \<not> P x \<Longrightarrow> x \<in> set (dropWhile P xs)"
  by (induction xs) auto

lemma distinct_key_eq:
  "distinct (map f xs) \<Longrightarrow> x \<in> set xs \<Longrightarrow> y \<in> set xs \<Longrightarrow> f x = f y \<Longrightarrow> x = y"
  by (auto simp: distinct_map inj_on_def)

lemma length_filter_le_conv: "length (filter P xs) = length xs \<longleftrightarrow> (\<forall>x\<in>set xs. P x)"
  by (metis filter_True length_filter_less nat_neq_iff)

section \<open>Separators in composed keys\<close>

text \<open>
  A composed key \<open>a @ sep # b\<close> determines its parts when the first part is free of the
  separator: the shape of every map key the runner builds.
\<close>

lemma append_sep_inject:
  "c \<notin> set a \<Longrightarrow> c \<notin> set a' \<Longrightarrow> a @ c # b = a' @ c # b' \<longleftrightarrow> a = a' \<and> b = b'"
proof (induction a arbitrary: a')
  case Nil
  then show ?case by (cases a') auto
next
  case (Cons x a)
  then show ?case by (cases a') auto
qed

end
