(* ===== verification/Ttl_Store.thy ===== *)
theory Ttl_Store
  imports Runner_Prelude
begin

text \<open>
  The data structure behind the runner's three caches (\<open>internal/webhook/replay_cache.go\<close>,
  \<open>internal/webhook/message_dedup_cache.go\<close>, \<open>internal/container/dns_cache.go\<close>): a
  \<open>container/list\<close> of entries, oldest first, and an index from the entry's key to its list
  element. Elements are pointers in Go; here an element is a number that the list hands out, and
  the index maps a key to such a number. \<open>store_ok\<close> says that list and index agree, and
  \<open>vals\<close> abstracts the linked structure to the plain list of entries, oldest first.
\<close>

section \<open>container/list\<close>

record 'v elist =
  el_next :: nat
  el_items :: "(nat \<times> 'v) list"

definition list_new :: "'v elist" where
  "list_new = \<lparr>el_next = 0, el_items = []\<rparr>"

definition list_push_back :: "'v \<Rightarrow> 'v elist \<Rightarrow> nat \<times> 'v elist" where
  "list_push_back v l =
     (el_next l, l\<lparr>el_next := Suc (el_next l), el_items := el_items l @ [(el_next l, v)]\<rparr>)"

definition list_remove :: "nat \<Rightarrow> 'v elist \<Rightarrow> 'v elist" where
  "list_remove e l = l\<lparr>el_items := filter (\<lambda>p. fst p \<noteq> e) (el_items l)\<rparr>"

definition list_front :: "'v elist \<Rightarrow> (nat \<times> 'v) option" where
  "list_front l = (case el_items l of [] \<Rightarrow> None | p # _ \<Rightarrow> Some p)"

definition list_len :: "'v elist \<Rightarrow> nat" where
  "list_len l = length (el_items l)"

text \<open>The value of an element; \<open>None\<close> for an element that is not in the list.\<close>

definition list_value :: "nat \<Rightarrow> 'v elist \<Rightarrow> 'v option" where
  "list_value e l = map_of (el_items l) e"

definition list_set_value :: "nat \<Rightarrow> 'v \<Rightarrow> 'v elist \<Rightarrow> 'v elist" where
  "list_set_value e v l =
     l\<lparr>el_items := map (\<lambda>p. if fst p = e then (e, v) else p) (el_items l)\<rparr>"

definition list_move_to_back :: "nat \<Rightarrow> 'v elist \<Rightarrow> 'v elist" where
  "list_move_to_back e l =
     (case list_value e l of
        None \<Rightarrow> l
      | Some v \<Rightarrow> l\<lparr>el_items := filter (\<lambda>p. fst p \<noteq> e) (el_items l) @ [(e, v)]\<rparr>)"

section \<open>The indexed store\<close>

record 'v ttl_store =
  ttl :: duration
  capacity :: int
  entries :: "'v elist"
  index :: "string \<rightharpoonup> nat"

definition new_store :: "duration \<Rightarrow> int \<Rightarrow> 'v ttl_store" where
  "new_store t c = \<lparr>ttl = t, capacity = c, entries = list_new, index = Map.empty\<rparr>"

text \<open>\<open>entries.Remove(el); delete(index, k)\<close>\<close>

definition drop_elem :: "nat \<Rightarrow> string \<Rightarrow> 'v ttl_store \<Rightarrow> 'v ttl_store" where
  "drop_elem e k s = s\<lparr>entries := list_remove e (entries s), index := (index s)(k := None)\<rparr>"

text \<open>\<open>el := entries.PushBack(v); index[k] = el\<close>\<close>

definition push_elem :: "string \<Rightarrow> 'v \<Rightarrow> 'v ttl_store \<Rightarrow> 'v ttl_store" where
  "push_elem k v s =
     (let (e, l) = list_push_back v (entries s)
      in s\<lparr>entries := l, index := (index s)(k \<mapsto> e)\<rparr>)"

text \<open>\<open>el.Value = v; entries.MoveToBack(el)\<close>\<close>

definition refresh_elem :: "nat \<Rightarrow> 'v \<Rightarrow> 'v ttl_store \<Rightarrow> 'v ttl_store" where
  "refresh_elem e v s = s\<lparr>entries := list_move_to_back e (list_set_value e v (entries s))\<rparr>"

definition touch_elem :: "nat \<Rightarrow> 'v ttl_store \<Rightarrow> 'v ttl_store" where
  "touch_elem e s = s\<lparr>entries := list_move_to_back e (entries s)\<rparr>"

lemma length_filter_front:
  "xs = p # ys \<Longrightarrow> length (filter (\<lambda>q. fst q \<noteq> fst p) xs) < length xs"
  by (simp add: le_imp_less_Suc)

text \<open>
  The eviction loop \<open>for entries.Len() > capacity { oldest := entries.Front(); ... }\<close>: it stops
  because each round removes the front element.
\<close>

function evict_over :: "('v \<Rightarrow> string) \<Rightarrow> 'v ttl_store \<Rightarrow> 'v ttl_store" where
  "evict_over key s =
     (if int (list_len (entries s)) > capacity s
      then (case list_front (entries s) of
              None \<Rightarrow> s
            | Some (e, v) \<Rightarrow> evict_over key (drop_elem e (key v) s))
      else s)"
  by pat_completeness auto
termination
  by (relation "measure (\<lambda>(key, s). length (el_items (entries s)))")
    (auto simp: list_front_def drop_elem_def list_remove_def le_imp_less_Suc split: list.splits)

definition enforce_capacity :: "('v \<Rightarrow> string) \<Rightarrow> 'v ttl_store \<Rightarrow> 'v ttl_store" where
  "enforce_capacity key s = (if capacity s > 0 then evict_over key s else s)"

text \<open>
  The sweep loop: look at the front, return when there is none or its stamp is after the cutoff,
  otherwise remove it and go on.
\<close>

function sweep_front :: "('v \<Rightarrow> string) \<Rightarrow> ('v \<Rightarrow> time) \<Rightarrow> time \<Rightarrow> 'v ttl_store \<Rightarrow> 'v ttl_store" where
  "sweep_front key stamp cutoff s =
     (case list_front (entries s) of
        None \<Rightarrow> s
      | Some (e, v) \<Rightarrow>
          if stamp v > cutoff then s
          else sweep_front key stamp cutoff (drop_elem e (key v) s))"
  by pat_completeness auto
termination
  by (relation "measure (\<lambda>(key, stamp, cutoff, s). length (el_items (entries s)))")
    (auto simp: list_front_def drop_elem_def list_remove_def le_imp_less_Suc split: list.splits)

declare evict_over.simps [simp del] sweep_front.simps [simp del]

section \<open>Well-formedness and abstraction\<close>

definition vals :: "'v ttl_store \<Rightarrow> 'v list" where
  "vals s = map snd (el_items (entries s))"

definition store_ok :: "('v \<Rightarrow> string) \<Rightarrow> 'v ttl_store \<Rightarrow> bool" where
  "store_ok key s \<longleftrightarrow>
     distinct (map fst (el_items (entries s))) \<and>
     (\<forall>(e, v) \<in> set (el_items (entries s)). e < el_next (entries s)) \<and>
     (\<forall>k e. index s k = Some e \<longleftrightarrow> (\<exists>v. (e, v) \<in> set (el_items (entries s)) \<and> key v = k))"

text \<open>What a lookup through the index reads.\<close>

definition find_entry :: "string \<Rightarrow> 'v ttl_store \<Rightarrow> (nat \<times> 'v) option" where
  "find_entry k s =
     (case index s k of
        None \<Rightarrow> None
      | Some e \<Rightarrow> map_option (\<lambda>v. (e, v)) (list_value e (entries s)))"

lemma store_okD:
  assumes "store_ok key s"
  shows "distinct (map fst (el_items (entries s)))"
    and "(e, v) \<in> set (el_items (entries s)) \<Longrightarrow> e < el_next (entries s)"
    and "index s k = Some e \<longleftrightarrow> (\<exists>v. (e, v) \<in> set (el_items (entries s)) \<and> key v = k)"
  using assms by (auto simp: store_ok_def)

lemma store_ok_index_item:
  "store_ok key s \<Longrightarrow> (e, v) \<in> set (el_items (entries s)) \<Longrightarrow> index s (key v) = Some e"
  by (auto simp: store_ok_def)

lemma store_ok_distinct_keys:
  assumes ok: "store_ok key s"
  shows "distinct (map key (vals s))"
proof -
  have d: "distinct (map fst (el_items (entries s)))" by (rule store_okD(1)[OF ok])
  have "inj_on (key \<circ> snd) (set (el_items (entries s)))"
  proof (rule inj_onI)
    fix p q assume p: "p \<in> set (el_items (entries s))" and q: "q \<in> set (el_items (entries s))"
      and eq: "(key \<circ> snd) p = (key \<circ> snd) q"
    have "index s (key (snd p)) = Some (fst p)" "index s (key (snd q)) = Some (fst q)"
      using store_ok_index_item[OF ok] p q by (metis prod.collapse)+
    with eq have "fst p = fst q" by simp
    with d p q show "p = q" by (rule distinct_key_eq)
  qed
  with d show ?thesis
    by (simp add: vals_def distinct_map comp_def)
qed

lemma store_ok_dom:
  assumes ok: "store_ok key s"
  shows "dom (index s) = key ` set (vals s)"
  using store_okD(3)[OF ok] by (force simp: vals_def)

lemma find_entry_Some:
  assumes ok: "store_ok key s"
  shows "find_entry k s = Some (e, v) \<longleftrightarrow> (e, v) \<in> set (el_items (entries s)) \<and> key v = k"
proof -
  note d = store_okD(1)[OF ok]
  show ?thesis
  proof (cases "index s k")
    case None
    then show ?thesis
      using store_okD(3)[OF ok, of k e] by (auto simp: find_entry_def)
  next
    case (Some e')
    then obtain v' where v': "(e', v') \<in> set (el_items (entries s))" "key v' = k"
      using store_okD(3)[OF ok] by auto
    then have m: "list_value e' (entries s) = Some v'"
      using d by (simp add: list_value_def)
    have "find_entry k s = Some (e', v')" by (simp add: find_entry_def Some m)
    moreover have "(e, v) \<in> set (el_items (entries s)) \<and> key v = k \<Longrightarrow> e = e' \<and> v = v'"
      using store_ok_index_item[OF ok] Some d v'(1) by (fastforce simp: eq_key_imp_eq_value)
    ultimately show ?thesis using v' by auto
  qed
qed

lemma find_entry_None:
  assumes ok: "store_ok key s"
  shows "find_entry k s = None \<longleftrightarrow> (\<forall>v \<in> set (vals s). key v \<noteq> k)"
proof -
  have "find_entry k s \<noteq> None \<longleftrightarrow> (\<exists>e v. find_entry k s = Some (e, v))"
    by (cases "find_entry k s") auto
  also have "\<dots> \<longleftrightarrow> (\<exists>v \<in> set (vals s). key v = k)"
    by (force simp: find_entry_Some[OF ok] vals_def)
  finally show ?thesis by blast
qed

lemma find_entry_None_index:
  assumes ok: "store_ok key s"
  shows "find_entry k s = None \<longleftrightarrow> index s k = None"
proof
  assume n: "find_entry k s = None"
  show "index s k = None"
  proof (rule ccontr)
    assume "index s k \<noteq> None"
    then obtain e where "index s k = Some e" by auto
    then obtain v where "(e, v) \<in> set (el_items (entries s)) \<and> key v = k"
      using store_okD(3)[OF ok] by auto
    then have "find_entry k s = Some (e, v)" using find_entry_Some[OF ok] by simp
    with n show False by simp
  qed
qed (simp add: find_entry_def)

lemma find_entry_index: "find_entry k s = Some (e, v) \<Longrightarrow> index s k = Some e"
  by (auto simp: find_entry_def split: option.splits)

section \<open>The operations keep the store well formed\<close>

lemma store_ok_new [ok_intros]: "store_ok key (new_store t c)"
  by (simp add: store_ok_def new_store_def list_new_def)

lemma vals_new [abs_simps]: "vals (new_store t c) = []"
  by (simp add: vals_def new_store_def list_new_def)

lemma store_ok_drop:
  assumes ok: "store_ok key s" and iv: "(e, v) \<in> set (el_items (entries s))"
  shows "store_ok key (drop_elem e (key v) s)"
proof -
  have i: "index s (key v) = Some e" by (rule store_ok_index_item[OF ok iv])
  have d: "(e, w) \<in> set (el_items (entries s)) \<Longrightarrow> w = v" for w
    using store_okD(1)[OF ok] iv by (simp add: eq_key_imp_eq_value)
  have "index (drop_elem e (key v) s) k = Some e' \<longleftrightarrow>
      (\<exists>w. (e', w) \<in> set (el_items (entries (drop_elem e (key v) s))) \<and> key w = k)" for k e'
  proof (cases "k = key v")
    case True
    then show ?thesis
      using store_ok_index_item[OF ok, of e'] i by (fastforce simp: drop_elem_def list_remove_def)
  next
    case False
    then show ?thesis
      using store_okD(3)[OF ok, of k e'] d by (auto simp: drop_elem_def list_remove_def)
  qed
  then show ?thesis
    using ok by (auto simp: store_ok_def drop_elem_def list_remove_def distinct_map_filter_keys)
qed

lemma vals_drop:
  assumes ok: "store_ok key s" and iv: "(e, v) \<in> set (el_items (entries s))"
  shows "vals (drop_elem e (key v) s) = filter (\<lambda>w. key w \<noteq> key v) (vals s)"
proof -
  have "filter (\<lambda>p. fst p \<noteq> e) (el_items (entries s))
      = filter (\<lambda>p. key (snd p) \<noteq> key v) (el_items (entries s))"
  proof (rule filter_cong[OF refl])
    fix p assume p: "p \<in> set (el_items (entries s))"
    show "(fst p \<noteq> e) = (key (snd p) \<noteq> key v)"
      using store_ok_index_item[OF ok, of "fst p" "snd p"] store_ok_index_item[OF ok iv] p
        store_okD(1)[OF ok] iv
      by (metis distinct_key_eq fst_conv option.inject prod.collapse snd_conv)
  qed
  then show ?thesis
    by (simp add: vals_def drop_elem_def list_remove_def filter_map comp_def)
qed

lemma drop_elem_frame [frame_simps]:
  "ttl (drop_elem e k s) = ttl s" "capacity (drop_elem e k s) = capacity s"
  by (simp_all add: drop_elem_def)

lemma store_ok_push:
  assumes ok: "store_ok key s" and fresh: "find_entry (key v) s = None"
  shows "store_ok key (push_elem (key v) v s)"
proof -
  have i: "index s (key v) = None" using fresh find_entry_None_index[OF ok] by simp
  have lt: "\<And>e w. (e, w) \<in> set (el_items (entries s)) \<Longrightarrow> e < el_next (entries s)"
    by (rule store_okD(2)[OF ok])
  have "index (push_elem (key v) v s) k = Some e' \<longleftrightarrow>
      (\<exists>w. (e', w) \<in> set (el_items (entries (push_elem (key v) v s))) \<and> key w = k)" for k e'
    using store_okD(3)[OF ok, of k e'] i
    by (cases "k = key v") (auto simp: push_elem_def list_push_back_def)
  then show ?thesis
    using ok lt
    by (fastforce simp: store_ok_def push_elem_def list_push_back_def less_Suc_eq)
qed

lemma vals_push [abs_simps]: "vals (push_elem k v s) = vals s @ [v]"
  by (simp add: vals_def push_elem_def list_push_back_def)

lemma push_elem_frame [frame_simps]:
  "ttl (push_elem k v s) = ttl s" "capacity (push_elem k v s) = capacity s"
  by (simp_all add: push_elem_def list_push_back_def)

lemma vals_entries_update: "vals (s\<lparr>entries := l\<rparr>) = map snd (el_items l)"
  by (simp add: vals_def)

lemma store_ok_items_cong:
  assumes ok: "store_ok key s"
    and same: "set (map (\<lambda>(e, v). (e, key v)) its) = set (map (\<lambda>(e, v). (e, key v)) (el_items (entries s)))"
    and d: "distinct (map fst its)"
  shows "store_ok key (s\<lparr>entries := (entries s)\<lparr>el_items := its\<rparr>\<rparr>)"
proof -
  have sub: "(\<exists>v. (e, v) \<in> set its \<and> key v = k) \<longleftrightarrow>
      (\<exists>v. (e, v) \<in> set (el_items (entries s)) \<and> key v = k)" for e k
  proof -
    have "(e, k) \<in> set (map (\<lambda>(e, v). (e, key v)) its) \<longleftrightarrow>
        (e, k) \<in> set (map (\<lambda>(e, v). (e, key v)) (el_items (entries s)))"
      by (simp only: same)
    then show ?thesis by (auto simp: image_iff)
  qed
  have "\<forall>(e, v) \<in> set its. e < el_next (entries s)"
    using sub store_okD(2)[OF ok] by fastforce
  then show ?thesis
    using ok d by (simp add: store_ok_def sub)
qed

lemma store_ok_touch:
  assumes ok: "store_ok key s" and iv: "(e, v) \<in> set (el_items (entries s))"
  shows "store_ok key (touch_elem e s)"
proof -
  have lv: "list_value e (entries s) = Some v"
    using store_okD(1)[OF ok] iv by (simp add: list_value_def)
  have w: "(e, w) \<in> set (el_items (entries s)) \<Longrightarrow> w = v" for w
    using store_okD(1)[OF ok] iv by (simp add: eq_key_imp_eq_value)
  let ?its = "filter (\<lambda>p. fst p \<noteq> e) (el_items (entries s)) @ [(e, v)]"
  have "set (map (\<lambda>(e, v). (e, key v)) ?its) = set (map (\<lambda>(e, v). (e, key v)) (el_items (entries s)))"
  proof -
    have "set ?its = set (el_items (entries s))" by (auto dest: w intro: iv)
    then show ?thesis by (simp only: set_map)
  qed
  moreover have "distinct (map fst ?its)"
    using store_okD(1)[OF ok] by (auto simp: distinct_map_filter_keys)
  ultimately have "store_ok key (s\<lparr>entries := (entries s)\<lparr>el_items := ?its\<rparr>\<rparr>)"
    by (rule store_ok_items_cong[OF ok])
  then show ?thesis by (simp add: touch_elem_def list_move_to_back_def lv)
qed

lemma items_filter_key:
  assumes ok: "store_ok key s" and iv: "(e, v) \<in> set (el_items (entries s))"
  shows "map snd (filter (\<lambda>p. fst p \<noteq> e) (el_items (entries s))) = filter (\<lambda>w. key w \<noteq> key v) (vals s)"
  using vals_drop[OF ok iv] by (simp add: vals_def drop_elem_def list_remove_def)

lemma vals_touch:
  assumes ok: "store_ok key s" and iv: "(e, v) \<in> set (el_items (entries s))"
  shows "vals (touch_elem e s) = filter (\<lambda>w. key w \<noteq> key v) (vals s) @ [v]"
proof -
  have "list_value e (entries s) = Some v"
    using store_okD(1)[OF ok] iv by (simp add: list_value_def)
  then show ?thesis
    using items_filter_key[OF ok iv]
    by (simp add: touch_elem_def list_move_to_back_def vals_entries_update)
qed

text \<open>Updating the value of an element under the same key, as the caches do on an overwrite.\<close>

lemma set_value_touch:
  assumes ok: "store_ok key s" and iv: "(e, v) \<in> set (el_items (entries s))"
    and k: "key w = key v"
  defines "s' \<equiv> s\<lparr>entries := list_set_value e w (entries s)\<rparr>"
  shows "store_ok key s'" and "(e, w) \<in> set (el_items (entries s'))"
    and "vals s' = map (\<lambda>u. if key u = key v then w else u) (vals s)"
proof -
  let ?f = "\<lambda>p. if fst p = e then (e, w) else p"
  have it: "el_items (entries s') = map ?f (el_items (entries s))"
    by (simp add: s'_def list_set_value_def)
  have s': "s' = s\<lparr>entries := (entries s)\<lparr>el_items := map ?f (el_items (entries s))\<rparr>\<rparr>"
    by (simp add: s'_def list_set_value_def)
  have u: "(e, u) \<in> set (el_items (entries s)) \<Longrightarrow> u = v" for u
    using store_okD(1)[OF ok] iv by (simp add: eq_key_imp_eq_value)
  have fst: "map fst (map ?f (el_items (entries s))) = map fst (el_items (entries s))"
    by (auto simp: comp_def)
  have "map (\<lambda>(e, v). (e, key v)) (map ?f (el_items (entries s))) =
      map (\<lambda>(e, v). (e, key v)) (el_items (entries s))"
    using u k by auto
  then show "store_ok key s'"
    unfolding s' using store_okD(1)[OF ok] fst
    by (intro store_ok_items_cong[OF ok]) (simp_all only: )
  show "(e, w) \<in> set (el_items (entries s'))"
    unfolding it using iv by force
  have "key (snd p) = key v \<longleftrightarrow> fst p = e" if "p \<in> set (el_items (entries s))" for p
    using that store_ok_index_item[OF ok, of "fst p" "snd p"] store_ok_index_item[OF ok iv] u
    by (metis option.inject prod.collapse)
  then show "vals s' = map (\<lambda>u. if key u = key v then w else u) (vals s)"
    by (simp add: vals_def it)
qed

lemma refresh_elem_touch:
  "refresh_elem e w s = touch_elem e (s\<lparr>entries := list_set_value e w (entries s)\<rparr>)"
  by (simp add: refresh_elem_def touch_elem_def)

lemma store_ok_refresh:
  assumes ok: "store_ok key s" and iv: "(e, v) \<in> set (el_items (entries s))" and k: "key w = key v"
  shows "store_ok key (refresh_elem e w s)"
  unfolding refresh_elem_touch
  by (rule store_ok_touch[OF set_value_touch(1,2)[OF ok iv k]])

lemma vals_refresh:
  assumes ok: "store_ok key s" and iv: "(e, v) \<in> set (el_items (entries s))" and k: "key w = key v"
  shows "vals (refresh_elem e w s) = filter (\<lambda>u. key u \<noteq> key v) (vals s) @ [w]"
proof -
  have "filter (\<lambda>u. key u \<noteq> key w) (map (\<lambda>u. if key u = key v then w else u) us) =
      filter (\<lambda>u. key u \<noteq> key v) us" for us
    using k by (induction us) auto
  then show ?thesis
    unfolding refresh_elem_touch
      vals_touch[OF set_value_touch(1,2)[OF ok iv k]] set_value_touch(3)[OF ok iv k]
    by simp
qed

lemma refresh_touch_frame [frame_simps]:
  "ttl (touch_elem e s) = ttl s" "capacity (touch_elem e s) = capacity s"
  "ttl (refresh_elem e w s) = ttl s" "capacity (refresh_elem e w s) = capacity s"
  by (simp_all add: touch_elem_def refresh_elem_def)

section \<open>The eviction and the sweep loop\<close>

lemma front_item: "list_front l = Some (e, v) \<Longrightarrow> (e, v) \<in> set (el_items l)"
  by (auto simp: list_front_def split: list.splits)

lemma vals_drop_front:
  assumes ok: "store_ok key s" and f: "list_front (entries s) = Some (e, v)"
  shows "vals s = v # vals (drop_elem e (key v) s)"
proof -
  obtain rest where its: "el_items (entries s) = (e, v) # rest"
    using f by (auto simp: list_front_def split: list.splits)
  have "filter (\<lambda>p. fst p \<noteq> e) (el_items (entries s)) = rest"
    using store_okD(1)[OF ok] filter_neq_hd_distinct[of fst "(e, v)" rest] by (simp add: its)
  then show ?thesis by (simp add: vals_def drop_elem_def list_remove_def its)
qed

lemma front_None: "list_front (entries s) = None \<longleftrightarrow> vals s = []"
  by (auto simp: list_front_def vals_def split: list.splits)

lemma list_len_vals: "list_len (entries s) = length (vals s)"
  by (simp add: list_len_def vals_def)

lemma evict_over_spec:
  assumes "store_ok key s" and "0 \<le> capacity s"
  shows "store_ok key (evict_over key s)
    \<and> vals (evict_over key s) = drop (length (vals s) - nat (capacity s)) (vals s)
    \<and> ttl (evict_over key s) = ttl s \<and> capacity (evict_over key s) = capacity s"
  using assms
proof (induction key s rule: evict_over.induct)
  case (1 key s)
  show ?case
  proof (cases "int (list_len (entries s)) > capacity s")
    case False
    then show ?thesis
      using "1.prems" by (subst (1 2 3 4) evict_over.simps) (simp add: list_len_vals)
  next
    case True
    then have "vals s \<noteq> []" using "1.prems" by (auto simp: list_len_vals)
    then obtain e v where f: "list_front (entries s) = Some (e, v)"
      using front_None[of s] by (cases "list_front (entries s)") auto
    let ?t = "drop_elem e (key v) s"
    have ok: "store_ok key ?t"
      by (rule store_ok_drop[OF "1.prems"(1) front_item[OF f]])
    have IH: "store_ok key (evict_over key ?t)
      \<and> vals (evict_over key ?t) = drop (length (vals ?t) - nat (capacity s)) (vals ?t)
      \<and> ttl (evict_over key ?t) = ttl s \<and> capacity (evict_over key ?t) = capacity s"
      using "1.IH"[OF True f refl ok] "1.prems" by (simp add: frame_simps)
    have eq: "evict_over key s = evict_over key ?t"
      using True f by (subst evict_over.simps) simp
    have v: "vals s = v # vals ?t" by (rule vals_drop_front[OF "1.prems"(1) f])
    have "length (vals s) - nat (capacity s) = Suc (length (vals ?t) - nat (capacity s))"
      using True "1.prems"(2) v by (simp add: list_len_vals)
    then show ?thesis using IH unfolding eq v by simp
  qed
qed

lemma enforce_capacity_spec:
  assumes ok: "store_ok key s"
  shows "store_ok key (enforce_capacity key s)"
    and "vals (enforce_capacity key s) =
      (if capacity s > 0 then drop (length (vals s) - nat (capacity s)) (vals s) else vals s)"
    and "ttl (enforce_capacity key s) = ttl s" and "capacity (enforce_capacity key s) = capacity s"
  using evict_over_spec[OF ok] ok by (auto simp: enforce_capacity_def)

lemma capacity_evict: "capacity (evict_over key s) = capacity s"
  by (induction key s rule: evict_over.induct)
    (subst evict_over.simps, auto simp: frame_simps split: option.splits)

lemma capacity_enforce: "capacity (enforce_capacity key s) = capacity s"
  by (simp add: enforce_capacity_def capacity_evict)

lemma sweep_front_spec:
  assumes "store_ok key s"
  shows "store_ok key (sweep_front key stamp c s)
    \<and> vals (sweep_front key stamp c s) = dropWhile (\<lambda>v. stamp v \<le> c) (vals s)
    \<and> ttl (sweep_front key stamp c s) = ttl s \<and> capacity (sweep_front key stamp c s) = capacity s"
  using assms
proof (induction key stamp c s rule: sweep_front.induct)
  case (1 key stamp c s)
  show ?case
  proof (cases "list_front (entries s)")
    case None
    then have "sweep_front key stamp c s = s" by (subst sweep_front.simps) simp
    then show ?thesis using "1.prems" None front_None[of s] by simp
  next
    case (Some p)
    obtain e v where p: "p = (e, v)" by (cases p)
    note f = Some[unfolded p]
    have v: "vals s = v # vals (drop_elem e (key v) s)" by (rule vals_drop_front[OF "1.prems" f])
    show ?thesis
    proof (cases "stamp v > c")
      case True
      then have "sweep_front key stamp c s = s" using f by (subst sweep_front.simps) simp
      then show ?thesis using "1.prems" True v by simp
    next
      case False
      then have eq: "sweep_front key stamp c s = sweep_front key stamp c (drop_elem e (key v) s)"
        using f by (subst sweep_front.simps) simp
      show ?thesis
        unfolding eq using "1.IH"[OF f refl False store_ok_drop[OF "1.prems" front_item[OF f]]] False
        by (simp add: v frame_simps)
    qed
  qed
qed

section \<open>Keeping an entry\<close>

text \<open>The last \<open>cap\<close> entries of a list, all of them when there is no cap.\<close>

definition newest :: "int \<Rightarrow> 'v list \<Rightarrow> 'v list" where
  "newest cap xs = (if cap > 0 then drop (length xs - nat cap) xs else xs)"

lemma find_entry_drop_None:
  assumes "store_ok key s" and "find_entry k s = Some (e, v)"
  shows "store_ok key (drop_elem e k s)" "find_entry k (drop_elem e k s) = None"
    "vals (drop_elem e k s) = filter (\<lambda>w. key w \<noteq> k) (vals s)"
proof -
  have iv: "(e, v) \<in> set (el_items (entries s))" and k: "key v = k"
    using find_entry_Some[OF assms(1)] assms(2) by auto
  show ok: "store_ok key (drop_elem e k s)" using store_ok_drop[OF assms(1) iv] k by simp
  show v: "vals (drop_elem e k s) = filter (\<lambda>w. key w \<noteq> k) (vals s)"
    using vals_drop[OF assms(1) iv] k by simp
  show "find_entry k (drop_elem e k s) = None"
    using find_entry_None[OF ok] v by simp
qed

text \<open>
  \<open>held v n xs\<close>: the list still holds \<open>v\<close>, with at most \<open>n\<close> newer entries behind it.
\<close>

definition held :: "'v \<Rightarrow> nat \<Rightarrow> 'v list \<Rightarrow> bool" where
  "held v n xs \<longleftrightarrow> (\<exists>ys zs. xs = ys @ v # zs \<and> length zs \<le> n)"

lemma held_mono: "held v n xs \<Longrightarrow> n \<le> m \<Longrightarrow> held v m xs"
  unfolding held_def using le_trans by blast

lemma held_in: "held v n xs \<Longrightarrow> v \<in> set xs"
  by (auto simp: held_def)

lemma held_filter:
  assumes "held v n xs" and "P v"
  shows "held v n (filter P xs)"
proof -
  obtain ys zs where xs: "xs = ys @ v # zs" and l: "length zs \<le> n"
    using assms(1) by (auto simp: held_def)
  have "length (filter P zs) \<le> n" using l length_filter_le le_trans by blast
  moreover have "filter P xs = filter P ys @ v # filter P zs"
    using assms(2) by (simp add: xs)
  ultimately show ?thesis unfolding held_def by blast
qed

lemma held_snoc: "held v n xs \<Longrightarrow> held v (Suc n) (xs @ [e])"
  unfolding held_def by force

lemma held_last: "held v 0 (xs @ [v])"
  unfolding held_def by auto

lemma held_newest:
  assumes "held v n xs" and "cap \<le> 0 \<or> int n < cap"
  shows "held v n (newest cap xs)"
proof -
  obtain ys zs where xs: "xs = ys @ v # zs" and l: "length zs \<le> n"
    using assms(1) by (auto simp: held_def)
  show ?thesis
  proof (cases "cap > 0")
    case True
    with assms(2) have c: "n < nat cap" by linarith
    then have "length xs - nat cap \<le> length ys" using l by (simp add: xs)
    then have "newest cap xs = drop (length xs - nat cap) ys @ v # zs"
      using True by (simp add: newest_def xs)
    then show ?thesis using l unfolding held_def by blast
  qed (use assms in \<open>simp add: newest_def\<close>)
qed

lemma held_dropWhile:
  assumes "held v n xs" and "\<not> P v"
  shows "held v n (dropWhile P xs)"
proof -
  obtain ys zs where xs: "xs = ys @ v # zs" and l: "length zs \<le> n"
    using assms(1) by (auto simp: held_def)
  have "dropWhile P xs = dropWhile P ys @ v # zs"
    using assms(2) unfolding xs by (induction ys) auto
  then show ?thesis using l unfolding held_def by blast
qed

lemma set_newest: "set (newest cap xs) \<subseteq> set xs"
  by (auto simp: newest_def dest: in_set_dropD)

lemma length_newest: "0 < cap \<Longrightarrow> int (length (newest cap xs)) \<le> cap"
  by (simp add: newest_def)

text \<open>
  Looking up a key in the abstract list: with distinct keys the answer depends only on the set of
  entries under that key.
\<close>

lemma find_key_Some:
  assumes "distinct (map key xs)"
  shows "find (\<lambda>v. key v = k \<and> P v) xs = Some v \<longleftrightarrow> v \<in> set xs \<and> key v = k \<and> P v"
  using assms
proof (induction xs)
  case (Cons x xs)
  then show ?case by (auto simp: image_iff)
qed simp

lemma find_key_cong:
  assumes "distinct (map key xs)" and "distinct (map key ys)"
    and "\<And>v. key v = k \<Longrightarrow> (v \<in> set xs \<and> P v) = (v \<in> set ys \<and> Q v)"
  shows "find (\<lambda>v. key v = k \<and> P v) xs = find (\<lambda>v. key v = k \<and> Q v) ys"
proof (cases "find (\<lambda>v. key v = k \<and> Q v) ys")
  case None
  then have "\<And>v. find (\<lambda>v. key v = k \<and> P v) xs \<noteq> Some v"
    unfolding find_key_Some[OF assms(1)] using assms(3) by (auto simp: find_None_iff)
  then show ?thesis using None by (metis option.exhaust)
next
  case (Some v)
  then have "find (\<lambda>v. key v = k \<and> P v) xs = Some v"
    unfolding find_key_Some[OF assms(1)] find_key_Some[OF assms(2)] using assms(3) by blast
  then show ?thesis using Some by simp
qed

lemmas store_loops = enforce_capacity_spec sweep_front_spec[THEN conjunct1]
  sweep_front_spec[THEN conjunct2, THEN conjunct1]

end
