(* ===== verification/Replay_Cache.thy ===== *)
theory Replay_Cache
  imports Ttl_Store
begin

text \<open>
  The signature-replay cache of \<open>internal/webhook/replay_cache.go\<close>: \<open>Seen\<close> (check and record),
  \<open>sweep\<close>, and the interval of the background sweep. The mutex makes every operation atomic, so an
  execution is a sequence of operations, each with the clock reading it took.
\<close>

record replay_entry =
  re_sig :: string
  re_seen :: time

type_synonym replay_cache = "replay_entry ttl_store"

definition NewReplayCache :: "duration \<Rightarrow> int \<Rightarrow> replay_cache" where
  "NewReplayCache t cap = new_store t cap"

definition record_sig :: "time \<Rightarrow> string \<Rightarrow> replay_cache \<Rightarrow> replay_cache" where
  "record_sig now sig r =
     enforce_capacity re_sig (push_elem sig \<lparr>re_sig = sig, re_seen = now\<rparr> r)"

definition Seen :: "time \<Rightarrow> string \<Rightarrow> replay_cache \<Rightarrow> bool \<times> replay_cache" where
  "Seen now sig r =
     (if sig = [] then (False, r)
      else case find_entry sig r of
             Some (el, entry) \<Rightarrow>
               if ttl r \<le> 0 \<or> now - re_seen entry \<le> ttl r then (True, r)
               else (False, record_sig now sig (drop_elem el sig r))
           | None \<Rightarrow> (False, record_sig now sig r))"

definition replay_sweep :: "time \<Rightarrow> replay_cache \<Rightarrow> replay_cache" where
  "replay_sweep now r =
     (if ttl r \<le> 0 then r else sweep_front re_sig re_seen (now - ttl r) r)"

text \<open>\<open>defaultSweepInterval\<close>: \<open>ttl / 2\<close> capped at a minute.\<close>

definition defaultSweepInterval :: "duration \<Rightarrow> duration" where
  "defaultSweepInterval t =
     (if t \<le> 0 then 60 * second
      else let half = t div 2 in if half < 60 * second then half else 60 * second)"

datatype replay_op = RSeen time string | RSweep time

fun replay_step :: "replay_op \<Rightarrow> replay_cache \<Rightarrow> replay_cache" where
  "replay_step (RSeen t sig) r = snd (Seen t sig r)"
| "replay_step (RSweep t) r = replay_sweep t r"

fun replay_time :: "replay_op \<Rightarrow> time" where
  "replay_time (RSeen t sig) = t"
| "replay_time (RSweep t) = t"

fun is_seen :: "replay_op \<Rightarrow> bool" where
  "is_seen (RSeen t sig) = True"
| "is_seen (RSweep t) = False"

definition replay_run :: "replay_op list \<Rightarrow> replay_cache \<Rightarrow> replay_cache" where
  "replay_run ops r = fold replay_step ops r"

section \<open>Reference: the cache as a list of entries\<close>

definition is_hit :: "duration \<Rightarrow> time \<Rightarrow> string \<Rightarrow> replay_entry \<Rightarrow> bool" where
  "is_hit t now sig e \<longleftrightarrow> re_sig e = sig \<and> (t \<le> 0 \<or> now - re_seen e \<le> t)"

definition seen_ref ::
  "duration \<Rightarrow> int \<Rightarrow> time \<Rightarrow> string \<Rightarrow> replay_entry list \<Rightarrow> bool \<times> replay_entry list" where
  "seen_ref t cap now sig xs =
     (if sig = [] then (False, xs)
      else if \<exists>e \<in> set xs. is_hit t now sig e then (True, xs)
      else (False, newest cap (filter (\<lambda>e. re_sig e \<noteq> sig) xs @ [\<lparr>re_sig = sig, re_seen = now\<rparr>])))"

abbreviation replay_ok :: "replay_cache \<Rightarrow> bool" where
  "replay_ok \<equiv> store_ok re_sig"

lemma vals_record_sig:
  assumes "replay_ok r" and "find_entry sig r = None"
  shows "replay_ok (record_sig now sig r)"
    and "vals (record_sig now sig r) = newest (capacity r) (vals r @ [\<lparr>re_sig = sig, re_seen = now\<rparr>])"
    and "ttl (record_sig now sig r) = ttl r" and "capacity (record_sig now sig r) = capacity r"
proof -
  have "replay_ok (push_elem sig \<lparr>re_sig = sig, re_seen = now\<rparr> r)"
    using store_ok_push[OF assms(1), of "\<lparr>re_sig = sig, re_seen = now\<rparr>"] assms(2) by simp
  note * = enforce_capacity_spec[OF this, folded record_sig_def]
  show "replay_ok (record_sig now sig r)"
    and "vals (record_sig now sig r) = newest (capacity r) (vals r @ [\<lparr>re_sig = sig, re_seen = now\<rparr>])"
    and "ttl (record_sig now sig r) = ttl r" and "capacity (record_sig now sig r) = capacity r"
    using * by (simp_all add: newest_def abs_simps frame_simps)
qed

text \<open>The pointer structure implements the list: results and abstraction agree on every branch.\<close>

lemma Seen_refines:
  assumes ok: "replay_ok r"
  shows "replay_ok (snd (Seen now sig r))"
    and "(fst (Seen now sig r), vals (snd (Seen now sig r))) = seen_ref (ttl r) (capacity r) now sig (vals r)"
    and "ttl (snd (Seen now sig r)) = ttl r" and "capacity (snd (Seen now sig r)) = capacity r"
proof -
  have *: "replay_ok (snd (Seen now sig r)) \<and>
      (fst (Seen now sig r), vals (snd (Seen now sig r))) = seen_ref (ttl r) (capacity r) now sig (vals r) \<and>
      ttl (snd (Seen now sig r)) = ttl r \<and> capacity (snd (Seen now sig r)) = capacity r"
  proof (cases "sig = [] \<or> find_entry sig r = None")
    case True
    then show ?thesis
    proof
      assume n: "find_entry sig r = None"
      then have "\<forall>e \<in> set (vals r). re_sig e \<noteq> sig" using find_entry_None[OF ok] by blast
      then have "filter (\<lambda>e. re_sig e \<noteq> sig) (vals r) = vals r" "\<not> (\<exists>e \<in> set (vals r). is_hit (ttl r) now sig e)"
        by (auto simp: is_hit_def filter_id_conv)
      then show ?thesis
        using vals_record_sig[OF ok n] ok n by (simp add: Seen_def seen_ref_def)
    qed (simp add: Seen_def seen_ref_def ok)
  next
    case False
    then obtain e v where f: "find_entry sig r = Some (e, v)" and ne: "sig \<noteq> []"
      by (cases "find_entry sig r") auto
    have v: "v \<in> set (vals r)" "re_sig v = sig"
      using find_entry_Some[OF ok, of sig e v] f by (force simp: vals_def)+
    have hit: "(\<exists>e \<in> set (vals r). is_hit (ttl r) now sig e) \<longleftrightarrow> ttl r \<le> 0 \<or> now - re_seen v \<le> ttl r"
      using v distinct_key_eq[OF store_ok_distinct_keys[OF ok]] by (auto simp: is_hit_def)
    note d = find_entry_drop_None[OF ok f]
    show ?thesis
    proof (cases "ttl r \<le> 0 \<or> now - re_seen v \<le> ttl r")
      case True
      then show ?thesis using ok f ne hit by (simp add: Seen_def seen_ref_def)
    next
      case miss: False
      have S: "Seen now sig r = (False, record_sig now sig (drop_elem e sig r))"
        using f ne miss by (simp add: Seen_def)
      have "seen_ref (ttl r) (capacity r) now sig (vals r) =
          (False, newest (capacity r) (filter (\<lambda>e. re_sig e \<noteq> sig) (vals r) @ [\<lparr>re_sig = sig, re_seen = now\<rparr>]))"
        using ne miss hit by (simp add: seen_ref_def)
      then show ?thesis
        using vals_record_sig[OF d(1,2), of now] by (simp add: S d(3) frame_simps)
    qed
  qed
  show "replay_ok (snd (Seen now sig r))"
    and "(fst (Seen now sig r), vals (snd (Seen now sig r))) = seen_ref (ttl r) (capacity r) now sig (vals r)"
    and "ttl (snd (Seen now sig r)) = ttl r" and "capacity (snd (Seen now sig r)) = capacity r"
    using * by simp_all
qed

lemma replay_sweep_spec:
  assumes "replay_ok r"
  shows "replay_ok (replay_sweep now r)"
    and "vals (replay_sweep now r) =
      (if ttl r \<le> 0 then vals r else dropWhile (\<lambda>e. re_seen e \<le> now - ttl r) (vals r))"
    and "ttl (replay_sweep now r) = ttl r" and "capacity (replay_sweep now r) = capacity r"
  using assms sweep_front_spec[OF assms] by (auto simp: replay_sweep_def)

lemma replay_step_spec:
  assumes "replay_ok r"
  shows "replay_ok (replay_step op r)" "ttl (replay_step op r) = ttl r" "capacity (replay_step op r) = capacity r"
  using assms Seen_refines replay_sweep_spec by (cases op; simp)+

lemma replay_run_ok:
  assumes "replay_ok r"
  shows "replay_ok (replay_run ops r) \<and> ttl (replay_run ops r) = ttl r \<and> capacity (replay_run ops r) = capacity r"
  using assms unfolding replay_run_def
  by (induction ops arbitrary: r) (simp_all add: replay_step_spec)

section \<open>Replay protection over a history\<close>

text \<open>
  Every operation keeps the entry of a signature in the list (\<open>held\<close>) while the entry is younger
  than the TTL and the newer entries leave it a slot.
\<close>

lemma held_step:
  assumes ok: "replay_ok r" and h: "held \<lparr>re_sig = sig, re_seen = t0\<rparr> n (vals r)"
    and t: "ttl r \<le> 0 \<or> replay_time op - t0 < ttl r"
    and c: "capacity r \<le> 0 \<or> int (if is_seen op then Suc n else n) < capacity r"
  shows "held \<lparr>re_sig = sig, re_seen = t0\<rparr> (if is_seen op then Suc n else n) (vals (replay_step op r))"
proof (cases op)
  case (RSweep u)
  then show ?thesis
    using h t held_dropWhile[OF h, of "\<lambda>e. re_seen e \<le> u - ttl r"] by (auto simp: replay_sweep_spec[OF ok])
next
  case (RSeen u sig')
  have v: "vals (replay_step op r) = snd (seen_ref (ttl r) (capacity r) u sig' (vals r))"
    using Seen_refines(2)[OF ok, of u sig'] RSeen by (simp add: prod_eq_iff)
  show ?thesis
  proof (cases "sig' = [] \<or> (\<exists>e \<in> set (vals r). is_hit (ttl r) u sig' e)")
    case True
    then have "vals (replay_step op r) = vals r" unfolding v seen_ref_def by auto
    then have "held \<lparr>re_sig = sig, re_seen = t0\<rparr> (Suc n) (vals (replay_step op r))" using held_mono[OF h, of "Suc n"] by simp
    then show ?thesis using RSeen by simp
  next
    case False
    have "sig' \<noteq> sig"
      using False held_in[OF h] t RSeen by (auto simp: is_hit_def)
    then have "held \<lparr>re_sig = sig, re_seen = t0\<rparr> (Suc n) (filter (\<lambda>e. re_sig e \<noteq> sig') (vals r) @ [\<lparr>re_sig = sig', re_seen = u\<rparr>])"
      by (intro held_snoc held_filter h) auto
    moreover have "capacity r \<le> 0 \<or> int (Suc n) < capacity r" using c RSeen by simp
    moreover have "vals (replay_step op r) =
        newest (capacity r) (filter (\<lambda>e. re_sig e \<noteq> sig') (vals r) @ [\<lparr>re_sig = sig', re_seen = u\<rparr>])"
      using False unfolding v seen_ref_def by simp
    ultimately have "held \<lparr>re_sig = sig, re_seen = t0\<rparr> (Suc n) (vals (replay_step op r))"
      using held_newest by metis
    then show ?thesis using RSeen by simp
  qed
qed

lemma held_run:
  assumes "replay_ok r" and "held \<lparr>re_sig = sig, re_seen = t0\<rparr> n (vals r)"
    and "ttl r \<le> 0 \<or> (\<forall>op \<in> set ops. replay_time op - t0 < ttl r)"
    and "capacity r \<le> 0 \<or> int (n + length (filter is_seen ops)) < capacity r"
  shows "held \<lparr>re_sig = sig, re_seen = t0\<rparr> (n + length (filter is_seen ops)) (vals (replay_run ops r))"
  using assms
proof (induction ops arbitrary: r n)
  case Nil
  then show ?case by (simp add: replay_run_def)
next
  case (Cons op ops)
  let ?m = "if is_seen op then Suc n else n"
  have h: "held \<lparr>re_sig = sig, re_seen = t0\<rparr> ?m (vals (replay_step op r))"
    using Cons.prems by (intro held_step) (auto split: if_splits)
  have "held \<lparr>re_sig = sig, re_seen = t0\<rparr> (?m + length (filter is_seen ops)) (vals (replay_run ops (replay_step op r)))"
    using Cons.prems replay_step_spec[OF Cons.prems(1), of op]
    by (intro Cons.IH h) (auto split: if_splits)
  then show ?case by (cases "is_seen op") (simp_all add: replay_run_def)
qed

lemma held_hit:
  assumes ok: "replay_ok r" and h: "held \<lparr>re_sig = sig, re_seen = t0\<rparr> n (vals r)" and ne: "sig \<noteq> []"
    and t: "ttl r \<le> 0 \<or> t - t0 \<le> ttl r"
  shows "Seen t sig r = (True, r)"
proof -
  obtain e v where f: "find_entry sig r = Some (e, v)"
    using find_entry_None[OF ok, of sig] held_in[OF h]
    by (cases "find_entry sig r") force+
  then have "v \<in> set (vals r)" "re_sig v = sig"
    using find_entry_Some[OF ok, of sig e v] by (force simp: vals_def)+
  then have "v = \<lparr>re_sig = sig, re_seen = t0\<rparr>"
    using held_in[OF h] distinct_key_eq[OF store_ok_distinct_keys[OF ok]] by force
  then show ?thesis using f ne t by (simp add: Seen_def)
qed

lemma Seen_fresh_held:
  assumes ok: "replay_ok r" and fresh: "Seen t0 sig r = (False, r')" and ne: "sig \<noteq> []"
  shows "held \<lparr>re_sig = sig, re_seen = t0\<rparr> 0 (vals r')"
proof -
  have ref: "(False, vals r') = seen_ref (ttl r) (capacity r) t0 sig (vals r)"
    using Seen_refines(2)[OF ok, of t0 sig] fresh by simp
  have "held \<lparr>re_sig = sig, re_seen = t0\<rparr> 0 (filter (\<lambda>e. re_sig e \<noteq> sig) (vals r) @ [\<lparr>re_sig = sig, re_seen = t0\<rparr>])"
    by (auto simp: held_def)
  then have "held \<lparr>re_sig = sig, re_seen = t0\<rparr> 0 (newest (capacity r)
      (filter (\<lambda>e. re_sig e \<noteq> sig) (vals r) @ [\<lparr>re_sig = sig, re_seen = t0\<rparr>]))"
    by (rule held_newest) linarith
  then show ?thesis using ref ne by (auto simp: seen_ref_def split: if_splits)
qed

section \<open>Reachable caches\<close>

lemma replay_ok_new [ok_intros]: "replay_ok (NewReplayCache t cap)"
  by (simp add: NewReplayCache_def ok_intros)

lemma replay_new_fields [simp]:
  "ttl (NewReplayCache t cap) = t" "capacity (NewReplayCache t cap) = cap"
  "vals (NewReplayCache t cap) = []"
  by (simp_all add: NewReplayCache_def new_store_def vals_def list_new_def)

lemma replay_run_new:
  "replay_ok (replay_run ops (NewReplayCache t cap))"
  "ttl (replay_run ops (NewReplayCache t cap)) = t"
  "capacity (replay_run ops (NewReplayCache t cap)) = cap"
  using replay_run_ok[OF replay_ok_new, of ops t cap] by simp_all

lemma replay_run_snoc: "replay_run (ops @ [op]) r = replay_step op (replay_run ops r)"
  by (simp add: replay_run_def)

lemma vals_replay_seen:
  assumes "replay_ok r"
  shows "vals (replay_step (RSeen t sig) r) = snd (seen_ref (ttl r) (capacity r) t sig (vals r))"
  using Seen_refines(2)[OF assms, of t sig] by (simp add: prod_eq_iff)

lemma replay_entries_recorded:
  "e \<in> set (vals (replay_run ops (NewReplayCache t cap))) \<Longrightarrow> RSeen (re_seen e) (re_sig e) \<in> set ops"
proof (induction ops rule: rev_induct)
  case Nil
  then show ?case by (simp add: replay_run_def)
next
  case (snoc op ops)
  let ?r = "replay_run ops (NewReplayCache t cap)"
  note ok = replay_run_new(1)[of ops t cap]
  have e: "e \<in> set (vals (replay_step op ?r))" using snoc.prems by (simp add: replay_run_snoc)
  show ?case
  proof (cases op)
    case (RSeen u sig)
    have "e \<in> set (vals ?r) \<or> e = \<lparr>re_sig = sig, re_seen = u\<rparr>"
      using e set_newest unfolding RSeen vals_replay_seen[OF ok]
      by (fastforce simp: seen_ref_def split: if_splits)
    then show ?thesis using snoc.IH RSeen by auto
  next
    case (RSweep u)
    then have "e \<in> set (vals ?r)"
      using e by (auto simp: replay_sweep_spec[OF ok] split: if_splits dest: set_dropWhileD)
    then show ?thesis using snoc.IH by simp
  qed
qed

lemma replay_run_capacity:
  assumes "0 < cap"
  shows "int (length (vals (replay_run ops (NewReplayCache t cap)))) \<le> cap"
proof (induction ops rule: rev_induct)
  case Nil
  then show ?case using assms by (simp add: replay_run_def)
next
  case (snoc op ops)
  let ?r = "replay_run ops (NewReplayCache t cap)"
  note ok = replay_run_new(1)[of ops t cap]
  show ?case
  proof (cases op)
    case (RSeen u sig)
    have "vals (replay_step op ?r) = vals ?r \<or> (\<exists>xs. vals (replay_step op ?r) = newest cap xs)"
      unfolding RSeen vals_replay_seen[OF ok] by (auto simp: seen_ref_def replay_run_new(3))
    then show ?thesis using snoc.IH length_newest[OF assms] unfolding replay_run_snoc by metis
  next
    case (RSweep u)
    have "length (vals (replay_sweep u ?r)) \<le> length (vals ?r)"
      by (simp add: replay_sweep_spec(2)[OF ok] length_dropWhile_le)
    then show ?thesis
      using snoc.IH RSweep unfolding replay_run_snoc by simp
  qed
qed

text \<open>With a clock that does not run backwards the list is in the order of first sight.\<close>

abbreviation seen_sorted :: "replay_entry list \<Rightarrow> bool" where
  "seen_sorted \<equiv> sorted_wrt (\<lambda>x y. re_seen x \<le> re_seen y)"

lemma seen_sorted_newest: "seen_sorted xs \<Longrightarrow> seen_sorted (newest cap xs)"
  by (auto simp: newest_def intro: sorted_wrt_drop)

lemma seen_sorted_dropWhile: "seen_sorted xs \<Longrightarrow> seen_sorted (dropWhile P xs)"
  by (induction xs) auto

lemma replay_run_sorted:
  "sorted (map replay_time ops) \<Longrightarrow> seen_sorted (vals (replay_run ops (NewReplayCache t cap)))"
proof (induction ops rule: rev_induct)
  case Nil
  then show ?case by (simp add: replay_run_def)
next
  case (snoc op ops)
  let ?r = "replay_run ops (NewReplayCache t cap)"
  note ok = replay_run_new(1)[of ops t cap]
  have IH: "seen_sorted (vals ?r)" using snoc by (simp add: sorted_append)
  show ?case
  proof (cases op)
    case (RSeen u sig)
    have "\<forall>e \<in> set (vals ?r). re_seen e \<le> u"
      using replay_entries_recorded snoc.prems RSeen by (fastforce simp: sorted_append)
    then have "seen_sorted (filter (\<lambda>e. re_sig e \<noteq> sig) (vals ?r) @ [\<lparr>re_sig = sig, re_seen = u\<rparr>])"
      by (auto simp: sorted_wrt_append IH sorted_wrt_filter_keys)
    then show ?thesis
      using IH seen_sorted_newest unfolding replay_run_snoc RSeen vals_replay_seen[OF ok]
      by (auto simp: seen_ref_def)
  next
    case (RSweep u)
    then show ?thesis
      using IH seen_sorted_dropWhile unfolding replay_run_snoc by (simp add: replay_sweep_spec[OF ok])
  qed
qed

lemma seen_stays:
  assumes "replay_ok q" and "Seen t0 sig q = (False, r)" and "sig \<noteq> []"
    and "ttl q \<le> 0 \<or> (\<forall>op \<in> set between. replay_time op - t0 < ttl q)"
    and "capacity q \<le> 0 \<or> int (length (filter is_seen between)) < capacity q"
    and "ttl q \<le> 0 \<or> now - t0 \<le> ttl q"
  shows "Seen now sig (replay_run between r) = (True, replay_run between r)"
proof -
  have r: "r = snd (Seen t0 sig q)" using assms(2) by simp
  note spec = Seen_refines(1,3,4)[OF assms(1), of t0 sig, folded r]
  have "held \<lparr>re_sig = sig, re_seen = t0\<rparr> 0 (vals r)" by (rule Seen_fresh_held[OF assms(1-3)])
  then have "held \<lparr>re_sig = sig, re_seen = t0\<rparr> (0 + length (filter is_seen between)) (vals (replay_run between r))"
    using assms spec by (intro held_run) simp_all
  then show ?thesis
    using replay_run_ok[OF spec(1), of between] spec assms(3,6) by (intro held_hit) auto
qed

section \<open>What the cache promises\<close>

text \<open>
  C2. The replay window. When \<open>Seen\<close> answers that a signature is new, every later \<open>Seen\<close> of the same
  signature within the TTL answers that it is a replay: whatever sequence of \<open>Seen\<close> calls and sweeps
  ran before, and whatever sequence runs in between, as long as these are younger than the TTL
  and fewer than \<open>capacity\<close> of them can record a signature. With \<open>ttl <= 0\<close> there is no time bound,
  with \<open>capacity <= 0\<close> no bound on the number.
\<close>

theorem replay_window:
  assumes "Seen t0 sig (replay_run before (NewReplayCache t cap)) = (False, r)" and "sig \<noteq> []"
    and "t \<le> 0 \<or> (\<forall>op \<in> set between. replay_time op - t0 < t)"
    and "cap \<le> 0 \<or> int (length (filter is_seen between)) < cap"
    and "t \<le> 0 \<or> now - t0 \<le> t"
  shows "Seen now sig (replay_run between r) = (True, replay_run between r)"
proof -
  note q = replay_run_new[of before t cap]
  show ?thesis using assms by (intro seen_stays[OF q(1)]) (simp_all add: q)
qed

theorem replay_window_witness:
  "fst (Seen 7 ''ab'' (replay_run [RSeen 2 ''cd'', RSweep 6] (snd (Seen 1 ''ab'' (NewReplayCache 6 2)))))"
  using replay_window[of 1 "''ab''" "[]" 6 2 _ "[RSeen 2 ''cd'', RSweep 6]" 7]
  by (simp add: replay_run_def) (simp add: Seen_def find_entry_def NewReplayCache_def new_store_def)

text \<open>
  No false alarms: \<open>Seen\<close> reports a replay only for a signature that an earlier \<open>Seen\<close> of the same
  history really recorded, not longer than the TTL ago.
\<close>

theorem replay_sound:
  assumes "fst (Seen now sig (replay_run ops (NewReplayCache t cap)))"
  shows "\<exists>t0. RSeen t0 sig \<in> set ops \<and> (t \<le> 0 \<or> now - t0 \<le> t)"
proof -
  let ?r = "replay_run ops (NewReplayCache t cap)"
  note r = replay_run_new[of ops t cap]
  have "fst (seen_ref t cap now sig (vals ?r))"
    using assms Seen_refines(2)[OF r(1), of now sig] r(2,3) by (metis fst_conv)
  then obtain e where "e \<in> set (vals ?r)" "is_hit t now sig e"
    by (auto simp: seen_ref_def split: if_splits)
  then have "RSeen (re_seen e) sig \<in> set ops \<and> (t \<le> 0 \<or> now - re_seen e \<le> t)"
    using replay_entries_recorded[of e ops t cap] by (auto simp: is_hit_def)
  then show ?thesis by blast
qed

theorem replay_sound_witness:
  "\<exists>t0. RSeen t0 ''ab'' \<in> set [RSeen 1 ''ab''] \<and> ((6::int) \<le> 0 \<or> 7 - t0 \<le> 6)"
  by (rule replay_sound[of 7 "''ab''" "[RSeen 1 ''ab'']" 6 2]) code_simp

text \<open>
  The sweep of a cache whose clock does not run backwards removes exactly the expired entries
  although it stops at the first young one, and it removes them from the index too; the
  cache never holds more than \<open>capacity\<close> entries, and the index has exactly the signatures of the list.
\<close>

theorem replay_sweep_exact:
  fixes cap :: int
  assumes "sorted (map replay_time ops)" and "0 < t"
  defines "r \<equiv> replay_run ops (NewReplayCache t cap)"
  shows "vals (replay_sweep now r) = filter (\<lambda>e. now - re_seen e < t) (vals r)
    \<and> dom (index (replay_sweep now r)) = re_sig ` {e \<in> set (vals r). now - re_seen e < t}
    \<and> (0 < cap \<longrightarrow> int (length (vals r)) \<le> cap)"
proof -
  note r = replay_run_new[of ops t cap, folded r_def]
  have "vals (replay_sweep now r) = dropWhile (\<lambda>e. re_seen e \<le> now - t) (vals r)"
    using replay_sweep_spec(2)[OF r(1)] r(2) assms(2) by simp
  also have "\<dots> = filter (\<lambda>e. \<not> re_seen e \<le> now - t) (vals r)"
    using replay_run_sorted[OF assms(1), of t cap] by (simp add: dropWhile_eq_filter_sorted r_def)
  finally have v: "vals (replay_sweep now r) = filter (\<lambda>e. now - re_seen e < t) (vals r)"
    by (simp add: not_le algebra_simps)
  have "dom (index (replay_sweep now r)) = re_sig ` set (vals (replay_sweep now r))"
    by (rule store_ok_dom[OF replay_sweep_spec(1)[OF r(1)]])
  moreover have "0 < cap \<Longrightarrow> int (length (vals r)) \<le> cap"
    using replay_run_capacity r_def by blast
  ultimately show ?thesis using v by simp
qed

theorem replay_sweep_exact_witness:
  "vals (replay_sweep 8 (replay_run [RSeen 1 ''ab'', RSeen 4 ''cd''] (NewReplayCache 6 2)))
     = [\<lparr>re_sig = ''cd'', re_seen = 4\<rparr>]"
proof -
  let ?r = "replay_run [RSeen 1 ''ab'', RSeen 4 ''cd''] (NewReplayCache 6 2)"
  have "vals (replay_sweep 8 ?r) = filter (\<lambda>e. 8 - re_seen e < 6) (vals ?r)"
    using replay_sweep_exact[of "[RSeen 1 ''ab'', RSeen 4 ''cd'']" 6 8 2] by simp
  also have "\<dots> = [\<lparr>re_sig = ''cd'', re_seen = 4\<rparr>]" by code_simp
  finally show ?thesis .
qed

end
