(* ===== verification/Cache_Interface.thy ===== *)
theory Cache_Interface
  imports Runner_Prelude
begin

text \<open>
  The contract of a key-value cache whose entries expire and may be evicted, as its clients see
  it: \<open>live t s k\<close> is the value a lookup at time \<open>t\<close> may return, \<open>tick\<close> is whatever the cache does
  in the background (the sweep goroutine), which may only forget. The \<open>/message\<close> handler relies on
  this contract of the dedup cache, \<open>buildExtraHosts\<close> relies on it of the DNS cache. What a client
  needs is proved once here: a lookup returns the value put last under exactly this key, whatever
  mix of lookups and insertions came before.
\<close>

datatype ('k, 'v) kv_op = KGet time 'k | KPut time 'k 'v | KTick time

fun op_time :: "('k, 'v) kv_op \<Rightarrow> time" where
  "op_time (KGet t k) = t"
| "op_time (KPut t k v) = t"
| "op_time (KTick t) = t"

fun is_put :: "('k, 'v) kv_op \<Rightarrow> bool" where
  "is_put (KPut t k v) = True"
| "is_put _ = False"

fun kv_step :: "(time \<Rightarrow> 'k \<Rightarrow> 's \<Rightarrow> 'v option \<times> 's) \<Rightarrow> (time \<Rightarrow> 'k \<Rightarrow> 'v \<Rightarrow> 's \<Rightarrow> 's)
    \<Rightarrow> (time \<Rightarrow> 's \<Rightarrow> 's) \<Rightarrow> ('k, 'v) kv_op \<Rightarrow> 's \<Rightarrow> 's" where
  "kv_step get put tick (KGet t k) s = snd (get t k s)"
| "kv_step get put tick (KPut t k v) s = put t k v s"
| "kv_step get put tick (KTick t) s = tick t s"

definition kv_run :: "(time \<Rightarrow> 'k \<Rightarrow> 's \<Rightarrow> 'v option \<times> 's) \<Rightarrow> (time \<Rightarrow> 'k \<Rightarrow> 'v \<Rightarrow> 's \<Rightarrow> 's)
    \<Rightarrow> (time \<Rightarrow> 's \<Rightarrow> 's) \<Rightarrow> ('k, 'v) kv_op list \<Rightarrow> 's \<Rightarrow> 's" where
  "kv_run get put tick ops s = fold (kv_step get put tick) ops s"

text \<open>The value of the last insertion under \<open>k\<close> in a history.\<close>

fun latest_put :: "'k \<Rightarrow> ('k, 'v) kv_op list \<Rightarrow> 'v option" where
  "latest_put k [] = None"
| "latest_put k (KGet t j # ops) = latest_put k ops"
| "latest_put k (KTick t # ops) = latest_put k ops"
| "latest_put k (KPut t j v # ops) =
     (case latest_put k ops of None \<Rightarrow> (if j = k then Some v else None) | Some w \<Rightarrow> Some w)"

lemma latest_put_append [simp]:
  "latest_put k (xs @ ys) = (case latest_put k ys of None \<Rightarrow> latest_put k xs | Some w \<Rightarrow> Some w)"
  by (induction xs rule: latest_put.induct) (auto split: option.splits)

locale ttl_kv =
  fixes get :: "time \<Rightarrow> 'k \<Rightarrow> 's \<Rightarrow> 'v option \<times> 's"
    and put :: "time \<Rightarrow> 'k \<Rightarrow> 'v \<Rightarrow> 's \<Rightarrow> 's"
    and tick :: "time \<Rightarrow> 's \<Rightarrow> 's"
    and live :: "time \<Rightarrow> 's \<Rightarrow> 'k \<Rightarrow> 'v option"
    and ok :: "'s \<Rightarrow> bool"
  assumes get_live: "ok s \<Longrightarrow> fst (get t k s) = live t s k"
    and get_ok: "ok s \<Longrightarrow> ok (snd (get t k s))"
    and get_frame: "ok s \<Longrightarrow> t \<le> t' \<Longrightarrow> live t' (snd (get t k s)) j = live t' s j"
    and put_ok: "ok s \<Longrightarrow> ok (put t k v s)"
    and put_same: "ok s \<Longrightarrow> live t (put t k v s) k = Some v"
    and put_other: "ok s \<Longrightarrow> t \<le> t' \<Longrightarrow> j \<noteq> k \<Longrightarrow> live t' (put t k v s) j = Some w \<Longrightarrow> live t' s j = Some w"
    and tick_ok: "ok s \<Longrightarrow> ok (tick t s)"
    and tick_forgets: "ok s \<Longrightarrow> live t' (tick t s) j = Some w \<Longrightarrow> live t' s j = Some w"
    and live_antimono: "ok s \<Longrightarrow> t \<le> t' \<Longrightarrow> live t' s k = Some v \<Longrightarrow> live t s k = Some v"
begin

lemma get_put: "ok s \<Longrightarrow> fst (get t k (put t k v s)) = Some v"
  by (simp add: get_live put_ok put_same)

lemma put_later:
  "ok s \<Longrightarrow> t \<le> t' \<Longrightarrow> live t' (put t k v s) k = Some w \<Longrightarrow> w = v"
  using live_antimono[OF put_ok] put_same by (metis option.inject)

lemma step_ok: "ok s \<Longrightarrow> ok (kv_step get put tick op s)"
  by (cases op) (auto simp: get_ok put_ok tick_ok)

lemma run_ok: "ok s \<Longrightarrow> ok (kv_run get put tick ops s)"
  unfolding kv_run_def by (induction ops arbitrary: s) (auto simp: step_ok)

lemma run_latest:
  assumes "ok s" and "\<And>t k. live t s k = None"
    and "\<forall>op \<in> set ops. op_time op \<le> t"
    and "live t (kv_run get put tick ops s) k = Some v"
  shows "latest_put k ops = Some v"
  using assms(3,4)
proof (induction ops rule: rev_induct)
  case Nil
  then show ?case using assms(2) by (simp add: kv_run_def)
next
  case (snoc op ops)
  let ?s = "kv_run get put tick ops s"
  have ok: "ok ?s" by (rule run_ok[OF assms(1)])
  have run: "kv_run get put tick (ops @ [op]) s = kv_step get put tick op ?s"
    by (simp add: kv_run_def)
  have t: "op_time op \<le> t" and IH: "live t ?s k = Some v \<Longrightarrow> latest_put k ops = Some v"
    using snoc by auto
  show ?case
  proof (cases op)
    case (KGet u j)
    then show ?thesis using snoc.prems(2) IH t run get_frame[OF ok] by simp
  next
    case (KTick u)
    then show ?thesis using snoc.prems(2) IH run tick_forgets[OF ok] by simp
  next
    case (KPut u j w)
    show ?thesis
    proof (cases "j = k")
      case True
      then show ?thesis using snoc.prems(2) KPut t run put_later[OF ok] by fastforce
    next
      case False
      then have "live t ?s k = Some v"
        using snoc.prems(2) KPut t run put_other[OF ok, of u t k j w v] by simp
      then show ?thesis using IH KPut False by simp
    qed
  qed
qed

lemma get_latest:
  assumes "ok s" and "\<And>t k. live t s k = None" and "\<forall>op \<in> set ops. op_time op \<le> t"
    and "fst (get t k (kv_run get put tick ops s)) = Some v"
  shows "latest_put k ops = Some v"
  using run_latest[OF assms(1-3)] assms(4) get_live[OF run_ok[OF assms(1)]] by simp

end

end
