(* ===== verification/Dedup_Cache.thy ===== *)
theory Dedup_Cache
  imports Ttl_Store Cache_Interface
begin

text \<open>
  The message-acknowledgement cache of \<open>internal/webhook/message_dedup_cache.go\<close>: card and chat
  acknowledgements share one store, keyed by composed strings. Unlike the replay cache an overwrite
  refreshes the entry's timestamp and moves it to the back, and an overwrite never evicts.
  \<open>getByKey\<close>/\<open>putByKey\<close>/\<open>sweep\<close> interpret the cache contract of \<open>Cache_Interface\<close>.
\<close>

record cached_ack =
  ack_status :: int
  ack_body :: bytes

record dedup_entry =
  de_key :: string
  de_stored :: time
  de_ack :: cached_ack

type_synonym dedup_cache = "dedup_entry ttl_store"

definition NewMessageDedupCache :: "duration \<Rightarrow> int \<Rightarrow> dedup_cache" where
  "NewMessageDedupCache t cap = new_store t cap"

definition defaultDedupSweepInterval :: "duration \<Rightarrow> duration" where
  "defaultDedupSweepInterval t =
     (if t \<le> 0 then 60 * second
      else let half = t div 2 in if half < 60 * second then half else 60 * second)"

abbreviation NUL :: char where "NUL \<equiv> CHR 0x00"

definition chatDedupSentinel :: string where
  "chatDedupSentinel = NUL # ''chat''"

definition messageDedupKey :: "string \<Rightarrow> string \<Rightarrow> string \<Rightarrow> string" where
  "messageDedupKey project cardID messageID = project @ NUL # cardID @ NUL # messageID"

definition chatDedupKey :: "string \<Rightarrow> string \<Rightarrow> string" where
  "chatDedupKey sessionID messageID = chatDedupSentinel @ NUL # sessionID @ NUL # messageID"

definition getByKey :: "time \<Rightarrow> string \<Rightarrow> dedup_cache \<Rightarrow> cached_ack option \<times> dedup_cache" where
  "getByKey now key c =
     (case find_entry key c of
        None \<Rightarrow> (None, c)
      | Some (el, entry) \<Rightarrow>
          if ttl c > 0 \<and> now - de_stored entry > ttl c then (None, drop_elem el key c)
          else (Some (de_ack entry), c))"

definition putByKey :: "time \<Rightarrow> string \<Rightarrow> cached_ack \<Rightarrow> dedup_cache \<Rightarrow> dedup_cache" where
  "putByKey now key ack c =
     (case find_entry key c of
        Some (el, entry) \<Rightarrow> refresh_elem el (entry\<lparr>de_stored := now, de_ack := ack\<rparr>) c
      | None \<Rightarrow>
          enforce_capacity de_key
            (push_elem key \<lparr>de_key = key, de_stored = now, de_ack = ack\<rparr> c))"

definition dedup_Get ::
  "time \<Rightarrow> string \<Rightarrow> string \<Rightarrow> string \<Rightarrow> dedup_cache \<Rightarrow> cached_ack option \<times> dedup_cache" where
  "dedup_Get now project cardID messageID c =
     (if messageID = [] then (None, c)
      else getByKey now (messageDedupKey project cardID messageID) c)"

definition dedup_GetChat ::
  "time \<Rightarrow> string \<Rightarrow> string \<Rightarrow> dedup_cache \<Rightarrow> cached_ack option \<times> dedup_cache" where
  "dedup_GetChat now sessionID messageID c =
     (if messageID = [] then (None, c) else getByKey now (chatDedupKey sessionID messageID) c)"

definition dedup_Put ::
  "time \<Rightarrow> string \<Rightarrow> string \<Rightarrow> string \<Rightarrow> cached_ack \<Rightarrow> dedup_cache \<Rightarrow> dedup_cache" where
  "dedup_Put now project cardID messageID ack c =
     (if messageID = [] then c
      else putByKey now (messageDedupKey project cardID messageID) ack c)"

definition dedup_PutChat ::
  "time \<Rightarrow> string \<Rightarrow> string \<Rightarrow> cached_ack \<Rightarrow> dedup_cache \<Rightarrow> dedup_cache" where
  "dedup_PutChat now sessionID messageID ack c =
     (if messageID = [] then c else putByKey now (chatDedupKey sessionID messageID) ack c)"

definition dedup_sweep :: "time \<Rightarrow> dedup_cache \<Rightarrow> dedup_cache" where
  "dedup_sweep now c =
     (if ttl c \<le> 0 then c else sweep_front de_key de_stored (now - ttl c) c)"

section \<open>The cache contract\<close>

abbreviation dedup_ok :: "dedup_cache \<Rightarrow> bool" where
  "dedup_ok \<equiv> store_ok de_key"

definition alive :: "duration \<Rightarrow> time \<Rightarrow> dedup_entry \<Rightarrow> bool" where
  "alive t now e \<longleftrightarrow> \<not> (t > 0 \<and> now - de_stored e > t)"

definition dedup_live :: "time \<Rightarrow> dedup_cache \<Rightarrow> string \<Rightarrow> cached_ack option" where
  "dedup_live now c k =
     map_option de_ack (find (\<lambda>e. de_key e = k \<and> alive (ttl c) now e) (vals c))"

lemma dedup_live_Some:
  assumes "dedup_ok c"
  shows "dedup_live now c k = Some a \<longleftrightarrow>
    (\<exists>e \<in> set (vals c). de_key e = k \<and> alive (ttl c) now e \<and> de_ack e = a)"
  using find_key_Some[OF store_ok_distinct_keys[OF assms]] by (auto simp: dedup_live_def)

lemma find_entry_vals:
  "store_ok key s \<Longrightarrow> find_entry k s = Some (e, v) \<Longrightarrow> v \<in> set (vals s) \<and> key v = k"
  using find_entry_Some[of key s k e v] by (force simp: vals_def)

lemma getByKey_result:
  assumes ok: "dedup_ok c"
  shows "fst (getByKey now k c) = dedup_live now c k"
proof (cases "find_entry k c")
  case None
  then have "dedup_live now c k \<noteq> Some a" for a
    using find_entry_None[OF ok] by (simp add: dedup_live_Some[OF ok])
  then show ?thesis using None by (cases "dedup_live now c k") (auto simp: getByKey_def)
next
  case (Some p)
  obtain el e where p: "p = (el, e)" by (cases p)
  have e: "e \<in> set (vals c)" "de_key e = k" using find_entry_vals[OF ok] Some p by auto
  have u: "e' = e" if "e' \<in> set (vals c)" "de_key e' = k" for e'
    using distinct_key_eq[OF store_ok_distinct_keys[OF ok]] that e by auto
  have "dedup_live now c k = Some a \<longleftrightarrow> alive (ttl c) now e \<and> de_ack e = a" for a
    unfolding dedup_live_Some[OF ok] using e u by blast
  then show ?thesis
    using Some p by (cases "dedup_live now c k") (auto simp: getByKey_def alive_def)
qed

lemma getByKey_state:
  assumes ok: "dedup_ok c"
  shows "dedup_ok (snd (getByKey now k c))"
    and "ttl (snd (getByKey now k c)) = ttl c" and "capacity (snd (getByKey now k c)) = capacity c"
    and "vals (snd (getByKey now k c)) = filter (\<lambda>e. de_key e = k \<longrightarrow> alive (ttl c) now e) (vals c)"
proof -
  let ?v = "filter (\<lambda>e. de_key e = k \<longrightarrow> alive (ttl c) now e) (vals c)"
  have "dedup_ok (snd (getByKey now k c)) \<and> ttl (snd (getByKey now k c)) = ttl c
    \<and> capacity (snd (getByKey now k c)) = capacity c \<and> vals (snd (getByKey now k c)) = ?v"
  proof (cases "find_entry k c")
    case None
    then have "?v = vals c" using find_entry_None[OF ok] by (simp add: filter_id_conv)
    then show ?thesis using None ok by (simp add: getByKey_def)
  next
    case (Some p)
    obtain el e where p: "p = (el, e)" by (cases p)
    have e: "e \<in> set (vals c)" "de_key e = k" using find_entry_vals[OF ok] Some p by auto
    have u: "e' = e" if "e' \<in> set (vals c)" "de_key e' = k" for e'
      using distinct_key_eq[OF store_ok_distinct_keys[OF ok]] that e by auto
    show ?thesis
    proof (cases "alive (ttl c) now e")
      case True
      then have "?v = vals c" using u by (auto simp: filter_id_conv)
      then show ?thesis using Some p ok True by (auto simp: getByKey_def alive_def)
    next
      case False
      have "?v = filter (\<lambda>e. de_key e \<noteq> k) (vals c)"
        using u False by (intro filter_cong refl) auto
      then show ?thesis
        using Some p False find_entry_drop_None[OF ok Some[unfolded p]]
        by (simp add: getByKey_def alive_def frame_simps)
    qed
  qed
  then show "dedup_ok (snd (getByKey now k c))"
    and "ttl (snd (getByKey now k c)) = ttl c" and "capacity (snd (getByKey now k c)) = capacity c"
    and "vals (snd (getByKey now k c)) = ?v" by simp_all
qed

lemma putByKey_state:
  fixes now :: time and a :: cached_ack and k :: string
  assumes ok: "dedup_ok c"
  defines "e \<equiv> \<lparr>de_key = k, de_stored = now, de_ack = a\<rparr>"
  shows "dedup_ok (putByKey now k a c)"
    and "ttl (putByKey now k a c) = ttl c" and "capacity (putByKey now k a c) = capacity c"
    and "vals (putByKey now k a c) =
      (if \<exists>d \<in> set (vals c). de_key d = k then filter (\<lambda>d. de_key d \<noteq> k) (vals c) @ [e]
       else newest (capacity c) (vals c @ [e]))"
proof -
  let ?v = "if \<exists>d \<in> set (vals c). de_key d = k then filter (\<lambda>d. de_key d \<noteq> k) (vals c) @ [e]
       else newest (capacity c) (vals c @ [e])"
  have "dedup_ok (putByKey now k a c) \<and> ttl (putByKey now k a c) = ttl c
    \<and> capacity (putByKey now k a c) = capacity c \<and> vals (putByKey now k a c) = ?v"
  proof (cases "find_entry k c")
    case None
    then have no: "\<not> (\<exists>d \<in> set (vals c). de_key d = k)" using find_entry_None[OF ok] by blast
    have "dedup_ok (push_elem k e c)" using store_ok_push[OF ok, of e] None by (simp add: e_def)
    note enforce_capacity_spec[OF this]
    then show ?thesis
      using None no by (simp add: putByKey_def e_def newest_def abs_simps frame_simps)
  next
    case (Some p)
    obtain el d where p: "p = (el, d)" by (cases p)
    have iv: "(el, d) \<in> set (el_items (entries c))" and k: "de_key d = k"
      using find_entry_Some[OF ok] Some p by auto
    then have yes: "\<exists>d \<in> set (vals c). de_key d = k" by (force simp: vals_def)
    have e: "d\<lparr>de_stored := now, de_ack := a\<rparr> = e" using k by (simp add: e_def)
    have ke: "de_key e = de_key d" by (simp add: e_def k)
    show ?thesis
      using Some p yes store_ok_refresh[OF ok iv ke] vals_refresh[OF ok iv ke] k
      by (simp add: putByKey_def e frame_simps)
  qed
  then show "dedup_ok (putByKey now k a c)"
    and "ttl (putByKey now k a c) = ttl c" and "capacity (putByKey now k a c) = capacity c"
    and "vals (putByKey now k a c) = ?v" by simp_all
qed

lemma dedup_sweep_state:
  assumes "dedup_ok c"
  shows "dedup_ok (dedup_sweep now c)"
    and "ttl (dedup_sweep now c) = ttl c" and "capacity (dedup_sweep now c) = capacity c"
    and "vals (dedup_sweep now c) =
      (if ttl c \<le> 0 then vals c else dropWhile (\<lambda>e. de_stored e \<le> now - ttl c) (vals c))"
  using assms sweep_front_spec[OF assms] by (auto simp: dedup_sweep_def)

lemma alive_antimono: "t \<le> t' \<Longrightarrow> alive d t' e \<Longrightarrow> alive d t e"
  by (auto simp: alive_def)

lemma held_put:
  assumes "dedup_ok c"
  shows "held \<lparr>de_key = k, de_stored = now, de_ack = a\<rparr> 0 (vals (putByKey now k a c))"
  unfolding putByKey_state(4)[OF assms] by (auto intro: held_newest held_last)

lemma putByKey_others:
  assumes "dedup_ok c" and "e \<in> set (vals (putByKey now k a c))" and "de_key e \<noteq> k"
  shows "e \<in> set (vals c)"
  using assms(2,3) set_newest unfolding putByKey_state(4)[OF assms(1)]
  by (fastforce split: if_splits)

interpretation dedup: ttl_kv getByKey putByKey dedup_sweep dedup_live dedup_ok
proof unfold_locales
  fix c :: dedup_cache and t t' :: time and k j :: string and a w :: cached_ack
  assume ok: "dedup_ok c"
  show "fst (getByKey t k c) = dedup_live t c k" by (rule getByKey_result[OF ok])
  show "dedup_ok (snd (getByKey t k c))" by (rule getByKey_state(1)[OF ok])
  show "dedup_ok (putByKey t k a c)" by (rule putByKey_state(1)[OF ok])
  show "dedup_ok (dedup_sweep t c)" by (rule dedup_sweep_state(1)[OF ok])
  show "dedup_live t (putByKey t k a c) k = Some a"
    using held_in[OF held_put[OF ok, of k t a]]
    by (force simp: dedup_live_Some[OF putByKey_state(1)[OF ok]] putByKey_state(2)[OF ok] alive_def)
  show "dedup_live t' (dedup_sweep t c) j = Some w \<Longrightarrow> dedup_live t' c j = Some w"
    unfolding dedup_live_Some[OF ok] dedup_live_Some[OF dedup_sweep_state(1)[OF ok]]
      dedup_sweep_state(2,4)[OF ok]
    by (auto split: if_splits dest: set_dropWhileD)
  assume le: "t \<le> t'"
  show "dedup_live t' (snd (getByKey t k c)) j = dedup_live t' c j"
  proof -
    have "dedup_live t' (snd (getByKey t k c)) j = Some b \<longleftrightarrow> dedup_live t' c j = Some b" for b
      unfolding dedup_live_Some[OF ok] dedup_live_Some[OF getByKey_state(1)[OF ok]]
        getByKey_state(2,4)[OF ok]
      using alive_antimono[OF le] by auto
    then show ?thesis by (metis option.exhaust)
  qed
  show "dedup_live t' c k = Some a \<Longrightarrow> dedup_live t c k = Some a"
    unfolding dedup_live_Some[OF ok] using alive_antimono[OF le] by blast
  show "j \<noteq> k \<Longrightarrow> dedup_live t' (putByKey t k a c) j = Some w \<Longrightarrow> dedup_live t' c j = Some w"
    unfolding dedup_live_Some[OF ok] dedup_live_Some[OF putByKey_state(1)[OF ok]]
      putByKey_state(2)[OF ok]
    using putByKey_others[OF ok] by metis
qed

section \<open>Composed keys\<close>

text \<open>The identity of an acknowledgement: card messages and chat messages share the one map.\<close>

datatype dedup_id = CardMsg string string string | ChatMsg string string

fun id_key :: "dedup_id \<Rightarrow> string" where
  "id_key (CardMsg p c m) = messageDedupKey p c m"
| "id_key (ChatMsg s m) = chatDedupKey s m"

fun id_message :: "dedup_id \<Rightarrow> string" where
  "id_message (CardMsg p c m) = m"
| "id_message (ChatMsg s m) = m"

fun id_clean :: "dedup_id \<Rightarrow> bool" where
  "id_clean (CardMsg p c m) = (NUL \<notin> set p \<and> NUL \<notin> set c \<and> NUL \<notin> set m)"
| "id_clean (ChatMsg s m) = (NUL \<notin> set s \<and> NUL \<notin> set m)"

lemma id_key_inj:
  assumes "id_clean i" and "id_clean j"
  shows "id_key i = id_key j \<longleftrightarrow> i = j"
proof -
  have no: "messageDedupKey p c m \<noteq> chatDedupKey s m'" if "NUL \<notin> set m" "NUL \<notin> set c" "NUL \<notin> set p" for p c m s m'
  proof
    assume eq: "messageDedupKey p c m = chatDedupKey s m'"
    show False
    proof (cases p)
      case Nil
      then have "c @ NUL # m = ''chat'' @ NUL # (s @ NUL # m')"
        using eq by (simp add: messageDedupKey_def chatDedupKey_def chatDedupSentinel_def)
      then show False using that
        using append_sep_inject[of NUL c "''chat''" m "s @ NUL # m'"] by auto
    next
      case (Cons a p')
      then show False
        using eq that by (auto simp: messageDedupKey_def chatDedupKey_def chatDedupSentinel_def)
    qed
  qed
  show ?thesis
    using assms no no[symmetric]
    by (cases i; cases j) (auto simp: messageDedupKey_def chatDedupKey_def append_sep_inject)
qed

section \<open>Histories of the public operations\<close>

datatype dedup_op = OpGet time dedup_id | OpPut time dedup_id cached_ack | OpSweep time

fun dedup_lookup :: "time \<Rightarrow> dedup_id \<Rightarrow> dedup_cache \<Rightarrow> cached_ack option \<times> dedup_cache" where
  "dedup_lookup now (CardMsg p c m) s = dedup_Get now p c m s"
| "dedup_lookup now (ChatMsg i m) s = dedup_GetChat now i m s"

fun dedup_store :: "time \<Rightarrow> dedup_id \<Rightarrow> cached_ack \<Rightarrow> dedup_cache \<Rightarrow> dedup_cache" where
  "dedup_store now (CardMsg p c m) a s = dedup_Put now p c m a s"
| "dedup_store now (ChatMsg i m) a s = dedup_PutChat now i m a s"

fun dedup_step :: "dedup_op \<Rightarrow> dedup_cache \<Rightarrow> dedup_cache" where
  "dedup_step (OpGet t i) s = snd (dedup_lookup t i s)"
| "dedup_step (OpPut t i a) s = dedup_store t i a s"
| "dedup_step (OpSweep t) s = dedup_sweep t s"

definition dedup_run :: "dedup_op list \<Rightarrow> dedup_cache \<Rightarrow> dedup_cache" where
  "dedup_run ops s = fold dedup_step ops s"

fun dedup_time :: "dedup_op \<Rightarrow> time" where
  "dedup_time (OpGet t i) = t"
| "dedup_time (OpPut t i a) = t"
| "dedup_time (OpSweep t) = t"

fun op_clean :: "dedup_op \<Rightarrow> bool" where
  "op_clean (OpGet t i) = id_clean i"
| "op_clean (OpPut t i a) = id_clean i"
| "op_clean (OpSweep t) = True"

fun puts_id :: "dedup_id \<Rightarrow> dedup_op \<Rightarrow> bool" where
  "puts_id i (OpPut t j a) = (j = i)"
| "puts_id i _ = False"

fun puts_any :: "dedup_op \<Rightarrow> bool" where
  "puts_any (OpPut t j a) = True"
| "puts_any _ = False"

text \<open>The acknowledgement stored last under an identity.\<close>

definition latest_ack :: "dedup_id \<Rightarrow> dedup_op list \<Rightarrow> cached_ack option" where
  "latest_ack i ops =
     (case filter (puts_id i) (rev ops) of OpPut t j a # _ \<Rightarrow> Some a | _ \<Rightarrow> None)"

fun kv_of :: "dedup_op \<Rightarrow> (string, cached_ack) kv_op list" where
  "kv_of (OpGet t i) = (if id_message i = [] then [] else [KGet t (id_key i)])"
| "kv_of (OpPut t i a) = (if id_message i = [] then [] else [KPut t (id_key i) a])"
| "kv_of (OpSweep t) = [KTick t]"

abbreviation kv_dedup :: "(string, cached_ack) kv_op list \<Rightarrow> dedup_cache \<Rightarrow> dedup_cache" where
  "kv_dedup \<equiv> kv_run getByKey putByKey dedup_sweep"

lemma dedup_lookup_kv:
  "dedup_lookup t i s = (if id_message i = [] then (None, s) else getByKey t (id_key i) s)"
  by (cases i) (simp_all add: dedup_Get_def dedup_GetChat_def)

lemma dedup_store_kv:
  "dedup_store t i a s = (if id_message i = [] then s else putByKey t (id_key i) a s)"
  by (cases i) (simp_all add: dedup_Put_def dedup_PutChat_def)

lemma dedup_step_kv: "dedup_step op s = kv_dedup (kv_of op) s"
  by (cases op) (simp_all add: dedup_lookup_kv dedup_store_kv kv_run_def)

lemma dedup_run_kv: "dedup_run ops s = kv_dedup (concat (map kv_of ops)) s"
  unfolding dedup_run_def
  by (induction ops arbitrary: s) (simp_all add: kv_run_def dedup_step_kv)

lemma kv_of_time: "k \<in> set (kv_of op) \<Longrightarrow> op_time k = dedup_time op"
  by (cases op) (auto split: if_splits)

lemma latest_ack_snoc:
  "latest_ack i (ops @ [op]) =
    (case op of OpPut t j a \<Rightarrow> if j = i then Some a else latest_ack i ops | _ \<Rightarrow> latest_ack i ops)"
  by (cases op) (simp_all add: latest_ack_def)

lemma latest_ack_kv:
  assumes "\<forall>op \<in> set ops. op_clean op" and "id_clean i" and "id_message i \<noteq> []"
  shows "latest_put (id_key i) (concat (map kv_of ops)) = latest_ack i ops"
  using assms(1)
proof (induction ops rule: rev_induct)
  case Nil
  then show ?case by (simp add: latest_ack_def)
next
  case (snoc op ops)
  then show ?case
    using assms(2,3) by (cases op) (auto simp: latest_ack_snoc id_key_inj)
qed

lemma dedup_ok_new [ok_intros]: "dedup_ok (NewMessageDedupCache t cap)"
  by (simp add: NewMessageDedupCache_def ok_intros)

lemma dedup_run_ok: "dedup_ok s \<Longrightarrow> dedup_ok (dedup_run ops s)"
  unfolding dedup_run_kv by (rule dedup.run_ok)

lemma dedup_new_fields [simp]:
  "ttl (NewMessageDedupCache t cap) = t" "capacity (NewMessageDedupCache t cap) = cap"
  by (simp_all add: NewMessageDedupCache_def new_store_def)

lemma dedup_new_empty: "dedup_live now (NewMessageDedupCache t cap) k = None"
  by (simp add: dedup_live_def NewMessageDedupCache_def new_store_def vals_def list_new_def)

lemma kv_step_fields:
  assumes "dedup_ok s"
  shows "ttl (kv_step getByKey putByKey dedup_sweep op s) = ttl s"
    and "capacity (kv_step getByKey putByKey dedup_sweep op s) = capacity s"
  using assms getByKey_state putByKey_state dedup_sweep_state by (cases op; simp)+

lemma kv_dedup_fields:
  "dedup_ok s \<Longrightarrow> ttl (kv_dedup ops s) = ttl s \<and> capacity (kv_dedup ops s) = capacity s"
  unfolding kv_run_def
  by (induction ops arbitrary: s) (simp_all add: kv_step_fields dedup.step_ok)

section \<open>Keeping an acknowledgement\<close>

lemma held_kv_step:
  assumes ok: "dedup_ok s" and h: "held e n (vals s)"
    and t: "ttl s \<le> 0 \<or> op_time op - de_stored e < ttl s"
    and c: "capacity s \<le> 0 \<or> int (if is_put op then Suc n else n) < capacity s"
    and k: "\<forall>u a. op \<noteq> KPut u (de_key e) a"
  shows "held e (if is_put op then Suc n else n) (vals (kv_step getByKey putByKey dedup_sweep op s))"
proof (cases op)
  case (KGet u j)
  have "alive (ttl s) u e" using t KGet by (auto simp: alive_def)
  then show ?thesis using KGet by (simp add: getByKey_state(4)[OF ok] held_filter[OF h])
next
  case (KTick u)
  then show ?thesis using t by (auto simp: dedup_sweep_state(4)[OF ok] h intro!: held_dropWhile[OF h])
next
  case (KPut u j a)
  have j: "j \<noteq> de_key e" using k KPut by auto
  have c': "capacity s \<le> 0 \<or> int (Suc n) < capacity s" using c KPut by simp
  have "held e n (filter (\<lambda>d. de_key d \<noteq> j) (vals s))" using h j by (auto intro: held_filter)
  then show ?thesis
    using KPut held_snoc[OF h] c' by (auto simp: putByKey_state(4)[OF ok] intro: held_snoc held_newest)
qed

lemma held_kv_run:
  assumes "dedup_ok s" and "held e n (vals s)"
    and "ttl s \<le> 0 \<or> (\<forall>op \<in> set ops. op_time op - de_stored e < ttl s)"
    and "capacity s \<le> 0 \<or> int (n + length (filter is_put ops)) < capacity s"
    and "\<forall>u a. KPut u (de_key e) a \<notin> set ops"
  shows "held e (n + length (filter is_put ops)) (vals (kv_dedup ops s))"
  using assms
proof (induction ops arbitrary: s n)
  case Nil
  then show ?case by (simp add: kv_run_def)
next
  case (Cons op ops)
  let ?m = "if is_put op then Suc n else n"
  let ?s = "kv_step getByKey putByKey dedup_sweep op s"
  have h: "held e ?m (vals ?s)"
    using Cons.prems by (intro held_kv_step) (auto split: if_splits)
  have "held e (?m + length (filter is_put ops)) (vals (kv_dedup ops ?s))"
    using Cons.prems kv_step_fields[OF Cons.prems(1), of op]
    by (intro Cons.IH h dedup.step_ok) (auto split: if_splits)
  then show ?case by (cases "is_put op") (simp_all add: kv_run_def)
qed

lemma length_kv_puts: "length (filter is_put (concat (map kv_of ops))) \<le> length (filter puts_any ops)"
proof (induction ops)
  case (Cons op ops)
  then show ?case by (cases op) auto
qed simp

lemma kv_put_id:
  assumes "KPut u (id_key i) a \<in> set (concat (map kv_of ops))"
    and "\<forall>op \<in> set ops. op_clean op" and "id_clean i"
  shows "\<exists>op \<in> set ops. puts_id i op"
proof -
  obtain op where op: "op \<in> set ops" "KPut u (id_key i) a \<in> set (kv_of op)" using assms(1) by auto
  have "op_clean op" using assms(2) op(1) by blast
  then have "puts_id i op"
    using op(2) assms(3) id_key_inj by (induction op) (auto split: if_splits)
  with op show ?thesis by blast
qed

section \<open>What the cache promises\<close>

text \<open>
  A cached acknowledgement is the right one. Over any history of card and chat lookups,
  insertions and background sweeps whose identifiers are free of NUL bytes, a hit returns the acknowledgement
  stored last under exactly this identity: no key of another project, card, session or message, and no
  chat key seen as a card key, ever answers for it, and an older acknowledgement never reappears.
\<close>

theorem dedup_hit_is_latest:
  assumes "\<forall>op \<in> set ops. op_clean op \<and> dedup_time op \<le> now" and "id_clean i"
    and "fst (dedup_lookup now i (dedup_run ops (NewMessageDedupCache t cap))) = Some a"
  shows "latest_ack i ops = Some a"
proof -
  have ne: "id_message i \<noteq> []" using assms(3) by (auto simp: dedup_lookup_kv split: if_splits)
  have "\<forall>k \<in> set (concat (map kv_of ops)). op_time k \<le> now"
    using assms(1) kv_of_time by fastforce
  then have "latest_put (id_key i) (concat (map kv_of ops)) = Some a"
    using assms(3) ne dedup_new_empty dedup.get_latest[OF dedup_ok_new, of t cap _ now]
    by (simp add: dedup_lookup_kv dedup_run_kv)
  then show ?thesis using latest_ack_kv[of ops i] assms(1,2) ne by simp
qed

theorem dedup_hit_is_latest_witness:
  "latest_ack (ChatMsg ''s'' ''m'')
     [OpPut 1 (ChatMsg ''s'' ''m'') \<lparr>ack_status = 202, ack_body = ''x''\<rparr>, OpPut 2 (CardMsg ''s'' ''c'' ''m'') \<lparr>ack_status = 200, ack_body = ''y''\<rparr>]
   = Some \<lparr>ack_status = 202, ack_body = ''x''\<rparr>"
  by (rule dedup_hit_is_latest[of _ 3 _ 10 5]) code_simp+

lemma stored_stays:
  assumes "dedup_ok c" and "id_clean i" and "id_message i \<noteq> []"
    and "\<forall>op \<in> set between. op_clean op \<and> \<not> puts_id i op"
    and "ttl c \<le> 0 \<or> (\<forall>op \<in> set between. dedup_time op - t0 < ttl c)"
    and "capacity c \<le> 0 \<or> int (length (filter puts_any between)) < capacity c"
    and "ttl c \<le> 0 \<or> now - t0 \<le> ttl c"
  shows "fst (dedup_lookup now i (dedup_run between (dedup_store t0 i a c))) = Some a"
proof -
  let ?e = "\<lparr>de_key = id_key i, de_stored = t0, de_ack = a\<rparr>"
  let ?p = "putByKey t0 (id_key i) a c"
  let ?ks = "concat (map kv_of between)"
  note p = putByKey_state[OF assms(1), of t0 "id_key i" a]
  have "held ?e (0 + length (filter is_put ?ks)) (vals (kv_dedup ?ks ?p))"
  proof (rule held_kv_run[OF p(1)])
    show "held ?e 0 (vals ?p)" by (rule held_put[OF assms(1)])
    show "ttl ?p \<le> 0 \<or> (\<forall>op \<in> set ?ks. op_time op - de_stored ?e < ttl ?p)"
      using assms(5) kv_of_time p(2) by fastforce
    show "capacity ?p \<le> 0 \<or> int (0 + length (filter is_put ?ks)) < capacity ?p"
      using assms(6) length_kv_puts[of between] p(3) by linarith
    show "\<forall>u b. KPut u (de_key ?e) b \<notin> set ?ks"
      using kv_put_id[of _ i _ between] assms(2,4) by auto
  qed
  then have e: "?e \<in> set (vals (kv_dedup ?ks ?p))" by (rule held_in)
  have ok: "dedup_ok (kv_dedup ?ks ?p)" "ttl (kv_dedup ?ks ?p) = ttl c"
    using dedup.run_ok[OF p(1)] kv_dedup_fields[OF p(1)] p(2) by simp_all
  have "dedup_live now (kv_dedup ?ks ?p) (id_key i) = Some a"
    unfolding dedup_live_Some[OF ok(1)] using assms(7) ok(2) by (intro bexI[OF _ e]) (auto simp: alive_def)
  then show ?thesis
    using assms(3) getByKey_result[OF ok(1)] by (simp add: dedup_lookup_kv dedup_store_kv dedup_run_kv)
qed

text \<open>
  An acknowledgement is kept. After a \<open>Put\<close> at time \<open>t0\<close> every \<open>Get\<close> of the same identity not later
  than the TTL returns it, whatever lookups, sweeps and insertions under other identities happen in
  between, as long as they are younger than the TTL and fewer than \<open>capacity\<close> of them insert: a
  retried request is answered from the cache and does not write to the container twice.
\<close>

theorem dedup_retains:
  assumes "id_clean i" and "id_message i \<noteq> []"
    and "\<forall>op \<in> set between. op_clean op \<and> \<not> puts_id i op"
    and "t \<le> 0 \<or> (\<forall>op \<in> set between. dedup_time op - t0 < t)"
    and "cap \<le> 0 \<or> int (length (filter puts_any between)) < cap"
    and "t \<le> 0 \<or> now - t0 \<le> t"
  shows "fst (dedup_lookup now i
           (dedup_run between (dedup_store t0 i a (dedup_run before (NewMessageDedupCache t cap))))) = Some a"
proof -
  let ?c = "dedup_run before (NewMessageDedupCache t cap)"
  have c: "dedup_ok ?c" "ttl ?c = t" "capacity ?c = cap"
    using dedup_run_ok[OF dedup_ok_new] kv_dedup_fields[OF dedup_ok_new[of t cap]]
    by (simp_all add: dedup_run_kv)
  show ?thesis using assms by (intro stored_stays[OF c(1)]) (simp_all add: c)
qed

theorem dedup_retains_witness:
  "fst (dedup_lookup 11 (CardMsg ''p'' ''c'' ''m'')
     (dedup_run [OpPut 2 (ChatMsg ''s'' ''m'') \<lparr>ack_status = 202, ack_body = ''y''\<rparr>, OpSweep 10]
       (dedup_store 1 (CardMsg ''p'' ''c'' ''m'') \<lparr>ack_status = 202, ack_body = ''x''\<rparr>
         (dedup_run [] (NewMessageDedupCache 10 2))))) = Some \<lparr>ack_status = 202, ack_body = ''x''\<rparr>"
  by (rule dedup_retains) simp_all

end
