(* ===== verification/Dns_Cache.thy ===== *)
theory Dns_Cache
  imports Ttl_Store Cache_Interface
begin

text \<open>
  The host-resolution cache of \<open>internal/container/dns_cache.go\<close>: an LRU list with an expiry time per
  entry. A hit moves the entry to the back, an overwrite replaces the entry in place. \<open>get\<close> and \<open>put\<close>
  interpret the cache contract of \<open>Cache_Interface\<close>; there is no background sweep.
\<close>

record dns_entry =
  dn_host :: string
  dn_addrs :: "string list"
  dn_expires :: time

type_synonym dns_cache = "dns_entry ttl_store"

definition dnsCacheCapacity :: int where
  "dnsCacheCapacity = 256"

definition dnsCacheTTL :: duration where
  "dnsCacheTTL = 5 * 60 * second"

definition newDNSCache :: "duration \<Rightarrow> int \<Rightarrow> dns_cache" where
  "newDNSCache t cap = new_store t cap"

definition dns_get :: "time \<Rightarrow> string \<Rightarrow> dns_cache \<Rightarrow> string list option \<times> dns_cache" where
  "dns_get now host c =
     (case find_entry host c of
        None \<Rightarrow> (None, c)
      | Some (el, entry) \<Rightarrow>
          if now > dn_expires entry then (None, drop_elem el host c)
          else (Some (dn_addrs entry), touch_elem el c))"

definition dns_put :: "time \<Rightarrow> string \<Rightarrow> string list \<Rightarrow> dns_cache \<Rightarrow> dns_cache" where
  "dns_put now host addrs c =
     (let entry = \<lparr>dn_host = host, dn_addrs = addrs, dn_expires = now + ttl c\<rparr>
      in case find_entry host c of
           Some (el, _) \<Rightarrow> refresh_elem el entry c
         | None \<Rightarrow> enforce_capacity dn_host (push_elem host entry c))"

definition dns_len :: "dns_cache \<Rightarrow> nat" where
  "dns_len c = list_len (entries c)"

section \<open>The cache contract\<close>

definition dns_ok :: "dns_cache \<Rightarrow> bool" where
  "dns_ok c \<longleftrightarrow> store_ok dn_host c \<and> 0 \<le> ttl c \<and> (0 < capacity c \<longrightarrow> int (dns_len c) \<le> capacity c)"

definition dns_live :: "time \<Rightarrow> dns_cache \<Rightarrow> string \<Rightarrow> string list option" where
  "dns_live now c h = map_option dn_addrs (find (\<lambda>e. dn_host e = h \<and> now \<le> dn_expires e) (vals c))"

definition no_tick :: "time \<Rightarrow> dns_cache \<Rightarrow> dns_cache" where
  "no_tick t c = c"

lemma dns_okD: "dns_ok c \<Longrightarrow> store_ok dn_host c" "dns_ok c \<Longrightarrow> 0 \<le> ttl c"
  "dns_ok c \<Longrightarrow> 0 < capacity c \<Longrightarrow> int (length (vals c)) \<le> capacity c"
  by (simp_all add: dns_ok_def dns_len_def list_len_vals)

lemma dns_ok_shrink:
  assumes "dns_ok c" "store_ok dn_host c'" "ttl c' = ttl c" "capacity c' = capacity c"
    "length (vals c') \<le> length (vals c)"
  shows "dns_ok c'"
proof -
  have "int (length (vals c')) \<le> capacity c" if "0 < capacity c"
    using order_trans[OF of_nat_mono[OF assms(5)] dns_okD(3)[OF assms(1) that]] .
  then show ?thesis using assms by (simp add: dns_ok_def dns_len_def list_len_vals)
qed

lemma dns_live_Some:
  assumes "store_ok dn_host c"
  shows "dns_live now c h = Some a \<longleftrightarrow>
    (\<exists>e \<in> set (vals c). dn_host e = h \<and> now \<le> dn_expires e \<and> dn_addrs e = a)"
  using find_key_Some[OF store_ok_distinct_keys[OF assms]] by (auto simp: dns_live_def)

lemma length_filter_neq_less:
  "e \<in> set xs \<Longrightarrow> key e = k \<Longrightarrow> Suc (length (filter (\<lambda>w. key w \<noteq> k) xs)) \<le> length xs"
  using length_filter_less[of e xs "\<lambda>w. key w \<noteq> k"] by auto

lemma dns_get_spec:
  assumes ok: "dns_ok c"
  shows "fst (dns_get now h c) = dns_live now c h"
    and "dns_ok (snd (dns_get now h c))"
    and "set (vals (snd (dns_get now h c))) = {e \<in> set (vals c). dn_host e = h \<longrightarrow> now \<le> dn_expires e}"
proof -
  note s = dns_okD(1)[OF ok]
  have "fst (dns_get now h c) = dns_live now c h \<and> dns_ok (snd (dns_get now h c)) \<and>
    set (vals (snd (dns_get now h c))) = {e \<in> set (vals c). dn_host e = h \<longrightarrow> now \<le> dn_expires e}"
  proof (cases "find_entry h c")
    case None
    then have no: "\<forall>e \<in> set (vals c). dn_host e \<noteq> h" using find_entry_None[OF s] by blast
    then have "dns_live now c h \<noteq> Some a" for a unfolding dns_live_Some[OF s] by blast
    then have "dns_live now c h = None" by (metis option.exhaust)
    then show ?thesis using None no ok by (auto simp: dns_get_def)
  next
    case (Some p)
    obtain el e where p: "p = (el, e)" by (cases p)
    have iv: "(el, e) \<in> set (el_items (entries c))" and k: "dn_host e = h"
      using find_entry_Some[OF s] Some p by auto
    have e: "e \<in> set (vals c)" using iv by (force simp: vals_def)
    have u: "e' = e" if "e' \<in> set (vals c)" "dn_host e' = h" for e'
      using distinct_key_eq[OF store_ok_distinct_keys[OF s]] that e k by auto
    have live: "dns_live now c h = Some a \<longleftrightarrow> now \<le> dn_expires e \<and> dn_addrs e = a" for a
      unfolding dns_live_Some[OF s] using e u k by blast
    have len: "Suc (length (filter (\<lambda>w. dn_host w \<noteq> h) (vals c))) \<le> length (vals c)"
      using length_filter_neq_less[OF e, of dn_host h] k by simp
    show ?thesis
    proof (cases "now \<le> dn_expires e")
      case True
      have "dns_ok (touch_elem el c)"
        using store_ok_touch[OF s iv] len
        by (intro dns_ok_shrink[OF ok]) (simp_all add: vals_touch[OF s iv] k frame_simps)
      moreover have "dns_live now c h = Some (dn_addrs e)" using live True by simp
      moreover have "set (vals (touch_elem el c)) = {e \<in> set (vals c). dn_host e = h \<longrightarrow> now \<le> dn_expires e}"
        using e k True unfolding vals_touch[OF s iv] by (auto dest: u)
      ultimately show ?thesis
        using Some p True by (simp add: dns_get_def)
    next
      case False
      note d = find_entry_drop_None[OF s Some[unfolded p]]
      have "dns_ok (drop_elem el h c)"
        using d(1,3) len by (intro dns_ok_shrink[OF ok]) (simp_all add: frame_simps)
      moreover have "dns_live now c h = None" using live False by (metis option.exhaust)
      moreover have "set (vals (drop_elem el h c)) = {e \<in> set (vals c). dn_host e = h \<longrightarrow> now \<le> dn_expires e}"
        using k False unfolding d(3) by (auto dest: u)
      ultimately show ?thesis
        using Some p False by (simp add: dns_get_def)
    qed
  qed
  then show "fst (dns_get now h c) = dns_live now c h" and "dns_ok (snd (dns_get now h c))"
    and "set (vals (snd (dns_get now h c))) = {e \<in> set (vals c). dn_host e = h \<longrightarrow> now \<le> dn_expires e}"
    by blast+
qed

lemma dns_put_spec:
  fixes now :: time and h :: string and a :: "string list"
  assumes ok: "dns_ok c"
  defines "e \<equiv> \<lparr>dn_host = h, dn_addrs = a, dn_expires = now + ttl c\<rparr>"
  shows "dns_ok (dns_put now h a c)" and "ttl (dns_put now h a c) = ttl c"
    and "e \<in> set (vals (dns_put now h a c))"
    and "\<forall>d \<in> set (vals (dns_put now h a c)). dn_host d \<noteq> h \<longrightarrow> d \<in> set (vals c)"
proof -
  note s = dns_okD(1)[OF ok]
  have "dns_ok (dns_put now h a c) \<and> ttl (dns_put now h a c) = ttl c \<and> e \<in> set (vals (dns_put now h a c))
    \<and> (\<forall>d \<in> set (vals (dns_put now h a c)). dn_host d \<noteq> h \<longrightarrow> d \<in> set (vals c))"
  proof (cases "find_entry h c")
    case None
    have "store_ok dn_host (push_elem h e c)" using store_ok_push[OF s, of e] None by (simp add: e_def)
    note spec = enforce_capacity_spec[OF this]
    have put: "dns_put now h a c = enforce_capacity dn_host (push_elem h e c)"
      using None by (simp add: dns_put_def e_def)
    have v: "vals (dns_put now h a c) = newest (capacity c) (vals c @ [e])"
      unfolding put spec(2) by (simp add: newest_def abs_simps frame_simps)
    have "held e 0 (vals (dns_put now h a c))" unfolding v by (auto intro: held_newest held_last)
    moreover have "dns_ok (dns_put now h a c)"
      using ok spec length_newest[of "capacity c" "vals c @ [e]"] v
      by (simp add: dns_ok_def dns_len_def list_len_vals put frame_simps)
    ultimately show ?thesis
      using held_in set_newest[of "capacity c" "vals c @ [e]"] v spec(3)
      by (fastforce simp: e_def put frame_simps)
  next
    case (Some p)
    obtain el d where p: "p = (el, d)" by (cases p)
    have iv: "(el, d) \<in> set (el_items (entries c))" and k: "dn_host d = h"
      using find_entry_Some[OF s] Some p by auto
    have ke: "dn_host e = dn_host d" by (simp add: e_def k)
    have put: "dns_put now h a c = refresh_elem el e c" using Some p by (simp add: dns_put_def e_def)
    have "d \<in> set (vals c)" using iv by (force simp: vals_def)
    then have "dns_ok (dns_put now h a c)"
      using store_ok_refresh[OF s iv ke] length_filter_neq_less[of d "vals c" dn_host h] k
      unfolding put
      by (intro dns_ok_shrink[OF ok]) (simp_all add: vals_refresh[OF s iv ke] frame_simps)
    moreover have "dn_host e = h" by (simp add: e_def)
    ultimately show ?thesis
      by (auto simp: put vals_refresh[OF s iv ke] frame_simps)
  qed
  then show "dns_ok (dns_put now h a c)" and "ttl (dns_put now h a c) = ttl c"
    and "e \<in> set (vals (dns_put now h a c))"
    and "\<forall>d \<in> set (vals (dns_put now h a c)). dn_host d \<noteq> h \<longrightarrow> d \<in> set (vals c)"
    by blast+
qed

interpretation dns: ttl_kv dns_get dns_put no_tick dns_live dns_ok
proof unfold_locales
  fix c :: dns_cache and t t' :: time and k j :: string and a w :: "string list"
  assume ok: "dns_ok c"
  note live = dns_live_Some[OF dns_okD(1)[OF ok]]
    dns_live_Some[OF dns_okD(1)[OF dns_put_spec(1)[OF ok]]]
    dns_live_Some[OF dns_okD(1)[OF dns_get_spec(2)[OF ok]]]
  show "fst (dns_get t k c) = dns_live t c k" by (rule dns_get_spec(1)[OF ok])
  show "dns_ok (snd (dns_get t k c))" by (rule dns_get_spec(2)[OF ok])
  show "dns_ok (dns_put t k a c)" by (rule dns_put_spec(1)[OF ok])
  show "dns_live t (dns_put t k a c) k = Some a"
    unfolding live using dns_put_spec(3)[OF ok, where now = t and h = k and a = a] dns_okD(2)[OF ok] by force
  show "dns_ok (no_tick t c)" and "dns_live t' (no_tick t c) j = Some w \<Longrightarrow> dns_live t' c j = Some w"
    using ok by (simp_all add: no_tick_def)
  assume le: "t \<le> t'"
  have "dns_live t' (snd (dns_get t k c)) j = Some b \<longleftrightarrow> dns_live t' c j = Some b" for b
    unfolding live dns_get_spec(3)[OF ok] using le by auto
  then show "dns_live t' (snd (dns_get t k c)) j = dns_live t' c j" by (metis option.exhaust)
  show "dns_live t' c k = Some a \<Longrightarrow> dns_live t c k = Some a"
    unfolding live using le by force
  show "j \<noteq> k \<Longrightarrow> dns_live t' (dns_put t k a c) j = Some w \<Longrightarrow> dns_live t' c j = Some w"
    unfolding live using dns_put_spec(4)[OF ok] by metis
qed

lemma dns_ok_new [ok_intros]: "0 \<le> t \<Longrightarrow> dns_ok (newDNSCache t cap)"
  by (simp add: dns_ok_def newDNSCache_def ok_intros dns_len_def list_len_vals abs_simps)
    (simp add: new_store_def)

lemma dns_new_empty: "dns_live now (newDNSCache t cap) k = None"
  by (simp add: dns_live_def newDNSCache_def new_store_def vals_def list_new_def)

abbreviation dns_run :: "(string, string list) kv_op list \<Rightarrow> dns_cache \<Rightarrow> dns_cache" where
  "dns_run \<equiv> kv_run dns_get dns_put no_tick"

section \<open>What the cache promises\<close>

text \<open>
  The DNS cache of the manager (256 hosts, five minutes) is coherent over any history of lookups
  and insertions: it holds at most 256 hosts, and a hit returns the addresses inserted last for
  exactly this host.
\<close>

theorem dns_hit_is_latest:
  assumes "\<forall>op \<in> set ops. op_time op \<le> now"
  defines "c \<equiv> dns_run ops (newDNSCache dnsCacheTTL dnsCacheCapacity)"
  shows "dns_len c \<le> 256 \<and>
    (\<forall>host addrs. fst (dns_get now host c) = Some addrs \<longrightarrow> latest_put host ops = Some addrs)"
proof -
  have ok0: "dns_ok (newDNSCache dnsCacheTTL dnsCacheCapacity)"
    by (rule dns_ok_new) (simp add: dnsCacheTTL_def)
  have ok: "dns_ok c" unfolding c_def by (rule dns.run_ok[OF ok0])
  have cap: "capacity (dns_run ops s) = capacity s" for s
  proof (induction ops arbitrary: s)
    case (Cons op ops)
    have "capacity (kv_step dns_get dns_put no_tick op s) = capacity s"
      by (cases op) (auto simp: dns_get_def dns_put_def no_tick_def Let_def frame_simps
          capacity_enforce split: option.splits)
    then show ?case using Cons by (simp add: kv_run_def)
  qed (simp add: kv_run_def)
  have "capacity c = 256"
    unfolding c_def cap by (simp add: newDNSCache_def new_store_def dnsCacheCapacity_def)
  then have "dns_len c \<le> 256" using ok by (simp add: dns_ok_def)
  then show ?thesis
    using dns.get_latest[OF ok0 dns_new_empty assms(1)] unfolding c_def by blast
qed

theorem dns_hit_is_latest_witness:
  "latest_put ''h'' [KPut 1 ''h'' [''a''], KPut 2 ''h'' [''b'']] = Some [''b''] \<and>
   dns_len (dns_run [KPut 1 ''h'' [''a''], KPut 2 ''h'' [''b'']] (newDNSCache dnsCacheTTL dnsCacheCapacity)) \<le> 256"
proof -
  let ?c = "dns_run [KPut 1 ''h'' [''a''], KPut 2 ''h'' [''b'']] (newDNSCache dnsCacheTTL dnsCacheCapacity)"
  have "fst (dns_get 3 ''h'' ?c) = Some [''b'']" by code_simp
  then show ?thesis using dns_hit_is_latest[of "[KPut 1 ''h'' [''a''], KPut 2 ''h'' [''b'']]" 3] by simp
qed

end
