(* ===== verification/Utf8.thy ===== *)
theory Utf8
  imports Runner_Prelude "HOL-Library.Char_ord"
begin

text \<open>
  What the runner uses of Go's \<open>unicode/utf8\<close>: the length of the well-formed encoding at the front of a
  byte string (the table of the package, no surrogates, nothing above U+10FFFF, no overlong forms),
  \<open>utf8.ValidString\<close>, \<open>utf8.RuneStart\<close> and \<open>utf8.RuneCount\<close>. Lemmas: validity is compositional, and
  a prefix of a valid string cut in front of a starting byte is valid.
\<close>

abbreviation byte :: "char \<Rightarrow> nat" where
  "byte c \<equiv> of_char c"

definition between :: "nat \<Rightarrow> nat \<Rightarrow> char \<Rightarrow> bool" where
  "between lo hi c \<longleftrightarrow> lo \<le> byte c \<and> byte c \<le> hi"

definition is_cont :: "char \<Rightarrow> bool" where
  "is_cont c \<longleftrightarrow> between 0x80 0xBF c"

definition RuneStart :: "char \<Rightarrow> bool" where
  "RuneStart c \<longleftrightarrow> \<not> is_cont c"

text \<open>The length of the encoding at the front; 0 when it is not well formed (or there is none).\<close>

definition pair2 :: "char \<Rightarrow> char \<Rightarrow> bool" where
  "pair2 a b \<longleftrightarrow> between 0xC2 0xDF a \<and> is_cont b"

definition pair3 :: "char \<Rightarrow> char \<Rightarrow> bool" where
  "pair3 a b \<longleftrightarrow>
     (byte a = 0xE0 \<and> between 0xA0 0xBF b) \<or> (byte a = 0xED \<and> between 0x80 0x9F b) \<or>
     (between 0xE1 0xEC a \<and> is_cont b) \<or> (between 0xEE 0xEF a \<and> is_cont b)"

definition pair4 :: "char \<Rightarrow> char \<Rightarrow> bool" where
  "pair4 a b \<longleftrightarrow>
     (byte a = 0xF0 \<and> between 0x90 0xBF b) \<or> (byte a = 0xF4 \<and> between 0x80 0x8F b) \<or>
     (between 0xF1 0xF3 a \<and> is_cont b)"

fun rune_len :: "string \<Rightarrow> nat" where
  "rune_len [] = 0"
| "rune_len (a # s) =
     (if byte a < 0x80 then 1
      else case s of
        [] \<Rightarrow> 0
      | b # s \<Rightarrow>
          if pair2 a b then 2
          else case s of
            [] \<Rightarrow> 0
          | c # s \<Rightarrow>
              if pair3 a b \<and> is_cont c then 3
              else case s of
                [] \<Rightarrow> 0
              | d # s \<Rightarrow> if pair4 a b \<and> is_cont c \<and> is_cont d then 4 else 0)"

lemma rune_len_le: "rune_len s \<le> length s"
  by (cases s) (auto split: list.splits)

function ValidString :: "string \<Rightarrow> bool" where
  "ValidString s =
     (if s = [] then True else if rune_len s = 0 then False else ValidString (drop (rune_len s) s))"
  by pat_completeness auto
termination
  by (relation "measure length") (auto simp: diff_less)

declare ValidString.simps [simp del]

text \<open>\<open>utf8.RuneCount\<close>: a byte that starts no well-formed encoding counts as one rune.\<close>

function RuneCount :: "string \<Rightarrow> nat" where
  "RuneCount s = (if s = [] then 0 else Suc (RuneCount (drop (max 1 (rune_len s)) s)))"
  by pat_completeness auto
termination
  by (relation "measure length") (auto simp: diff_less)

declare RuneCount.simps [simp del]

lemma ValidString_Nil [simp]: "ValidString []"
  by (subst ValidString.simps) simp

lemma ValidString_ascii [simp]: "byte a < 0x80 \<Longrightarrow> ValidString (a # s) = ValidString s"
  by (subst ValidString.simps) simp

lemma rune_len_append: "0 < rune_len s \<Longrightarrow> rune_len (s @ t) = rune_len s"
  by (cases s) (auto split: list.splits if_splits)

lemma ValidString_append:
  "ValidString s \<Longrightarrow> ValidString (s @ t) = ValidString t"
proof (induction s rule: ValidString.induct)
  case (1 s)
  show ?case
  proof (cases "s = []")
    case False
    then have r: "rune_len s \<noteq> 0" and v: "ValidString (drop (rune_len s) s)"
      using "1.prems" by (simp_all add: ValidString.simps[of s] split: if_splits)
    have "ValidString (s @ t) = ValidString (drop (rune_len s) (s @ t))"
      using r False by (subst ValidString.simps) (simp add: rune_len_append)
    also have "drop (rune_len s) (s @ t) = drop (rune_len s) s @ t"
      using rune_len_le[of s] by simp
    finally show ?thesis using "1.IH"[OF False r v] by simp
  qed simp
qed

lemma ValidString_ascii_all: "\<forall>c \<in> set s. byte c < 0x80 \<Longrightarrow> ValidString s"
  by (induction s) auto

text \<open>Inside a well-formed encoding every byte but the first is a continuation byte.\<close>

lemma rune_len_conts:
  assumes "0 < i" and "i < rune_len s"
  shows "is_cont (s ! i)"
proof -
  have cont: "pair2 a b \<Longrightarrow> is_cont b" "pair3 a b \<Longrightarrow> is_cont b" "pair4 a b \<Longrightarrow> is_cont b" for a b
    by (auto simp: pair2_def pair3_def pair4_def is_cont_def between_def)
  have "rune_len s \<le> 4" by (cases s) (auto split: list.splits)
  then have "i = 1 \<or> i = 2 \<or> i = 3" using assms by linarith
  then show ?thesis
    using assms by (cases s) (auto dest: cont split: list.splits if_splits)
qed

lemma ValidString_cut:
  assumes "ValidString s" and "n < length s" and "RuneStart (s ! n)"
  shows "ValidString (take n s)"
  using assms
proof (induction s arbitrary: n rule: ValidString.induct)
  case (1 s)
  have ne: "s \<noteq> []" using "1.prems"(2) by auto
  let ?k = "rune_len s"
  have r: "?k \<noteq> 0" and v: "ValidString (drop ?k s)"
    using "1.prems"(1) ne by (simp_all add: ValidString.simps[of s] split: if_splits)
  show ?case
  proof (cases "n < ?k")
    case True
    then have "n = 0" using rune_len_conts[of n s] "1.prems"(3) by (auto simp: RuneStart_def)
    then show ?thesis by simp
  next
    case False
    have "ValidString (take (n - ?k) (drop ?k s))"
      using False "1.prems"(2,3) rune_len_le[of s] by (intro "1.IH"[OF ne r v]) auto
    moreover have "ValidString (take ?k s)"
    proof -
      have tl: "length (take ?k s) = ?k" using rune_len_le[of s] by simp
      have "rune_len (take ?k s) = ?k"
        using r by (cases s) (auto split: list.splits if_splits)
      then show ?thesis using r by (subst ValidString.simps) simp
    qed
    moreover have "take n s = take ?k s @ take (n - ?k) (drop ?k s)"
      using False by (metis le_add_diff_inverse not_less take_add)
    ultimately show ?thesis by (simp add: ValidString_append)
  qed
qed

lemma rune_len_ascii [simp]: "byte a < 0x80 \<Longrightarrow> rune_len (a # s) = 1"
  by simp

declare rune_len.simps(2) [simp del]

lemma byte_less: "byte c < 256"
  by simp

text \<open>Every byte of a multi-byte encoding is above the ASCII range.\<close>

lemma rune_high:
  assumes "\<not> byte b < 0x80"
  shows "\<forall>c \<in> set (take (rune_len (b # s)) (b # s)). \<not> byte c < 0x80"
proof
  fix c assume "c \<in> set (take (rune_len (b # s)) (b # s))"
  then obtain i where i: "i < rune_len (b # s)" "c = (b # s) ! i"
    by (auto simp: in_set_conv_nth)
  show "\<not> byte c < 0x80"
  proof (cases "i = 0")
    case False
    then have "is_cont c" using rune_len_conts[of i "b # s"] i by simp
    then show ?thesis by (simp add: is_cont_def between_def)
  qed (use i assms in simp)
qed

lemma ValidString_Cons:
  "ValidString (b # r) \<longleftrightarrow> rune_len (b # r) \<noteq> 0 \<and> ValidString (drop (rune_len (b # r)) (b # r))"
  by (subst ValidString.simps) simp

end
