(* ===== verification/Validate.thy ===== *)
theory Validate
  imports Utf8
begin

text \<open>
  Ingress validation of the webhook payloads, \<open>internal/webhook/validate.go\<close>. A validator returns
  \<open>None\<close> for Go's \<open>nil\<close> and \<open>Some\<close> of the error otherwise; the checks run in the order of the code, so
  the error names the first offending field. The payload records have the fields the repository
  reads. \<open>net/url.Parse\<close> is an argument \<open>parse\<close>: the theorems hold for every parser; \<open>URL.Hostname\<close>
  is modelled.
\<close>

section \<open>Errors and characters\<close>

datatype validation_error =
    ValidationError (ve_field: string) (ve_reason: string)
  | UnknownPayloadType (ve_type: string)

definition digit_char :: "nat \<Rightarrow> char" where
  "digit_char d = char_of (48 + d)"

fun dec :: "nat \<Rightarrow> string" where
  "dec n = (if n < 10 then [digit_char n] else dec (n div 10) @ [digit_char (n mod 10)])"

declare dec.simps [simp del]

definition ve_Error :: "validation_error \<Rightarrow> string" where
  "ve_Error e = (case e of
       ValidationError f r \<Rightarrow> ''invalid '' @ f @ '': '' @ r
     | UnknownPayloadType t \<Rightarrow> ''unknown payload type '' @ t)"

definition is_lower :: "char \<Rightarrow> bool" where "is_lower c \<longleftrightarrow> between 97 122 c"
definition is_upper :: "char \<Rightarrow> bool" where "is_upper c \<longleftrightarrow> between 65 90 c"
definition is_digit :: "char \<Rightarrow> bool" where "is_digit c \<longleftrightarrow> between 48 57 c"

definition is_alnum :: "char \<Rightarrow> bool" where
  "is_alnum c \<longleftrightarrow> is_lower c \<or> is_upper c \<or> is_digit c"

text \<open>\<open>[A-Za-z0-9_.-]\<close>, \<open>[A-Za-z0-9._/-]\<close> and \<open>[A-Za-z0-9.-]\<close>\<close>

definition ident_char :: "char \<Rightarrow> bool" where
  "ident_char c \<longleftrightarrow> is_alnum c \<or> c \<in> set ''_.-''"

definition branch_char :: "char \<Rightarrow> bool" where
  "branch_char c \<longleftrightarrow> is_alnum c \<or> c \<in> set ''._/-''"

definition host_char :: "char \<Rightarrow> bool" where
  "host_char c \<longleftrightarrow> is_alnum c \<or> c \<in> set ''.-''"

definition re_match :: "(char \<Rightarrow> bool) \<Rightarrow> nat \<Rightarrow> nat \<Rightarrow> string \<Rightarrow> bool" where
  "re_match P lo hi s \<longleftrightarrow> lo \<le> length s \<and> length s \<le> hi \<and> list_all P s"

definition identRE :: "string \<Rightarrow> bool" where "identRE = re_match ident_char 1 64"
definition branchRE :: "string \<Rightarrow> bool" where "branchRE = re_match branch_char 1 200"
definition hostRE :: "string \<Rightarrow> bool" where "hostRE s \<longleftrightarrow> s \<noteq> [] \<and> list_all host_char s"
definition messageIDRE :: "string \<Rightarrow> bool" where "messageIDRE = re_match ident_char 1 128"

definition taskSkillNamePattern :: "string \<Rightarrow> bool" where
  "taskSkillNamePattern s = (case s of
       [] \<Rightarrow> False
     | a # s \<Rightarrow> (is_lower a \<or> is_digit a) \<and> list_all (\<lambda>c. is_lower c \<or> is_digit c \<or> c \<in> set ''._-'') s)"

definition claude_prefix :: string where "claude_prefix = ''claude-''"

definition chatModelPattern :: "string \<Rightarrow> bool" where
  "chatModelPattern s \<longleftrightarrow> take 7 s = claude_prefix \<and>
     re_match (\<lambda>c. is_lower c \<or> is_digit c \<or> c \<in> set ''.-'') 1 64 (drop 7 s)"

definition chatResumeRolePattern :: "string \<Rightarrow> bool" where
  "chatResumeRolePattern s \<longleftrightarrow>
     s \<in> set [''user'', ''assistant_text'', ''tool_call'', ''tool_result_summary'', ''user_question'']"

definition chatModelReason :: string where
  "chatModelReason = ''must match ^claude-[a-z0-9.-]{1,64}$''"

definition containsCtlBytes :: "string \<Rightarrow> bool" where
  "containsCtlBytes s \<longleftrightarrow> list_ex (\<lambda>c. c = CHR 0x0A \<or> c = CHR 0x0D \<or> c = CHR 0x00) s"

definition has_nul :: "string \<Rightarrow> bool" where
  "has_nul s \<longleftrightarrow> CHR 0x00 \<in> set s"

abbreviation starts_dash :: "string \<Rightarrow> bool" where
  "starts_dash s \<equiv> (case s of [] \<Rightarrow> False | c # _ \<Rightarrow> c = CHR ''-'')"

definition MaxMessageContentBytes :: nat where "MaxMessageContentBytes = 8192"
definition maxMCPAPIKeyBytes :: nat where "maxMCPAPIKeyBytes = 1024"
definition maxTaskSkills :: nat where "maxTaskSkills = 64"
definition chatResumeMaxTurns :: nat where "chatResumeMaxTurns = 600"
definition chatResumeMaxContentBytes :: nat where "chatResumeMaxContentBytes = 4 * 1024"
definition chatPrimerMaxBytes :: nat where "chatPrimerMaxBytes = 64 * 1024"

section \<open>Field validators\<close>

type_synonym check = "validation_error option"

text \<open>\<open>if err := f(); err != nil { return err }\<close>\<close>

definition and_then :: "check \<Rightarrow> check \<Rightarrow> check" where
  "and_then a b = (case a of None \<Rightarrow> b | Some e \<Rightarrow> Some e)"

definition fail_if :: "bool \<Rightarrow> string \<Rightarrow> string \<Rightarrow> check" where
  "fail_if b f r = (if b then Some (ValidationError f r) else None)"

definition validateIdent :: "string \<Rightarrow> string \<Rightarrow> check" where
  "validateIdent field v =
     (if v = [] then Some (ValidationError field ''required'')
      else if containsCtlBytes v then Some (ValidationError field ''control bytes not allowed'')
      else if \<not> identRE v then Some (ValidationError field ''must match [A-Za-z0-9_.-]{1,64}'')
      else if starts_dash v then Some (ValidationError field (''must not start with '-'' @ [CHR 0x27]))
      else None)"

definition validateBaseBranch :: "string \<Rightarrow> check" where
  "validateBaseBranch v =
     (if v = [] then None
      else if containsCtlBytes v then Some (ValidationError ''base_branch'' ''control bytes not allowed'')
      else if \<not> branchRE v then Some (ValidationError ''base_branch'' ''must match [A-Za-z0-9._/-]{1,200}'')
      else if starts_dash v then Some (ValidationError ''base_branch'' (''must not start with '-'' @ [CHR 0x27]))
      else None)"

record url =
  u_scheme :: string
  u_user :: "string option"
  u_host :: string

text \<open>\<open>strings.ToLower\<close> on the scheme, whose letters are ASCII.\<close>

definition lower_char :: "char \<Rightarrow> char" where
  "lower_char c = (if is_upper c then char_of (byte c + 32) else c)"

text \<open>
  \<open>URL.Hostname\<close>: strip a port that is empty or all digits, then the brackets of an IPv6 literal.
\<close>

definition validOptionalPort :: "string \<Rightarrow> bool" where
  "validOptionalPort p = (case p of [] \<Rightarrow> True | c # ds \<Rightarrow> c = CHR '':'' \<and> list_all is_digit ds)"

definition last_colon :: "string \<Rightarrow> string option" where
  "last_colon h =
     (if CHR '':'' \<in> set h then Some (CHR '':'' # rev (takeWhile (\<lambda>c. c \<noteq> CHR '':'') (rev h))) else None)"

definition strip_brackets :: "string \<Rightarrow> string" where
  "strip_brackets h =
     (if h \<noteq> [] \<and> hd h = CHR ''['' \<and> last h = CHR '']'' then tl (butlast h) else h)"

definition Hostname :: "url \<Rightarrow> string" where
  "Hostname u =
     (let h = u_host u in
      strip_brackets (case last_colon h of
         Some p \<Rightarrow> if validOptionalPort p then take (length h - length p) h else h
       | None \<Rightarrow> h))"

definition validateRepoURL :: "(string \<Rightarrow> url option) \<Rightarrow> string \<Rightarrow> check" where
  "validateRepoURL parse v =
     (if v = [] then Some (ValidationError ''repo_url'' ''required'')
      else if containsCtlBytes v then Some (ValidationError ''repo_url'' ''control bytes not allowed'')
      else case parse v of
        None \<Rightarrow> Some (ValidationError ''repo_url'' ''unparseable'')
      | Some u \<Rightarrow>
          let scheme = map lower_char (u_scheme u); host = Hostname u in
          if scheme \<noteq> ''https'' \<and> scheme \<noteq> ''ssh''
          then Some (ValidationError ''repo_url'' ''scheme must be https or ssh'')
          else if u_user u \<noteq> None then Some (ValidationError ''repo_url'' ''must not contain userinfo'')
          else if u_host u = [] then Some (ValidationError ''repo_url'' ''host is empty'')
          else if host = [] then Some (ValidationError ''repo_url'' ''host is empty'')
          else if \<not> hostRE host
          then Some (ValidationError ''repo_url'' ''host contains disallowed characters'')
          else None)"

definition validateContent :: "string \<Rightarrow> check" where
  "validateContent v =
     (if v = [] then Some (ValidationError ''content'' ''required'')
      else if length v > MaxMessageContentBytes then Some (ValidationError ''content'' ''exceeds 8192 bytes'')
      else if \<not> ValidString v then Some (ValidationError ''content'' ''not valid UTF-8'')
      else if has_nul v then Some (ValidationError ''content'' ''NUL byte not allowed'')
      else None)"

definition validateMCPAPIKey :: "string \<Rightarrow> check" where
  "validateMCPAPIKey v =
     (if v = [] then None
      else if length v > maxMCPAPIKeyBytes
      then Some (ValidationError ''mcp_api_key'' (''exceeds '' @ dec maxMCPAPIKeyBytes @ '' bytes''))
      else if \<not> ValidString v then Some (ValidationError ''mcp_api_key'' ''not valid UTF-8'')
      else if containsCtlBytes v then Some (ValidationError ''mcp_api_key'' ''control bytes not allowed'')
      else None)"

definition validateMessageID :: "string \<Rightarrow> check" where
  "validateMessageID v =
     (if v = [] then None
      else if containsCtlBytes v then Some (ValidationError ''message_id'' ''control bytes not allowed'')
      else if \<not> messageIDRE v
      then Some (ValidationError ''message_id'' ''must match [A-Za-z0-9_.-]{1,128}'')
      else None)"

definition ValidateTaskSkills :: "string list \<Rightarrow> check" where
  "ValidateTaskSkills skills =
     (if length skills > maxTaskSkills
      then Some (ValidationError ''task_skills''
                   (''too many entries: '' @ dec (length skills) @ '' > '' @ dec maxTaskSkills))
      else if list_ex (\<lambda>s. \<not> taskSkillNamePattern s) skills
      then Some (ValidationError ''task_skills'' ''name must match ^[a-z0-9][a-z0-9._-]*$'')
      else None)"

section \<open>Payloads\<close>

record trigger_payload =
  tp_card :: string
  tp_project :: string
  tp_repo_url :: string
  tp_base_branch :: string
  tp_model :: string
  tp_mcp_api_key :: string
  tp_task_skills :: "string list option"

record card_payload =
  cp_card :: string
  cp_project :: string

record message_payload =
  mp_session :: string
  mp_card :: string
  mp_project :: string
  mp_content :: string
  mp_message_id :: string

record resume_turn =
  rt_role :: string
  rt_content :: string

record chat_start_payload =
  cs_session :: string
  cs_project :: string
  cs_repo_url :: string
  cs_model :: string
  cs_mcp_api_key :: string
  cs_resume :: "resume_turn list option"
  cs_primer :: string

definition validateTrigger :: "(string \<Rightarrow> url option) \<Rightarrow> trigger_payload \<Rightarrow> check" where
  "validateTrigger parse p =
     and_then (validateIdent ''card_id'' (tp_card p)) (
     and_then (validateIdent ''project'' (tp_project p)) (
     and_then (validateRepoURL parse (tp_repo_url p)) (
     and_then (validateBaseBranch (tp_base_branch p)) (
     and_then (fail_if (tp_model p \<noteq> [] \<and> \<not> chatModelPattern (tp_model p)) ''model'' chatModelReason) (
     and_then (validateMCPAPIKey (tp_mcp_api_key p)) (
     case tp_task_skills p of None \<Rightarrow> None | Some skills \<Rightarrow> ValidateTaskSkills skills))))))"

definition validateKill :: "card_payload \<Rightarrow> check" where
  "validateKill p = and_then (validateIdent ''card_id'' (cp_card p)) (validateIdent ''project'' (cp_project p))"

definition validateStopAll :: "string \<Rightarrow> check" where
  "validateStopAll project = (if project = [] then None else validateIdent ''project'' project)"

definition validateMessage :: "message_payload \<Rightarrow> check" where
  "validateMessage p =
     and_then
       (if mp_session p \<noteq> []
        then if mp_card p \<noteq> [] \<or> mp_project p \<noteq> []
             then Some (ValidationError ''session_id'' ''must not coexist with card_id/project'')
             else validateIdent ''session_id'' (mp_session p)
        else and_then (validateIdent ''card_id'' (mp_card p)) (validateIdent ''project'' (mp_project p)))
     (and_then (validateContent (mp_content p)) (validateMessageID (mp_message_id p)))"

definition validatePromote :: "card_payload \<Rightarrow> check" where
  "validatePromote p = and_then (validateIdent ''card_id'' (cp_card p)) (validateIdent ''project'' (cp_project p))"

definition validateEndSession :: "card_payload \<Rightarrow> check" where
  "validateEndSession p = and_then (validateIdent ''card_id'' (cp_card p)) (validateIdent ''project'' (cp_project p))"

definition turn_field :: "nat \<Rightarrow> string \<Rightarrow> string" where
  "turn_field i f = ''resume.turns['' @ dec i @ '']'' @ f"

text \<open>The body of the loop over the turns, for turn number \<open>i\<close>.\<close>

definition validateTurn :: "nat \<Rightarrow> resume_turn \<Rightarrow> check" where
  "validateTurn i t =
     (if \<not> chatResumeRolePattern (rt_role t)
      then Some (ValidationError (turn_field i ''.role'')
        ''must match ^(user|assistant_text|tool_call|tool_result_summary|user_question)$'')
      else if length (rt_content t) > chatResumeMaxContentBytes
      then Some (ValidationError (turn_field i ''.content'')
        (''too long: '' @ dec (length (rt_content t)) @ '' > '' @ dec chatResumeMaxContentBytes @ '' bytes''))
      else if \<not> ValidString (rt_content t)
      then Some (ValidationError (turn_field i ''.content'') ''must be valid UTF-8'')
      else if has_nul (rt_content t)
      then Some (ValidationError (turn_field i ''.content'') ''NUL byte not allowed'')
      else None)"

fun validateTurns :: "nat \<Rightarrow> resume_turn list \<Rightarrow> check" where
  "validateTurns i [] = None"
| "validateTurns i (t # ts) = and_then (validateTurn i t) (validateTurns (Suc i) ts)"

definition validateChatResume :: "resume_turn list \<Rightarrow> check" where
  "validateChatResume ts =
     (if length ts > chatResumeMaxTurns
      then Some (ValidationError ''resume.turns''
        (''too many turns: '' @ dec (length ts) @ '' > '' @ dec chatResumeMaxTurns))
      else validateTurns 0 ts)"

definition validatePrimer :: "string \<Rightarrow> check" where
  "validatePrimer s =
     (if s = [] then None
      else if length s > chatPrimerMaxBytes
      then Some (ValidationError ''primer''
        (''too long: '' @ dec (length s) @ '' > '' @ dec chatPrimerMaxBytes @ '' bytes''))
      else if \<not> ValidString s then Some (ValidationError ''primer'' ''must be valid UTF-8'')
      else if has_nul s then Some (ValidationError ''primer'' ''NUL byte not allowed'')
      else None)"

definition validateChatStart :: "(string \<Rightarrow> url option) \<Rightarrow> chat_start_payload \<Rightarrow> check" where
  "validateChatStart parse p =
     and_then (validateIdent ''session_id'' (cs_session p)) (
     and_then (if cs_project p \<noteq> [] then validateIdent ''project'' (cs_project p) else None) (
     and_then (if cs_repo_url p \<noteq> [] then validateRepoURL parse (cs_repo_url p) else None) (
     and_then (fail_if (cs_model p \<noteq> [] \<and> \<not> chatModelPattern (cs_model p)) ''model'' chatModelReason) (
     and_then (validateMCPAPIKey (cs_mcp_api_key p)) (
     and_then (case cs_resume p of None \<Rightarrow> None | Some ts \<Rightarrow> validateChatResume ts) (
     validatePrimer (cs_primer p)))))))"

definition validateChatEnd :: "string \<Rightarrow> check" where
  "validateChatEnd session = validateIdent ''session_id'' session"

text \<open>A payload comes as a pointer, possibly nil, or as a value.\<close>

datatype 'a arg = Ptr "'a option" | Val 'a

datatype payload =
    PTrigger "trigger_payload arg"
  | PKill "card_payload arg"
  | PStopAll "string arg"
  | PMessage "message_payload arg"
  | PPromote "card_payload arg"
  | PEndSession "card_payload arg"
  | PChatStart "chat_start_payload arg"
  | PChatEnd "string arg"
  | POther string

definition on_arg :: "('a \<Rightarrow> check) \<Rightarrow> 'a arg \<Rightarrow> check" where
  "on_arg f a = (case a of Ptr None \<Rightarrow> None | Ptr (Some x) \<Rightarrow> f x | Val x \<Rightarrow> f x)"

definition ValidatePayload :: "(string \<Rightarrow> url option) \<Rightarrow> payload \<Rightarrow> check" where
  "ValidatePayload parse p = (case p of
       PTrigger a \<Rightarrow> on_arg (validateTrigger parse) a
     | PKill a \<Rightarrow> on_arg validateKill a
     | PStopAll a \<Rightarrow> on_arg validateStopAll a
     | PMessage a \<Rightarrow> on_arg validateMessage a
     | PPromote a \<Rightarrow> on_arg validatePromote a
     | PEndSession a \<Rightarrow> on_arg validateEndSession a
     | PChatStart a \<Rightarrow> on_arg (validateChatStart parse) a
     | PChatEnd a \<Rightarrow> on_arg validateChatEnd a
     | POther t \<Rightarrow> Some (UnknownPayloadType t))"

section \<open>What acceptance means\<close>

lemma and_then_None [simp]: "and_then a b = None \<longleftrightarrow> a = None \<and> b = None"
  by (cases a) (simp_all add: and_then_def)

lemma fail_if_None [simp]: "fail_if b f r = None \<longleftrightarrow> \<not> b"
  by (simp add: fail_if_def)

lemma containsCtlBytes_iff: "containsCtlBytes s \<longleftrightarrow> CHR 0x0A \<in> set s \<or> CHR 0x0D \<in> set s \<or> CHR 0x00 \<in> set s"
  by (auto simp: containsCtlBytes_def list_ex_iff)

lemmas char_classes = ident_char_def branch_char_def host_char_def is_alnum_def is_lower_def
  is_upper_def is_digit_def between_def

text \<open>The identifiers the validator lets through, spelled out.\<close>

definition ident_ok :: "string \<Rightarrow> bool" where
  "ident_ok v \<longleftrightarrow> v \<noteq> [] \<and> length v \<le> 64 \<and> (\<forall>c \<in> set v. ident_char c) \<and> hd v \<noteq> CHR ''-''"

lemma ident_char_not: "ident_char c \<Longrightarrow> c \<notin> {CHR 0x00, CHR 0x0A, CHR 0x0D, CHR ''/'', CHR '' ''}"
  by (auto simp: char_classes)

lemma branch_char_not: "branch_char c \<Longrightarrow> c \<notin> {CHR 0x00, CHR 0x0A, CHR 0x0D, CHR '' ''}"
  by (auto simp: char_classes)

lemma re_match_ctl:
  assumes "re_match P lo hi v" and "\<And>c. P c \<Longrightarrow> c \<notin> {CHR 0x00, CHR 0x0A, CHR 0x0D}"
  shows "\<not> containsCtlBytes v"
  using assms by (auto simp: re_match_def list_all_iff containsCtlBytes_iff)

lemma starts_dash_hd: "v \<noteq> [] \<Longrightarrow> starts_dash v \<longleftrightarrow> hd v = CHR ''-''"
  by (cases v) auto

lemma validateIdent_None [simp]: "validateIdent f v = None \<longleftrightarrow> ident_ok v"
proof (cases "v = []")
  case False
  have "identRE v \<Longrightarrow> \<not> containsCtlBytes v"
    unfolding identRE_def by (erule re_match_ctl) (use ident_char_not in blast)
  then show ?thesis
    using False by (auto simp: validateIdent_def ident_ok_def identRE_def re_match_def list_all_iff
        starts_dash_hd[OF False] Suc_le_eq)
qed (simp add: validateIdent_def ident_ok_def)

lemma ident_ok_not:
  "ident_ok v \<Longrightarrow> CHR 0x00 \<notin> set v \<and> CHR ''/'' \<notin> set v \<and> CHR 0x0A \<notin> set v \<and> CHR 0x0D \<notin> set v"
  unfolding ident_ok_def using ident_char_not by blast

definition branch_ok :: "string \<Rightarrow> bool" where
  "branch_ok v \<longleftrightarrow> v = [] \<or> (length v \<le> 200 \<and> (\<forall>c \<in> set v. branch_char c) \<and> hd v \<noteq> CHR ''-'')"

lemma validateBaseBranch_None [simp]: "validateBaseBranch v = None \<longleftrightarrow> branch_ok v"
proof (cases "v = []")
  case False
  have "branchRE v \<Longrightarrow> \<not> containsCtlBytes v"
    unfolding branchRE_def by (erule re_match_ctl) (use branch_char_not in blast)
  then show ?thesis
    using False by (auto simp: validateBaseBranch_def branch_ok_def branchRE_def re_match_def list_all_iff
        starts_dash_hd[OF False] Suc_le_eq)
qed (simp add: validateBaseBranch_def branch_ok_def)

definition repo_url_ok :: "(string \<Rightarrow> url option) \<Rightarrow> string \<Rightarrow> bool" where
  "repo_url_ok parse v \<longleftrightarrow> v \<noteq> [] \<and> \<not> containsCtlBytes v \<and>
     (\<exists>u. parse v = Some u \<and> map lower_char (u_scheme u) \<in> {''https'', ''ssh''} \<and> u_user u = None \<and>
       Hostname u \<noteq> [] \<and> (\<forall>c \<in> set (Hostname u). host_char c))"

lemma Hostname_empty: "u_host u = [] \<Longrightarrow> Hostname u = []"
  by (simp add: Hostname_def last_colon_def strip_brackets_def Let_def)

lemma validateRepoURL_None [simp]: "validateRepoURL parse v = None \<longleftrightarrow> repo_url_ok parse v"
  by (cases "parse v")
    (auto simp: validateRepoURL_def repo_url_ok_def Let_def hostRE_def list_all_iff Hostname_empty)

definition content_ok :: "string \<Rightarrow> bool" where
  "content_ok v \<longleftrightarrow> v \<noteq> [] \<and> length v \<le> 8192 \<and> ValidString v \<and> CHR 0x00 \<notin> set v"

lemma validateContent_None [simp]: "validateContent v = None \<longleftrightarrow> content_ok v"
  by (auto simp: validateContent_def content_ok_def MaxMessageContentBytes_def has_nul_def)

definition api_key_ok :: "string \<Rightarrow> bool" where
  "api_key_ok v \<longleftrightarrow> length v \<le> 1024 \<and> ValidString v \<and> \<not> containsCtlBytes v"

lemma validateMCPAPIKey_None [simp]: "validateMCPAPIKey v = None \<longleftrightarrow> api_key_ok v"
  by (auto simp: validateMCPAPIKey_def api_key_ok_def maxMCPAPIKeyBytes_def containsCtlBytes_iff)

definition message_id_ok :: "string \<Rightarrow> bool" where
  "message_id_ok v \<longleftrightarrow> length v \<le> 128 \<and> (\<forall>c \<in> set v. ident_char c)"

lemma validateMessageID_None [simp]: "validateMessageID v = None \<longleftrightarrow> message_id_ok v"
proof (cases "v = []")
  case False
  have "messageIDRE v \<Longrightarrow> \<not> containsCtlBytes v"
    unfolding messageIDRE_def by (erule re_match_ctl) (use ident_char_not in blast)
  then show ?thesis using False
    by (auto simp: validateMessageID_def message_id_ok_def messageIDRE_def re_match_def list_all_iff Suc_le_eq)
qed (simp add: validateMessageID_def message_id_ok_def)

definition skills_ok :: "string list \<Rightarrow> bool" where
  "skills_ok ss \<longleftrightarrow> length ss \<le> 64 \<and> (\<forall>s \<in> set ss. taskSkillNamePattern s)"

lemma ValidateTaskSkills_None [simp]: "ValidateTaskSkills ss = None \<longleftrightarrow> skills_ok ss"
  by (auto simp: ValidateTaskSkills_def skills_ok_def maxTaskSkills_def list_ex_iff)

definition turn_ok :: "resume_turn \<Rightarrow> bool" where
  "turn_ok t \<longleftrightarrow> chatResumeRolePattern (rt_role t) \<and> length (rt_content t) \<le> 4096 \<and>
     ValidString (rt_content t) \<and> CHR 0x00 \<notin> set (rt_content t)"

lemma validateTurn_None [simp]: "validateTurn i t = None \<longleftrightarrow> turn_ok t"
  by (auto simp: validateTurn_def turn_ok_def chatResumeMaxContentBytes_def has_nul_def)

lemma validateTurns_None [simp]: "validateTurns i ts = None \<longleftrightarrow> (\<forall>t \<in> set ts. turn_ok t)"
  by (induction ts arbitrary: i) auto

lemma validateChatResume_None [simp]:
  "validateChatResume ts = None \<longleftrightarrow> length ts \<le> 600 \<and> (\<forall>t \<in> set ts. turn_ok t)"
  by (auto simp: validateChatResume_def chatResumeMaxTurns_def)

lemma validatePrimer_None [simp]:
  "validatePrimer s = None \<longleftrightarrow> length s \<le> 65536 \<and> ValidString s \<and> CHR 0x00 \<notin> set s"
  by (auto simp: validatePrimer_def chatPrimerMaxBytes_def has_nul_def)

text \<open>
  C6. \<open>/trigger\<close> accepts exactly the payloads whose fields are all within their language: identifiers
  without a leading dash (so never an option of \<open>docker\<close> or \<open>git\<close>), a credential-free https or ssh URL
  with a plain host name, a branch name, a \<open>claude-*\<close> model, a bounded control-free API key and at most 64
  skill names. Accepted identifiers contain no slash, NUL or newline, so the keys and environment lines
  built from them cannot be split.
\<close>

theorem trigger_accept_exact:
  "(ValidatePayload parse (PTrigger (Ptr (Some p))) = None \<longleftrightarrow>
     ident_ok (tp_card p) \<and> ident_ok (tp_project p) \<and> repo_url_ok parse (tp_repo_url p) \<and>
     branch_ok (tp_base_branch p) \<and> (tp_model p = [] \<or> chatModelPattern (tp_model p)) \<and>
     api_key_ok (tp_mcp_api_key p) \<and> pred_option skills_ok (tp_task_skills p)) \<and>
   (ident_ok v \<longrightarrow> (\<forall>c \<in> set v. c \<notin> {CHR 0x00, CHR 0x0A, CHR 0x0D, CHR ''/'', CHR '' ''}))"
proof
  show "ident_ok v \<longrightarrow> (\<forall>c \<in> set v. c \<notin> {CHR 0x00, CHR 0x0A, CHR 0x0D, CHR ''/'', CHR '' ''})"
    using ident_char_not by (auto simp: ident_ok_def)
qed (cases "tp_task_skills p", auto simp: ValidatePayload_def on_arg_def validateTrigger_def)

definition example_trigger :: trigger_payload where
  "example_trigger = \<lparr>tp_card = ''ALPHA-001'', tp_project = ''alpha'', tp_repo_url = ''https://h/r'',
     tp_base_branch = ''main'', tp_model = ''claude-x'', tp_mcp_api_key = ''k'',
     tp_task_skills = Some [''go-dev'']\<rparr>"

definition example_parse :: "string \<Rightarrow> url option" where
  "example_parse v = Some \<lparr>u_scheme = ''https'', u_user = None, u_host = ''h:443''\<rparr>"

theorem trigger_accept_exact_witness:
  "ValidatePayload example_parse (PTrigger (Ptr (Some example_trigger))) = None \<and>
   CHR ''/'' \<notin> set ''ALPHA-001''"
proof -
  have v: "ident_ok ''ALPHA-001''" by code_simp
  have n: "ValidatePayload example_parse (PTrigger (Ptr (Some example_trigger))) = None" by code_simp
  show ?thesis
    using trigger_accept_exact[of example_parse example_trigger "''ALPHA-001''"] v n by blast
qed

text \<open>
  \<open>/message\<close> accepts exactly one addressing mode: a session id alone or a card and its project,
  never both and never none; the content is non-empty valid UTF-8 of at most 8192 bytes without NUL.
\<close>

theorem message_accept_exact:
  "ValidatePayload parse (PMessage (Val p)) = None \<longleftrightarrow>
     ((ident_ok (mp_session p) \<and> mp_card p = [] \<and> mp_project p = []) \<or>
      (mp_session p = [] \<and> ident_ok (mp_card p) \<and> ident_ok (mp_project p))) \<and>
     content_ok (mp_content p) \<and> message_id_ok (mp_message_id p)"
proof -
  have "ident_ok [] = False" by (simp add: ident_ok_def)
  then show ?thesis by (auto simp: ValidatePayload_def on_arg_def validateMessage_def)
qed

text \<open>
  An accepted \<open>/chat/start\<close> payload is bounded: at most 600 turns in the five known roles, each of at
  most 4096 bytes (2,457,600 bytes in all), a primer of at most 64 KiB, all of it valid UTF-8 without
  NUL.
\<close>

theorem chat_start_bounded:
  assumes "ValidatePayload parse (PChatStart (Ptr (Some p))) = None" and "cs_resume p = Some ts"
  shows "ident_ok (cs_session p) \<and> length ts \<le> 600 \<and>
     (\<forall>t \<in> set ts. turn_ok t) \<and> sum_list (map (length \<circ> rt_content) ts) \<le> 2457600 \<and>
     length (cs_primer p) \<le> 65536 \<and> ValidString (cs_primer p)"
proof -
  have t: "length ts \<le> 600" "\<forall>t \<in> set ts. turn_ok t" and
    o: "ident_ok (cs_session p)" "length (cs_primer p) \<le> 65536" "ValidString (cs_primer p)"
    using assms by (simp_all add: ValidatePayload_def on_arg_def validateChatStart_def)
  have "sum_list (map (length \<circ> rt_content) ts) \<le> length ts * 4096"
    using t(2) by (induction ts) (auto simp: turn_ok_def)
  then have "sum_list (map (length \<circ> rt_content) ts) \<le> 2457600" using t(1) by linarith
  then show ?thesis using t o by blast
qed

definition example_chat :: chat_start_payload where
  "example_chat = \<lparr>cs_session = ''s1'', cs_project = [], cs_repo_url = [], cs_model = [],
     cs_mcp_api_key = [], cs_resume = Some [\<lparr>rt_role = ''user'', rt_content = ''hi''\<rparr>], cs_primer = ''p''\<rparr>"

theorem chat_start_bounded_witness:
  "ValidatePayload example_parse (PChatStart (Ptr (Some example_chat))) = None \<and>
   turn_ok \<lparr>rt_role = ''user'', rt_content = ''hi''\<rparr> \<and> length (cs_primer example_chat) \<le> 65536"
proof -
  have "ValidatePayload example_parse (PChatStart (Ptr (Some example_chat))) = None" by code_simp
  then show ?thesis
    using chat_start_bounded[of example_parse example_chat "[\<lparr>rt_role = ''user'', rt_content = ''hi''\<rparr>]"]
    by (simp add: example_chat_def)
qed

end
