(* ===== verification/Registry_Interface.thy ===== *)
theory Registry_Interface
  imports Runner_Prelude
begin

text \<open>
  The contract of the container registry, as the \<open>/trigger\<close> and \<open>/chat/start\<close> handlers and the manager's
  cleanup path see it: a slot is reserved atomically under a limit before any Docker work, and
  released by whoever fails or finishes. Clients: the limit is never exceeded whatever the history, of
  two reservations of one key at most one succeeds, and a release undoes a reservation.
\<close>

datatype ('i, 'k) reg_op = RReserve 'i | RRelease 'k

locale registry =
  fixes reserve :: "'i \<Rightarrow> int \<Rightarrow> 's \<Rightarrow> ('e option \<times> 's)"
    and release :: "'k \<Rightarrow> 's \<Rightarrow> 's"
    and member :: "'k \<Rightarrow> 's \<Rightarrow> bool"
    and count :: "'s \<Rightarrow> nat"
    and key_of :: "'i \<Rightarrow> 'k"
    and ok :: "'s \<Rightarrow> bool"
    and fit :: "'i \<Rightarrow> bool"
  assumes reserve_ok: "ok s \<Longrightarrow> fit i \<Longrightarrow> ok (snd (reserve i L s))"
    and reserve_iff: "ok s \<Longrightarrow> fst (reserve i L s) = None \<longleftrightarrow> int (count s) < L \<and> \<not> member (key_of i) s"
    and reserve_fail: "ok s \<Longrightarrow> fst (reserve i L s) \<noteq> None \<Longrightarrow> snd (reserve i L s) = s"
    and reserve_count: "ok s \<Longrightarrow> fst (reserve i L s) = None \<Longrightarrow> count (snd (reserve i L s)) = Suc (count s)"
    and reserve_member: "ok s \<Longrightarrow> fst (reserve i L s) = None \<Longrightarrow>
          member k (snd (reserve i L s)) \<longleftrightarrow> k = key_of i \<or> member k s"
    and release_ok: "ok s \<Longrightarrow> ok (release k s)"
    and release_member: "ok s \<Longrightarrow> member j (release k s) \<longleftrightarrow> j \<noteq> k \<and> member j s"
    and release_count: "ok s \<Longrightarrow> count (release k s) = (if member k s then count s - 1 else count s)"
begin

fun reg_step :: "int \<Rightarrow> ('i, 'k) reg_op \<Rightarrow> 's \<Rightarrow> 's" where
  "reg_step L (RReserve i) s = snd (reserve i L s)"
| "reg_step L (RRelease k) s = release k s"

definition reg_run :: "int \<Rightarrow> ('i, 'k) reg_op list \<Rightarrow> 's \<Rightarrow> 's" where
  "reg_run L ops s = fold (reg_step L) ops s"

lemma reserve_within:
  assumes "ok s" and "int (count s) \<le> L"
  shows "int (count (snd (reserve i L s))) \<le> L"
proof (cases "fst (reserve i L s)")
  case None
  then have "int (count s) < L" using reserve_iff[OF assms(1)] by blast
  then show ?thesis using reserve_count[OF assms(1) None] by simp
next
  case (Some e)
  then show ?thesis using reserve_fail[OF assms(1)] assms(2) by simp
qed

lemma reg_step_inv:
  assumes "ok s" and "int (count s) \<le> L" and "\<forall>i. op = RReserve i \<longrightarrow> fit i"
  shows "ok (reg_step L op s) \<and> int (count (reg_step L op s)) \<le> L"
  using assms reserve_ok reserve_within release_ok release_count by (cases op) auto

lemma reg_run_inv:
  assumes "ok s" and "int (count s) \<le> L" and "\<forall>i. RReserve i \<in> set ops \<longrightarrow> fit i"
  shows "ok (reg_run L ops s) \<and> int (count (reg_run L ops s)) \<le> L"
  using assms
proof (induction ops arbitrary: s)
  case (Cons op ops)
  have "ok (reg_step L op s) \<and> int (count (reg_step L op s)) \<le> L"
    using Cons.prems by (intro reg_step_inv) auto
  then show ?case using Cons.IH Cons.prems(3) by (auto simp: reg_run_def)
qed (simp add: reg_run_def)

text \<open>Of two reservations of one key without a release in between the second fails.\<close>

lemma reserve_twice:
  assumes "ok s" and "fit i" and "fst (reserve i L s) = None" and "key_of j = key_of i"
  shows "fst (reserve j M (snd (reserve i L s))) \<noteq> None"
    and "snd (reserve j M (snd (reserve i L s))) = snd (reserve i L s)"
proof -
  have ok: "ok (snd (reserve i L s))" by (rule reserve_ok[OF assms(1,2)])
  have "member (key_of j) (snd (reserve i L s))" using reserve_member[OF assms(1,3)] assms(4) by simp
  then show *: "fst (reserve j M (snd (reserve i L s))) \<noteq> None" using reserve_iff[OF ok] by blast
  show "snd (reserve j M (snd (reserve i L s))) = snd (reserve i L s)"
    by (rule reserve_fail[OF ok *])
qed

lemma reserve_release:
  assumes "ok s" and "fit i" and "fst (reserve i L s) = None"
  shows "member k (release (key_of i) (snd (reserve i L s))) \<longleftrightarrow> member k s"
    and "count (release (key_of i) (snd (reserve i L s))) = count s"
proof -
  have ok: "ok (snd (reserve i L s))" by (rule reserve_ok[OF assms(1,2)])
  have "\<not> member (key_of i) s" using reserve_iff[OF assms(1)] assms(3) by blast
  then show "member k (release (key_of i) (snd (reserve i L s))) \<longleftrightarrow> member k s"
    using release_member[OF ok] reserve_member[OF assms(1,3)] by auto
  show "count (release (key_of i) (snd (reserve i L s))) = count s"
    using release_count[OF ok] reserve_member[OF assms(1,3)] reserve_count[OF assms(1,3)] by simp
qed

end

end
