(* ===== verification/Tracker.thy ===== *)
theory Tracker
  imports Registry_Interface "HOL-Library.AList" "HOL-Library.Multiset"
begin

text \<open>
  The container registry of \<open>internal/tracker/tracker.go\<close>. The map is an association list with distinct
  keys; \<open>stdinState\<close> values live on a heap (a list, a pointer is an index) because operations capture
  the pointer under the tracker lock and use it after the lock is released. What the outside sees
  (writes, closes, callbacks, cancellations) is appended to a trace. An operation is split where the
  code drops its lock: a map phase, a phase under the stdin lock, and calls made with no lock; the
  sequential operations compose the phases, the step relation interleaves them.
\<close>

section \<open>State\<close>

type_synonym writer = nat
type_synonym callback = nat

datatype tracker_error =
    ErrNoStdinAttached | ErrStdinClosed | ErrNotTracked | ErrLimitReached | ErrAlreadyTracked
  | ErrIO string

record stdin_state =
  ss_stdin :: "writer option"
  ss_onClose :: "callback option"

record container_info =
  ContainerID :: string
  CardID :: string
  Project :: string
  SessionID :: string
  Image :: string
  StartedAt :: time
  CancelFn :: "callback option"
  reason :: string
  stdin_ptr :: "nat option"

record container_snapshot =
  sn_ContainerID :: string
  sn_CardID :: string
  sn_Project :: string
  sn_SessionID :: string
  sn_Image :: string
  sn_StartedAt :: time

datatype effect =
    Attached "writer option" "callback option"
  | Wrote writer bytes
  | Closed writer
  | Ran callback
  | Cancelled callback
  | ForgotWriter writer
  | ForgotCallback callback

record tracker =
  containers :: "(string \<times> container_info) list"
  stdins :: "stdin_state list"
  trace :: "effect list"

definition snapshotLocked :: "container_info \<Rightarrow> container_snapshot" where
  "snapshotLocked ci = \<lparr>sn_ContainerID = ContainerID ci, sn_CardID = CardID ci, sn_Project = Project ci,
     sn_SessionID = SessionID ci, sn_Image = Image ci, sn_StartedAt = StartedAt ci\<rparr>"

definition tracker_New :: tracker where
  "tracker_New = \<lparr>containers = [], stdins = [], trace = []\<rparr>"

definition tkey :: "string \<Rightarrow> string \<Rightarrow> string" where
  "tkey project cardID = project @ CHR ''/'' # cardID"

definition chatKey :: "string \<Rightarrow> string" where
  "chatKey sessionID = CHR 0x00 # ''chat/'' @ sessionID"

text \<open>Events are newest first.\<close>

definition emit :: "effect list \<Rightarrow> tracker \<Rightarrow> tracker" where
  "emit es t = t\<lparr>trace := rev es @ trace t\<rparr>"

definition lookup_key :: "string \<Rightarrow> tracker \<Rightarrow> container_info option" where
  "lookup_key k t = map_of (containers t) k"

section \<open>Registration\<close>

definition add_key :: "string \<Rightarrow> container_info \<Rightarrow> tracker \<Rightarrow> tracker_error option \<times> tracker" where
  "add_key k info t =
     (case lookup_key k t of
        Some _ \<Rightarrow> (Some ErrAlreadyTracked, t)
      | None \<Rightarrow> (None, t\<lparr>containers := (k, info) # containers t\<rparr>))"

definition Count :: "tracker \<Rightarrow> nat" where
  "Count t = length (containers t)"

definition tracker_Add :: "container_info \<Rightarrow> tracker \<Rightarrow> tracker_error option \<times> tracker" where
  "tracker_Add info = add_key (tkey (Project info) (CardID info)) info"

definition AddChat :: "container_info \<Rightarrow> tracker \<Rightarrow> tracker_error option \<times> tracker" where
  "AddChat info = add_key (chatKey (SessionID info)) info"

definition AddIfUnderLimit ::
  "container_info \<Rightarrow> int \<Rightarrow> tracker \<Rightarrow> tracker_error option \<times> tracker" where
  "AddIfUnderLimit info limit t =
     (if int (Count t) \<ge> limit then (Some ErrLimitReached, t)
      else add_key (tkey (Project info) (CardID info)) info t)"

definition AddChatIfUnderLimit ::
  "container_info \<Rightarrow> int \<Rightarrow> tracker \<Rightarrow> tracker_error option \<times> tracker" where
  "AddChatIfUnderLimit info limit t =
     (if int (Count t) \<ge> limit then (Some ErrLimitReached, t)
      else add_key (chatKey (SessionID info)) info t)"

definition Snapshot :: "string \<Rightarrow> string \<Rightarrow> tracker \<Rightarrow> container_snapshot option" where
  "Snapshot project cardID t = map_option snapshotLocked (lookup_key (tkey project cardID) t)"

definition SnapshotChat :: "string \<Rightarrow> tracker \<Rightarrow> container_snapshot option" where
  "SnapshotChat sessionID t = map_option snapshotLocked (lookup_key (chatKey sessionID) t)"

definition Has :: "string \<Rightarrow> string \<Rightarrow> tracker \<Rightarrow> bool" where
  "Has project cardID t \<longleftrightarrow> lookup_key (tkey project cardID) t \<noteq> None"

definition HasChat :: "string \<Rightarrow> tracker \<Rightarrow> bool" where
  "HasChat sessionID t \<longleftrightarrow> lookup_key (chatKey sessionID) t \<noteq> None"

text \<open>Mutating the entry in place.\<close>

definition update_info :: "string \<Rightarrow> (container_info \<Rightarrow> container_info) \<Rightarrow> tracker \<Rightarrow> tracker" where
  "update_info k f t = t\<lparr>containers := map (\<lambda>(j, i). (j, if j = k then f i else i)) (containers t)\<rparr>"

definition UpdateContainerID :: "string \<Rightarrow> string \<Rightarrow> string \<Rightarrow> tracker \<Rightarrow> tracker" where
  "UpdateContainerID project cardID containerID =
     update_info (tkey project cardID) (\<lambda>i. i\<lparr>ContainerID := containerID\<rparr>)"

definition Reason :: "string \<Rightarrow> string \<Rightarrow> tracker \<Rightarrow> string" where
  "Reason project cardID t = (case lookup_key (tkey project cardID) t of Some i \<Rightarrow> reason i | None \<Rightarrow> [])"

definition ListSnapshotsByProject :: "string \<Rightarrow> tracker \<Rightarrow> container_snapshot list" where
  "ListSnapshotsByProject project t =
     map snapshotLocked (filter (\<lambda>i. Project i = project) (map snd (containers t)))"

definition AllSnapshots :: "tracker \<Rightarrow> container_snapshot list" where
  "AllSnapshots t = map snapshotLocked (map snd (containers t))"

section \<open>Phases\<close>

text \<open>
  Work left after the map phase: a phase under the stdin lock of a captured pointer, or a call
  made without any lock.
\<close>

datatype task =
    TWrite nat bytes
  | TMark nat
  | TClose nat
  | TTeardown nat
  | TCloseWriter "writer option" "callback option"
  | TRun callback
  | TCancel callback

text \<open>The first half of \<open>WriteStdin\<close>, \<open>MarkStdinClosed\<close> and \<open>CloseStdin\<close>: capture the pointer.\<close>

definition capture :: "string \<Rightarrow> tracker \<Rightarrow> tracker_error + nat" where
  "capture k t =
     (case lookup_key k t of
        None \<Rightarrow> Inl ErrNotTracked
      | Some info \<Rightarrow> (case stdin_ptr info of None \<Rightarrow> Inl ErrNoStdinAttached | Some p \<Rightarrow> Inr p))"

text \<open>The second halves, under the stdin lock; \<open>io\<close> is the error the writer returns, if any.\<close>

definition io_result :: "string option \<Rightarrow> tracker_error option" where
  "io_result io = map_option ErrIO io"

definition write_locked ::
  "nat \<Rightarrow> bytes \<Rightarrow> string option \<Rightarrow> tracker \<Rightarrow> tracker_error option \<times> tracker" where
  "write_locked p b io t =
     (case ss_stdin (stdins t ! p) of
        None \<Rightarrow> (Some ErrStdinClosed, t)
      | Some w \<Rightarrow> (io_result io, emit [Wrote w b] t))"

definition set_writer :: "nat \<Rightarrow> writer option \<Rightarrow> tracker \<Rightarrow> tracker" where
  "set_writer p w t = t\<lparr>stdins := (stdins t)[p := (stdins t ! p)\<lparr>ss_stdin := w\<rparr>]\<rparr>"

definition forget_writer :: "writer option \<Rightarrow> tracker \<Rightarrow> tracker" where
  "forget_writer w t = (case w of None \<Rightarrow> t | Some w \<Rightarrow> emit [ForgotWriter w] t)"

definition mark_locked :: "nat \<Rightarrow> tracker \<Rightarrow> tracker" where
  "mark_locked p t = set_writer p None (forget_writer (ss_stdin (stdins t ! p)) t)"

definition close_locked :: "nat \<Rightarrow> string option \<Rightarrow> tracker \<Rightarrow> tracker_error option \<times> tracker" where
  "close_locked p io t =
     (case ss_stdin (stdins t ! p) of
        None \<Rightarrow> (Some ErrStdinClosed, t)
      | Some w \<Rightarrow> (io_result io, set_writer p None (emit [Closed w] t)))"

text \<open>The goroutine of \<open>closeStdinAsync\<close> up to the unlock: the callback it captured runs afterwards.\<close>

definition teardown_locked :: "nat \<Rightarrow> tracker \<Rightarrow> callback option \<times> tracker" where
  "teardown_locked p t =
     (let s = stdins t ! p;
          t' = (case ss_stdin s of None \<Rightarrow> t | Some w \<Rightarrow> emit [Closed w] t)
      in (ss_onClose s, t'\<lparr>stdins := (stdins t)[p := \<lparr>ss_stdin = None, ss_onClose = None\<rparr>]\<rparr>))"

definition call_fn :: "(callback \<Rightarrow> effect) \<Rightarrow> callback option \<Rightarrow> tracker \<Rightarrow> tracker" where
  "call_fn ev f t = (case f of None \<Rightarrow> t | Some f \<Rightarrow> emit [ev f] t)"

definition closeStdinAsync :: "nat \<Rightarrow> tracker \<Rightarrow> tracker" where
  "closeStdinAsync p t = (case teardown_locked p t of (f, t') \<Rightarrow> call_fn Ran f t')"

definition closeWriterAsync :: "writer option \<Rightarrow> callback option \<Rightarrow> tracker \<Rightarrow> tracker" where
  "closeWriterAsync w f t =
     (if w = None \<and> f = None then t else call_fn Ran f (call_fn Closed w t))"

text \<open>\<open>SetStdin\<close>: allocate the state if the entry has none, then attach writer and callback.\<close>

definition attach :: "nat \<Rightarrow> writer option \<Rightarrow> callback option \<Rightarrow> tracker \<Rightarrow> tracker" where
  "attach p w f t =
     (let s = stdins t ! p;
          t1 = forget_writer (ss_stdin s) t;
          t2 = call_fn ForgotCallback (ss_onClose s) t1
      in t2\<lparr>stdins := (stdins t)[p := \<lparr>ss_stdin = w, ss_onClose = f\<rparr>]\<rparr>)"

definition set_stdin_map ::
  "string \<Rightarrow> writer option \<Rightarrow> callback option \<Rightarrow> tracker \<Rightarrow> tracker \<times> task list" where
  "set_stdin_map k w f t0 =
     (let t = emit [Attached w f] t0 in
      case lookup_key k t of
        None \<Rightarrow> (t, [TCloseWriter w f])
      | Some info \<Rightarrow>
          (case stdin_ptr info of
             Some p \<Rightarrow> (attach p w f t, [])
           | None \<Rightarrow>
               let p = length (stdins t);
                   t' = update_info k (\<lambda>i. i\<lparr>stdin_ptr := Some p\<rparr>)
                          (t\<lparr>stdins := stdins t @ [\<lparr>ss_stdin = None, ss_onClose = None\<rparr>]\<rparr>)
               in (attach p w f t', [])))"

definition remove_map :: "string \<Rightarrow> tracker \<Rightarrow> tracker \<times> task list" where
  "remove_map k t =
     (case lookup_key k t of
        None \<Rightarrow> (t, [])
      | Some info \<Rightarrow>
          (t\<lparr>containers := AList.delete k (containers t)\<rparr>,
           (case CancelFn info of None \<Rightarrow> [] | Some c \<Rightarrow> [TCancel c]) @
           (case stdin_ptr info of None \<Rightarrow> [] | Some p \<Rightarrow> [TTeardown p])))"

definition cancel_map :: "string \<Rightarrow> (container_info \<Rightarrow> container_info) \<Rightarrow> tracker \<Rightarrow> bool \<times> tracker \<times> task list" where
  "cancel_map k f t =
     (case lookup_key k t of
        None \<Rightarrow> (False, t, [])
      | Some info \<Rightarrow> (True, update_info k f t, (case CancelFn info of None \<Rightarrow> [] | Some c \<Rightarrow> [TCancel c])))"

text \<open>Running one piece of left-over work; a teardown leaves the call of the callback it captured.\<close>

fun run_task :: "task \<Rightarrow> tracker \<Rightarrow> tracker \<times> task list" where
  "run_task (TWrite p b) t = (snd (write_locked p b None t), [])"
| "run_task (TMark p) t = (mark_locked p t, [])"
| "run_task (TClose p) t = (snd (close_locked p None t), [])"
| "run_task (TTeardown p) t =
     (case teardown_locked p t of (f, t') \<Rightarrow> (t', (case f of None \<Rightarrow> [] | Some f \<Rightarrow> [TRun f])))"
| "run_task (TCloseWriter w f) t = (call_fn Closed w t, (case f of None \<Rightarrow> [] | Some f \<Rightarrow> [TRun f]))"
| "run_task (TRun f) t = (emit [Ran f] t, [])"
| "run_task (TCancel c) t = (emit [Cancelled c] t, [])"

section \<open>Sequential operations\<close>

definition cancel_all :: "bool \<times> tracker \<times> task list \<Rightarrow> bool \<times> tracker" where
  "cancel_all r = (case r of (b, t, ts) \<Rightarrow> (b, fold (\<lambda>x t. fst (run_task x t)) ts t))"

definition tracker_Cancel :: "string \<Rightarrow> string \<Rightarrow> tracker \<Rightarrow> bool \<times> tracker" where
  "tracker_Cancel project cardID t = cancel_all (cancel_map (tkey project cardID) id t)"

definition CancelWithReason :: "string \<Rightarrow> string \<Rightarrow> string \<Rightarrow> tracker \<Rightarrow> bool \<times> tracker" where
  "CancelWithReason project cardID why t =
     cancel_all (cancel_map (tkey project cardID) (\<lambda>i. i\<lparr>reason := why\<rparr>) t)"

definition set_stdin_key :: "string \<Rightarrow> writer option \<Rightarrow> callback option \<Rightarrow> tracker \<Rightarrow> tracker" where
  "set_stdin_key k w f t =
     (case set_stdin_map k w f t of
        (t', []) \<Rightarrow> t'
      | (t', _) \<Rightarrow> closeWriterAsync w f t')"

definition SetStdin :: "string \<Rightarrow> string \<Rightarrow> writer option \<Rightarrow> callback option \<Rightarrow> tracker \<Rightarrow> tracker" where
  "SetStdin project cardID = set_stdin_key (tkey project cardID)"

definition SetStdinChat :: "string \<Rightarrow> writer option \<Rightarrow> callback option \<Rightarrow> tracker \<Rightarrow> tracker" where
  "SetStdinChat sessionID = set_stdin_key (chatKey sessionID)"

definition write_key ::
  "string \<Rightarrow> bytes \<Rightarrow> string option \<Rightarrow> tracker \<Rightarrow> tracker_error option \<times> tracker" where
  "write_key k b io t =
     (case capture k t of Inl e \<Rightarrow> (Some e, t) | Inr p \<Rightarrow> write_locked p b io t)"

definition WriteStdin ::
  "string \<Rightarrow> string \<Rightarrow> bytes \<Rightarrow> string option \<Rightarrow> tracker \<Rightarrow> tracker_error option \<times> tracker" where
  "WriteStdin project cardID = write_key (tkey project cardID)"

definition WriteStdinChat ::
  "string \<Rightarrow> bytes \<Rightarrow> string option \<Rightarrow> tracker \<Rightarrow> tracker_error option \<times> tracker" where
  "WriteStdinChat sessionID = write_key (chatKey sessionID)"

definition MarkStdinClosed :: "string \<Rightarrow> string \<Rightarrow> tracker \<Rightarrow> tracker_error option \<times> tracker" where
  "MarkStdinClosed project cardID t =
     (case capture (tkey project cardID) t of Inl e \<Rightarrow> (Some e, t) | Inr p \<Rightarrow> (None, mark_locked p t))"

definition close_key :: "string \<Rightarrow> string option \<Rightarrow> tracker \<Rightarrow> tracker_error option \<times> tracker" where
  "close_key k io t = (case capture k t of Inl e \<Rightarrow> (Some e, t) | Inr p \<Rightarrow> close_locked p io t)"

definition CloseStdin ::
  "string \<Rightarrow> string \<Rightarrow> string option \<Rightarrow> tracker \<Rightarrow> tracker_error option \<times> tracker" where
  "CloseStdin project cardID = close_key (tkey project cardID)"

definition CloseStdinChat :: "string \<Rightarrow> string option \<Rightarrow> tracker \<Rightarrow> tracker_error option \<times> tracker" where
  "CloseStdinChat sessionID = close_key (chatKey sessionID)"

definition remove_key :: "string \<Rightarrow> tracker \<Rightarrow> tracker" where
  "remove_key k t =
     (case lookup_key k t of
        None \<Rightarrow> t
      | Some info \<Rightarrow>
          let t1 = t\<lparr>containers := AList.delete k (containers t)\<rparr>;
              t2 = call_fn Cancelled (CancelFn info) t1
          in case stdin_ptr info of None \<Rightarrow> t2 | Some p \<Rightarrow> closeStdinAsync p t2)"

definition tracker_Remove :: "string \<Rightarrow> string \<Rightarrow> tracker \<Rightarrow> tracker" where
  "tracker_Remove project cardID = remove_key (tkey project cardID)"

definition RemoveChat :: "string \<Rightarrow> tracker \<Rightarrow> tracker" where
  "RemoveChat sessionID = remove_key (chatKey sessionID)"

section \<open>Well-formed registries and the registry contract\<close>

definition tracker_ok :: "tracker \<Rightarrow> bool" where
  "tracker_ok t \<longleftrightarrow> distinct (map fst (containers t)) \<and>
     (\<forall>(k, i) \<in> set (containers t). pred_option (\<lambda>p. p < length (stdins t)) (stdin_ptr i))"

lemma tracker_okD:
  assumes "tracker_ok t"
  shows "distinct (map fst (containers t))"
    and "lookup_key k t = Some i \<Longrightarrow> stdin_ptr i = Some p \<Longrightarrow> p < length (stdins t)"
  using assms by (auto simp: tracker_ok_def lookup_key_def dest!: map_of_SomeD)

lemma tracker_ok_new [ok_intros]: "tracker_ok tracker_New"
  by (simp add: tracker_ok_def tracker_New_def)

lemma emit_frame [frame_simps]:
  "containers (emit es t) = containers t" "stdins (emit es t) = stdins t"
  "lookup_key k (emit es t) = lookup_key k t" "trace (emit es t) = rev es @ trace t"
  by (simp_all add: emit_def lookup_key_def)

lemma call_fn_frame [frame_simps]:
  "containers (call_fn ev f t) = containers t" "stdins (call_fn ev f t) = stdins t"
  "lookup_key k (call_fn ev f t) = lookup_key k t"
  by (cases f; simp add: call_fn_def frame_simps)+

lemma forget_writer_frame [frame_simps]:
  "containers (forget_writer f t) = containers t" "stdins (forget_writer f t) = stdins t"
  "lookup_key k (forget_writer f t) = lookup_key k t"
  by (cases f; simp add: forget_writer_def frame_simps)+

lemma closeStdinAsync_frame [frame_simps]:
  "containers (closeStdinAsync p t) = containers t"
  "length (stdins (closeStdinAsync p t)) = length (stdins t)"
  by (simp_all add: closeStdinAsync_def teardown_locked_def Let_def frame_simps split: option.splits)

lemma tracker_ok_cong:
  "tracker_ok t \<Longrightarrow> containers t' = containers t \<Longrightarrow> length (stdins t') = length (stdins t) \<Longrightarrow> tracker_ok t'"
  by (simp add: tracker_ok_def)

lemma length_delete_distinct:
  "distinct (map fst xs) \<Longrightarrow>
    length (AList.delete k xs) = (if map_of xs k = None then length xs else length xs - 1)"
proof (induction xs)
  case (Cons x xs)
  show ?case
  proof (cases "fst x = k")
    case True
    then have "map_of xs k = None" using Cons.prems by (auto simp: map_of_eq_None_iff)
    then show ?thesis using Cons True by (cases x) simp
  next
    case False
    have "map_of xs k \<noteq> None \<Longrightarrow> xs \<noteq> []" by auto
    then show ?thesis using Cons False by (cases x) (auto simp: Suc_diff_Suc length_greater_0_conv)
  qed
qed simp

lemma remove_key_containers:
  "containers (remove_key k t) = AList.delete k (containers t)"
proof (cases "lookup_key k t")
  case None
  then have "AList.delete k (containers t) = containers t"
    by (simp add: lookup_key_def map_of_eq_None_iff delete_id)
  then show ?thesis using None by (simp add: remove_key_def)
next
  case (Some i)
  then show ?thesis
    by (simp add: remove_key_def Let_def frame_simps split: option.splits)
qed

lemma remove_key_stdins: "length (stdins (remove_key k t)) = length (stdins t)"
  by (simp add: remove_key_def Let_def frame_simps split: option.splits)

lemma set_delete: "set (AList.delete k xs) \<subseteq> set xs"
  by (auto simp: AList.delete_eq)

lemma tracker_ok_delete:
  assumes "tracker_ok t" and "containers t' = AList.delete k (containers t)"
    and "length (stdins t') = length (stdins t)"
  shows "tracker_ok t'"
  using assms set_delete[of k "containers t"]
  by (auto simp: tracker_ok_def distinct_delete)

lemma add_key_ok:
  assumes "tracker_ok t" and "stdin_ptr info = None"
  shows "tracker_ok (snd (add_key k info t))"
  using assms by (auto simp: add_key_def tracker_ok_def lookup_key_def map_of_eq_None_iff split: option.splits)

definition has_key :: "string \<Rightarrow> tracker \<Rightarrow> bool" where
  "has_key k t \<longleftrightarrow> lookup_key k t \<noteq> None"

lemma add_key_cases:
  "fst (add_key k info t) = None \<longleftrightarrow> \<not> has_key k t"
  "fst (add_key k info t) \<noteq> None \<Longrightarrow> snd (add_key k info t) = t"
  "fst (add_key k info t) = None \<Longrightarrow> Count (snd (add_key k info t)) = Suc (Count t)"
  "fst (add_key k info t) = None \<Longrightarrow> has_key j (snd (add_key k info t)) \<longleftrightarrow> j = k \<or> has_key j t"
  by (auto simp: add_key_def has_key_def Count_def lookup_key_def split: option.splits)

abbreviation card_key :: "container_info \<Rightarrow> string" where
  "card_key i \<equiv> tkey (Project i) (CardID i)"

abbreviation detached :: "container_info \<Rightarrow> bool" where
  "detached i \<equiv> stdin_ptr i = None"

lemma remove_key_laws:
  assumes "tracker_ok t"
  shows "tracker_ok (remove_key k t)"
    and "has_key j (remove_key k t) \<longleftrightarrow> j \<noteq> k \<and> has_key j t"
    and "Count (remove_key k t) = (if has_key k t then Count t - 1 else Count t)"
proof -
  show "tracker_ok (remove_key k t)"
    using assms by (rule tracker_ok_delete) (simp_all add: remove_key_containers remove_key_stdins)
  show "has_key j (remove_key k t) \<longleftrightarrow> j \<noteq> k \<and> has_key j t"
    by (simp add: has_key_def lookup_key_def remove_key_containers delete_conv')
  show "Count (remove_key k t) = (if has_key k t then Count t - 1 else Count t)"
    using length_delete_distinct[OF tracker_okD(1)[OF assms], of k]
    by (simp add: Count_def remove_key_containers has_key_def lookup_key_def)
qed

interpretation cards: registry AddIfUnderLimit remove_key has_key Count card_key tracker_ok detached
proof unfold_locales
  fix t :: tracker and i :: container_info and L :: int and j k :: string
  assume ok: "tracker_ok t"
  show "detached i \<Longrightarrow> tracker_ok (snd (AddIfUnderLimit i L t))"
    using add_key_ok[OF ok] ok by (simp add: AddIfUnderLimit_def)
  show "fst (AddIfUnderLimit i L t) = None \<longleftrightarrow> int (Count t) < L \<and> \<not> has_key (card_key i) t"
    using add_key_cases(1) by (simp add: AddIfUnderLimit_def not_le)
  show "fst (AddIfUnderLimit i L t) \<noteq> None \<Longrightarrow> snd (AddIfUnderLimit i L t) = t"
    using add_key_cases(2) by (simp add: AddIfUnderLimit_def split: if_splits)
  show "fst (AddIfUnderLimit i L t) = None \<Longrightarrow> Count (snd (AddIfUnderLimit i L t)) = Suc (Count t)"
    using add_key_cases(3) by (simp add: AddIfUnderLimit_def split: if_splits)
  show "fst (AddIfUnderLimit i L t) = None \<Longrightarrow>
      has_key k (snd (AddIfUnderLimit i L t)) \<longleftrightarrow> k = card_key i \<or> has_key k t"
    using add_key_cases(4) by (simp add: AddIfUnderLimit_def split: if_splits)
  show "tracker_ok (remove_key k t)" by (rule remove_key_laws(1)[OF ok])
  show "has_key j (remove_key k t) \<longleftrightarrow> j \<noteq> k \<and> has_key j t" by (rule remove_key_laws(2)[OF ok])
  show "Count (remove_key k t) = (if has_key k t then Count t - 1 else Count t)"
    by (rule remove_key_laws(3)[OF ok])
qed

interpretation chats: registry AddChatIfUnderLimit remove_key has_key Count "\<lambda>i. chatKey (SessionID i)" tracker_ok detached
proof unfold_locales
  fix t :: tracker and i :: container_info and L :: int and j k :: string
  assume ok: "tracker_ok t"
  show "detached i \<Longrightarrow> tracker_ok (snd (AddChatIfUnderLimit i L t))"
    using add_key_ok[OF ok] ok by (simp add: AddChatIfUnderLimit_def)
  show "fst (AddChatIfUnderLimit i L t) = None \<longleftrightarrow> int (Count t) < L \<and> \<not> has_key (chatKey (SessionID i)) t"
    using add_key_cases(1) by (simp add: AddChatIfUnderLimit_def not_le)
  show "fst (AddChatIfUnderLimit i L t) \<noteq> None \<Longrightarrow> snd (AddChatIfUnderLimit i L t) = t"
    using add_key_cases(2) by (simp add: AddChatIfUnderLimit_def split: if_splits)
  show "fst (AddChatIfUnderLimit i L t) = None \<Longrightarrow> Count (snd (AddChatIfUnderLimit i L t)) = Suc (Count t)"
    using add_key_cases(3) by (simp add: AddChatIfUnderLimit_def split: if_splits)
  show "fst (AddChatIfUnderLimit i L t) = None \<Longrightarrow>
      has_key k (snd (AddChatIfUnderLimit i L t)) \<longleftrightarrow> k = chatKey (SessionID i) \<or> has_key k t"
    using add_key_cases(4) by (simp add: AddChatIfUnderLimit_def split: if_splits)
  show "tracker_ok (remove_key k t)" by (rule remove_key_laws(1)[OF ok])
  show "has_key j (remove_key k t) \<longleftrightarrow> j \<noteq> k \<and> has_key j t" by (rule remove_key_laws(2)[OF ok])
  show "Count (remove_key k t) = (if has_key k t then Count t - 1 else Count t)"
    by (rule remove_key_laws(3)[OF ok])
qed

section \<open>Interleavings\<close>

definition opt_list :: "'a option \<Rightarrow> 'a list" where
  "opt_list x = (case x of None \<Rightarrow> [] | Some a \<Rightarrow> [a])"

lemma opt_list_simps [simp]: "opt_list None = []" "opt_list (Some a) = [a]"
  by (simp_all add: opt_list_def)

text \<open>Projections of the trace and of the left-over work.\<close>

fun ev_attached_w :: "effect \<Rightarrow> writer list" where
  "ev_attached_w (Attached w f) = opt_list w" | "ev_attached_w _ = []"
fun ev_attached_f :: "effect \<Rightarrow> callback list" where
  "ev_attached_f (Attached w f) = opt_list f" | "ev_attached_f _ = []"
fun ev_closed :: "effect \<Rightarrow> writer list" where
  "ev_closed (Closed w) = [w]" | "ev_closed _ = []"
fun ev_ran :: "effect \<Rightarrow> callback list" where
  "ev_ran (Ran f) = [f]" | "ev_ran _ = []"
fun ev_forgot_w :: "effect \<Rightarrow> writer list" where
  "ev_forgot_w (ForgotWriter w) = [w]" | "ev_forgot_w _ = []"
fun ev_forgot_f :: "effect \<Rightarrow> callback list" where
  "ev_forgot_f (ForgotCallback f) = [f]" | "ev_forgot_f _ = []"

fun task_w :: "task \<Rightarrow> writer list" where
  "task_w (TCloseWriter w f) = opt_list w" | "task_w _ = []"
fun task_f :: "task \<Rightarrow> callback list" where
  "task_f (TCloseWriter w f) = opt_list f" | "task_f (TRun f) = [f]" | "task_f _ = []"
fun task_ptr :: "task \<Rightarrow> nat list" where
  "task_ptr (TWrite p b) = [p]" | "task_ptr (TMark p) = [p]" | "task_ptr (TClose p) = [p]"
| "task_ptr (TTeardown p) = [p]" | "task_ptr _ = []"

definition cnt :: "('a \<Rightarrow> 'b list) \<Rightarrow> 'a list \<Rightarrow> 'b \<Rightarrow> nat" where
  "cnt f xs x = sum_list (map (\<lambda>a. count_list (f a) x) xs)"

text \<open>
  One step of the registry with its limit: the map phase of an operation on any key, which leaves
  work behind, or one piece of that work, picked in any order. A handle passed to \<open>SetStdin\<close> is a
  new connection, so it was not attached before.
\<close>

inductive tr_step :: "int \<Rightarrow> tracker \<times> task list \<Rightarrow> tracker \<times> task list \<Rightarrow> bool" for L where
  step_add: "detached i \<Longrightarrow> tr_step L (t, ts) (snd (AddIfUnderLimit i L t), ts)"
| step_add_chat: "detached i \<Longrightarrow> tr_step L (t, ts) (snd (AddChatIfUnderLimit i L t), ts)"
| step_set: "set_stdin_map k w f t = (t', new) \<Longrightarrow>
    \<forall>x \<in> set (opt_list w). cnt ev_attached_w (trace t) x = 0 \<Longrightarrow>
    \<forall>x \<in> set (opt_list f). cnt ev_attached_f (trace t) x = 0 \<Longrightarrow>
    tr_step L (t, ts) (t', new @ ts)"
| step_write: "capture k t = Inr p \<Longrightarrow> tr_step L (t, ts) (t, TWrite p b # ts)"
| step_mark: "capture k t = Inr p \<Longrightarrow> tr_step L (t, ts) (t, TMark p # ts)"
| step_close: "capture k t = Inr p \<Longrightarrow> tr_step L (t, ts) (t, TClose p # ts)"
| step_remove: "remove_map k t = (t', new) \<Longrightarrow> tr_step L (t, ts) (t', new @ ts)"
| step_cancel: "cancel_map k (\<lambda>i. i\<lparr>reason := why\<rparr>) t = (b, t', new) \<Longrightarrow> tr_step L (t, ts) (t', new @ ts)"
| step_update: "tr_step L (t, ts) (update_info k (\<lambda>i. i\<lparr>ContainerID := c\<rparr>) t, ts)"
| step_task: "run_task x t = (t', new) \<Longrightarrow> tr_step L (t, xs @ x # ys) (t', xs @ new @ ys)"

inductive tr_reach :: "int \<Rightarrow> tracker \<times> task list \<Rightarrow> bool" for L where
  reach_init: "tr_reach L (tracker_New, [])"
| reach_step: "tr_reach L s \<Longrightarrow> tr_step L s s' \<Longrightarrow> tr_reach L s'"

inductive_cases tr_stepE: "tr_step L (t, ts) s'"

section \<open>Accounting for handles and callbacks\<close>

text \<open>
  Every attached writer is in exactly one place: in a stdin state, in a pending close, closed, or
  forgotten (\<open>MarkStdinClosed\<close>, or replaced by a second \<open>SetStdin\<close>); likewise every callback.
\<close>

definition acct_w :: "tracker \<Rightarrow> task list \<Rightarrow> bool" where
  "acct_w t ts \<longleftrightarrow> (\<forall>x.
     cnt (opt_list \<circ> ss_stdin) (stdins t) x + cnt task_w ts x
       + cnt ev_closed (trace t) x + cnt ev_forgot_w (trace t) x
     = cnt ev_attached_w (trace t) x)"

definition acct_f :: "tracker \<Rightarrow> task list \<Rightarrow> bool" where
  "acct_f t ts \<longleftrightarrow> (\<forall>x.
     cnt (opt_list \<circ> ss_onClose) (stdins t) x + cnt task_f ts x
       + cnt ev_ran (trace t) x + cnt ev_forgot_f (trace t) x
     = cnt ev_attached_f (trace t) x)"

definition fresh_handles :: "tracker \<Rightarrow> bool" where
  "fresh_handles t \<longleftrightarrow>
     (\<forall>x. cnt ev_attached_w (trace t) x \<le> 1) \<and> (\<forall>x. cnt ev_attached_f (trace t) x \<le> 1)"

text \<open>A state that no tracked entry points to is torn down, or a teardown is pending.\<close>

definition owned :: "tracker \<Rightarrow> task list \<Rightarrow> bool" where
  "owned t ts \<longleftrightarrow> (\<forall>p < length (stdins t).
     (\<exists>(k, i) \<in> set (containers t). stdin_ptr i = Some p) \<or> TTeardown p \<in> set ts \<or>
     stdins t ! p = \<lparr>ss_stdin = None, ss_onClose = None\<rparr>)"

definition ptrs_ok :: "tracker \<Rightarrow> task list \<Rightarrow> bool" where
  "ptrs_ok t ts \<longleftrightarrow> (\<forall>x \<in> set ts. \<forall>p \<in> set (task_ptr x). p < length (stdins t))"

text \<open>No write reaches a writer after its close (the trace is newest first).\<close>

fun writes_before_close :: "effect list \<Rightarrow> bool" where
  "writes_before_close [] = True"
| "writes_before_close (Wrote w b # es) = (Closed w \<notin> set es \<and> writes_before_close es)"
| "writes_before_close (e # es) = writes_before_close es"

definition sys_ok :: "int \<Rightarrow> tracker \<times> task list \<Rightarrow> bool" where
  "sys_ok L s \<longleftrightarrow> (case s of (t, ts) \<Rightarrow>
     tracker_ok t \<and> int (Count t) \<le> L \<and> acct_w t ts \<and> acct_f t ts \<and> fresh_handles t \<and>
     owned t ts \<and> ptrs_ok t ts \<and> writes_before_close (trace t))"

lemma cnt_simps [simp]:
  "cnt f [] x = 0" "cnt f (a # xs) x = count_list (f a) x + cnt f xs x"
  "cnt f (xs @ ys) x = cnt f xs x + cnt f ys x" "cnt f (rev xs) x = cnt f xs x"
  by (simp_all add: cnt_def rev_map[symmetric])

lemma cnt_update:
  assumes "p < length xs"
  shows "cnt f (xs[p := s]) x + count_list (f (xs ! p)) x = cnt f xs x + count_list (f s) x"
proof -
  have "xs = take p xs @ xs ! p # drop (Suc p) xs" using assms by (rule id_take_nth_drop)
  then have "cnt f xs x = cnt f (take p xs @ xs ! p # drop (Suc p) xs) x" by simp
  then show ?thesis using assms by (simp add: upd_conv_take_nth_drop)
qed

lemma cnt_pos: "0 < cnt f xs x \<longleftrightarrow> (\<exists>a \<in> set xs. x \<in> set (f a))"
  by (induction xs) (auto simp: count_list_0_iff)

lemma closed_in_cnt: "Closed w \<in> set es \<longleftrightarrow> 0 < cnt ev_closed es w"
proof -
  have "w \<in> set (ev_closed e) \<longleftrightarrow> e = Closed w" for e by (cases e) auto
  then show ?thesis by (auto simp: cnt_pos)
qed

text \<open>The phases under the stdin lock keep the books.\<close>

lemma set_list_update: "p < length xs \<Longrightarrow> q < length xs \<Longrightarrow> xs[p := s] ! q = (if q = p then s else xs ! q)"
  by simp

definition books :: "tracker \<Rightarrow> task list \<Rightarrow> bool" where
  "books t ts \<longleftrightarrow> acct_w t ts \<and> acct_f t ts \<and> fresh_handles t \<and> writes_before_close (trace t)"

lemma count_list_one [simp]: "count_list [a] x = (if a = x then 1 else 0)"
  by simp

lemma held_not_closed:
  assumes "books t ts" and "p < length (stdins t)" and "ss_stdin (stdins t ! p) = Some w"
  shows "Closed w \<notin> set (trace t)"
proof -
  have "stdins t ! p \<in> set (stdins t)" using assms(2) by simp
  then have "0 < cnt (opt_list \<circ> ss_stdin) (stdins t) w"
    unfolding cnt_pos using assms(3) by (metis comp_apply list.set_intros(1) opt_list_simps(2))
  moreover have "cnt (opt_list \<circ> ss_stdin) (stdins t) w + cnt task_w ts w + cnt ev_closed (trace t) w
      + cnt ev_forgot_w (trace t) w = cnt ev_attached_w (trace t) w"
    and "cnt ev_attached_w (trace t) w \<le> 1"
    using assms(1) unfolding books_def acct_w_def fresh_handles_def by blast+
  ultimately have "cnt ev_closed (trace t) w = 0" by linarith
  then show ?thesis by (simp add: closed_in_cnt)
qed

lemma books_emit_cancelled: "books t ts \<Longrightarrow> books (emit [Cancelled c] t) ts"
  by (simp add: books_def acct_w_def acct_f_def fresh_handles_def frame_simps)

lemma books_write:
  assumes "books t ts" and "p < length (stdins t)"
  shows "books (snd (write_locked p b io t)) ts"
  using assms held_not_closed[OF assms]
  by (cases "ss_stdin (stdins t ! p)")
    (simp_all add: write_locked_def books_def acct_w_def acct_f_def fresh_handles_def frame_simps)

lemma books_mark:
  assumes "books t ts" and p: "p < length (stdins t)"
  shows "books (mark_locked p t) ts"
proof -
  note u = cnt_update[OF p, of _ "(stdins t ! p)\<lparr>ss_stdin := None\<rparr>"]
  note w = u[of "opt_list \<circ> ss_stdin"] and f = u[of "opt_list \<circ> ss_onClose"]
  have "acct_w (mark_locked p t) ts"
    unfolding acct_w_def
  proof
    fix x
    show "cnt (opt_list \<circ> ss_stdin) (stdins (mark_locked p t)) x + cnt task_w ts x
        + cnt ev_closed (trace (mark_locked p t)) x + cnt ev_forgot_w (trace (mark_locked p t)) x
      = cnt ev_attached_w (trace (mark_locked p t)) x"
      using assms(1) w[of x] unfolding books_def acct_w_def
      by (cases "ss_stdin (stdins t ! p)")
        (auto simp: mark_locked_def set_writer_def forget_writer_def frame_simps split: if_splits dest!: spec[of _ x])
  qed
  moreover have "acct_f (mark_locked p t) ts"
    unfolding acct_f_def
  proof
    fix x
    show "cnt (opt_list \<circ> ss_onClose) (stdins (mark_locked p t)) x + cnt task_f ts x
        + cnt ev_ran (trace (mark_locked p t)) x + cnt ev_forgot_f (trace (mark_locked p t)) x
      = cnt ev_attached_f (trace (mark_locked p t)) x"
      using assms(1) f[of x] unfolding books_def acct_f_def
      by (cases "ss_stdin (stdins t ! p)")
        (auto simp: mark_locked_def set_writer_def forget_writer_def frame_simps split: if_splits dest!: spec[of _ x])
  qed
  ultimately show ?thesis
    using assms(1)
    by (cases "ss_stdin (stdins t ! p)")
      (simp_all add: books_def fresh_handles_def mark_locked_def set_writer_def forget_writer_def frame_simps)
qed

lemma books_close:
  assumes "books t ts" and p: "p < length (stdins t)"
  shows "books (snd (close_locked p io t)) ts"
proof (cases "ss_stdin (stdins t ! p)")
  case None
  then show ?thesis using assms(1) by (simp add: close_locked_def)
next
  case (Some w)
  note u = cnt_update[OF p, of _ "(stdins t ! p)\<lparr>ss_stdin := None\<rparr>"]
  let ?t = "set_writer p None (emit [Closed w] t)"
  have t: "snd (close_locked p io t) = ?t" using Some by (simp add: close_locked_def)
  have "acct_w ?t ts"
    unfolding acct_w_def
  proof
    fix x
    show "cnt (opt_list \<circ> ss_stdin) (stdins ?t) x + cnt task_w ts x
        + cnt ev_closed (trace ?t) x + cnt ev_forgot_w (trace ?t) x = cnt ev_attached_w (trace ?t) x"
      using assms(1) u[of "opt_list \<circ> ss_stdin" x] Some unfolding books_def acct_w_def
      by (auto simp: set_writer_def frame_simps split: if_splits dest!: spec[of _ x])
  qed
  moreover have "acct_f ?t ts"
    unfolding acct_f_def
  proof
    fix x
    show "cnt (opt_list \<circ> ss_onClose) (stdins ?t) x + cnt task_f ts x
        + cnt ev_ran (trace ?t) x + cnt ev_forgot_f (trace ?t) x = cnt ev_attached_f (trace ?t) x"
      using assms(1) u[of "opt_list \<circ> ss_onClose" x] Some unfolding books_def acct_f_def
      by (auto simp: set_writer_def frame_simps split: if_splits dest!: spec[of _ x])
  qed
  ultimately show ?thesis
    using assms(1) unfolding t by (simp add: books_def fresh_handles_def set_writer_def frame_simps)
qed

lemma books_teardown:
  assumes "books t (xs @ TTeardown p # ys)" and p: "p < length (stdins t)"
    and td: "run_task (TTeardown p) t = (t', new)"
  shows "books t' (xs @ new @ ys)"
proof -
  let ?n = "\<lparr>ss_stdin = None, ss_onClose = None\<rparr>"
  note u = cnt_update[OF p, of _ ?n]
  let ?w = "ss_stdin (stdins t ! p)" and ?f = "ss_onClose (stdins t ! p)"
  have st: "stdins t' = (stdins t)[p := ?n]" and tr: "trace t' = map Closed (opt_list ?w) @ trace t"
    and nw: "new = map TRun (opt_list ?f)"
    using td by (cases ?w; cases ?f; auto simp: teardown_locked_def Let_def frame_simps)+
  have "acct_w t' (xs @ new @ ys)"
    unfolding acct_w_def
  proof
    fix x
    show "cnt (opt_list \<circ> ss_stdin) (stdins t') x + cnt task_w (xs @ new @ ys) x
        + cnt ev_closed (trace t') x + cnt ev_forgot_w (trace t') x = cnt ev_attached_w (trace t') x"
      using assms(1) u[of "opt_list \<circ> ss_stdin" x] unfolding books_def acct_w_def st tr nw
      by (cases ?w; cases ?f) (auto dest!: spec[of _ x])
  qed
  moreover have "acct_f t' (xs @ new @ ys)"
    unfolding acct_f_def
  proof
    fix x
    show "cnt (opt_list \<circ> ss_onClose) (stdins t') x + cnt task_f (xs @ new @ ys) x
        + cnt ev_ran (trace t') x + cnt ev_forgot_f (trace t') x = cnt ev_attached_f (trace t') x"
      using assms(1) u[of "opt_list \<circ> ss_onClose" x] unfolding books_def acct_f_def st tr nw
      by (cases ?w; cases ?f) (auto dest!: spec[of _ x])
  qed
  ultimately show ?thesis
    using assms(1) by (cases ?w) (simp_all add: books_def fresh_handles_def tr)
qed

lemma books_attach:
  assumes "books t ts" and p: "p < length (stdins t)"
    and fresh: "\<forall>x \<in> set (opt_list w). cnt ev_attached_w (trace t) x = 0"
      "\<forall>x \<in> set (opt_list f). cnt ev_attached_f (trace t) x = 0"
  shows "books (attach p w f (emit [Attached w f] t)) ts"
proof -
  let ?n = "\<lparr>ss_stdin = w, ss_onClose = f\<rparr>"
  let ?t = "attach p w f (emit [Attached w f] t)"
  note u = cnt_update[OF p, of _ ?n]
  let ?w = "ss_stdin (stdins t ! p)" and ?f = "ss_onClose (stdins t ! p)"
  have st: "stdins ?t = (stdins t)[p := ?n]"
    and tr: "trace ?t = map ForgotCallback (opt_list ?f) @ map ForgotWriter (opt_list ?w) @ Attached w f # trace t"
    by (cases ?w; cases ?f; simp add: attach_def Let_def frame_simps forget_writer_def call_fn_def)+
  have "acct_w ?t ts"
    unfolding acct_w_def
  proof
    fix x
    show "cnt (opt_list \<circ> ss_stdin) (stdins ?t) x + cnt task_w ts x
        + cnt ev_closed (trace ?t) x + cnt ev_forgot_w (trace ?t) x = cnt ev_attached_w (trace ?t) x"
      using assms(1) u[of "opt_list \<circ> ss_stdin" x] unfolding books_def acct_w_def st tr
      by (cases ?w; cases ?f) (auto dest!: spec[of _ x])
  qed
  moreover have "acct_f ?t ts"
    unfolding acct_f_def
  proof
    fix x
    show "cnt (opt_list \<circ> ss_onClose) (stdins ?t) x + cnt task_f ts x
        + cnt ev_ran (trace ?t) x + cnt ev_forgot_f (trace ?t) x = cnt ev_attached_f (trace ?t) x"
      using assms(1) u[of "opt_list \<circ> ss_onClose" x] unfolding books_def acct_f_def st tr
      by (cases ?w; cases ?f) (auto dest!: spec[of _ x])
  qed
  moreover have "fresh_handles ?t"
    using assms(1) fresh unfolding books_def fresh_handles_def tr
    by (cases w; cases f; cases ?w; cases ?f) (auto simp: le_Suc_eq)
  moreover have "writes_before_close (trace ?t)"
    using assms(1) unfolding books_def tr by (cases ?w; cases ?f) simp_all
  ultimately show ?thesis unfolding books_def by blast
qed

lemma books_cong:
  "books t ts \<Longrightarrow> stdins t' = stdins t \<Longrightarrow> trace t' = trace t \<Longrightarrow>
    (\<And>x. cnt task_w ts' x = cnt task_w ts x) \<Longrightarrow> (\<And>x. cnt task_f ts' x = cnt task_f ts x) \<Longrightarrow> books t' ts'"
  by (simp add: books_def acct_w_def acct_f_def fresh_handles_def)

lemma books_late:
  assumes "books t ts"
    and "\<forall>x \<in> set (opt_list w). cnt ev_attached_w (trace t) x = 0"
      "\<forall>x \<in> set (opt_list f). cnt ev_attached_f (trace t) x = 0"
  shows "books (emit [Attached w f] t) (TCloseWriter w f # ts)"
  using assms unfolding books_def acct_w_def acct_f_def fresh_handles_def
  by (cases w; cases f) (auto simp: frame_simps le_Suc_eq add.assoc)

lemma books_alloc:
  "books t ts \<Longrightarrow> books (t\<lparr>containers := c, stdins := stdins t @ [\<lparr>ss_stdin = None, ss_onClose = None\<rparr>]\<rparr>) ts"
  by (simp add: books_def acct_w_def acct_f_def fresh_handles_def)

lemma update_info_frame [frame_simps]:
  "stdins (update_info k f t) = stdins t" "trace (update_info k f t) = trace t"
  "map fst (containers (update_info k f t)) = map fst (containers t)"
  "Count (update_info k f t) = Count t"
  by (auto simp: update_info_def Count_def)

lemma attach_frame [frame_simps]:
  "containers (attach p w f t) = containers t"
  "stdins (attach p w f t) = (stdins t)[p := \<lparr>ss_stdin = w, ss_onClose = f\<rparr>]"
  by (simp_all add: attach_def Let_def frame_simps)

lemma alloc_emit:
  "update_info k g ((emit es t)\<lparr>stdins := xs\<rparr>) = emit es (update_info k g (t\<lparr>stdins := xs\<rparr>))"
  by (simp add: emit_def update_info_def)

lemma books_update: "books t ts \<Longrightarrow> books (update_info k g t) ts"
  by (erule books_cong) (simp_all add: frame_simps)

lemma set_stdin_map_cases:
  assumes "set_stdin_map k w f t = (t', new)"
  obtains (late) "lookup_key k t = None" "t' = emit [Attached w f] t" "new = [TCloseWriter w f]"
  | (again) i p where "lookup_key k t = Some i" "stdin_ptr i = Some p"
      "t' = attach p w f (emit [Attached w f] t)" "new = []"
  | (first) i where "lookup_key k t = Some i" "stdin_ptr i = None" "new = []"
      "t' = attach (length (stdins t)) w f (emit [Attached w f]
         (update_info k (\<lambda>i. i\<lparr>stdin_ptr := Some (length (stdins t))\<rparr>)
           (t\<lparr>stdins := stdins t @ [\<lparr>ss_stdin = None, ss_onClose = None\<rparr>]\<rparr>)))"
  using assms
  by (auto simp: set_stdin_map_def Let_def frame_simps alloc_emit split: option.splits)

lemma books_set_stdin:
  assumes b: "books t ts" and ok: "tracker_ok t" and m: "set_stdin_map k w f t = (t', new)"
    and fresh: "\<forall>x \<in> set (opt_list w). cnt ev_attached_w (trace t) x = 0"
      "\<forall>x \<in> set (opt_list f). cnt ev_attached_f (trace t) x = 0"
  shows "books t' (new @ ts)"
  using m
proof (cases rule: set_stdin_map_cases)
  case late
  then show ?thesis using books_late[OF b fresh] by simp
next
  case (again i p)
  then have "p < length (stdins t)" using tracker_okD(2)[OF ok] by blast
  then show ?thesis using books_attach[OF b _ fresh] again by simp
next
  case (first i)
  let ?u = "update_info k (\<lambda>i. i\<lparr>stdin_ptr := Some (length (stdins t))\<rparr>)
    (t\<lparr>stdins := stdins t @ [\<lparr>ss_stdin = None, ss_onClose = None\<rparr>]\<rparr>)"
  have "books ?u ts" using books_alloc[OF b, of "containers t"] by (intro books_update) simp
  moreover have "length (stdins t) < length (stdins ?u)" and "trace ?u = trace t"
    by (simp_all add: frame_simps)
  ultimately show ?thesis using books_attach[of ?u ts] fresh first by simp
qed

text \<open>The structural part of the invariant.\<close>

definition shape :: "int \<Rightarrow> tracker \<Rightarrow> task list \<Rightarrow> bool" where
  "shape L t ts \<longleftrightarrow> tracker_ok t \<and> int (Count t) \<le> L \<and> owned t ts \<and> ptrs_ok t ts"

lemma sys_ok_parts: "sys_ok L (t, ts) \<longleftrightarrow> shape L t ts \<and> books t ts"
  by (auto simp: sys_ok_def shape_def books_def)

text \<open>Steps that change the heap in place, and only towards an empty state.\<close>

lemma shape_heap:
  assumes "shape L t ts" and "containers t' = containers t"
    and "length (stdins t') = length (stdins t)"
    and "\<forall>p < length (stdins t). stdins t ! p = \<lparr>ss_stdin = None, ss_onClose = None\<rparr> \<longrightarrow> stdins t' ! p = stdins t ! p"
    and "\<forall>p < length (stdins t). TTeardown p \<in> set ts \<longrightarrow> TTeardown p \<in> set ts' \<or> stdins t' ! p = \<lparr>ss_stdin = None, ss_onClose = None\<rparr>"
    and "\<forall>x \<in> set ts'. \<forall>p \<in> set (task_ptr x). p < length (stdins t)"
  shows "shape L t' ts'"
proof -
  have "owned t' ts'" using assms unfolding shape_def owned_def by metis
  then show ?thesis
    using assms tracker_ok_cong[of t t'] by (simp add: shape_def ptrs_ok_def Count_def)
qed

lemma shape_tasks:
  assumes "shape L t ts" and "set ts \<subseteq> set ts'" and "\<forall>x \<in> set ts' - set ts. \<forall>p \<in> set (task_ptr x). p < length (stdins t)"
  shows "shape L t ts'"
  using assms unfolding shape_def owned_def ptrs_ok_def by blast

lemma shape_entries:
  assumes "shape L t ts" and "stdins t' = stdins t" and "tracker_ok t'" and "int (Count t') \<le> L"
    and "\<forall>(k, i) \<in> set (containers t). \<forall>p. stdin_ptr i = Some p \<longrightarrow>
       (\<exists>(k, i) \<in> set (containers t'). stdin_ptr i = Some p) \<or> TTeardown p \<in> set ts'"
    and "set ts \<subseteq> set ts'" and "\<forall>x \<in> set ts' - set ts. \<forall>p \<in> set (task_ptr x). p < length (stdins t)"
  shows "shape L t' ts'"
proof -
  have "owned t' ts'"
    unfolding owned_def
  proof (intro allI impI)
    fix p assume "p < length (stdins t')"
    then have p: "p < length (stdins t)" using assms(2) by simp
    then consider "\<exists>(k, i) \<in> set (containers t). stdin_ptr i = Some p" | "TTeardown p \<in> set ts"
      | "stdins t ! p = \<lparr>ss_stdin = None, ss_onClose = None\<rparr>"
      using assms(1) unfolding shape_def owned_def by blast
    then show "(\<exists>(k, i) \<in> set (containers t'). stdin_ptr i = Some p) \<or> TTeardown p \<in> set ts' \<or>
      stdins t' ! p = \<lparr>ss_stdin = None, ss_onClose = None\<rparr>"
      using assms(2,5,6) by cases auto
  qed
  moreover have "ptrs_ok t' ts'"
    using assms(1,2,7) unfolding shape_def ptrs_ok_def by auto
  ultimately show ?thesis using assms(3,4) by (simp add: shape_def)
qed

lemma tracker_ok_update:
  assumes "tracker_ok t" and "\<And>i. pred_option (\<lambda>p. p < length (stdins t)) (stdin_ptr i) \<Longrightarrow>
    pred_option (\<lambda>p. p < length (stdins t)) (stdin_ptr (f i))"
  shows "tracker_ok (update_info k f t)"
  using assms by (auto simp: tracker_ok_def frame_simps) (auto simp: update_info_def split: if_splits)

lemma shape_update:
  assumes "shape L t ts" and "\<And>i. stdin_ptr (f i) = stdin_ptr i"
  shows "shape L (update_info k f t) ts"
proof (rule shape_entries[OF assms(1)])
  show "tracker_ok (update_info k f t)"
    using assms by (intro tracker_ok_update) (auto simp: shape_def)
  show "\<forall>(k', i) \<in> set (containers t). \<forall>p. stdin_ptr i = Some p \<longrightarrow>
       (\<exists>(k, i) \<in> set (containers (update_info k f t)). stdin_ptr i = Some p) \<or> TTeardown p \<in> set ts"
  proof (clarify)
    fix j i p assume ji: "(j, i) \<in> set (containers t)" and p: "stdin_ptr i = Some p"
    have "(j, if j = k then f i else i) \<in> set (containers (update_info k f t))"
      using ji by (force simp: update_info_def)
    moreover have "stdin_ptr (if j = k then f i else i) = Some p" using p assms(2) by simp
    ultimately show "\<exists>(k, i) \<in> set (containers (update_info k f t)). stdin_ptr i = Some p"
      by blast
  qed
qed (use assms(1) in \<open>simp_all add: frame_simps shape_def\<close>)

lemma shape_add:
  assumes "shape L t ts" and "detached i" and "int (Count (snd (add_key k i t))) \<le> L"
  shows "shape L (snd (add_key k i t)) ts"
proof (rule shape_entries[OF assms(1)])
  show "tracker_ok (snd (add_key k i t))" using add_key_ok assms by (simp add: shape_def)
  show "\<forall>(j, i') \<in> set (containers t). \<forall>p. stdin_ptr i' = Some p \<longrightarrow>
       (\<exists>(k, i) \<in> set (containers (snd (add_key k i t))). stdin_ptr i = Some p) \<or> TTeardown p \<in> set ts"
    by (force simp: add_key_def split: option.splits)
qed (use assms in \<open>auto simp: add_key_def split: option.splits\<close>)

lemma books_add: "books t ts \<Longrightarrow> books (snd (add_key k i t)) ts"
  by (erule books_cong) (auto simp: add_key_def split: option.splits)

lemma shape_remove:
  assumes s: "shape L t ts" and m: "remove_map k t = (t', new)"
  shows "shape L t' (new @ ts)"
proof (cases "lookup_key k t")
  case None
  then show ?thesis using m s by (simp add: remove_map_def)
next
  case (Some i)
  have t': "t' = t\<lparr>containers := AList.delete k (containers t)\<rparr>"
    and new: "new = map TCancel (opt_list (CancelFn i)) @ map TTeardown (opt_list (stdin_ptr i))"
    using m Some by (auto simp: remove_map_def opt_list_def split: option.splits)
  have ok: "tracker_ok t" using s by (simp add: shape_def)
  show ?thesis
  proof (rule shape_entries[OF s])
    show "stdins t' = stdins t" by (simp add: t')
    show "tracker_ok t'" using ok by (rule tracker_ok_delete) (simp_all add: t')
    have "length (containers t') \<le> length (containers t)"
      using length_delete_distinct[OF tracker_okD(1)[OF ok], of k] by (simp add: t')
    then show "int (Count t') \<le> L" using s by (simp add: shape_def Count_def)
    show "set ts \<subseteq> set (new @ ts)" by simp
    show "\<forall>x \<in> set (new @ ts) - set ts. \<forall>p \<in> set (task_ptr x). p < length (stdins t)"
      using tracker_okD(2)[OF ok Some] by (auto simp: new opt_list_def split: option.splits)
    show "\<forall>(j, i') \<in> set (containers t). \<forall>p. stdin_ptr i' = Some p \<longrightarrow>
       (\<exists>(k, i) \<in> set (containers t'). stdin_ptr i = Some p) \<or> TTeardown p \<in> set (new @ ts)"
    proof (clarify)
      fix j i' p
      assume ji: "(j, i') \<in> set (containers t)" and p: "stdin_ptr i' = Some p"
        and nt: "TTeardown p \<notin> set (new @ ts)"
      have "j \<noteq> k"
      proof
        assume "j = k"
        then have "i' = i" using ji Some tracker_okD(1)[OF ok] by (simp add: lookup_key_def)
        then show False using p nt by (simp add: new)
      qed
      then have "(j, i') \<in> set (containers t')" using ji by (simp add: t' AList.delete_eq)
      then show "\<exists>(k, i) \<in> set (containers t'). stdin_ptr i = Some p" using p by blast
    qed
  qed
qed

lemma books_remove:
  assumes "books t ts" and "remove_map k t = (t', new)"
  shows "books t' (new @ ts)"
  using assms(1) by (rule books_cong) (use assms(2) in \<open>auto simp: remove_map_def split: option.splits\<close>)

lemma shape_attach:
  assumes s: "shape L t ts" and "lookup_key k t = Some i" and "stdin_ptr i = Some p"
  shows "shape L (attach p w f (emit es t)) ts"
proof -
  have ok: "tracker_ok t" using s by (simp add: shape_def)
  have "(k, i) \<in> set (containers t)" using assms(2) by (simp add: lookup_key_def map_of_SomeD)
  moreover have "p < length (stdins t)" using tracker_okD(2)[OF ok assms(2,3)] .
  ultimately have "owned (attach p w f (emit es t)) ts"
    using s assms(3) unfolding shape_def owned_def by (fastforce simp: frame_simps nth_list_update)
  then show ?thesis
    using s by (simp add: shape_def frame_simps ptrs_ok_def Count_def tracker_ok_def)
qed

lemma shape_alloc:
  assumes s: "shape L t ts" and i: "lookup_key k t = Some i" and n: "stdin_ptr i = None"
  defines "u \<equiv> update_info k (\<lambda>i. i\<lparr>stdin_ptr := Some (length (stdins t))\<rparr>)
         (t\<lparr>stdins := stdins t @ [\<lparr>ss_stdin = None, ss_onClose = None\<rparr>]\<rparr>)"
  shows "shape L u ts" and "lookup_key k u = Some (i\<lparr>stdin_ptr := Some (length (stdins t))\<rparr>)"
proof -
  let ?g = "\<lambda>i. i\<lparr>stdin_ptr := Some (length (stdins t))\<rparr>"
  let ?a = "t\<lparr>stdins := stdins t @ [\<lparr>ss_stdin = None, ss_onClose = None\<rparr>]\<rparr>"
  have ok: "tracker_ok t" using s by (simp add: shape_def)
  have c: "containers u = map (\<lambda>(j, i). (j, if j = k then ?g i else i)) (containers t)"
    by (simp add: u_def update_info_def)
  have st: "stdins u = stdins t @ [\<lparr>ss_stdin = None, ss_onClose = None\<rparr>]" by (simp add: u_def frame_simps)
  have "map_of (map (\<lambda>(j, i). (j, if j = k then ?g i else i)) xs) k = map_option ?g (map_of xs k)" for xs
    by (induction xs) auto
  from this[of "containers t"] show "lookup_key k u = Some (?g i)"
    using i unfolding lookup_key_def c by simp
  have oku: "tracker_ok ?a"
    using ok by (auto simp: tracker_ok_def pred_option_def intro: less_SucI)
  have "tracker_ok u" unfolding u_def by (rule tracker_ok_update[OF oku]) simp
  moreover have "owned u ts"
    unfolding owned_def
  proof (intro allI impI)
    fix p assume "p < length (stdins u)"
    then consider "p < length (stdins t)" | "p = length (stdins t)" by (auto simp: st less_Suc_eq)
    then show "(\<exists>(k, i) \<in> set (containers u). stdin_ptr i = Some p) \<or> TTeardown p \<in> set ts \<or>
      stdins u ! p = \<lparr>ss_stdin = None, ss_onClose = None\<rparr>"
    proof cases
      case 1
      have "(\<exists>(k, i) \<in> set (containers t). stdin_ptr i = Some p) \<Longrightarrow>
          \<exists>(k, i) \<in> set (containers u). stdin_ptr i = Some p"
      proof clarify
        fix j i' assume ji: "(j, i') \<in> set (containers t)" and p: "stdin_ptr i' = Some p"
        have "j \<noteq> k"
        proof
          assume "j = k"
          then have "i' = i" using ji i tracker_okD(1)[OF ok] by (simp add: lookup_key_def)
          then show False using p n by simp
        qed
        then have "(j, i') \<in> set (containers u)" using ji by (force simp: c)
        then show "\<exists>(k, i) \<in> set (containers u). stdin_ptr i = Some p" using p by blast
      qed
      then show ?thesis using s 1 unfolding shape_def owned_def by (simp add: st nth_append) blast
    qed (simp add: st)
  qed
  ultimately show "shape L u ts"
    using s by (auto simp: shape_def ptrs_ok_def st Count_def c intro: less_SucI)
qed

lemma shape_push:
  "shape L t ts \<Longrightarrow> \<forall>p \<in> set (task_ptr x). p < length (stdins t) \<Longrightarrow> shape L t (x # ts)"
  by (rule shape_tasks) auto

lemma books_push: "books t ts \<Longrightarrow> task_w x = [] \<Longrightarrow> task_f x = [] \<Longrightarrow> books t (x # ts)"
  by (rule books_cong) auto

lemma shape_emit: "shape L (emit es t) ts = shape L t ts"
  by (simp add: shape_def owned_def ptrs_ok_def tracker_ok_def Count_def frame_simps)

lemma shape_set_stdin:
  assumes s: "shape L t ts" and m: "set_stdin_map k w f t = (t', new)"
  shows "shape L t' (new @ ts)"
  using m
proof (cases rule: set_stdin_map_cases)
  case late
  have "shape L (emit [Attached w f] t) (TCloseWriter w f # ts)"
    using s by (intro shape_push) (simp_all only: shape_emit, simp)
  then show ?thesis using late by simp
next
  case (again i p)
  then show ?thesis using shape_attach[OF s again(1,2)] by simp
next
  case (first i)
  show ?thesis using shape_attach[OF shape_alloc[OF s first(1,2)]] first by simp
qed

lemma locked_frame:
  "containers (snd (write_locked p b io t)) = containers t"
  "length (stdins (snd (write_locked p b io t))) = length (stdins t)"
  "containers (snd (close_locked p io t)) = containers t"
  "length (stdins (snd (close_locked p io t))) = length (stdins t)"
  "containers (mark_locked p t) = containers t"
  "length (stdins (mark_locked p t)) = length (stdins t)"
  "containers (snd (teardown_locked p t)) = containers t"
  "length (stdins (snd (teardown_locked p t))) = length (stdins t)"
  by (simp_all add: write_locked_def close_locked_def mark_locked_def teardown_locked_def
      set_writer_def Let_def frame_simps split: option.split)

lemma run_task_frame:
  "containers (fst (run_task x t)) = containers t"
  "length (stdins (fst (run_task x t))) = length (stdins t)"
  by (cases x; simp add: locked_frame case_prod_unfold frame_simps)+

lemma sys_task:
  assumes "sys_ok L (t, xs @ x # ys)" and r: "run_task x t = (t', new)"
  shows "sys_ok L (t', xs @ new @ ys)"
proof -
  have s: "shape L t (xs @ x # ys)" and b: "books t (xs @ x # ys)"
    using assms(1) by (simp_all add: sys_ok_parts)
  have p: "\<forall>q \<in> set (task_ptr x). q < length (stdins t)" using s by (simp add: shape_def ptrs_ok_def)
  have rest: "\<forall>y \<in> set (xs @ ys). \<forall>q \<in> set (task_ptr y). q < length (stdins t)"
    using s by (auto simp: shape_def ptrs_ok_def)
  have "shape L t' (xs @ new @ ys)"
  proof (rule shape_heap[OF s])
    show "containers t' = containers t" "length (stdins t') = length (stdins t)"
      using run_task_frame[of x t] r by simp_all
    show "\<forall>y \<in> set (xs @ new @ ys). \<forall>q \<in> set (task_ptr y). q < length (stdins t)"
      using r rest by (cases x) (auto split: prod.splits option.splits)
    show "\<forall>q < length (stdins t). stdins t ! q = \<lparr>ss_stdin = None, ss_onClose = None\<rparr> \<longrightarrow> stdins t' ! q = stdins t ! q"
      using r p by (cases x) (auto simp: write_locked_def mark_locked_def close_locked_def set_writer_def
          teardown_locked_def Let_def frame_simps nth_list_update split: option.splits)
    show "\<forall>q < length (stdins t). TTeardown q \<in> set (xs @ x # ys) \<longrightarrow>
        TTeardown q \<in> set (xs @ new @ ys) \<or> stdins t' ! q = \<lparr>ss_stdin = None, ss_onClose = None\<rparr>"
      using r by (cases x) (auto simp: teardown_locked_def Let_def split: option.splits)
  qed
  moreover have "books t' (xs @ new @ ys)"
  proof (cases x)
    case (TTeardown q)
    then show ?thesis using books_teardown[of t xs q ys t' new] b p r by simp
  next
    case (TWrite q d)
    then show ?thesis using books_cong[OF books_write[OF b, of q d None]] p r by simp
  next
    case (TMark q)
    then show ?thesis using books_cong[OF books_mark[OF b, of q]] p r by simp
  next
    case (TClose q)
    then show ?thesis using books_cong[OF books_close[OF b, of q None]] p r by simp
  next
    case (TCancel c)
    then show ?thesis using books_cong[OF books_emit_cancelled[OF b, of c]] r by auto
  next
    case (TRun g)
    then show ?thesis
      using b r by (auto simp: books_def acct_w_def acct_f_def fresh_handles_def frame_simps add.assoc add.left_commute)
  next
    case (TCloseWriter w g)
    then show ?thesis
      using b r by (cases w; cases g) (auto simp: books_def acct_w_def acct_f_def fresh_handles_def frame_simps call_fn_def algebra_simps)
  qed
  ultimately show ?thesis by (simp add: sys_ok_parts)
qed

lemma sys_step:
  assumes "tr_step L (t, ts) s'" and ok: "sys_ok L (t, ts)"
  shows "sys_ok L s'"
proof -
  have s: "shape L t ts" and b: "books t ts" using ok by (simp_all add: sys_ok_parts)
  have tok: "tracker_ok t" and c: "int (Count t) \<le> L" using s by (simp_all add: shape_def)
  show ?thesis
    using assms(1)
  proof (cases rule: tr_stepE[consumes 1, case_names 1 2 3 4 5 6 7 8 9 10])
    case (1 i)
    have "int (Count (snd (AddIfUnderLimit i L t))) \<le> L" by (rule cards.reserve_within[OF tok c])
    then show ?thesis using 1 s b shape_add books_add by (auto simp: AddIfUnderLimit_def sys_ok_parts split: if_splits)
  next
    case (2 i)
    have "int (Count (snd (AddChatIfUnderLimit i L t))) \<le> L" by (rule chats.reserve_within[OF tok c])
    then show ?thesis using 2 s b shape_add books_add by (auto simp: AddChatIfUnderLimit_def sys_ok_parts split: if_splits)
  next
    case (3 k w f t' new)
    then show ?thesis using shape_set_stdin[OF s] books_set_stdin[OF b tok] by (simp add: sys_ok_parts)
  next
    case (4 k p d)
    then have "p < length (stdins t)"
      using tracker_okD(2)[OF tok] by (auto simp: capture_def split: option.splits)
    then show ?thesis using 4 shape_push[OF s] books_push[OF b] by (simp add: sys_ok_parts)
  next
    case (5 k p)
    then have "p < length (stdins t)"
      using tracker_okD(2)[OF tok] by (auto simp: capture_def split: option.splits)
    then show ?thesis using 5 shape_push[OF s] books_push[OF b] by (simp add: sys_ok_parts)
  next
    case (6 k p)
    then have "p < length (stdins t)"
      using tracker_okD(2)[OF tok] by (auto simp: capture_def split: option.splits)
    then show ?thesis using 6 shape_push[OF s] books_push[OF b] by (simp add: sys_ok_parts)
  next
    case (7 k t' new)
    then show ?thesis using shape_remove[OF s] books_remove[OF b] by (simp add: sys_ok_parts)
  next
    case (8 k why bb t' new)
    let ?u = "update_info k (\<lambda>i. i\<lparr>reason := why\<rparr>) t"
    have u: "shape L ?u ts" "books ?u ts" using shape_update[OF s] books_update[OF b] by simp_all
    have "(t' = t \<and> new = []) \<or> (t' = ?u \<and> (\<exists>c. new = map TCancel (opt_list c)))"
      using 8(2) by (auto simp: cancel_map_def opt_list_def split: option.splits)
    moreover have "shape L ?u (map TCancel (opt_list c) @ ts)" for c
      using u(1) by (rule shape_tasks) (cases c; auto)+
    moreover have "books ?u (map TCancel (opt_list c) @ ts)" for c
      using u(2) by (rule books_cong) (cases c; auto)+
    ultimately show ?thesis using 8(1) s b by (auto simp: sys_ok_parts)
  next
    case (9 k cid)
    then show ?thesis using shape_update[OF s] books_update[OF b] by (simp add: sys_ok_parts)
  next
    case (10 x t' new xs ys)
    then show ?thesis using sys_task ok by blast
  qed
qed

lemma sys_ok_reach: "tr_reach L s \<Longrightarrow> 0 \<le> L \<Longrightarrow> sys_ok L s"
proof (induction rule: tr_reach.induct)
  case reach_init
  then show ?case
    by (simp add: sys_ok_def tracker_ok_new acct_w_def acct_f_def fresh_handles_def owned_def ptrs_ok_def)
      (simp add: tracker_New_def Count_def)
next
  case (reach_step s s')
  then show ?case using sys_step by (metis surj_pair)
qed

lemma writes_before_close_split:
  "writes_before_close es \<Longrightarrow> es = later @ Wrote w b # earlier \<Longrightarrow> Closed w \<notin> set earlier"
proof (induction later arbitrary: es)
  case (Cons e later)
  then show ?case by (cases e) auto
qed simp

section \<open>The sequential operations are runs of the phases\<close>

lemma run_seq_task: "run_task x t = (t', new) \<Longrightarrow> (tr_step L)\<^sup>*\<^sup>* (t, x # ts) (t', new @ ts)"
  using step_task[of x t t' new L "[]" ts] by auto

lemma run_call:
  "(tr_step L)\<^sup>*\<^sup>* (t, map TRun (opt_list f) @ ts) (call_fn Ran f t, ts)"
  "(tr_step L)\<^sup>*\<^sup>* (t, map TCancel (opt_list f) @ ts) (call_fn Cancelled f t, ts)"
  using run_seq_task[of "TRun (the f)" t _ "[]" L ts] run_seq_task[of "TCancel (the f)" t _ "[]" L ts]
  by (cases f; simp add: call_fn_def)+

lemma run_teardown: "(tr_step L)\<^sup>*\<^sup>* (t, TTeardown p # ts) (closeStdinAsync p t, ts)"
proof -
  obtain f t' where td: "teardown_locked p t = (f, t')" by fastforce
  have "(tr_step L)\<^sup>*\<^sup>* (t, TTeardown p # ts) (t', map TRun (opt_list f) @ ts)"
    by (rule run_seq_task) (simp add: td opt_list_def split: option.splits)
  also have "(tr_step L)\<^sup>*\<^sup>* \<dots> (call_fn Ran f t', ts)" by (rule run_call)
  finally show ?thesis by (simp add: closeStdinAsync_def td)
qed

lemma run_remove: "(tr_step L)\<^sup>*\<^sup>* (t, []) (remove_key k t, [])"
proof (cases "lookup_key k t")
  case None
  then show ?thesis by (simp add: remove_key_def)
next
  case (Some i)
  let ?t = "t\<lparr>containers := AList.delete k (containers t)\<rparr>"
  let ?td = "map TTeardown (opt_list (stdin_ptr i))"
  have "tr_step L (t, []) (?t, map TCancel (opt_list (CancelFn i)) @ ?td)"
    using step_remove[of k t ?t "map TCancel (opt_list (CancelFn i)) @ ?td" L "[]"] Some
    by (simp add: remove_map_def opt_list_def split: option.splits)
  also have "(tr_step L)\<^sup>*\<^sup>* (?t, map TCancel (opt_list (CancelFn i)) @ ?td) (call_fn Cancelled (CancelFn i) ?t, ?td)"
    by (rule run_call)
  also have "(tr_step L)\<^sup>*\<^sup>* \<dots> (remove_key k t, [])"
    using run_teardown[of L _ "the (stdin_ptr i)" "[]"] Some
    by (cases "stdin_ptr i") (simp_all add: remove_key_def Let_def)
  finally show ?thesis .
qed

lemma run_set_stdin:
  assumes "\<forall>x \<in> set (opt_list w). cnt ev_attached_w (trace t) x = 0"
    "\<forall>x \<in> set (opt_list f). cnt ev_attached_f (trace t) x = 0"
  shows "(tr_step L)\<^sup>*\<^sup>* (t, []) (set_stdin_key k w f t, [])"
proof -
  obtain t' new where m: "set_stdin_map k w f t = (t', new)" by fastforce
  have s: "tr_step L (t, []) (t', new)" using step_set[OF m assms, of L "[]"] by simp
  show ?thesis
    using m
  proof (cases rule: set_stdin_map_cases)
    case late
    have "(tr_step L)\<^sup>*\<^sup>* (t', [TCloseWriter w f]) (call_fn Closed w t', map TRun (opt_list f))"
      using run_seq_task[of "TCloseWriter w f" t' _ "map TRun (opt_list f)" L "[]"]
      by (simp add: opt_list_def split: option.splits)
    also have "(tr_step L)\<^sup>*\<^sup>* \<dots> (call_fn Ran f (call_fn Closed w t'), [])"
      using run_call(1)[of L _ f "[]"] by simp
    also have "call_fn Ran f (call_fn Closed w t') = set_stdin_key k w f t"
      using m late by (simp add: set_stdin_key_def closeWriterAsync_def call_fn_def)
    finally show ?thesis using s late(3) by (simp add: converse_rtranclp_into_rtranclp)
  next
    case (again i p)
    then show ?thesis using s m by (simp add: set_stdin_key_def r_into_rtranclp)
  next
    case (first i)
    then show ?thesis using s m by (simp add: set_stdin_key_def r_into_rtranclp)
  qed
qed

lemma run_captured:
  assumes "capture k t = Inr p" and "tr_step L (t, []) (t, [x])" and "fst (run_task x t) = t'" and "snd (run_task x t) = []"
  shows "(tr_step L)\<^sup>*\<^sup>* (t, []) (t', [])"
  using assms run_seq_task[of x t t' "[]" L "[]"] by (simp add: prod_eq_iff converse_rtranclp_into_rtranclp)

lemma run_write: "(tr_step L)\<^sup>*\<^sup>* (t, []) (snd (write_key k b io t), [])"
proof (cases "capture k t")
  case (Inr p)
  have "snd (write_locked p b io t) = snd (write_locked p b None t)"
    by (simp add: write_locked_def split: option.split)
  then show ?thesis
    using run_captured[OF Inr step_write[OF Inr]] Inr by (simp add: write_key_def)
qed (simp add: write_key_def)

lemma run_close: "(tr_step L)\<^sup>*\<^sup>* (t, []) (snd (close_key k io t), [])"
proof (cases "capture k t")
  case (Inr p)
  have "snd (close_locked p io t) = snd (close_locked p None t)"
    by (simp add: close_locked_def split: option.split)
  then show ?thesis
    using run_captured[OF Inr step_close[OF Inr]] Inr by (simp add: close_key_def)
qed (simp add: close_key_def)

section \<open>What the registry promises\<close>

text \<open>
  C1. Whatever the interleaving of registrations, attachments, writes, closes, cancellations and removals
  on any keys (each operation split where it drops its lock, the left-over work run in any order): the
  number of tracked containers never exceeds the limit, every writer is closed at most once, every
  \<open>onClose\<close> callback runs at most once, and no write reaches a writer after it was closed.
\<close>

theorem tracker_interleavings_safe:
  assumes "tr_reach L (t, ts)" and "0 \<le> L"
  shows "int (Count t) \<le> L \<and> count_list (concat (map ev_closed (trace t))) w \<le> 1 \<and>
    count_list (concat (map ev_ran (trace t))) f \<le> 1 \<and>
    (trace t = later @ Wrote w b # earlier \<longrightarrow> Closed w \<notin> set earlier)"
proof -
  have ok: "sys_ok L (t, ts)" by (rule sys_ok_reach[OF assms])
  have c: "count_list (concat (map g es)) x = cnt g es x" for g :: "effect \<Rightarrow> nat list" and es x
    by (induction es) simp_all
  have aw: "acct_w t ts" and af: "acct_f t ts" and cl: "int (Count t) \<le> L"
    and fr: "fresh_handles t" and wb: "writes_before_close (trace t)"
    using ok by (simp_all add: sys_ok_def)
  have "cnt ev_closed (trace t) w \<le> 1"
    using aw[unfolded acct_w_def, rule_format, of w] fr[unfolded fresh_handles_def, THEN conjunct1, rule_format, of w]
    by linarith
  moreover have "cnt ev_ran (trace t) f \<le> 1"
    using af[unfolded acct_f_def, rule_format, of f] fr[unfolded fresh_handles_def, THEN conjunct2, rule_format, of f]
    by linarith
  ultimately show ?thesis
    using cl writes_before_close_split[OF wb] unfolding c by blast
qed

lemma ev_in_cnt:
  "Closed w \<in> set es \<longleftrightarrow> 0 < cnt ev_closed es w"
  "ForgotWriter w \<in> set es \<longleftrightarrow> 0 < cnt ev_forgot_w es w"
  "Ran f \<in> set es \<longleftrightarrow> 0 < cnt ev_ran es f"
  "ForgotCallback f \<in> set es \<longleftrightarrow> 0 < cnt ev_forgot_f es f"
proof -
  have "x \<in> set (ev_forgot_w e) \<longleftrightarrow> e = ForgotWriter x"
    "x \<in> set (ev_ran e) \<longleftrightarrow> e = Ran x" "x \<in> set (ev_forgot_f e) \<longleftrightarrow> e = ForgotCallback x" for e x
    by (cases e; auto)+
  then show "Closed w \<in> set es \<longleftrightarrow> 0 < cnt ev_closed es w"
    "ForgotWriter w \<in> set es \<longleftrightarrow> 0 < cnt ev_forgot_w es w"
    "Ran f \<in> set es \<longleftrightarrow> 0 < cnt ev_ran es f"
    "ForgotCallback f \<in> set es \<longleftrightarrow> 0 < cnt ev_forgot_f es f"
    by (simp_all add: cnt_pos closed_in_cnt)
qed

text \<open>
  C4. Nothing leaks. When no left-over work is pending, a writer that was attached and neither closed nor
  handed back (\<open>MarkStdinClosed\<close>, a second \<open>SetStdin\<close>) is the current writer of a tracked entry, and likewise
  a callback; so once every container is removed, every attached handle was closed and
  every \<open>onClose\<close> has run, exactly once, including a handle that arrived after the removal.
\<close>

theorem tracker_no_leak:
  assumes "tr_reach L (t, [])" and "0 \<le> L"
  shows "(w \<in> set (concat (map ev_attached_w (trace t))) \<longrightarrow>
       Closed w \<in> set (trace t) \<or> ForgotWriter w \<in> set (trace t) \<or>
       (\<exists>(k, i) \<in> set (containers t). \<exists>p. stdin_ptr i = Some p \<and> ss_stdin (stdins t ! p) = Some w)) \<and>
     (f \<in> set (concat (map ev_attached_f (trace t))) \<longrightarrow>
       Ran f \<in> set (trace t) \<or> ForgotCallback f \<in> set (trace t) \<or>
       (\<exists>(k, i) \<in> set (containers t). \<exists>p. stdin_ptr i = Some p \<and> ss_onClose (stdins t ! p) = Some f))"
proof -
  have ok: "sys_ok L (t, [])" by (rule sys_ok_reach[OF assms])
  have own: "\<exists>(k, i) \<in> set (containers t). stdin_ptr i = Some p"
    if "p < length (stdins t)" "stdins t ! p \<noteq> \<lparr>ss_stdin = None, ss_onClose = None\<rparr>" for p
    using ok that by (auto simp: sys_ok_def owned_def)
  show ?thesis
  proof (intro conjI impI)
    assume "w \<in> set (concat (map ev_attached_w (trace t)))"
    then have "0 < cnt ev_attached_w (trace t) w" by (auto simp: cnt_pos)
    then have "0 < cnt (opt_list \<circ> ss_stdin) (stdins t) w \<or> 0 < cnt ev_closed (trace t) w \<or> 0 < cnt ev_forgot_w (trace t) w"
      using ok unfolding sys_ok_def acct_w_def by (clarsimp) (metis add_is_0 not_gr_zero)
    moreover have "\<exists>p < length (stdins t). ss_stdin (stdins t ! p) = Some w"
      if "0 < cnt (opt_list \<circ> ss_stdin) (stdins t) w"
      using that by (auto simp: cnt_pos in_set_conv_nth opt_list_def split: option.splits)
    ultimately show "Closed w \<in> set (trace t) \<or> ForgotWriter w \<in> set (trace t) \<or>
       (\<exists>(k, i) \<in> set (containers t). \<exists>p. stdin_ptr i = Some p \<and> ss_stdin (stdins t ! p) = Some w)"
      using own unfolding ev_in_cnt by force
  next
    assume "f \<in> set (concat (map ev_attached_f (trace t)))"
    then have "0 < cnt ev_attached_f (trace t) f" by (auto simp: cnt_pos)
    then have "0 < cnt (opt_list \<circ> ss_onClose) (stdins t) f \<or> 0 < cnt ev_ran (trace t) f \<or> 0 < cnt ev_forgot_f (trace t) f"
      using ok unfolding sys_ok_def acct_f_def by (clarsimp) (metis add_is_0 not_gr_zero)
    moreover have "\<exists>p < length (stdins t). ss_onClose (stdins t ! p) = Some f"
      if "0 < cnt (opt_list \<circ> ss_onClose) (stdins t) f"
      using that by (auto simp: cnt_pos in_set_conv_nth opt_list_def split: option.splits)
    ultimately show "Ran f \<in> set (trace t) \<or> ForgotCallback f \<in> set (trace t) \<or>
       (\<exists>(k, i) \<in> set (containers t). \<exists>p. stdin_ptr i = Some p \<and> ss_onClose (stdins t ! p) = Some f)"
      using own unfolding ev_in_cnt by force
  qed
qed

lemma reach_run: "tr_reach L s \<Longrightarrow> (tr_step L)\<^sup>*\<^sup>* s s' \<Longrightarrow> tr_reach L s'"
  by (rotate_tac) (induction rule: rtranclp_induct, auto intro: reach_step)

definition example_info :: container_info where
  "example_info = \<lparr>ContainerID = ''id'', CardID = ''c'', Project = ''p'', SessionID = [], Image = ''img'',
     StartedAt = 0, CancelFn = Some 9, reason = [], stdin_ptr = None\<rparr>"

definition example_added :: tracker where
  "example_added = snd (AddIfUnderLimit example_info 1 tracker_New)"

definition example_attached :: tracker where
  "example_attached = SetStdin ''p'' ''c'' (Some 7) (Some 8) example_added"

lemma example_reach:
  "tr_reach 1 (example_attached, [])" "tr_reach 1 (tracker_Remove ''p'' ''c'' example_attached, [])"
proof -
  have a: "tr_reach 1 (example_added, [])"
    unfolding example_added_def by (rule reach_step[OF reach_init step_add]) (simp add: example_info_def)
  have "trace example_added = []" by (simp add: example_added_def AddIfUnderLimit_def Count_def tracker_New_def add_key_def lookup_key_def)
  then show b: "tr_reach 1 (example_attached, [])"
    unfolding example_attached_def SetStdin_def by (intro reach_run[OF a] run_set_stdin) simp_all
  show "tr_reach 1 (tracker_Remove ''p'' ''c'' example_attached, [])"
    unfolding tracker_Remove_def by (rule reach_run[OF b run_remove])
qed

lemma example_trace:
  "trace example_attached = [Attached (Some 7) (Some 8)]"
  "trace (tracker_Remove ''p'' ''c'' example_attached) = [Ran 8, Closed 7, Cancelled 9, Attached (Some 7) (Some 8)]"
  "containers (tracker_Remove ''p'' ''c'' example_attached) = []"
  by code_simp+

theorem tracker_interleavings_safe_witness:
  "int (Count example_attached) \<le> 1"
  using tracker_interleavings_safe[OF example_reach(1)] by simp

theorem tracker_no_leak_witness:
  "Closed 7 \<in> set (trace (tracker_Remove ''p'' ''c'' example_attached))
     \<or> ForgotWriter 7 \<in> set (trace (tracker_Remove ''p'' ''c'' example_attached))"
  using tracker_no_leak[OF example_reach(2), of 7 8] by (simp add: example_trace)

text \<open>
  The error a caller sees tells the three states of an entry apart, on the card and on the chat
  variants: an unknown key is \<open>ErrNotTracked\<close>, an entry that never had a writer \<open>ErrNoStdinAttached\<close>, one
  whose writer is gone \<open>ErrStdinClosed\<close>. The first \<open>CloseStdin\<close> closes the writer even when \<open>Close\<close> itself
  fails; after it the entry is still tracked and every further close, or write, reports
  \<open>ErrStdinClosed\<close> (410, not 409) and does nothing; after \<open>Remove\<close> the key is unknown.
\<close>

theorem stdin_lifecycle:
  assumes "tracker_ok t" and "lookup_key k t = Some i"
  shows "(stdin_ptr i = None \<longrightarrow> write_key k b io t = (Some ErrNoStdinAttached, t)) \<and>
    (stdin_ptr i = Some p \<and> ss_stdin (stdins t ! p) = Some w \<longrightarrow>
      (\<exists>t'. close_key k io t = (io_result io, t') \<and> trace t' = Closed w # trace t \<and> has_key k t' \<and>
        close_key k io' t' = (Some ErrStdinClosed, t') \<and> write_key k b io' t' = (Some ErrStdinClosed, t') \<and>
        write_key k b io' (remove_key k t') = (Some ErrNotTracked, remove_key k t')))"
proof (intro conjI impI)
  show "stdin_ptr i = None \<Longrightarrow> write_key k b io t = (Some ErrNoStdinAttached, t)"
    using assms(2) by (simp add: write_key_def capture_def)
  assume pw: "stdin_ptr i = Some p \<and> ss_stdin (stdins t ! p) = Some w"
  then have p: "stdin_ptr i = Some p" and w: "ss_stdin (stdins t ! p) = Some w" by simp_all
  let ?t = "set_writer p None (emit [Closed w] t)"
  have lt: "p < length (stdins t)" using tracker_okD(2)[OF assms p] .
  have c: "capture k t = Inr p" "capture k ?t = Inr p"
    using assms(2) p by (simp_all add: capture_def lookup_key_def set_writer_def emit_def)
  have n: "ss_stdin (stdins ?t ! p) = None" using lt by (simp add: set_writer_def frame_simps)
  have "lookup_key k (remove_key k ?t) = None"
    by (simp add: lookup_key_def remove_key_containers delete_conv')
  moreover have "has_key k ?t"
    using assms(2) by (simp add: has_key_def lookup_key_def set_writer_def emit_def)
  ultimately show "\<exists>t'. close_key k io t = (io_result io, t') \<and> trace t' = Closed w # trace t \<and> has_key k t' \<and>
        close_key k io' t' = (Some ErrStdinClosed, t') \<and> write_key k b io' t' = (Some ErrStdinClosed, t') \<and>
        write_key k b io' (remove_key k t') = (Some ErrNotTracked, remove_key k t')"
    using c n w by (intro exI[of _ ?t])
      (simp add: close_key_def write_key_def close_locked_def write_locked_def capture_def,
       simp add: set_writer_def emit_def)
qed

theorem stdin_lifecycle_witness:
  "\<exists>t'. CloseStdin ''p'' ''c'' (Some ''reset'') example_attached = (Some (ErrIO ''reset''), t') \<and>
     WriteStdin ''p'' ''c'' ''x'' None t' = (Some ErrStdinClosed, t')"
proof -
  let ?i = "example_info\<lparr>stdin_ptr := Some 0\<rparr>"
  have l: "lookup_key (tkey ''p'' ''c'') example_attached = Some ?i" by code_simp
  have w: "ss_stdin (stdins example_attached ! 0) = Some 7" by code_simp
  have ok: "tracker_ok example_attached"
    using sys_ok_reach[OF example_reach(1)] by (simp add: sys_ok_def)
  show ?thesis
    using stdin_lifecycle[OF ok l, of "''x''" "Some ''reset''" 0 7 None] w
    by (auto simp: CloseStdin_def WriteStdin_def io_result_def)
qed

text \<open>
  A slot is reserved exactly once. When \<open>AddIfUnderLimit\<close> succeeds there was room and the card was not
  tracked; until the slot is released every further reservation of the same card, under any
  limit, fails with the registry unchanged (so of two racing triggers one starts a container); \<open>Remove\<close>
  gives back exactly this slot. The same holds for chat sessions, which share the limit.
\<close>

theorem slot_reserved_once:
  assumes "tracker_ok t" and "detached i" and "fst (AddIfUnderLimit i L t) = None"
  defines "t' \<equiv> snd (AddIfUnderLimit i L t)"
  shows "int (Count t) < L \<and> \<not> Has (Project i) (CardID i) t \<and> Has (Project i) (CardID i) t' \<and>
    (tkey (Project j) (CardID j) = tkey (Project i) (CardID i) \<longrightarrow>
       fst (AddIfUnderLimit j M t') \<noteq> None \<and> snd (AddIfUnderLimit j M t') = t') \<and>
    Count (tracker_Remove (Project i) (CardID i) t') = Count t \<and>
    (Has pr ca (tracker_Remove (Project i) (CardID i) t') \<longleftrightarrow> Has pr ca t)"
proof -
  have h: "Has p c s \<longleftrightarrow> has_key (tkey p c) s" for p c s by (simp add: Has_def has_key_def)
  show ?thesis
    unfolding h tracker_Remove_def t'_def
    using cards.reserve_iff[OF assms(1)] cards.reserve_member[OF assms(1,3)] assms(3)
      cards.reserve_twice[OF assms(1,2,3)] cards.reserve_release[OF assms(1,2,3)] by metis
qed

theorem slot_reserved_once_witness:
  "Has ''p'' ''c'' (snd (AddIfUnderLimit example_info 1 tracker_New)) \<and>
   fst (AddIfUnderLimit example_info 5 (snd (AddIfUnderLimit example_info 1 tracker_New))) \<noteq> None"
proof -
  have "fst (AddIfUnderLimit example_info 1 tracker_New) = None" by code_simp
  from slot_reserved_once[OF tracker_ok_new _ this, of example_info 5] show ?thesis
    by (simp add: example_info_def)
qed

text \<open>
  The sequential reading of the code is an execution of the interleaved one: running an operation
  to completion, its left-over work at once and in the order of the code, is a sequence of steps of the
  transition system.
\<close>

theorem sequential_ops_are_runs:
  "(tr_step L)\<^sup>*\<^sup>* (t, []) (tracker_Remove pr ca t, []) \<and>
   (tr_step L)\<^sup>*\<^sup>* (t, []) (RemoveChat session t, []) \<and>
   (tr_step L)\<^sup>*\<^sup>* (t, []) (snd (WriteStdin pr ca b io t), []) \<and>
   (tr_step L)\<^sup>*\<^sup>* (t, []) (snd (CloseStdin pr ca io t), []) \<and>
   (tr_step L)\<^sup>*\<^sup>* (t, []) (snd (CloseStdinChat session io t), [])"
  by (simp_all add: tracker_Remove_def RemoveChat_def WriteStdin_def CloseStdin_def CloseStdinChat_def
      run_remove run_write run_close)

end
