(* ===== verification/Stream_Msg.thy ===== *)
theory Stream_Msg
  imports Utf8
begin

text \<open>
  The stream-json user turn of \<open>internal/streammsg/user.go\<close>. \<open>json.Marshal\<close> of the one struct the runner
  writes is modelled down to the escaping of the text block (HTML-safe escapes, \<open>\ufffd\<close> for a byte
  that is no valid UTF-8, the two line separators escaped). \<open>unquote\<close> is a reader for JSON string
  literals, the reference the escaping is checked against.
\<close>

section \<open>The encoder\<close>

definition hex_digit :: "nat \<Rightarrow> char" where
  "hex_digit d = char_of (if d < 10 then 48 + d else 87 + d)"

definition BSLASH :: char where "BSLASH = CHR 0x5C"
definition QUOTE :: char where "QUOTE = CHR 0x22"

definition esc_ascii :: "char \<Rightarrow> string" where
  "esc_ascii b =
     (if b = BSLASH \<or> b = QUOTE then [BSLASH, b]
      else if b = CHR 0x08 then [BSLASH, CHR ''b'']
      else if b = CHR 0x0C then [BSLASH, CHR ''f'']
      else if b = CHR 0x0A then [BSLASH, CHR ''n'']
      else if b = CHR 0x0D then [BSLASH, CHR ''r'']
      else if b = CHR 0x09 then [BSLASH, CHR ''t'']
      else if byte b < 0x20 \<or> b = CHR ''<'' \<or> b = CHR ''>'' \<or> b = CHR ''&''
      then [BSLASH, CHR ''u'', CHR ''0'', CHR ''0'', hex_digit (byte b div 16), hex_digit (byte b mod 16)]
      else [b])"

definition line_separator :: string where "line_separator = [CHR 0xE2, CHR 0x80, CHR 0xA8]"
definition para_separator :: string where "para_separator = [CHR 0xE2, CHR 0x80, CHR 0xA9]"

function json_escape :: "string \<Rightarrow> string" where
  "json_escape s =
     (case s of
        [] \<Rightarrow> []
      | b # rest \<Rightarrow>
          if byte b < 0x80 then esc_ascii b @ json_escape rest
          else if rune_len s = 0 then BSLASH # ''ufffd'' @ json_escape rest
          else if take (rune_len s) s = line_separator
          then BSLASH # ''u2028'' @ json_escape (drop (rune_len s) s)
          else if take (rune_len s) s = para_separator
          then BSLASH # ''u2029'' @ json_escape (drop (rune_len s) s)
          else take (rune_len s) s @ json_escape (drop (rune_len s) s))"
  by pat_completeness auto
termination
  by (relation "measure length") (auto simp: diff_less)

declare json_escape.simps [simp del]

definition json_string :: "string \<Rightarrow> string" where
  "json_string s = QUOTE # json_escape s @ [QUOTE]"

text \<open>The object around the text: the field order of the struct.\<close>

definition quoted :: "string \<Rightarrow> string" where
  "quoted s = QUOTE # s @ [QUOTE]"

definition message_open :: string where
  "message_open = CHR ''{'' # quoted ''type'' @ '':'' @ quoted ''user'' @ '','' @ quoted ''message'' @ '':{'' @
     quoted ''role'' @ '':'' @ quoted ''user'' @ '','' @ quoted ''content'' @ '':[{'' @
     quoted ''type'' @ '':'' @ quoted ''text'' @ '','' @ quoted ''text'' @ '':''"

definition message_close :: string where
  "message_close = ''}]}}''"

definition BuildUserMessage :: "string \<Rightarrow> bytes" where
  "BuildUserMessage content = message_open @ json_string content @ message_close @ [CHR 0x0A]"

section \<open>A reader for JSON string literals\<close>

definition hex_val :: "char \<Rightarrow> nat option" where
  "hex_val c = (if between 48 57 c then Some (byte c - 48)
     else if between 97 102 c then Some (byte c - 87)
     else if between 65 70 c then Some (byte c - 55) else None)"

definition utf8_bmp :: "nat \<Rightarrow> string" where
  "utf8_bmp n =
     (if n < 0x80 then [char_of n]
      else if n < 0x800 then [char_of (0xC0 + n div 64), char_of (0x80 + n mod 64)]
      else [char_of (0xE0 + n div 4096), char_of (0x80 + (n div 64) mod 64), char_of (0x80 + n mod 64)])"

fun simple_escape :: "char \<Rightarrow> char option" where
  "simple_escape c =
     (if c = BSLASH \<or> c = QUOTE \<or> c = CHR ''/'' then Some c
      else if c = CHR ''b'' then Some (CHR 0x08)
      else if c = CHR ''f'' then Some (CHR 0x0C)
      else if c = CHR ''n'' then Some (CHR 0x0A)
      else if c = CHR ''r'' then Some (CHR 0x0D)
      else if c = CHR ''t'' then Some (CHR 0x09)
      else None)"

definition hex4 :: "char \<Rightarrow> char \<Rightarrow> char \<Rightarrow> char \<Rightarrow> nat option" where
  "hex4 a b c d = (case (hex_val a, hex_val b, hex_val c, hex_val d) of
     (Some a, Some b, Some c, Some d) \<Rightarrow> Some (((a * 16 + b) * 16 + c) * 16 + d) | _ \<Rightarrow> None)"

text \<open>From behind the opening quote: the text and what follows the closing quote.\<close>

fun unquote :: "string \<Rightarrow> (string \<times> string) option" where
  "unquote [] = None"
| "unquote (c # s) =
     (if c = QUOTE then Some ([], s)
      else if byte c < 0x20 then None
      else if c \<noteq> BSLASH then map_option (apfst ((#) c)) (unquote s)
      else case s of
        [] \<Rightarrow> None
      | e # s' \<Rightarrow>
          if e \<noteq> CHR ''u''
          then (case simple_escape e of None \<Rightarrow> None | Some x \<Rightarrow> map_option (apfst ((#) x)) (unquote s'))
          else case s' of
            h1 # h2 # h3 # h4 # s'' \<Rightarrow>
              (case hex4 h1 h2 h3 h4 of
                 None \<Rightarrow> None
               | Some n \<Rightarrow> map_option (apfst ((@) (utf8_bmp n))) (unquote s''))
          | _ \<Rightarrow> None)"

text \<open>What a reader gets back: each byte that starts no valid encoding becomes U+FFFD.\<close>

function sanitize :: "string \<Rightarrow> string" where
  "sanitize s =
     (case s of
        [] \<Rightarrow> []
      | b # rest \<Rightarrow>
          if rune_len s = 0 then [CHR 0xEF, CHR 0xBF, CHR 0xBD] @ sanitize rest
          else take (rune_len s) s @ sanitize (drop (rune_len s) s))"
  by pat_completeness auto
termination
  by (relation "measure length") (auto simp: diff_less)

declare sanitize.simps [simp del]

section \<open>The encoder against the reader\<close>

lemma hex_val_digit: "d < 16 \<Longrightarrow> hex_val (hex_digit d) = Some d"
proof -
  have "\<forall>d \<in> set [0..<16]. hex_val (hex_digit d) = Some d" by code_simp
  then show "d < 16 \<Longrightarrow> hex_val (hex_digit d) = Some d" by simp
qed


lemma unquote_raw:
  "c \<noteq> QUOTE \<Longrightarrow> c \<noteq> BSLASH \<Longrightarrow> \<not> byte c < 0x20 \<Longrightarrow> unquote (c # t) = map_option (apfst ((#) c)) (unquote t)"
  by simp

lemma unquote_Nil: "unquote (QUOTE # t) = Some ([], t)"
  by simp

lemma unquote_simple:
  "e \<noteq> CHR ''u'' \<Longrightarrow> simple_escape e = Some x \<Longrightarrow>
    unquote (BSLASH # e # t) = map_option (apfst ((#) x)) (unquote t)"
  by (simp add: BSLASH_def QUOTE_def)

lemma unquote_u4: "unquote (BSLASH # CHR ''u'' # h1 # h2 # h3 # h4 # t) =
    (case hex4 h1 h2 h3 h4 of None \<Rightarrow> None | Some n \<Rightarrow> map_option (apfst ((@) (utf8_bmp n))) (unquote t))"
  by (simp add: BSLASH_def QUOTE_def)

declare unquote.simps(2) [simp del]

lemma unquote_ascii:
  assumes "byte b < 0x80"
  shows "unquote (esc_ascii b @ t) = map_option (apfst ((#) b)) (unquote t)"
proof -
  have u: "unquote (BSLASH # CHR ''u'' # CHR ''0'' # CHR ''0'' # hex_digit (byte b div 16) # hex_digit (byte b mod 16) # t)
      = map_option (apfst ((#) b)) (unquote t)"
  proof -
    have "hex_val (CHR ''0'') = Some 0" by code_simp
    moreover have "hex_val (hex_digit (byte b div 16)) = Some (byte b div 16)"
      using byte_less[of b] by (intro hex_val_digit) linarith
    moreover have "hex_val (hex_digit (byte b mod 16)) = Some (byte b mod 16)"
      by (rule hex_val_digit) simp
    ultimately have "hex4 (CHR ''0'') (CHR ''0'') (hex_digit (byte b div 16)) (hex_digit (byte b mod 16))
        = Some (byte b)"
      by (simp add: hex4_def)
    moreover have "utf8_bmp (byte b) = [b]" using assms by (simp add: utf8_bmp_def)
    moreover have "(@) [b] = (#) b" by auto
    ultimately show ?thesis by (simp add: unquote_u4)
  qed
  show ?thesis
  proof (cases "b \<in> {BSLASH, QUOTE, CHR 0x08, CHR 0x0C, CHR 0x0A, CHR 0x0D, CHR 0x09}")
    case True
    then have "\<exists>e. esc_ascii b = [BSLASH, e] \<and> e \<noteq> CHR ''u'' \<and> simple_escape e = Some b"
      by (elim insertE emptyE) (simp_all add: esc_ascii_def BSLASH_def QUOTE_def)
    then show ?thesis using unquote_simple by auto
  next
    case False
    show ?thesis
    proof (cases "byte b < 0x20 \<or> b = CHR ''<'' \<or> b = CHR ''>'' \<or> b = CHR ''&''")
      case True
      then have "esc_ascii b = [BSLASH, CHR ''u'', CHR ''0'', CHR ''0'', hex_digit (byte b div 16), hex_digit (byte b mod 16)]"
        using False unfolding esc_ascii_def by simp
      then show ?thesis using u by simp
    next
      case no: False
      then have "esc_ascii b = [b]" using False unfolding esc_ascii_def by simp
      then show ?thesis using no False by (simp add: unquote_raw)
    qed
  qed
qed

lemma unquote_high:
  "\<forall>c \<in> set l. \<not> byte c < 0x80 \<Longrightarrow> unquote (l @ t) = map_option (apfst ((@) l)) (unquote t)"
proof (induction l)
  case Nil
  then show ?case by (cases "unquote t") (auto simp: apfst_def map_prod_def)
next
  case (Cons c l)
  have "c \<noteq> QUOTE" "c \<noteq> BSLASH" "\<not> byte c < 0x20"
    using Cons.prems by (auto simp: QUOTE_def BSLASH_def)
  then have "unquote (c # l @ t) = map_option (apfst ((#) c)) (unquote (l @ t))" by (rule unquote_raw)
  then show ?case using Cons by (cases "unquote t") (auto simp: apfst_def map_prod_def split: prod.splits)
qed

lemma escapes_u:
  "hex4 (CHR ''f'') (CHR ''f'') (CHR ''f'') (CHR ''d'') = Some 0xFFFD"
  "hex4 (CHR ''2'') (CHR ''0'') (CHR ''2'') (CHR ''8'') = Some 0x2028"
  "hex4 (CHR ''2'') (CHR ''0'') (CHR ''2'') (CHR ''9'') = Some 0x2029"
  "utf8_bmp 0xFFFD = [CHR 0xEF, CHR 0xBF, CHR 0xBD]"
  "utf8_bmp 0x2028 = line_separator" "utf8_bmp 0x2029 = para_separator"
  by (simp_all add: hex4_def hex_val_def between_def utf8_bmp_def line_separator_def para_separator_def char_of_eq_iff)

lemma unquote_seps:
  "unquote ((BSLASH # ''ufffd'') @ t) = map_option (apfst ((@) [CHR 0xEF, CHR 0xBF, CHR 0xBD])) (unquote t)"
  "unquote ((BSLASH # ''u2028'') @ t) = map_option (apfst ((@) line_separator)) (unquote t)"
  "unquote ((BSLASH # ''u2029'') @ t) = map_option (apfst ((@) para_separator)) (unquote t)"
  by (simp_all add: unquote_u4 escapes_u)

lemma json_escape_eqs:
  "json_escape [] = []"
  "byte b < 0x80 \<Longrightarrow> json_escape (b # r) = esc_ascii b @ json_escape r"
  "\<not> byte b < 0x80 \<Longrightarrow> rune_len (b # r) = 0 \<Longrightarrow> json_escape (b # r) = BSLASH # ''ufffd'' @ json_escape r"
  "\<not> byte b < 0x80 \<Longrightarrow> rune_len (b # r) \<noteq> 0 \<Longrightarrow> json_escape (b # r) =
     (if take (rune_len (b # r)) (b # r) = line_separator then BSLASH # ''u2028''
      else if take (rune_len (b # r)) (b # r) = para_separator then BSLASH # ''u2029''
      else take (rune_len (b # r)) (b # r)) @ json_escape (drop (rune_len (b # r)) (b # r))"
  by (subst json_escape.simps, simp)+

lemma sanitize_eqs:
  "sanitize [] = []"
  "rune_len (b # r) = 0 \<Longrightarrow> sanitize (b # r) = [CHR 0xEF, CHR 0xBF, CHR 0xBD] @ sanitize r"
  "rune_len (b # r) \<noteq> 0 \<Longrightarrow> sanitize (b # r) =
     take (rune_len (b # r)) (b # r) @ sanitize (drop (rune_len (b # r)) (b # r))"
  by (subst sanitize.simps, simp)+

lemma unquote_escape:
  "unquote (json_escape s @ t) = map_option (apfst ((@) (sanitize s))) (unquote t)"
proof (induction s rule: json_escape.induct)
  case (1 s)
  have app: "map_option (apfst ((@) x)) (map_option (apfst ((@) y)) z) = map_option (apfst ((@) (x @ y))) z" for x y :: string and z :: "(string \<times> string) option"
    by (cases z) (auto simp: apfst_def map_prod_def split: prod.splits)
  have app1: "map_option (apfst ((#) x)) (map_option (apfst ((@) y)) z) = map_option (apfst ((@) (x # y))) z" for x :: char and y and z :: "(string \<times> string) option"
    by (cases z) (auto simp: apfst_def map_prod_def split: prod.splits)
  show ?case
  proof (cases s)
    case Nil
    then show ?thesis
      by (cases "unquote t") (auto simp: json_escape_eqs sanitize_eqs apfst_def map_prod_def)
  next
    case (Cons b rest)
    note IH = "1.IH"[OF Cons]
    consider (ascii) "byte b < 0x80" | (bad) "\<not> byte b < 0x80" "rune_len s = 0"
      | (ls) "\<not> byte b < 0x80" "rune_len s \<noteq> 0" "take (rune_len s) s = line_separator"
      | (ps) "\<not> byte b < 0x80" "rune_len s \<noteq> 0" "take (rune_len s) s \<noteq> line_separator" "take (rune_len s) s = para_separator"
      | (raw) "\<not> byte b < 0x80" "rune_len s \<noteq> 0" "take (rune_len s) s \<noteq> line_separator" "take (rune_len s) s \<noteq> para_separator"
      by blast
    then show ?thesis
    proof cases
      case ascii
      have r: "rune_len s = 1" using ascii Cons by simp
      have e: "json_escape s = esc_ascii b @ json_escape rest" and n: "sanitize s = b # sanitize rest"
        using ascii Cons by (simp_all add: json_escape_eqs sanitize_eqs)
      show ?thesis
        unfolding e n append_assoc unquote_ascii[OF ascii] IH(1)[OF ascii] app1 ..
    next
      case bad
      have e: "json_escape s = (BSLASH # ''ufffd'') @ json_escape rest"
        and n: "sanitize s = [CHR 0xEF, CHR 0xBF, CHR 0xBD] @ sanitize rest"
        using bad Cons by (simp_all add: json_escape_eqs sanitize_eqs)
      show ?thesis
        unfolding e n append_assoc unquote_seps IH(2)[OF bad] app ..
    next
      case ls
      have e: "json_escape s = (BSLASH # ''u2028'') @ json_escape (drop (rune_len s) s)"
        and n: "sanitize s = line_separator @ sanitize (drop (rune_len s) s)"
        using ls Cons by (simp_all add: json_escape_eqs sanitize_eqs)
      show ?thesis
        unfolding e n append_assoc unquote_seps IH(3)[OF ls] app ..
    next
      case ps
      have e: "json_escape s = (BSLASH # ''u2029'') @ json_escape (drop (rune_len s) s)"
        and n: "sanitize s = para_separator @ sanitize (drop (rune_len s) s)"
        using ps Cons by (simp_all add: json_escape_eqs sanitize_eqs)
      show ?thesis
        unfolding e n append_assoc unquote_seps IH(4)[OF ps] app ..
    next
      case raw
      have e: "json_escape s = take (rune_len s) s @ json_escape (drop (rune_len s) s)"
        and n: "sanitize s = take (rune_len s) s @ sanitize (drop (rune_len s) s)"
        using raw Cons by (simp_all add: json_escape_eqs sanitize_eqs)
      have hi: "\<forall>c \<in> set (take (rune_len s) s). \<not> byte c < 0x80"
        unfolding Cons by (rule rune_high[OF raw(1)])
      show ?thesis
        unfolding e n append_assoc unquote_high[OF hi] IH(5)[OF raw] app ..
    qed
  qed
qed

lemma sanitize_valid: "ValidString s \<Longrightarrow> sanitize s = s"
proof (induction s rule: ValidString.induct)
  case (1 s)
  show ?case
  proof (cases s)
    case (Cons b rest)
    then have r: "rune_len s \<noteq> 0" and v: "ValidString (drop (rune_len s) s)"
      using "1.prems" ValidString_Cons[of b rest] by auto
    have "s \<noteq> []" using Cons by simp
    from "1.IH"[OF this r v] have "sanitize (drop (rune_len s) s) = drop (rune_len s) s" .
    then show ?thesis using r Cons by (simp add: sanitize_eqs)
  qed (simp add: sanitize_eqs)
qed

lemma esc_ascii_printable: "byte b < 0x80 \<Longrightarrow> c \<in> set (esc_ascii b) \<Longrightarrow> \<not> byte c < 0x20"
proof -
  have h: "\<not> byte (hex_digit d) < 0x20" if "d < 16" for d
  proof -
    have "\<forall>d \<in> set [0..<16]. \<not> byte (hex_digit d) < 0x20" by code_simp
    then show ?thesis using that by simp
  qed
  assume b: "byte b < 0x80" and c: "c \<in> set (esc_ascii b)"
  show "\<not> byte c < 0x20"
  proof (cases "byte b < 0x20 \<or> b = CHR ''<'' \<or> b = CHR ''>'' \<or> b = CHR ''&''")
    case True
    have "set (esc_ascii b) \<subseteq> {BSLASH, QUOTE, CHR ''b'', CHR ''f'', CHR ''n'', CHR ''r'', CHR ''t'', CHR ''u'',
        CHR ''0'', hex_digit (byte b div 16), hex_digit (byte b mod 16)}"
      using True by (simp add: esc_ascii_def)
    moreover have "byte b div 16 < 16" using byte_less[of b] by linarith
    ultimately show ?thesis
      using c h[of "byte b div 16"] h[of "byte b mod 16"] by (auto simp: BSLASH_def QUOTE_def)
  next
    case False
    then have "set (esc_ascii b) \<subseteq> {BSLASH, b, CHR ''b'', CHR ''f'', CHR ''n'', CHR ''r'', CHR ''t''}"
      by (simp add: esc_ascii_def)
    then show ?thesis using c False by (auto simp: BSLASH_def)
  qed
qed

lemma json_escape_printable: "c \<in> set (json_escape s) \<Longrightarrow> \<not> byte c < 0x20"
proof (induction s rule: json_escape.induct)
  case (1 s)
  show ?case
  proof (cases s)
    case Nil
    then show ?thesis using "1.prems" by (simp add: json_escape.simps)
  next
    case (Cons b rest)
    note IH = "1.IH"[OF Cons]
    have hi: "\<not> byte b < 0x80 \<Longrightarrow> d \<in> set (take (rune_len s) s) \<Longrightarrow> \<not> byte d < 0x20" for d
    proof -
      assume b: "\<not> byte b < 0x80" and d: "d \<in> set (take (rune_len s) s)"
      have "\<not> byte d < 0x80" using rune_high[OF b, of rest] d[unfolded Cons] by blast
      then show "\<not> byte d < 0x20" by linarith
    qed
    have "\<forall>d \<in> set (BSLASH # ''ufffd'' @ BSLASH # ''u2028'' @ BSLASH # ''u2029''). \<not> byte d < 0x20"
      by (simp add: BSLASH_def)
    then have sep: "\<not> byte d < 0x20" if "d \<in> set (BSLASH # ''ufffd'') \<or> d \<in> set (BSLASH # ''u2028'') \<or> d \<in> set (BSLASH # ''u2029'')" for d
      using that unfolding set_append list.set(2)[of BSLASH] by blast
    consider "byte b < 0x80" | "\<not> byte b < 0x80" "rune_len s = 0" | "\<not> byte b < 0x80" "rune_len s \<noteq> 0" by blast
    then show ?thesis
    proof cases
      case 1
      then have "c \<in> set (esc_ascii b) \<or> c \<in> set (json_escape rest)"
        using "1.prems" Cons by (simp add: json_escape_eqs)
      then show ?thesis using 1 IH(1) esc_ascii_printable by blast
    next
      case 2
      then have "c \<in> set (BSLASH # ''ufffd'') \<or> c \<in> set (json_escape rest)"
        using "1.prems" Cons by (simp add: json_escape_eqs)
      then show ?thesis using 2 IH(2) sep by blast
    next
      case 3
      then have "c \<in> set (BSLASH # ''u2028'') \<or> c \<in> set (BSLASH # ''u2029'') \<or> c \<in> set (take (rune_len s) s) \<or>
          c \<in> set (json_escape (drop (rune_len s) s))"
        using "1.prems" Cons by (simp add: json_escape_eqs split: if_splits) blast+
      then show ?thesis using 3 IH(3-5) sep hi[of c] by fastforce
    qed
  qed
qed

section \<open>What the encoder promises\<close>

text \<open>
  C7. A user turn is one line whatever the operator typed: \<open>BuildUserMessage\<close> ends in its only newline
  and contains no other control byte, so content cannot open a second stream-json message; the text
  block reads back as exactly the content when it is valid UTF-8 (and with U+FFFD for invalid
  bytes otherwise), with the closing brackets right behind it.
\<close>

theorem BuildUserMessage_one_line:
  "(\<exists>line. BuildUserMessage content = line @ [CHR 0x0A] \<and> (\<forall>c \<in> set line. \<not> byte c < 0x20)) \<and>
   (\<exists>text. BuildUserMessage content = message_open @ QUOTE # text \<and>
      unquote text = Some (sanitize content, message_close @ [CHR 0x0A])) \<and>
   (ValidString content \<longrightarrow> sanitize content = content)"
proof (intro conjI impI)
  have m: "\<forall>c \<in> set (message_open @ message_close). \<not> byte c < 0x20" by code_simp
  show "\<exists>line. BuildUserMessage content = line @ [CHR 0x0A] \<and> (\<forall>c \<in> set line. \<not> byte c < 0x20)"
    using m json_escape_printable[of _ content]
    by (intro exI[of _ "message_open @ json_string content @ message_close"])
      (auto simp: BuildUserMessage_def json_string_def QUOTE_def)
  have "unquote (QUOTE # message_close @ [CHR 0x0A]) = Some ([], message_close @ [CHR 0x0A])" by (rule unquote_Nil)
  then show "\<exists>text. BuildUserMessage content = message_open @ QUOTE # text \<and>
      unquote text = Some (sanitize content, message_close @ [CHR 0x0A])"
    by (intro exI[of _ "json_escape content @ QUOTE # message_close @ [CHR 0x0A]"])
      (simp add: BuildUserMessage_def json_string_def unquote_escape)
qed (rule sanitize_valid)

theorem BuildUserMessage_one_line_witness:
  "sanitize ''a<b'' = ''a<b''"
  using BuildUserMessage_one_line[of "''a<b''"] by (simp add: ValidString_ascii_all)

end
