(* ===== verification/Broadcaster.thy ===== *)
theory Broadcaster
  imports Utf8
begin

text \<open>
  The log fan-out of \<open>internal/logbroadcast/broadcaster.go\<close>. A subscriber lives on a heap (a list, its
  index is the pointer) because \<open>Publish\<close> snapshots the subscribers under the broadcaster lock and sends
  after releasing it, while \<open>unsubscribe\<close> removes the subscriber under that lock and closes its channel
  later, under the subscriber's own lock. The step relation interleaves these halves; a send on, or a
  second close of, a closed channel is the value \<open>panicked\<close>.
\<close>

section \<open>Entries and truncation\<close>

text \<open>\<open>TokenUsage\<close> and \<open>LogEntry\<close>, without the time stamp, which nothing decides on.\<close>

record token_usage =
  tu_input :: int
  tu_output :: int
  tu_cache_read :: int
  tu_cache_create :: int

record log_entry =
  le_project :: string
  le_session :: string
  le_card :: string
  le_kind :: string
  le_content :: bytes
  le_model :: string
  le_usage :: "token_usage option"

definition subscriberBufferSize :: nat where "subscriberBufferSize = 256"
definition maxLogEntryContentBytes :: nat where "maxLogEntryContentBytes = 64 * 1024"

definition truncatedMarker :: string where
  "truncatedMarker = [CHR 0xE2, CHR 0x80, CHR 0xA6] @ ''[truncated]''"

text \<open>\<open>for cut > 0 && !utf8.RuneStart(content[cut]) { cut-- }\<close>\<close>

fun back_off :: "bytes \<Rightarrow> nat \<Rightarrow> nat" where
  "back_off s 0 = 0"
| "back_off s (Suc n) = (if \<not> RuneStart (s ! Suc n) then back_off s n else Suc n)"

definition truncate_content :: "bytes \<Rightarrow> bytes" where
  "truncate_content s =
     (if length s > maxLogEntryContentBytes
      then let head = maxLogEntryContentBytes - length truncatedMarker in
           if head > 0 \<and> head < length s then take (back_off s head) s @ truncatedMarker
           else truncatedMarker
      else s)"

section \<open>State and operations\<close>

record subscriber =
  sb_project :: string
  sb_session :: string
  sb_closed :: bool
  ch_buf :: "log_entry list"
  ch_closed :: bool

record broadcaster =
  heap :: "subscriber list"
  subscribers :: "nat list"
  b_closed :: bool
  dropCount :: nat
  drop_observed :: nat
  drop_warnings :: "nat list"
  panicked :: bool

definition NewBroadcaster :: broadcaster where
  "NewBroadcaster = \<lparr>heap = [], subscribers = [], b_closed = False, dropCount = 0,
     drop_observed = 0, drop_warnings = [], panicked = False\<rparr>"

definition sub_matches :: "subscriber \<Rightarrow> log_entry \<Rightarrow> bool" where
  "sub_matches s e \<longleftrightarrow>
     (if sb_session s \<noteq> [] then le_session e = sb_session s
      else sb_project s = [] \<or> sb_project s = le_project e)"

definition set_sub :: "nat \<Rightarrow> subscriber \<Rightarrow> broadcaster \<Rightarrow> broadcaster" where
  "set_sub i s b = b\<lparr>heap := (heap b)[i := s]\<rparr>"

definition subscribeInternal :: "string \<Rightarrow> string \<Rightarrow> broadcaster \<Rightarrow> nat \<times> broadcaster" where
  "subscribeInternal project session b =
     (let i = length (heap b);
          s = \<lparr>sb_project = project, sb_session = session, sb_closed = False, ch_buf = [], ch_closed = False\<rparr>
      in if b_closed b
         then (i, b\<lparr>heap := heap b @ [s\<lparr>sb_closed := True, ch_closed := True\<rparr>]\<rparr>)
         else (i, b\<lparr>heap := heap b @ [s], subscribers := i # subscribers b\<rparr>))"

definition Subscribe :: "string \<Rightarrow> broadcaster \<Rightarrow> nat \<times> broadcaster" where
  "Subscribe project = subscribeInternal project []"

definition SubscribeWithSessionID :: "string \<Rightarrow> broadcaster \<Rightarrow> nat \<times> broadcaster" where
  "SubscribeWithSessionID session = subscribeInternal [] session"

text \<open>Work left after the broadcaster lock is released.\<close>

datatype btask = BSend nat log_entry | BClose nat

definition unsubscribe_map :: "nat \<Rightarrow> broadcaster \<Rightarrow> broadcaster \<times> btask list" where
  "unsubscribe_map i b =
     (if i \<in> set (subscribers b)
      then (b\<lparr>subscribers := filter (\<lambda>j. j \<noteq> i) (subscribers b)\<rparr>, [BClose i])
      else (b, []))"

text \<open>Under the subscriber's lock: mark it closed and close the channel.\<close>

definition close_sub :: "nat \<Rightarrow> broadcaster \<Rightarrow> broadcaster" where
  "close_sub i b =
     (let s = heap b ! i in
      (set_sub i (s\<lparr>sb_closed := True, ch_closed := True\<rparr>) b)\<lparr>panicked := panicked b \<or> ch_closed s\<rparr>)"

definition trySend :: "nat \<Rightarrow> log_entry \<Rightarrow> broadcaster \<Rightarrow> bool \<times> broadcaster" where
  "trySend i e b =
     (let s = heap b ! i in
      if sb_closed s then (False, b)
      else if ch_closed s then (False, b\<lparr>panicked := True\<rparr>)
      else if length (ch_buf s) < subscriberBufferSize
      then (True, set_sub i (s\<lparr>ch_buf := ch_buf s @ [e]\<rparr>) b)
      else (False, b))"

definition publish_map :: "log_entry \<Rightarrow> broadcaster \<Rightarrow> btask list" where
  "publish_map e b =
     (if b_closed b then []
      else map (\<lambda>i. BSend i (e\<lparr>le_content := truncate_content (le_content e)\<rparr>)) (subscribers b))"

text \<open>
  One round of the send loop. The drop counter and the observer are two atomic increments one after the other in the code;
  here they are one step, so a state between them, which only a reader of the metric could see, is left out.
\<close>

definition send_one :: "nat \<Rightarrow> log_entry \<Rightarrow> broadcaster \<Rightarrow> broadcaster" where
  "send_one i e b =
     (if \<not> sub_matches (heap b ! i) e then b
      else case trySend i e b of
             (True, b') \<Rightarrow> b'
           | (False, b') \<Rightarrow> b'\<lparr>dropCount := dropCount b' + 1, drop_observed := drop_observed b' + 1\<rparr>)"

fun run_btask :: "btask \<Rightarrow> broadcaster \<Rightarrow> broadcaster" where
  "run_btask (BSend i e) b = send_one i e b"
| "run_btask (BClose i) b = close_sub i b"

definition Publish :: "log_entry \<Rightarrow> broadcaster \<Rightarrow> broadcaster" where
  "Publish e b = fold run_btask (publish_map e b) b"

definition unsubscribe :: "nat \<Rightarrow> broadcaster \<Rightarrow> broadcaster" where
  "unsubscribe i b = (case unsubscribe_map i b of (b', ts) \<Rightarrow> fold run_btask ts b')"

definition flushDrops :: "broadcaster \<Rightarrow> broadcaster" where
  "flushDrops b =
     (if dropCount b = 0 then b\<lparr>dropCount := 0\<rparr>
      else b\<lparr>dropCount := 0, drop_warnings := dropCount b # drop_warnings b\<rparr>)"

definition b_Close :: "broadcaster \<Rightarrow> broadcaster" where
  "b_Close b = b\<lparr>b_closed := True\<rparr>"

text \<open>The consumer's side of the channel.\<close>

definition receive :: "nat \<Rightarrow> broadcaster \<Rightarrow> log_entry option \<times> broadcaster" where
  "receive i b = (case ch_buf (heap b ! i) of
       [] \<Rightarrow> (None, b)
     | e # es \<Rightarrow> (Some e, set_sub i ((heap b ! i)\<lparr>ch_buf := es\<rparr>) b))"

definition SubscriberCount :: "broadcaster \<Rightarrow> nat" where
  "SubscriberCount b = length (subscribers b)"

inductive b_step :: "broadcaster \<times> btask list \<Rightarrow> broadcaster \<times> btask list \<Rightarrow> bool" where
  bs_subscribe: "b_step (b, ts) (snd (subscribeInternal project session b), ts)"
| bs_unsubscribe: "unsubscribe_map i b = (b', new) \<Longrightarrow> b_step (b, ts) (b', new @ ts)"
| bs_publish: "b_step (b, ts) (b, publish_map e b @ ts)"
| bs_flush: "b_step (b, ts) (flushDrops b, ts)"
| bs_close: "b_step (b, ts) (b_Close b, ts)"
| bs_receive: "i < length (heap b) \<Longrightarrow> b_step (b, ts) (snd (receive i b), ts)"
| bs_task: "b_step (b, xs @ x # ys) (run_btask x b, xs @ ys)"

inductive b_reach :: "broadcaster \<times> btask list \<Rightarrow> bool" where
  br_init: "b_reach (NewBroadcaster, [])"
| br_step: "b_reach s \<Longrightarrow> b_step s s' \<Longrightarrow> b_reach s'"

inductive_cases b_stepE [consumes 1, case_names subscribe unsubscribe publish flush close receive task]:
  "b_step (b, ts) s'"

section \<open>Truncation\<close>

lemma back_off_le: "back_off s n \<le> n"
  by (induction n) auto

lemma back_off_start: "back_off s n = 0 \<or> RuneStart (s ! back_off s n)"
  by (induction n) auto

lemma ValidString_marker: "ValidString truncatedMarker"
  by code_simp

lemma length_marker: "length truncatedMarker = 14"
  by (simp add: truncatedMarker_def)

lemma truncate_le: "length (truncate_content s) \<le> maxLogEntryContentBytes"
  using back_off_le[of s "maxLogEntryContentBytes - 14"]
  by (auto simp: truncate_content_def Let_def length_marker maxLogEntryContentBytes_def)

lemma truncate_valid:
  assumes "ValidString s"
  shows "ValidString (truncate_content s)"
proof (cases "length s > maxLogEntryContentBytes")
  case True
  let ?h = "maxLogEntryContentBytes - length truncatedMarker"
  have h: "0 < ?h" "?h < length s" using True by (simp_all add: maxLogEntryContentBytes_def length_marker)
  have "ValidString (take (back_off s ?h) s)"
  proof (cases "back_off s ?h = 0")
    case False
    then show ?thesis
      using back_off_start[of s ?h] back_off_le[of s ?h] h by (intro ValidString_cut[OF assms]) auto
  qed simp
  then show ?thesis
    using True h by (simp add: truncate_content_def Let_def ValidString_append ValidString_marker)
qed (use assms in \<open>simp add: truncate_content_def\<close>)

text \<open>
  Truncation at publish time bounds what a slow subscriber can pin and never damages text: the
  content is at most 64 KiB, content within the cap is untouched, longer content becomes a prefix of
  itself followed by the marker, and valid UTF-8 stays valid.
\<close>

theorem truncate_content_sound:
  "length (truncate_content s) \<le> 65536 \<and> (length s \<le> 65536 \<longrightarrow> truncate_content s = s) \<and>
   (length s > 65536 \<longrightarrow> (\<exists>n. truncate_content s = take n s @ truncatedMarker \<and> n \<le> 65522)) \<and>
   (ValidString s \<longrightarrow> ValidString (truncate_content s))"
proof (intro conjI impI)
  show "length (truncate_content s) \<le> 65536"
    using truncate_le[of s] by (simp add: maxLogEntryContentBytes_def)
  show "length s \<le> 65536 \<Longrightarrow> truncate_content s = s"
    by (simp add: truncate_content_def maxLogEntryContentBytes_def)
  show "length s > 65536 \<Longrightarrow> \<exists>n. truncate_content s = take n s @ truncatedMarker \<and> n \<le> 65522"
    using back_off_le[of s 65522]
    by (auto simp: truncate_content_def Let_def length_marker maxLogEntryContentBytes_def)
qed (rule truncate_valid)

theorem truncate_content_sound_witness: "truncate_content ''short'' = ''short''"
  using truncate_content_sound[of "''short''"] by simp

section \<open>Invariant of the interleavings\<close>

definition sub_ok :: "subscriber \<Rightarrow> bool" where
  "sub_ok s \<longleftrightarrow> ch_closed s = sb_closed s \<and> length (ch_buf s) \<le> subscriberBufferSize \<and>
     (\<forall>e \<in> set (ch_buf s). sub_matches s e \<and> length (le_content e) \<le> maxLogEntryContentBytes)"

fun task_ok :: "broadcaster \<Rightarrow> btask \<Rightarrow> bool" where
  "task_ok b (BSend i e) = (i < length (heap b) \<and> length (le_content e) \<le> maxLogEntryContentBytes)"
| "task_ok b (BClose i) = (i < length (heap b) \<and> i \<notin> set (subscribers b) \<and> \<not> sb_closed (heap b ! i))"

fun close_ids :: "btask \<Rightarrow> nat list" where
  "close_ids (BClose i) = [i]" | "close_ids (BSend i e) = []"

definition b_ok :: "broadcaster \<times> btask list \<Rightarrow> bool" where
  "b_ok s \<longleftrightarrow> (case s of (b, ts) \<Rightarrow>
     (\<forall>x \<in> set (heap b). sub_ok x) \<and> distinct (subscribers b) \<and>
     (\<forall>i \<in> set (subscribers b). i < length (heap b) \<and> \<not> sb_closed (heap b ! i)) \<and>
     (\<forall>x \<in> set ts. task_ok b x) \<and> distinct (concat (map close_ids ts)) \<and>
     \<not> panicked b \<and> drop_observed b = dropCount b + sum_list (drop_warnings b))"

lemma b_okD:
  assumes "b_ok (b, ts)"
  shows "i < length (heap b) \<Longrightarrow> sub_ok (heap b ! i)" "distinct (subscribers b)"
    "i \<in> set (subscribers b) \<Longrightarrow> i < length (heap b) \<and> \<not> sb_closed (heap b ! i)"
    "x \<in> set ts \<Longrightarrow> task_ok b x" "distinct (concat (map close_ids ts))" "\<not> panicked b"
    "drop_observed b = dropCount b + sum_list (drop_warnings b)"
  using assms by (auto simp: b_ok_def)

text \<open>Updating one live subscriber without touching its closed flags.\<close>

lemma b_ok_set_sub:
  assumes ok: "b_ok (b, ts)" and s: "sub_ok s" and c: "sb_closed s = sb_closed (heap b ! i)"
  shows "b_ok (set_sub i s b, ts)"
proof -
  have "\<forall>x \<in> set (heap (set_sub i s b)). sub_ok x"
    using ok s by (auto simp: b_ok_def set_sub_def dest!: subsetD[OF set_update_subset_insert])
  moreover have "sb_closed (heap (set_sub i s b) ! j) = sb_closed (heap b ! j)" if "j < length (heap b)" for j
    using that c by (cases "i = j") (simp_all add: set_sub_def)
  moreover have "task_ok (set_sub i s b) x" if "task_ok b x" for x
    using that calculation(2) by (cases x) (auto simp: set_sub_def)
  ultimately show ?thesis using ok by (auto simp: b_ok_def) (simp_all add: set_sub_def)
qed

lemma b_ok_tasks:
  assumes "b_ok (b, ts)" and "\<forall>x \<in> set ts'. task_ok b x" and "distinct (concat (map close_ids ts'))"
  shows "b_ok (b, ts')"
  using assms by (simp add: b_ok_def)

lemma b_ok_counters:
  assumes "b_ok (b, ts)"
    and "heap b' = heap b" "subscribers b' = subscribers b" "panicked b' = panicked b"
    and "drop_observed b' = dropCount b' + sum_list (drop_warnings b')"
  shows "b_ok (b', ts)"
proof -
  have "task_ok b' x = task_ok b x" for x using assms(2,3) by (cases x) simp_all
  then show ?thesis using assms by (simp add: b_ok_def)
qed

lemma b_ok_send:
  assumes ok: "b_ok (b, ts)" and t: "task_ok b (BSend i e)"
  shows "b_ok (send_one i e b, ts)"
proof -
  let ?s = "heap b ! i"
  have s: "sub_ok ?s" using b_okD(1)[OF ok] t by simp
  consider (skip) "\<not> sub_matches ?s e" | (shut) "sub_matches ?s e" "sb_closed ?s"
    | (full) "sub_matches ?s e" "\<not> sb_closed ?s" "\<not> length (ch_buf ?s) < subscriberBufferSize"
    | (sent) "sub_matches ?s e" "\<not> sb_closed ?s" "length (ch_buf ?s) < subscriberBufferSize" by blast
  then show ?thesis
  proof cases
    case skip
    then show ?thesis using ok by (simp add: send_one_def)
  next
    case shut
    then show ?thesis
      using b_ok_counters[OF ok] b_okD(7)[OF ok] by (simp add: send_one_def trySend_def)
  next
    case full
    then show ?thesis
      using b_ok_counters[OF ok] b_okD(7)[OF ok] s by (simp add: send_one_def trySend_def sub_ok_def)
  next
    case sent
    have "sub_ok (?s\<lparr>ch_buf := ch_buf ?s @ [e]\<rparr>)"
      using s sent t by (auto simp: sub_ok_def sub_matches_def)
    then have "b_ok (set_sub i (?s\<lparr>ch_buf := ch_buf ?s @ [e]\<rparr>) b, ts)"
      by (rule b_ok_set_sub[OF ok]) simp
    then show ?thesis using sent s by (simp add: send_one_def trySend_def Let_def sub_ok_def)
  qed
qed

lemma b_ok_close_sub:
  assumes ok: "b_ok (b, xs @ BClose i # ys)"
  shows "b_ok (close_sub i b, xs @ ys)"
proof -
  let ?s = "heap b ! i"
  let ?n = "?s\<lparr>sb_closed := True, ch_closed := True\<rparr>"
  have t: "i < length (heap b)" "i \<notin> set (subscribers b)" "\<not> sb_closed ?s"
    using b_okD(4)[OF ok, of "BClose i"] by simp_all
  have s: "sub_ok ?s" using b_okD(1)[OF ok t(1)] .
  then have n: "sub_ok ?n" by (auto simp: sub_ok_def sub_matches_def)
  have c: "close_sub i b = (set_sub i ?n b)\<lparr>panicked := False\<rparr>"
    using s t(3) b_okD(6)[OF ok] by (simp add: close_sub_def Let_def sub_ok_def)
  have nin: "i \<notin> set (concat (map close_ids (xs @ ys)))"
    using b_okD(5)[OF ok] by auto
  have "task_ok (close_sub i b) x" if x: "x \<in> set (xs @ ys)" for x
  proof (cases x)
    case (BSend j e)
    then show ?thesis using b_okD(4)[OF ok, of x] x by (auto simp: c set_sub_def)
  next
    case (BClose j)
    then have "j \<noteq> i" using nin x by auto
    then show ?thesis using b_okD(4)[OF ok, of x] x BClose by (auto simp: c set_sub_def)
  qed
  moreover have "\<forall>x \<in> set (heap (close_sub i b)). sub_ok x"
    using ok n by (auto simp: c b_ok_def set_sub_def dest!: subsetD[OF set_update_subset_insert])
  moreover have "\<not> sb_closed (heap (close_sub i b) ! j)" if "j \<in> set (subscribers b)" for j
    using that t(2) b_okD(3)[OF ok, of j] by (cases "i = j") (auto simp: c set_sub_def)
  ultimately show ?thesis
    using ok by (auto simp: b_ok_def c set_sub_def)
qed

lemma b_ok_subscribe:
  assumes ok: "b_ok (b, ts)"
  shows "b_ok (snd (subscribeInternal project session b), ts)"
proof -
  let ?b = "snd (subscribeInternal project session b)"
  have app: "j < length (heap b) \<Longrightarrow> heap ?b ! j = heap b ! j" "length (heap b) < length (heap ?b)" for j
    by (simp_all add: subscribeInternal_def Let_def nth_append)
  have t: "task_ok ?b x" if "x \<in> set ts" for x
    using b_okD(4)[OF ok that] app
    by (cases x) (auto simp: subscribeInternal_def Let_def nth_append split: if_splits)
  have "length (heap b) \<notin> set (subscribers b)" using b_okD(3)[OF ok] by blast
  then show ?thesis
    using ok t by (auto simp: b_ok_def subscribeInternal_def Let_def nth_append sub_ok_def split: if_splits)
qed

lemma b_ok_step:
  assumes "b_step (b, ts) s'" and ok: "b_ok (b, ts)"
  shows "b_ok s'"
  using assms(1)
proof (cases rule: b_stepE)
  case (subscribe project session)
  then show ?thesis using b_ok_subscribe[OF ok] by simp
next
  case (unsubscribe i b' new)
  show ?thesis
  proof (cases "i \<in> set (subscribers b)")
    case True
    have b': "b' = b\<lparr>subscribers := filter (\<lambda>j. j \<noteq> i) (subscribers b)\<rparr>" and new: "new = [BClose i]"
      using unsubscribe True by (auto simp: unsubscribe_map_def)
    have "task_ok b' x" if "task_ok b x" for x using that by (cases x) (auto simp: b')
    moreover have "i \<notin> set (concat (map close_ids ts))"
    proof
      assume "i \<in> set (concat (map close_ids ts))"
      then obtain x where "x \<in> set ts" "i \<in> set (close_ids x)" by auto
      then show False using b_okD(4)[OF ok \<open>x \<in> set ts\<close>] True by (induction x) auto
    qed
    moreover have "task_ok b' (BClose i)" using b_okD(3)[OF ok True] by (simp add: b')
    ultimately have "b_ok (b', BClose i # ts)" using ok by (simp add: b_ok_def b')
    then show ?thesis using unsubscribe new by simp
  next
    case False
    then show ?thesis using unsubscribe ok by (auto simp: unsubscribe_map_def)
  qed
next
  case (publish e)
  have "\<forall>x \<in> set (publish_map e b). task_ok b x"
    using b_okD(3)[OF ok] truncate_le by (auto simp: publish_map_def)
  moreover have "concat (map close_ids (publish_map e b)) = []"
    by (auto simp: publish_map_def)
  moreover have "\<forall>x \<in> set ts. task_ok b x" using b_okD(4)[OF ok] by blast
  ultimately have "b_ok (b, publish_map e b @ ts)"
    using b_okD(5)[OF ok] by (intro b_ok_tasks[OF ok]) (simp_all only: set_append map_append concat_append append_Nil, blast)
  then show ?thesis using publish by simp
next
  case flush
  then show ?thesis
    using b_ok_counters[OF ok, of "flushDrops b"] b_okD(7)[OF ok] by (simp add: flushDrops_def)
next
  case close
  then show ?thesis
    using b_ok_counters[OF ok, of "b_Close b"] b_okD(7)[OF ok] by (simp add: b_Close_def)
next
  case (receive i)
  have s: "sub_ok (heap b ! i)" using b_okD(1)[OF ok] receive by simp
  show ?thesis
  proof (cases "ch_buf (heap b ! i)")
    case Nil
    then show ?thesis using receive ok by (simp add: receive_def)
  next
    case (Cons e es)
    have "sub_ok ((heap b ! i)\<lparr>ch_buf := es\<rparr>)" using s Cons by (auto simp: sub_ok_def sub_matches_def)
    then have "b_ok (set_sub i ((heap b ! i)\<lparr>ch_buf := es\<rparr>) b, ts)"
      by (rule b_ok_set_sub[OF ok]) simp
    then show ?thesis using receive Cons by (simp add: receive_def)
  qed
next
  case (task xs x ys)
  show ?thesis
  proof (cases x)
    case (BClose i)
    then show ?thesis using task b_ok_close_sub ok by simp
  next
    case (BSend i e)
    have "b_ok (b, xs @ ys)"
      using b_ok_tasks[OF ok, of "xs @ ys"] b_okD(4,5)[OF ok] task BSend by simp
    moreover have "task_ok b (BSend i e)" using b_okD(4)[OF ok, of x] task BSend by simp
    ultimately show ?thesis using task BSend b_ok_send by simp
  qed
qed

lemma b_ok_reach: "b_reach s \<Longrightarrow> b_ok s"
proof (induction rule: b_reach.induct)
  case br_init
  then show ?case by (simp add: b_ok_def NewBroadcaster_def)
next
  case (br_step s s')
  then show ?case using b_ok_step by (metis surj_pair)
qed

text \<open>
  C5. Whatever the interleaving of subscriptions, unsubscriptions (also twice, also while a publish
  is between its snapshot and its sends), publishes, receives, drop flushes and \<open>Close\<close>: no send hits a closed
  channel and no channel is closed twice; no buffer holds more than 256 entries, none longer
  than 64 KiB and none that the subscriber's filter excludes; and every drop the observer
  counted is in exactly one warning or still pending.
\<close>

theorem broadcaster_safe:
  assumes "b_reach (b, ts)"
  shows "\<not> panicked b \<and> drop_observed b = dropCount b + sum_list (drop_warnings b) \<and>
    (\<forall>s \<in> set (heap b). length (ch_buf s) \<le> 256 \<and>
       (\<forall>e \<in> set (ch_buf s). sub_matches s e \<and> length (le_content e) \<le> 65536))"
  using b_ok_reach[OF assms]
  by (auto simp: b_ok_def sub_ok_def subscriberBufferSize_def maxLogEntryContentBytes_def)

theorem broadcaster_safe_witness:
  "\<not> panicked (close_sub 0 ((snd (Subscribe ''p'' NewBroadcaster))\<lparr>subscribers := []\<rparr>))"
proof -
  let ?b = "snd (subscribeInternal ''p'' [] NewBroadcaster)"
  have "b_reach (?b, [])" by (rule br_step[OF br_init bs_subscribe])
  then have "b_reach (?b\<lparr>subscribers := []\<rparr>, [BClose 0] @ [])"
    by (rule br_step[OF _ bs_unsubscribe[of 0]])
      (simp add: unsubscribe_map_def subscribeInternal_def NewBroadcaster_def)
  then have "b_reach (close_sub 0 (?b\<lparr>subscribers := []\<rparr>), [] @ [])"
    using bs_task[of _ "[]" "BClose 0" "[]"] by (auto intro: br_step)
  from broadcaster_safe[OF this] show ?thesis by (simp add: Subscribe_def)
qed

end
