(* ===== verification/Redactor.thy ===== *)
theory Redactor
  imports Validate "HOL-Library.Sublist" "HOL-Library.Multiset"
begin

text \<open>
  Secret redaction: \<open>Redact\<close> and \<open>Redactor\<close> of \<open>internal/logparser/parser.go\<close> and the key list of
  \<open>internal/secretenv\<close>. A pattern is a sequence of literals and greedy runs of a character class; in each of
  the code's patterns no run can swallow what follows it, so the leftmost match of \<open>regexp\<close> is the
  greedy one computed here. The replacement functions scan from the left as \<open>strings.ReplaceAll\<close> and
  \<open>ReplaceAllString\<close> do.
\<close>

section \<open>Patterns\<close>

datatype item = Lit string | Run "char \<Rightarrow> bool" nat | Exactly "char \<Rightarrow> bool" nat

text \<open>The length of the match at the front of the string.\<close>

fun match_items :: "item list \<Rightarrow> string \<Rightarrow> nat option" where
  "match_items [] s = Some 0"
| "match_items (Lit l # is) s =
     (if take (length l) s = l
      then map_option ((+) (length l)) (match_items is (drop (length l) s)) else None)"
| "match_items (Run P n # is) s =
     (let k = length (takeWhile P s) in
      if n \<le> k then map_option ((+) k) (match_items is (drop k s)) else None)"
| "match_items (Exactly P n # is) s =
     (if length (take n s) = n \<and> list_all P (take n s)
      then map_option ((+) n) (match_items is (drop n s)) else None)"

definition cls :: "string \<Rightarrow> char \<Rightarrow> bool" where
  "cls extra c \<longleftrightarrow> is_alnum c \<or> c \<in> set extra"

definition is_space :: "char \<Rightarrow> bool" where
  "is_space c \<longleftrightarrow> c \<in> {CHR 0x20, CHR 0x09, CHR 0x0A, CHR 0x0C, CHR 0x0D}"

definition secretPatterns :: "item list list" where
  "secretPatterns = [
     [Lit ''ghp_'', Run (cls ''_'') 36], [Lit ''gho_'', Run (cls ''_'') 36],
     [Lit ''ghu_'', Run (cls ''_'') 36], [Lit ''ghs_'', Run (cls ''_'') 36],
     [Lit ''github_pat_'', Run (cls ''_'') 22],
     [Lit ''sk-ant-'', Run (cls ''_-'') 20],
     [Lit ''v1.'', Run (\<lambda>c. is_digit c \<or> between 97 102 c) 40],
     [Lit ''Bearer'', Run is_space 1, Run (cls ''._-/+='') 20],
     [Lit ''xox'', Exactly (\<lambda>c. c \<in> set ''abprs'') 1, Lit ''-'', Run (cls ''-'') 10],
     [Lit ''AKIA'', Exactly (\<lambda>c. is_upper c \<or> is_digit c) 16],
     [Lit ''AIza'', Exactly (cls ''_-'') 35],
     [Lit ''npm_'', Exactly is_alnum 36],
     [Lit ''eyJ'', Run (cls ''_-'') 10, Lit ''.'', Run (cls ''_-'') 10, Lit ''.'', Run (cls ''_-'') 10]]"

definition secretenv_Keys :: "string list" where
  "secretenv_Keys = [''CLAUDE_CODE_OAUTH_TOKEN'', ''ANTHROPIC_API_KEY'', ''CM_MCP_API_KEY'', ''CM_GIT_TOKEN'']"

text \<open>\<open>(KEY)=(?:"[^"]*"|[^\s]*)\<close>: a closed double-quoted value first, else the run of non-blanks.\<close>

definition match_env :: "string \<Rightarrow> string \<Rightarrow> nat option" where
  "match_env key s =
     (let k = key @ ''=''; v = drop (length k) s; DQ = CHR 0x22 in
      if take (length k) s \<noteq> k then None
      else if v \<noteq> [] \<and> hd v = DQ \<and> DQ \<in> set (tl v)
      then Some (length k + 2 + length (takeWhile (\<lambda>c. c \<noteq> DQ) (tl v)))
      else Some (length k + length (takeWhile (\<lambda>c. \<not> is_space c) v)))"

section \<open>Replacement\<close>

definition REDACTED :: string where
  "REDACTED = ''[REDACTED]''"

function replace_all :: "(string \<Rightarrow> nat option) \<Rightarrow> string \<Rightarrow> string \<Rightarrow> string" where
  "replace_all m r s =
     (case s of
        [] \<Rightarrow> []
      | c # t \<Rightarrow>
          (case m s of
             Some n \<Rightarrow> if 0 < n then r @ replace_all m r (drop n s) else c # replace_all m r t
           | None \<Rightarrow> c # replace_all m r t))"
  by pat_completeness auto
termination
  by (relation "measure (\<lambda>(m, r, s). length s)") (auto simp: diff_less)

declare replace_all.simps [simp del]

definition match_literal :: "string \<Rightarrow> string \<Rightarrow> nat option" where
  "match_literal w s = (if w \<noteq> [] \<and> take (length w) s = w then Some (length w) else None)"

definition ReplaceAll :: "string \<Rightarrow> string \<Rightarrow> string \<Rightarrow> string" where
  "ReplaceAll s old new = replace_all (match_literal old) new s"

definition redact_env :: "string \<Rightarrow> string \<Rightarrow> string" where
  "redact_env key s = replace_all (match_env key) (key @ ''='' @ REDACTED) s"

definition redact_pattern :: "item list \<Rightarrow> string \<Rightarrow> string" where
  "redact_pattern p s = replace_all (match_items p) REDACTED s"

definition Redact :: "string \<Rightarrow> string" where
  "Redact s = fold redact_pattern secretPatterns (fold redact_env secretenv_Keys s)"

section \<open>The per-container redactor\<close>

definition minSecretLen :: nat where "minSecretLen = 8"

text \<open>The loop over the secrets with the \<open>seen\<close> set: keep the first of each long enough value.\<close>

fun filter_secrets :: "string list \<Rightarrow> string list \<Rightarrow> string list" where
  "filter_secrets seen [] = []"
| "filter_secrets seen (s # ss) =
     (if length s < minSecretLen then filter_secrets seen ss
      else if s \<in> set seen then filter_secrets seen ss
      else s # filter_secrets (s # seen) ss)"

text \<open>The insertion sort, by swaps: the inner loop moves element \<open>j\<close> left past shorter ones.\<close>

fun sift_left :: "nat \<Rightarrow> string list \<Rightarrow> string list" where
  "sift_left 0 s = s"
| "sift_left (Suc j) s =
     (if length (s ! Suc j) > length (s ! j)
      then sift_left j (s[Suc j := s ! j, j := s ! Suc j]) else s)"

definition sortLongestFirst :: "string list \<Rightarrow> string list" where
  "sortLongestFirst s = fold sift_left [1..<length s] s"

definition NewRedactor :: "string list \<Rightarrow> string list" where
  "NewRedactor secrets = sortLongestFirst (filter_secrets [] secrets)"

text \<open>\<open>(*Redactor).Redact\<close>; a nil receiver falls back to the static patterns.\<close>

definition Redactor_Redact :: "string list option \<Rightarrow> string \<Rightarrow> string" where
  "Redactor_Redact r input =
     (case r of
        None \<Rightarrow> Redact input
      | Some secrets \<Rightarrow> Redact (fold (\<lambda>w s. ReplaceAll s w REDACTED) secrets input))"

section \<open>No secret in the output\<close>

text \<open>
  \<open>markless w\<close>: \<open>w\<close> cannot arise from a marker, neither inside it nor across its brackets.
\<close>

definition markless :: "string \<Rightarrow> bool" where
  "markless w \<longleftrightarrow> w \<noteq> [] \<and> CHR ''['' \<notin> set w \<and> CHR '']'' \<notin> set w \<and> \<not> sublist w ''REDACTED''"

text \<open>A replacement that keeps a prefix of what it matched in front of the marker.\<close>

definition keeps :: "string \<Rightarrow> (string \<Rightarrow> nat option) \<Rightarrow> bool" where
  "keeps k m \<longleftrightarrow> (\<forall>s n. m s = Some n \<longrightarrow> take (length k) s = k)"

lemma replace_all_eqs:
  "replace_all m r [] = []"
  "m (c # t) = Some n \<Longrightarrow> 0 < n \<Longrightarrow> replace_all m r (c # t) = r @ replace_all m r (drop n (c # t))"
  "m (c # t) = None \<or> m (c # t) = Some 0 \<Longrightarrow> replace_all m r (c # t) = c # replace_all m r t"
  by (subst replace_all.simps; auto)+

lemma sublist_sep:
  assumes "c \<notin> set w" and "sublist w (a @ c # b)"
  shows "sublist w a \<or> sublist w b"
proof -
  obtain u v where uv: "a @ c # b = u @ w @ v" using assms(2) by (auto simp: sublist_def)
  show ?thesis
  proof (cases "length a < length u")
    case True
    then obtain u' where "u = a @ c # u'"
      using uv by (auto simp: append_eq_append_conv2 Cons_eq_append_conv)
    then have "b = u' @ w @ v" using uv by simp
    then show ?thesis by (auto simp: sublist_def)
  next
    case False
    have "take (length u) a = u" using arg_cong[OF uv, of "take (length u)"] False by simp
    then have a: "a = u @ drop (length u) a" by (metis append_take_drop_id)
    define x where "x = drop (length u) a"
    have a: "a = u @ x" unfolding x_def by (rule a)
    have x: "x @ c # b = w @ v" using uv unfolding a by simp
    have "length w \<le> length x"
    proof (rule ccontr)
      assume "\<not> length w \<le> length x"
      then have "c \<in> set w" using x by (auto simp: append_eq_append_conv2 Cons_eq_append_conv)
      then show False using assms(1) by simp
    qed
    then obtain y where "x = w @ y" using x by (auto simp: append_eq_append_conv2)
    then show ?thesis using a by (auto simp: sublist_def)
  qed
qed

lemma prefix_marker:
  assumes "CHR ''['' \<notin> set w" and "prefix w (k @ REDACTED @ b)"
  shows "prefix w k"
proof (rule ccontr)
  assume n: "\<not> prefix w k"
  have "prefix k w" using assms(2) n by (metis prefix_append prefix_def prefix_same_cases)
  then obtain x where w: "w = k @ x" by (auto simp: prefix_def)
  with n have "x \<noteq> []" by auto
  moreover have "prefix x (REDACTED @ b)" using assms(2) w by simp
  ultimately have "hd x = CHR ''[''" by (cases x) (auto simp: REDACTED_def)
  then show False using assms(1) w \<open>x \<noteq> []\<close> by (cases x) auto
qed

lemma prefix_replace:
  assumes "keeps k m" and "CHR ''['' \<notin> set w"
  shows "prefix w (replace_all m (k @ REDACTED) s) \<Longrightarrow> prefix w s"
  using assms(2)
proof (induction s arbitrary: w)
  case Nil
  then show ?case by (simp add: replace_all_eqs)
next
  case (Cons c t)
  show ?case
  proof (cases "\<exists>n>0. m (c # t) = Some n")
    case True
    then obtain n where n: "0 < n" "m (c # t) = Some n" by blast
    then have "prefix w (k @ REDACTED @ replace_all m (k @ REDACTED) (drop n (c # t)))"
      using Cons.prems(1) by (simp add: replace_all_eqs(2))
    then have "prefix w k" by (rule prefix_marker[OF Cons.prems(2)])
    moreover have "prefix k (c # t)"
      using assms(1) n(2) unfolding keeps_def by (metis take_is_prefix)
    ultimately show ?thesis using prefix_order.trans by blast
  next
    case False
    then have e: "replace_all m (k @ REDACTED) (c # t) = c # replace_all m (k @ REDACTED) t"
      by (intro replace_all_eqs(3)) (metis gr0I option.exhaust)
    show ?thesis
    proof (cases w)
      case (Cons d w')
      then show ?thesis using Cons.IH[of w'] Cons.prems e by auto
    qed simp
  qed
qed

lemma sublist_replace:
  assumes "keeps k m" and w: "markless w"
  shows "sublist w (replace_all m (k @ REDACTED) s) \<Longrightarrow> sublist w s"
proof (induction "length s" arbitrary: s rule: less_induct)
  case less
  show ?case
  proof (cases s)
    case Nil
    then show ?thesis using less.prems by (simp add: replace_all_eqs)
  next
    case (Cons c t)
    show ?thesis
    proof (cases "\<exists>n>0. m s = Some n")
      case True
      then obtain n where n: "0 < n" "m s = Some n" by blast
      let ?X = "replace_all m (k @ REDACTED) (drop n s)"
      have "sublist w (k @ CHR ''['' # ''REDACTED'' @ CHR '']'' # ?X)"
        using less.prems n Cons by (simp add: replace_all_eqs(2) REDACTED_def)
      then have "sublist w k \<or> sublist w (''REDACTED'' @ CHR '']'' # ?X)"
        by (rule sublist_sep[rotated]) (use w in \<open>simp add: markless_def\<close>)
      then have "sublist w k \<or> sublist w ''REDACTED'' \<or> sublist w ?X"
        using sublist_sep[of "CHR '']''" w "''REDACTED''" ?X] w by (auto simp: markless_def)
      then have "sublist w k \<or> sublist w ?X" using w by (auto simp: markless_def)
      moreover have "prefix k s" using assms(1) n(2) unfolding keeps_def by (metis take_is_prefix)
      moreover have "sublist w ?X \<Longrightarrow> sublist w (drop n s)"
        using less.hyps n(1) Cons by (metis diff_less length_drop length_greater_0_conv list.distinct(1))
      moreover have "sublist (drop n s) s" by (simp add: sublist_drop)
      ultimately show ?thesis by (meson prefix_imp_sublist sublist_order.order_trans)
    next
      case False
      then have e: "replace_all m (k @ REDACTED) s = c # replace_all m (k @ REDACTED) t"
        unfolding Cons by (intro replace_all_eqs(3)) (metis Cons gr0I option.exhaust)
      have "prefix w (replace_all m (k @ REDACTED) s) \<or> sublist w (replace_all m (k @ REDACTED) t)"
        using less.prems unfolding e by (simp add: sublist_Cons_right)
      then show ?thesis
      proof
        assume "prefix w (replace_all m (k @ REDACTED) s)"
        moreover have "CHR ''['' \<notin> set w" using w by (simp add: markless_def)
        ultimately have "prefix w s" using prefix_replace[OF assms(1)] by blast
        then show ?thesis by (rule prefix_imp_sublist)
      next
        assume "sublist w (replace_all m (k @ REDACTED) t)"
        then have "sublist w t" using less.hyps[of t] Cons by simp
        then show ?thesis using Cons by (simp add: sublist_Cons_right)
      qed
    qed
  qed
qed

lemma ReplaceAll_gone:
  assumes w: "markless w"
  shows "\<not> sublist w (ReplaceAll s w REDACTED)"
proof -
  let ?m = "match_literal w"
  have k: "keeps [] ?m" by (simp add: keeps_def)
  have hit: "prefix w s \<Longrightarrow> ?m s = Some (length w)" for s
    using w by (auto simp: match_literal_def markless_def prefix_def)
  have "\<not> sublist w (replace_all ?m REDACTED s)"
  proof (induction "length s" arbitrary: s rule: less_induct)
    case less
    show ?case
    proof (cases s)
      case Nil
      then show ?thesis using w by (simp add: replace_all_eqs markless_def)
    next
      case (Cons c t)
      show ?thesis
      proof (cases "?m s")
        case None
        have e: "replace_all ?m REDACTED s = c # replace_all ?m REDACTED t"
          using None unfolding Cons by (intro replace_all_eqs(3)) simp
        have "\<not> prefix w (replace_all ?m REDACTED s)"
          using prefix_replace[OF k, of w s] w hit[of s] None by (auto simp: markless_def)
        moreover have "\<not> sublist w (replace_all ?m REDACTED t)" using less[of t] Cons by simp
        ultimately show ?thesis unfolding e by (simp add: sublist_Cons_right)
      next
        case (Some n)
        then have n: "0 < n" using w by (auto simp: match_literal_def markless_def split: if_splits)
        let ?X = "replace_all ?m REDACTED (drop n s)"
        have "\<not> sublist w ?X" using less[of "drop n s"] n Cons by simp
        moreover have "replace_all ?m REDACTED s = [] @ CHR ''['' # ''REDACTED'' @ CHR '']'' # ?X"
          using Some n Cons by (simp add: replace_all_eqs(2) REDACTED_def)
        ultimately show ?thesis
          using sublist_sep[of "CHR ''[''" w "[]" "''REDACTED'' @ CHR '']'' # ?X"]
            sublist_sep[of "CHR '']''" w "''REDACTED''" ?X] w
          by (auto simp: markless_def)
      qed
    qed
  qed
  then show ?thesis by (simp add: ReplaceAll_def)
qed

lemma redact_pattern_keeps: "markless w \<Longrightarrow> sublist w (redact_pattern p s) \<Longrightarrow> sublist w s"
  using sublist_replace[of "[]" "match_items p" w s] by (simp add: redact_pattern_def keeps_def)

lemma redact_env_keeps: "markless w \<Longrightarrow> sublist w (redact_env key s) \<Longrightarrow> sublist w s"
proof -
  have "keeps (key @ ''='') (match_env key)" by (auto simp: keeps_def match_env_def Let_def split: if_splits)
  then show "markless w \<Longrightarrow> sublist w (redact_env key s) \<Longrightarrow> sublist w s"
    using sublist_replace[of "key @ ''=''" "match_env key" w s] by (simp add: redact_env_def)
qed

lemma ReplaceAll_keeps: "markless w \<Longrightarrow> sublist w (ReplaceAll s v REDACTED) \<Longrightarrow> sublist w s"
  using sublist_replace[of "[]" "match_literal v" w s] by (simp add: ReplaceAll_def keeps_def)

lemma fold_keeps:
  assumes "\<And>x s. sublist w (f x s) \<Longrightarrow> sublist w s"
  shows "sublist w (fold f xs s) \<Longrightarrow> sublist w s"
  by (induction xs arbitrary: s) (auto dest: assms)

lemma Redact_keeps: "markless w \<Longrightarrow> sublist w (Redact s) \<Longrightarrow> sublist w s"
  unfolding Redact_def
  using fold_keeps[of w redact_pattern] fold_keeps[of w redact_env] redact_pattern_keeps redact_env_keeps by metis

lemma fold_literals_gone:
  assumes "markless w" and "w \<in> set ws"
  shows "\<not> sublist w (fold (\<lambda>v s. ReplaceAll s v REDACTED) ws s)"
  using assms(2)
proof (induction ws arbitrary: s)
  case (Cons v ws)
  have keep: "sublist w (fold (\<lambda>v s. ReplaceAll s v REDACTED) ws x) \<Longrightarrow> sublist w x" for x
    by (rule fold_keeps[of w "\<lambda>v s. ReplaceAll s v REDACTED"]) (rule ReplaceAll_keeps[OF assms(1)])
  show ?case using Cons ReplaceAll_gone[OF assms(1)] keep by (cases "v = w") auto
qed simp

lemma in_filter_secrets:
  "x \<in> set (filter_secrets seen ss) \<longleftrightarrow> x \<in> set ss \<and> minSecretLen \<le> length x \<and> x \<notin> set seen"
proof (induction ss arbitrary: seen)
  case (Cons s ss)
  show ?case
  proof (cases "length s < minSecretLen \<or> s \<in> set seen")
    case True
    then have "filter_secrets seen (s # ss) = filter_secrets seen ss" by auto
    then show ?thesis using Cons True by auto
  next
    case False
    then have "filter_secrets seen (s # ss) = s # filter_secrets (s # seen) ss" by simp
    then show ?thesis using Cons[of "s # seen"] False by (cases "x = s") simp_all
  qed
qed simp

lemma set_filter_secrets:
  "set (filter_secrets seen ss) = {s \<in> set ss. minSecretLen \<le> length s \<and> s \<notin> set seen}"
  using in_filter_secrets by blast

lemma length_sift: "length (sift_left j s) = length s"
  by (induction j s rule: sift_left.induct) auto

lemma mset_sift: "j < length s \<Longrightarrow> mset (sift_left j s) = mset s"
proof (induction j s rule: sift_left.induct)
  case (2 j s)
  then show ?case by (auto simp: mset_swap)
qed simp

lemma mset_sort: "mset (sortLongestFirst s) = mset s"
proof -
  have "mset (fold sift_left is x) = mset x" if "\<forall>i \<in> set is. i < length x" for "is" x
    using that by (induction "is" arbitrary: x) (auto simp: length_sift mset_sift)
  then show ?thesis by (simp add: sortLongestFirst_def)
qed

lemma set_NewRedactor: "set (NewRedactor ss) = {s \<in> set ss. minSecretLen \<le> length s}"
  using arg_cong[OF mset_sort[of "filter_secrets [] ss"], of set_mset]
  by (simp add: NewRedactor_def set_filter_secrets)

end
