(* ===== verification/Bounded_Line.thy ===== *)
theory Bounded_Line
  imports Runner_Prelude
begin

text \<open>
  Bounded line reading, \<open>internal/logparser/boundedline.go\<close>. The \<open>bufio.Reader\<close> is the unread part of
  the stream with the error that ends it; \<open>ReadSlice\<close> delivers it in chunks of at most the buffer size,
  the way \<open>bufio\<close> documents. The result is compared with a reader that sees the whole line at once.
\<close>

datatype read_error = EOF | IOError string

datatype slice_result = SliceOk | SliceFull | SliceErr read_error

record reader =
  rd_rest :: string
  rd_err :: read_error

definition NL :: char where "NL = CHR 0x0A"

text \<open>\<open>ReadSlice('\n')\<close> with a buffer of \<open>B\<close> bytes.\<close>

definition ReadSlice :: "nat \<Rightarrow> reader \<Rightarrow> string \<times> slice_result \<times> reader" where
  "ReadSlice B r =
     (let s = rd_rest r; head = takeWhile (\<lambda>c. c \<noteq> NL) s in
      if length head < length s \<and> length head < B
      then (head @ [NL], SliceOk, r\<lparr>rd_rest := drop (Suc (length head)) s\<rparr>)
      else if length s \<ge> B then (take B s, SliceFull, r\<lparr>rd_rest := drop B s\<rparr>)
      else (s, SliceErr (rd_err r), r\<lparr>rd_rest := []\<rparr>))"

definition MaxLineBytes :: nat where "MaxLineBytes = 16 * 1024 * 1024"

text \<open>The accumulation at the top of the loop: line so far, truncated flag, new content.\<close>

definition accumulate :: "nat \<Rightarrow> string \<Rightarrow> bool \<Rightarrow> string \<Rightarrow> string \<times> bool" where
  "accumulate maxBytes line truncated content =
     (if truncated then (line, True)
      else let avail = int maxBytes - int (length line) in
           if int (length content) > avail
           then ((if avail > 0 then line @ take (nat avail) content else line), True)
           else (line @ content, False))"

function read_loop ::
  "nat \<Rightarrow> nat \<Rightarrow> string \<Rightarrow> bool \<Rightarrow> reader \<Rightarrow> (string \<times> bool \<times> read_error option) \<times> reader" where
  "read_loop B maxBytes line truncated r =
     (if B = 0 then ((line, truncated, Some EOF), r)
      else case ReadSlice B r of (chunk, e, r') \<Rightarrow>
        let content = (if e = SliceOk \<and> chunk \<noteq> [] \<and> last chunk = NL then butlast chunk else chunk);
            (line', truncated') = accumulate maxBytes line truncated content
        in case e of
             SliceOk \<Rightarrow> ((line', truncated', None), r')
           | SliceFull \<Rightarrow> read_loop B maxBytes line' truncated' r'
           | SliceErr err \<Rightarrow> ((line', truncated', Some err), r'))"
  by pat_completeness auto
termination
  by (relation "measure (\<lambda>(B, m, l, t, r). length (rd_rest r))")
    (auto simp: ReadSlice_def Let_def split: if_splits)

declare read_loop.simps [simp del]

definition ReadBoundedLine :: "nat \<Rightarrow> nat \<Rightarrow> reader \<Rightarrow> (string \<times> bool \<times> read_error option) \<times> reader" where
  "ReadBoundedLine B maxBytes r = read_loop B maxBytes [] False r"

section \<open>Reference: the whole line at once\<close>

definition line_content :: "string \<Rightarrow> string" where
  "line_content s = takeWhile (\<lambda>c. c \<noteq> NL) s"

definition line_ref :: "nat \<Rightarrow> reader \<Rightarrow> (string \<times> bool \<times> read_error option) \<times> reader" where
  "line_ref maxBytes r =
     (let c = line_content (rd_rest r);
          ended = length c < length (rd_rest r)
      in ((take maxBytes c, length c > maxBytes, (if ended then None else Some (rd_err r))),
          r\<lparr>rd_rest := drop (Suc (length c)) (rd_rest r)\<rparr>))"

text \<open>What \<open>line\<close> and \<open>truncated\<close> are after the content \<open>c\<close> of the line so far.\<close>

definition so_far :: "nat \<Rightarrow> string \<Rightarrow> string \<times> bool" where
  "so_far m c = (take m c, length c > m)"

lemma accumulate_so_far:
  "so_far m c = (l, t) \<Longrightarrow> accumulate m l t d = so_far m (c @ d)"
  by (auto simp: so_far_def accumulate_def Let_def take_append nat_diff_distrib split: if_splits)

lemma line_content_append: "NL \<notin> set a \<Longrightarrow> line_content (a @ b) = a @ line_content b"
  by (induction a) (auto simp: line_content_def)

lemma line_content_notin: "NL \<notin> set (line_content s)"
  by (auto simp: line_content_def dest: set_takeWhileD)

lemma read_loop_ref:
  assumes "B > 0" and "NL \<notin> set c"
  shows "read_loop B m (fst (so_far m c)) (snd (so_far m c)) r =
    (let d = c @ line_content (rd_rest r); ended = length (line_content (rd_rest r)) < length (rd_rest r)
     in ((take m d, length d > m, (if ended then None else Some (rd_err r))),
         r\<lparr>rd_rest := drop (Suc (length (line_content (rd_rest r)))) (rd_rest r)\<rparr>))"
  using assms(2)
proof (induction "length (rd_rest r)" arbitrary: c r rule: less_induct)
  case less
  let ?s = "rd_rest r"
  let ?h = "line_content ?s"
  have acc: "accumulate m (fst (so_far m c)) (snd (so_far m c)) x = so_far m (c @ x)" for x
    by (rule accumulate_so_far) simp
  have hs: "takeWhile (\<lambda>c. c \<noteq> NL) ?s = ?h" by (simp add: line_content_def)
  have len: "length ?h \<le> length ?s" by (simp add: line_content_def length_takeWhile_le)
  consider (found) "length ?h < length ?s" "length ?h < B"
    | (full) "\<not> (length ?h < length ?s \<and> length ?h < B)" "length ?s \<ge> B"
    | (eof) "\<not> (length ?h < length ?s \<and> length ?h < B)" "length ?s < B"
    by linarith
  then show ?case
  proof cases
    case found
    then show ?thesis
      using assms(1)
      by (subst read_loop.simps) (simp add: ReadSlice_def hs Let_def acc[unfolded so_far_def fst_conv snd_conv] so_far_def)
  next
    case full
    have "B \<le> length ?h" using full len assms(1) by linarith
    then have tk: "take B ?s = take B ?h"
      by (metis hs takeWhile_eq_take take_take min_def)
    then have nl: "NL \<notin> set (take B ?s)"
      using line_content_notin[of ?s] by (metis in_set_takeD)
    have split: "?h = take B ?s @ line_content (drop B ?s)"
      using line_content_append[OF nl, of "drop B ?s"] by simp
    have cl: "length (line_content (drop B ?s)) = length ?h - B"
      using arg_cong[OF split, of length] full(2) by simp
    have rs: "ReadSlice B r = (take B ?s, SliceFull, r\<lparr>rd_rest := drop B ?s\<rparr>)"
      unfolding ReadSlice_def Let_def hs if_not_P[OF full(1)] if_P[OF full(2)] ..
    have "read_loop B m (fst (so_far m c)) (snd (so_far m c)) r =
        read_loop B m (fst (so_far m (c @ take B ?s))) (snd (so_far m (c @ take B ?s))) (r\<lparr>rd_rest := drop B ?s\<rparr>)"
      using assms(1) by (subst read_loop.simps) (simp add: rs Let_def acc case_prod_unfold)
    also have "\<dots> = (let d = (c @ take B ?s) @ line_content (drop B ?s);
        ended = length (line_content (drop B ?s)) < length (drop B ?s)
      in ((take m d, length d > m, (if ended then None else Some (rd_err r))),
          r\<lparr>rd_rest := drop (Suc (length (line_content (drop B ?s)))) (drop B ?s)\<rparr>))"
      using less.hyps[of "r\<lparr>rd_rest := drop B ?s\<rparr>" "c @ take B ?s"] full assms(1) less.prems nl by simp
    also have "(c @ take B ?s) @ line_content (drop B ?s) = c @ ?h" by (simp add: split[symmetric])
    also have "length (line_content (drop B ?s)) < length (drop B ?s) \<longleftrightarrow> length ?h < length ?s"
      using cl \<open>B \<le> length ?h\<close> len by auto
    also have "drop (Suc (length (line_content (drop B ?s)))) (drop B ?s) = drop (Suc (length ?h)) ?s"
      using cl \<open>B \<le> length ?h\<close> by simp
    finally show ?thesis .
  next
    case eof
    then have "?h = ?s" using len by (metis hs takeWhile_eq_take take_all_iff le_neq_implies_less order.strict_trans1 not_le)
    then show ?thesis
      using eof assms(1)
      by (subst read_loop.simps) (simp add: ReadSlice_def hs Let_def acc[unfolded so_far_def fst_conv snd_conv] so_far_def case_prod_unfold)
  qed
qed

lemma bounded_line_eq: "0 < B \<Longrightarrow> ReadBoundedLine B maxBytes r = line_ref maxBytes r"
  using read_loop_ref[of B "[]" maxBytes r]
  by (simp add: ReadBoundedLine_def line_ref_def so_far_def Let_def)

text \<open>
  Reading a line does not depend on how the buffer cuts it: for every buffer size, cap and stream the
  loop returns, the result is the first \<open>maxBytes\<close> bytes of the line, truncated is reported exactly when the line is
  longer, the rest of the line and its newline are consumed so that the next call starts on the next
  line, and an error is returned exactly when the stream ends before a newline.
\<close>

theorem ReadBoundedLine_ref:
  assumes "0 < B"
  shows "ReadBoundedLine B maxBytes r = line_ref maxBytes r"
  using assms by (rule bounded_line_eq)

theorem ReadBoundedLine_ref_witness:
  "ReadBoundedLine 2 3 \<lparr>rd_rest = ''abcdef'' @ [NL] @ ''g'', rd_err = EOF\<rparr>
     = ((''abc'', True, None), \<lparr>rd_rest = ''g'', rd_err = EOF\<rparr>)"
  using ReadBoundedLine_ref[of 2 3 "\<lparr>rd_rest = ''abcdef'' @ [NL] @ ''g'', rd_err = EOF\<rparr>"]
  by (simp add: line_ref_def line_content_def NL_def)

end
