(* ===== verification/Log_Parser.thy ===== *)
theory Log_Parser
  imports Redactor Bounded_Line
begin

text \<open>
  The stream-json parser of \<open>internal/logparser/parser.go\<close>: \<open>formatToolCall\<close> and its helpers,
  \<open>processLine\<close> and the read loop. What \<open>encoding/json\<close> decodes is an argument (\<open>json_dec\<close>): the theorems
  hold for every decoder. What the parser logs and emits is a list of outputs in order.
\<close>

section \<open>Decoded values\<close>

record usage_block =
  InputTokens :: int
  OutputTokens :: int
  CacheReadTokens :: int
  CacheCreateTokens :: int

record content_block =
  cb_type :: string
  cb_text :: string
  cb_thinking :: string
  cb_name :: string
  cb_input :: string

record event =
  ev_type :: string
  ev_model :: string
  ev_content :: "content_block list"
  ev_usage :: "usage_block option"

text \<open>
  \<open>jd_event\<close> decodes a line; \<open>jd_fields fs\<close> decodes an object into string fields (\<open>''\<close> when absent);
  \<open>jd_todos\<close> the length of the \<open>todos\<close> array; \<open>jd_compact\<close> is \<open>json.Compact\<close>. \<open>None\<close> is an error, whose text
  for an input is \<open>jd_error\<close>.
\<close>

record json_dec =
  jd_event :: "string \<Rightarrow> event option"
  jd_fields :: "string list \<Rightarrow> string \<Rightarrow> string list option"
  jd_todos :: "string \<Rightarrow> nat option"
  jd_compact :: "string \<Rightarrow> string option"
  jd_error :: "string \<Rightarrow> string"

record out_entry =
  oe_type :: string
  oe_content :: string
  oe_model :: string
  oe_usage :: "usage_block option"

datatype out_event =
    Emit out_entry
  | LogInfo string string
  | LogWarn string string
  | LogError string string
  | SkillEngaged string

definition entry :: "string \<Rightarrow> string \<Rightarrow> out_entry" where
  "entry t c = \<lparr>oe_type = t, oe_content = c, oe_model = [], oe_usage = None\<rparr>"

section \<open>Text helpers\<close>

text \<open>The runes of a string: well-formed encodings, and single bytes that are none.\<close>

function rune_chunks :: "string \<Rightarrow> string list" where
  "rune_chunks s =
     (if s = [] then [] else take (max 1 (rune_len s)) s # rune_chunks (drop (max 1 (rune_len s)) s))"
  by pat_completeness auto
termination
  by (relation "measure length") (auto simp: diff_less)

declare rune_chunks.simps [simp del]

text \<open>\<open>string([]rune(s))\<close> of one rune: an invalid byte becomes U+FFFD.\<close>

definition norm_rune :: "string \<Rightarrow> string" where
  "norm_rune ch = (if rune_len ch = 0 then [CHR 0xEF, CHR 0xBF, CHR 0xBD] else ch)"

definition take_runes :: "nat \<Rightarrow> string \<Rightarrow> string" where
  "take_runes n s = concat (map norm_rune (take n (rune_chunks s)))"

text \<open>White space of \<open>strings.TrimSpace\<close>, ASCII and the Unicode spaces.\<close>

definition space_rune :: "string \<Rightarrow> bool" where
  "space_rune ch \<longleftrightarrow>
     ch \<in> {[CHR 0x20], [CHR 0x09], [CHR 0x0A], [CHR 0x0B], [CHR 0x0C], [CHR 0x0D],
            [CHR 0xC2, CHR 0x85], [CHR 0xC2, CHR 0xA0], [CHR 0xE1, CHR 0x9A, CHR 0x80],
            [CHR 0xE2, CHR 0x80, CHR 0xA8], [CHR 0xE2, CHR 0x80, CHR 0xA9], [CHR 0xE2, CHR 0x80, CHR 0xAF],
            [CHR 0xE2, CHR 0x81, CHR 0x9F], [CHR 0xE3, CHR 0x80, CHR 0x80]} \<or>
     (length ch = 3 \<and> take 2 ch = [CHR 0xE2, CHR 0x80] \<and> between 0x80 0x8A (last ch))"

definition TrimSpace :: "string \<Rightarrow> string" where
  "TrimSpace s = concat (rev (dropWhile space_rune (rev (dropWhile space_rune (rune_chunks s)))))"

definition TrimRight_crlf :: "string \<Rightarrow> string" where
  "TrimRight_crlf s = rev (dropWhile (\<lambda>c. c = CHR 0x0D \<or> c = CHR 0x0A) (rev s))"

fun collapseWhitespace :: "string \<Rightarrow> string" where
  "collapseWhitespace [] = []"
| "collapseWhitespace (c # s) =
     (if is_space c
      then (case s of
              d # _ \<Rightarrow> if is_space d then collapseWhitespace s else CHR '' '' # collapseWhitespace s
            | [] \<Rightarrow> [CHR '' ''])
      else c # collapseWhitespace s)"

definition maxToolCallLen :: nat where "maxToolCallLen = 200"

definition ellipsis :: string where "ellipsis = [CHR 0xE2, CHR 0x80, CHR 0xA6]"

section \<open>Tool summaries\<close>

definition compactJSON :: "json_dec \<Rightarrow> string \<Rightarrow> string" where
  "compactJSON J input =
     (if input = [] then []
      else case jd_compact J input of
        None \<Rightarrow> []
      | Some s \<Rightarrow>
          if s = ''{}'' \<or> s = ''null'' then []
          else if length (rune_chunks s) > maxToolCallLen then take_runes maxToolCallLen s
          else s)"

text \<open>A tool with one argument that must be present, and one with an optional path.\<close>

definition one_arg :: "json_dec \<Rightarrow> string \<Rightarrow> string \<Rightarrow> string" where
  "one_arg J f input =
     (case jd_fields J [f] input of Some [a] \<Rightarrow> (if a = [] then compactJSON J input else a)
      | _ \<Rightarrow> compactJSON J input)"

definition pattern_arg :: "json_dec \<Rightarrow> string \<Rightarrow> string" where
  "pattern_arg J input =
     (case jd_fields J [''pattern'', ''path''] input of
        Some [pat, path] \<Rightarrow>
          if pat = [] then compactJSON J input
          else if path \<noteq> [] then pat @ '' in '' @ path else pat
      | _ \<Rightarrow> compactJSON J input)"

definition extractToolSummary :: "json_dec \<Rightarrow> string \<Rightarrow> string \<Rightarrow> string" where
  "extractToolSummary J name input =
     (if name = ''Bash'' then
        (case jd_fields J [''command''] input of
           Some [cmd] \<Rightarrow>
             if cmd = [] then compactJSON J input else TrimSpace (takeWhile (\<lambda>c. c \<noteq> NL) cmd)
         | _ \<Rightarrow> compactJSON J input)
      else if name \<in> set [''Read'', ''Edit'', ''MultiEdit'', ''Write'', ''NotebookEdit'']
      then one_arg J ''file_path'' input
      else if name = ''Glob'' then pattern_arg J input
      else if name = ''Grep'' then pattern_arg J input
      else if name = ''WebFetch'' then one_arg J ''url'' input
      else if name = ''WebSearch'' then one_arg J ''query'' input
      else if name \<in> set [''Task'', ''Agent''] then one_arg J ''description'' input
      else if name = ''TodoWrite'' then
        (case jd_todos J input of
           None \<Rightarrow> compactJSON J input
         | Some n \<Rightarrow> if n = 0 then compactJSON J input else dec n @ '' todos'')
      else compactJSON J input)"

definition formatToolCall :: "json_dec \<Rightarrow> string \<Rightarrow> string \<Rightarrow> string" where
  "formatToolCall J name input =
     (let trimmed = TrimSpace input in
      if trimmed = [] \<or> trimmed = ''null'' \<or> trimmed = ''{}'' then name
      else let summary = extractToolSummary J name input in
        if summary = [] then name
        else let result = collapseWhitespace (name @ '': '' @ summary) in
          if length (rune_chunks result) > maxToolCallLen
          then take_runes maxToolCallLen result @ ellipsis else result)"

section \<open>A line\<close>

definition malformed_msg :: string where "malformed_msg = ''logparser: malformed JSON line''"
definition skill_failed_msg :: string where "skill_failed_msg = ''logparser: failed to parse Skill tool input''"

definition handleSkillToolUse :: "json_dec \<Rightarrow> string \<Rightarrow> out_event list" where
  "handleSkillToolUse J raw =
     (case jd_fields J [''skill'', ''name''] raw of
        Some [skill, name] \<Rightarrow>
          (let n = (if skill = [] then name else skill) in if n = [] then [] else [SkillEngaged n])
      | _ \<Rightarrow> [LogWarn skill_failed_msg (jd_error J raw)])"

definition processBlock :: "json_dec \<Rightarrow> (string \<Rightarrow> string) \<Rightarrow> content_block \<Rightarrow> out_event list" where
  "processBlock J redact b =
     (if cb_type b = ''text'' then
        (let c = redact (cb_text b) in [LogInfo ''claude_text'' c, Emit (entry ''text'' c)])
      else if cb_type b = ''thinking'' then
        (let c = redact (cb_thinking b) in
         if c = [] then [] else [LogInfo ''claude_thinking'' c, Emit (entry ''thinking'' c)])
      else if cb_type b = ''tool_use'' then
        (if take 5 (cb_name b) = ''mcp__'' then []
         else if cb_name b = ''Skill'' then handleSkillToolUse J (cb_input b)
         else if cb_name b = ''AskUserQuestion'' then []
         else let c = redact (formatToolCall J (cb_name b) (cb_input b)) in
              [LogInfo ''claude_tool'' c, Emit (entry ''tool_call'' c)])
      else [])"

definition processLine :: "json_dec \<Rightarrow> (string \<Rightarrow> string) \<Rightarrow> string \<Rightarrow> out_event list" where
  "processLine J redact line =
     (if TrimSpace line = [] then []
      else case jd_event J line of
        None \<Rightarrow> [LogWarn malformed_msg (jd_error J line)]
      | Some ev \<Rightarrow>
          if ev_type ev \<noteq> ''assistant'' then []
          else (case ev_usage ev of
                  None \<Rightarrow> []
                | Some u \<Rightarrow> [Emit \<lparr>oe_type = ''usage'', oe_content = [], oe_model = ev_model ev, oe_usage = Some u\<rparr>]) @
               concat (map (processBlock J redact) (ev_content ev)))"

section \<open>The stream\<close>

definition oversized_msg :: string where
  "oversized_msg = ''logparser: dropped oversized stream-json line (>16 MiB); rest of line discarded''"

definition read_ended_msg :: string where "read_ended_msg = ''logparser: stream read terminated with error''"

definition read_failed_msg :: string where
  "read_failed_msg = ''logparser: stream read terminated with error: ''"

text \<open>One round of the loop: what the line gives, then what the error gives.\<close>

definition line_output :: "(string \<Rightarrow> out_event list) \<Rightarrow> string \<Rightarrow> bool \<Rightarrow> out_event list" where
  "line_output process line truncated =
     (if truncated then [LogError oversized_msg (dec MaxLineBytes), Emit (entry ''system'' oversized_msg)]
      else if line \<noteq> [] then process (TrimRight_crlf line) else [])"

definition end_output :: "read_error \<Rightarrow> out_event list" where
  "end_output e = (case e of
       EOF \<Rightarrow> []
     | IOError m \<Rightarrow> [LogError read_ended_msg m,
                   Emit (entry ''system'' (read_failed_msg @ m))])"

function stream_loop :: "nat \<Rightarrow> nat \<Rightarrow> (string \<Rightarrow> out_event list) \<Rightarrow> reader \<Rightarrow> out_event list" where
  "stream_loop B maxBytes process r =
     (if B = 0 then []
      else case ReadBoundedLine B maxBytes r of
        ((line, truncated, err), r') \<Rightarrow>
          line_output process line truncated @
          (case err of None \<Rightarrow> stream_loop B maxBytes process r' | Some e \<Rightarrow> end_output e))"
  by pat_completeness auto
termination
proof (relation "measure (\<lambda>(B, m, p, r). length (rd_rest r))", goal_cases)
  case (2 B m p r x r' y err z truncated)
  then show ?case
    by (auto simp: bounded_line_eq line_ref_def Let_def split: if_splits)
qed simp

declare stream_loop.simps [simp del]

definition initReadBufSize :: nat where "initReadBufSize = 64 * 1024"

definition ProcessStreamWithRedactor :: "json_dec \<Rightarrow> string list option \<Rightarrow> reader \<Rightarrow> out_event list" where
  "ProcessStreamWithRedactor J redactor r =
     stream_loop initReadBufSize MaxLineBytes (processLine J (Redactor_Redact redactor)) r"

definition ProcessStream :: "json_dec \<Rightarrow> reader \<Rightarrow> out_event list" where
  "ProcessStream J r = ProcessStreamWithRedactor J None r"

section \<open>Reference: one output per line\<close>

fun stream_lines :: "string \<Rightarrow> string list" where
  "stream_lines [] = [[]]"
| "stream_lines (c # s) =
     (if c = NL then [] # stream_lines s
      else case stream_lines s of [] \<Rightarrow> [[c]] | l # ls \<Rightarrow> (c # l) # ls)"

lemma stream_lines_ne: "stream_lines s \<noteq> []"
  by (cases s) (auto split: list.splits)

lemma stream_lines_unfold:
  "stream_lines s = line_content s #
     (if length (line_content s) < length s then stream_lines (drop (Suc (length (line_content s))) s) else [])"
proof (induction s)
  case (Cons c s)
  then show ?case
    by (cases "c = NL") (auto simp: line_content_def split: list.splits)
qed (simp add: line_content_def)

lemma stream_loop_ref:
  assumes "0 < B"
  shows "stream_loop B m process r =
    concat (map (\<lambda>l. line_output process (take m l) (length l > m)) (stream_lines (rd_rest r)))
      @ end_output (rd_err r)"
proof (induction "length (rd_rest r)" arbitrary: r rule: less_induct)
  case less
  let ?c = "line_content (rd_rest r)"
  show ?case
  proof (cases "length ?c < length (rd_rest r)")
    case True
    let ?r = "r\<lparr>rd_rest := drop (Suc (length ?c)) (rd_rest r)\<rparr>"
    have "stream_loop B m process r =
        line_output process (take m ?c) (length ?c > m) @ stream_loop B m process ?r"
      using assms True by (subst stream_loop.simps) (simp add: bounded_line_eq line_ref_def Let_def)
    moreover have "stream_loop B m process ?r =
        concat (map (\<lambda>l. line_output process (take m l) (length l > m)) (stream_lines (rd_rest ?r)))
          @ end_output (rd_err ?r)"
      by (rule less) (use True in simp)
    ultimately show ?thesis
      using stream_lines_unfold[of "rd_rest r"] True by simp
  next
    case False
    then show ?thesis
      using assms stream_lines_unfold[of "rd_rest r"]
      by (subst stream_loop.simps) (simp add: bounded_line_eq line_ref_def Let_def)
  qed
qed

text \<open>Every string of an output: contents, the model of a usage entry, messages of the parser and their attributes.\<close>

fun out_strings :: "out_event \<Rightarrow> string list" where
  "out_strings (Emit e) = [oe_content e, oe_model e]"
| "out_strings (LogInfo k c) = [c]"
| "out_strings (LogWarn m err) = [m, err]"
| "out_strings (LogError m err) = [m, err]"
| "out_strings (SkillEngaged n) = [n]"

text \<open>
  The strings that are not redacted: the model of a usage entry, the name of a skill, the error text of the JSON
  decoder, the parser's own messages, and the error of the reader.
\<close>

definition parser_messages :: "string list" where
  "parser_messages = [oversized_msg, malformed_msg, skill_failed_msg, read_ended_msg, dec MaxLineBytes]"

definition usage_model :: "out_event \<Rightarrow> string \<Rightarrow> bool" where
  "usage_model x s \<longleftrightarrow> (\<exists>u. x = Emit \<lparr>oe_type = ''usage'', oe_content = [], oe_model = s, oe_usage = Some u\<rparr>)"

definition decoder_error :: "json_dec \<Rightarrow> out_event \<Rightarrow> string \<Rightarrow> bool" where
  "decoder_error J x s \<longleftrightarrow> (\<exists>m i. x = LogWarn m (jd_error J i) \<and> s = jd_error J i)"

definition system_only :: "out_event \<Rightarrow> string \<Rightarrow> bool" where
  "system_only x s \<longleftrightarrow> (\<forall>e. x = Emit e \<longrightarrow> e = entry ''system'' s)"

definition raw_string :: "json_dec \<Rightarrow> out_event \<Rightarrow> string \<Rightarrow> bool" where
  "raw_string J x s \<longleftrightarrow> usage_model x s \<or> x = SkillEngaged s \<or> decoder_error J x s \<or>
     s \<in> set parser_messages \<and> system_only x s"

lemmas raw_defs = raw_string_def usage_model_def decoder_error_def parser_messages_def system_only_def

lemma processLine_strings:
  assumes "x \<in> set (processLine J redact l)" and "s \<in> set (out_strings x)"
  shows "s = [] \<or> (\<exists>t. s = redact t) \<or> raw_string J x s"
proof -
  have b: "s = [] \<or> (\<exists>t. s = redact t) \<or> raw_string J x s" if "x \<in> set (processBlock J redact b)" for b
    using that assms(2)
    by (auto simp: processBlock_def handleSkillToolUse_def Let_def entry_def raw_defs split: if_splits option.splits list.splits)
  show ?thesis
    using assms b by (auto simp: processLine_def raw_defs split: if_splits option.splits)
qed

lemma Redactor_gone:
  assumes "markless w" and "w \<in> set ss" and "8 \<le> length w"
  shows "\<not> sublist w (Redactor_Redact (Some (NewRedactor ss)) s)"
proof -
  have "w \<in> set (NewRedactor ss)" using assms(2,3) by (simp add: set_NewRedactor minSecretLen_def)
  then show ?thesis
    using Redact_keeps[OF assms(1)] fold_literals_gone[OF assms(1)] by (auto simp: Redactor_Redact_def)
qed

section \<open>What the parser promises\<close>

lemma secret_only_raw:
  assumes "w \<in> set secrets" and "8 \<le> length w"
    and "CHR ''['' \<notin> set w" "CHR '']'' \<notin> set w" "\<not> sublist w ''REDACTED''"
    and "x \<in> set (ProcessStreamWithRedactor J (Some (NewRedactor secrets)) r)"
    and "s \<in> set (out_strings x)" and "sublist w s"
  shows "raw_string J x s \<or> (\<exists>m. rd_err r = IOError m \<and> s \<in> {m, read_failed_msg @ m}) \<and> system_only x s"
proof -
  have w: "markless w" using assms(2-5) by (auto simp: markless_def)
  let ?red = "Redactor_Redact (Some (NewRedactor secrets))"
  have B: "0 < initReadBufSize" by (simp add: initReadBufSize_def)
  have ne: "s \<noteq> []" using assms(2,8) by auto
  consider l t where "x \<in> set (line_output (processLine J ?red) l t)" | "x \<in> set (end_output (rd_err r))"
    using assms(6) unfolding ProcessStreamWithRedactor_def stream_loop_ref[OF B] by fastforce
  then show ?thesis
  proof cases
    case 1
    show ?thesis
    proof (cases t)
      case True
      then show ?thesis using 1 assms(7) ne by (auto simp: line_output_def entry_def raw_defs)
    next
      case False
      then obtain l' where "x \<in> set (processLine J ?red l')" using 1 by (auto simp: line_output_def split: if_splits)
      then show ?thesis using processLine_strings[OF _ assms(7)] ne Redactor_gone[OF w assms(1,2)] assms(8) by blast
    qed
  next
    case 2
    then show ?thesis using assms(7) ne by (cases "rd_err r") (auto simp: end_output_def entry_def raw_defs)
  qed
qed

text \<open>
  C3. Where a secret of the container can leave through the parser of its standard output. Take a secret of at least eight
  bytes, free of the marker's brackets and no part of the word \<open>REDACTED\<close>, that the redactor knows. For any decoder and
  any output of the container, no string that is logged, emitted or handed on contains it, except in the places that
  the code does not redact: the model of a usage entry, the name of an engaged skill, the error text of the JSON
  decoder, and what the parser says by itself or repeats of the reader's error.
\<close>

theorem stream_redacts:
  assumes "w \<in> set secrets" and "8 \<le> length w"
    and "CHR ''['' \<notin> set w" "CHR '']'' \<notin> set w" "\<not> sublist w ''REDACTED''"
    and "x \<in> set (ProcessStreamWithRedactor J (Some (NewRedactor secrets)) r)" and "s \<in> set (out_strings x)"
    and "sublist w s"
  shows "(\<exists>u. x = Emit \<lparr>oe_type = ''usage'', oe_content = [], oe_model = s, oe_usage = Some u\<rparr>) \<or> x = SkillEngaged s \<or>
    (\<exists>m i. x = LogWarn m (jd_error J i) \<and> s = jd_error J i) \<or> s \<in> set parser_messages \<or>
    (\<exists>m. rd_err r = IOError m \<and> s \<in> {m, read_failed_msg @ m})"
  using secret_only_raw[OF assms] unfolding raw_string_def usage_model_def decoder_error_def by blast

definition example_json :: json_dec where
  "example_json = \<lparr>jd_event = (\<lambda>l. Some \<lparr>ev_type = ''assistant'', ev_model = ''m'',
       ev_content = [\<lparr>cb_type = ''text'', cb_text = l, cb_thinking = [], cb_name = [], cb_input = []\<rparr>],
       ev_usage = None\<rparr>),
     jd_fields = (\<lambda>fs s. None), jd_todos = (\<lambda>s. None), jd_compact = Some, jd_error = (\<lambda>s. [])\<rparr>"

lemma example_stream:
  "stream_lines (''my sesame-open!'' @ [NL]) = [''my sesame-open!'', []]"
  "processLine example_json (Redactor_Redact (Some (NewRedactor [''sesame-open'']))) ''my sesame-open!''
     = [LogInfo ''claude_text'' ''my [REDACTED]!'', Emit (entry ''text'' ''my [REDACTED]!'')]"
  by code_simp+

text \<open>
  The model of a usage entry is emitted as the container wrote it: a container that puts a secret there publishes it.
\<close>

definition example_usage :: usage_block where
  "example_usage = \<lparr>InputTokens = 1, OutputTokens = 1, CacheReadTokens = 0, CacheCreateTokens = 0\<rparr>"

definition leaking_json :: json_dec where
  "leaking_json = example_json\<lparr>jd_event := (\<lambda>l. Some \<lparr>ev_type = ''assistant'', ev_model = ''my sesame-open!'', ev_content = [],
     ev_usage = Some example_usage\<rparr>)\<rparr>"

lemma usage_model_unredacted:
  "Emit \<lparr>oe_type = ''usage'', oe_content = [], oe_model = ''my sesame-open!'', oe_usage = Some example_usage\<rparr> \<in>
     set (ProcessStreamWithRedactor leaking_json (Some (NewRedactor [''sesame-open''])) \<lparr>rd_rest = ''{}'', rd_err = EOF\<rparr>)"
proof -
  have B: "0 < initReadBufSize" by (simp add: initReadBufSize_def)
  have t: "TrimRight_crlf ''{}'' = ''{}''" "TrimSpace ''{}'' \<noteq> []" "stream_lines ''{}'' = [''{}'']" by code_simp+
  show ?thesis
    unfolding ProcessStreamWithRedactor_def stream_loop_ref[OF B] reader.select_convs t(3)
    by (simp add: t(1,2) line_output_def MaxLineBytes_def processLine_def leaking_json_def)
qed

theorem stream_redacts_witness:
  "LogInfo ''claude_text'' ''my [REDACTED]!'' \<in> set (ProcessStreamWithRedactor example_json
       (Some (NewRedactor [''sesame-open''])) \<lparr>rd_rest = ''my sesame-open!'' @ [NL], rd_err = EOF\<rparr>)
   \<and> (\<exists>x \<in> set (ProcessStreamWithRedactor leaking_json (Some (NewRedactor [''sesame-open''])) \<lparr>rd_rest = ''{}'', rd_err = EOF\<rparr>).
        \<exists>u. x = Emit \<lparr>oe_type = ''usage'', oe_content = [], oe_model = ''my sesame-open!'', oe_usage = Some u\<rparr>)"
proof -
  let ?r = "\<lparr>rd_rest = ''my sesame-open!'' @ [NL], rd_err = EOF\<rparr>"
  have B: "0 < initReadBufSize" by (simp add: initReadBufSize_def)
  have t: "TrimRight_crlf ''my sesame-open!'' = ''my sesame-open!''" by code_simp
  have x: "LogInfo ''claude_text'' ''my [REDACTED]!'' \<in>
      set (ProcessStreamWithRedactor example_json (Some (NewRedactor [''sesame-open''])) ?r)"
    unfolding ProcessStreamWithRedactor_def stream_loop_ref[OF B]
    by (simp only: reader.select_convs example_stream)
      (simp add: line_output_def t MaxLineBytes_def example_stream)
  let ?l = "Emit \<lparr>oe_type = ''usage'', oe_content = [], oe_model = ''my sesame-open!'', oe_usage = Some example_usage\<rparr>"
  have n: "\<not> sublist ''sesame-open'' ''REDACTED''" and h: "sublist ''sesame-open'' ''my sesame-open!''" by code_simp+
  have d: "dec MaxLineBytes = ''16777216''" by (simp add: MaxLineBytes_def dec.simps digit_char_def) code_simp
  have p: "''my sesame-open!'' \<notin> set parser_messages"
    by (simp add: parser_messages_def d oversized_msg_def malformed_msg_def skill_failed_msg_def read_ended_msg_def)
  have l: "?l \<in> set (ProcessStreamWithRedactor leaking_json (Some (NewRedactor [''sesame-open''])) \<lparr>rd_rest = ''{}'', rd_err = EOF\<rparr>)"
    by (rule usage_model_unredacted)
  show ?thesis
    using stream_redacts[of "''sesame-open''" "[''sesame-open'']", OF _ _ _ _ n l _ h] x l by auto
qed

text \<open>
  The parser terminates on every stream and treats it line by line, independently of the read buffer:
  every line up to 16 MiB is processed exactly once and in order, the unterminated last one
  included, a longer one is replaced by one system entry, and only a read error other than the end of
  the stream adds a final report.
\<close>

theorem stream_is_lines:
  "ProcessStreamWithRedactor J redactor r =
     concat (map (\<lambda>l. line_output (processLine J (Redactor_Redact redactor)) (take 16777216 l) (length l > 16777216))
       (stream_lines (rd_rest r))) @ end_output (rd_err r)"
  using stream_loop_ref[of initReadBufSize MaxLineBytes]
  by (simp add: ProcessStreamWithRedactor_def initReadBufSize_def MaxLineBytes_def)

end
