(* ===== verification/Priming.thy ===== *)
theory Priming
  imports Tracker
begin

text \<open>
  The bounded priming write, as a protocol of two goroutines over the stdin lock: a worker that runs
  \<open>WriteStdin\<close> (which holds \<open>stdinState.mu\<close> during \<open>Write\<close>) and the caller that waits for it or for a timer.
  Chat mode (\<open>writeChatStdinWithTimeout\<close> of \<open>internal/webhook/chat.go\<close>) answers the timer with \<open>CloseStdinChat\<close>,
  card mode (\<open>writePrimingWithTimeout\<close> of \<open>internal/container/manager.go\<close>) closes the connection itself and then calls
  \<open>MarkStdinClosed\<close>. A blocked \<open>Write\<close> returns when the peer reads or the connection is closed.
\<close>

section \<open>The protocol\<close>

datatype mode = ChatMode | CardMode

datatype who = Worker | Caller

datatype write_outcome = WriteOk | WriteFailed | WriteStdinClosed

datatype worker_pc = WStart | WLocked | WWriting | WReturning write_outcome | WDone write_outcome

datatype caller_pc = CWaiting | CTimedOut | CConnClosed | CLocked | CReturned

record priming_state =
  mu :: "who option"
  conn_open :: bool
  attached :: bool
  worker :: worker_pc
  caller :: caller_pc

definition priming_start :: priming_state where
  "priming_start = \<lparr>mu = None, conn_open = True, attached = True, worker = WStart, caller = CWaiting\<rparr>"

text \<open>\<open>reads\<close> tells whether the container ever reads its stdin.\<close>

inductive priming_step :: "mode \<Rightarrow> bool \<Rightarrow> priming_state \<Rightarrow> priming_state \<Rightarrow> bool" for m reads where
  worker_locks:
    "worker s = WStart \<Longrightarrow> mu s = None \<Longrightarrow>
      priming_step m reads s (s\<lparr>mu := Some Worker, worker := WLocked\<rparr>)"
| worker_writes:
    "worker s = WLocked \<Longrightarrow> attached s \<Longrightarrow> priming_step m reads s (s\<lparr>worker := WWriting\<rparr>)"
| worker_closed:
    "worker s = WLocked \<Longrightarrow> \<not> attached s \<Longrightarrow>
      priming_step m reads s (s\<lparr>worker := WReturning WriteStdinClosed\<rparr>)"
| write_succeeds:
    "worker s = WWriting \<Longrightarrow> reads \<Longrightarrow> conn_open s \<Longrightarrow>
      priming_step m reads s (s\<lparr>worker := WReturning WriteOk\<rparr>)"
| write_fails:
    "worker s = WWriting \<Longrightarrow> \<not> conn_open s \<Longrightarrow>
      priming_step m reads s (s\<lparr>worker := WReturning WriteFailed\<rparr>)"
| worker_unlocks:
    "worker s = WReturning r \<Longrightarrow> priming_step m reads s (s\<lparr>mu := None, worker := WDone r\<rparr>)"
| caller_done:
    "caller s = CWaiting \<Longrightarrow> worker s = WDone r \<Longrightarrow> priming_step m reads s (s\<lparr>caller := CReturned\<rparr>)"
| caller_timer:
    "caller s = CWaiting \<Longrightarrow> priming_step m reads s (s\<lparr>caller := CTimedOut\<rparr>)"
| card_closes_conn:
    "m = CardMode \<Longrightarrow> caller s = CTimedOut \<Longrightarrow>
      priming_step m reads s (s\<lparr>conn_open := False, caller := CConnClosed\<rparr>)"
| card_marks:
    "m = CardMode \<Longrightarrow> caller s = CConnClosed \<Longrightarrow> mu s = None \<Longrightarrow>
      priming_step m reads s (s\<lparr>mu := Some Caller, attached := False, caller := CLocked\<rparr>)"
| chat_closes:
    "m = ChatMode \<Longrightarrow> caller s = CTimedOut \<Longrightarrow> mu s = None \<Longrightarrow>
      priming_step m reads s
        (s\<lparr>mu := Some Caller, conn_open := (conn_open s \<and> \<not> attached s), attached := False, caller := CLocked\<rparr>)"
| caller_unlocks:
    "caller s = CLocked \<Longrightarrow> priming_step m reads s (s\<lparr>mu := None, caller := CReturned\<rparr>)"

inductive_cases priming_stepE: "priming_step m reads s s'"

abbreviation priming_run :: "mode \<Rightarrow> bool \<Rightarrow> priming_state \<Rightarrow> priming_state \<Rightarrow> bool" where
  "priming_run m reads \<equiv> (priming_step m reads)\<^sup>*\<^sup>*"

section \<open>The lock discipline\<close>

text \<open>The lock belongs to the goroutine that is between its lock and its unlock.\<close>

definition lock_ok :: "mode \<Rightarrow> priming_state \<Rightarrow> bool" where
  "lock_ok m s \<longleftrightarrow>
     (mu s = Some Worker \<longleftrightarrow> worker s \<in> {WLocked, WWriting} \<or> (\<exists>r. worker s = WReturning r)) \<and>
     (mu s = Some Caller \<longleftrightarrow> caller s = CLocked) \<and>
     (m = CardMode \<longrightarrow> (conn_open s \<longleftrightarrow> caller s \<notin> {CConnClosed, CLocked} \<and> (caller s = CReturned \<longrightarrow> attached s))) \<and>
     (caller s = CConnClosed \<longrightarrow> m = CardMode) \<and>
     (m = ChatMode \<longrightarrow> attached s \<longrightarrow> conn_open s) \<and>
     (attached s \<longrightarrow> caller s \<noteq> CLocked) \<and>
     (attached s \<longrightarrow> caller s = CReturned \<longrightarrow> (\<exists>r. worker s = WDone r)) \<and>
     (\<not> attached s \<longrightarrow> caller s \<in> {CLocked, CReturned} \<and> \<not> conn_open s)"

lemma lock_ok_start: "lock_ok m priming_start"
  by (simp add: lock_ok_def priming_start_def)

lemma lock_ok_step: "priming_step m reads s s' \<Longrightarrow> lock_ok m s \<Longrightarrow> lock_ok m s'"
  by (erule priming_stepE) (auto simp: lock_ok_def split: if_splits)

lemma lock_ok_run: "priming_run m reads priming_start s \<Longrightarrow> lock_ok m s"
  by (induction rule: rtranclp_induct) (auto intro: lock_ok_start lock_ok_step)

section \<open>Card mode: the write is bounded\<close>

fun worker_rank :: "worker_pc \<Rightarrow> nat" where
  "worker_rank WStart = 4"
| "worker_rank WLocked = 3"
| "worker_rank WWriting = 2"
| "worker_rank (WReturning r) = 1"
| "worker_rank (WDone r) = 0"

fun caller_rank :: "caller_pc \<Rightarrow> nat" where
  "caller_rank CWaiting = 4"
| "caller_rank CTimedOut = 3"
| "caller_rank CConnClosed = 2"
| "caller_rank CLocked = 1"
| "caller_rank CReturned = 0"

definition rank :: "priming_state \<Rightarrow> nat" where
  "rank s = worker_rank (worker s) + caller_rank (caller s)"

lemma rank_step: "priming_step m reads s s' \<Longrightarrow> rank s' < rank s"
  by (erule priming_stepE) (auto simp: rank_def)

lemma rank_run: "((priming_step m reads) ^^ n) s s' \<Longrightarrow> rank s' + n \<le> rank s"
proof (induction n arbitrary: s')
  case (Suc n)
  then obtain u where "((priming_step m reads) ^^ n) s u" "priming_step m reads u s'" by auto
  with Suc.IH[of u] rank_step[of m reads u s'] show ?case by simp
qed simp

lemma card_enabled:
  assumes "lock_ok CardMode s" and "\<nexists>s'. priming_step CardMode reads s s'"
  shows "caller s = CReturned" and "\<exists>r. worker s = WDone r" and "mu s = None"
proof -
  have stuck: "\<And>s'. \<not> priming_step CardMode reads s s'" using assms(2) by blast
  have w: "caller s \<noteq> CWaiting" "caller s \<noteq> CTimedOut" "caller s \<noteq> CLocked"
    using stuck caller_timer card_closes_conn caller_unlocks by blast+
  have conn: "caller s = CConnClosed \<Longrightarrow> \<not> conn_open s"
    using assms(1) by (simp add: lock_ok_def)
  show r: "caller s = CReturned"
  proof (rule ccontr)
    assume "caller s \<noteq> CReturned"
    with w have c: "caller s = CConnClosed" by (cases "caller s") auto
    with stuck card_marks[of CardMode s reads] have "mu s \<noteq> None" by blast
    with c assms(1) have "mu s = Some Worker" by (cases "mu s"; cases "the (mu s)") (auto simp: lock_ok_def)
    with assms(1) have "worker s \<in> {WLocked, WWriting} \<or> (\<exists>r. worker s = WReturning r)"
      by (auto simp: lock_ok_def)
    then show False
      using stuck conn[OF c] worker_writes worker_closed write_fails worker_unlocks by blast
  qed
  have nolock: "mu s \<noteq> Some Caller" using assms(1) r by (auto simp: lock_ok_def)
  show "\<exists>r. worker s = WDone r"
  proof (cases "worker s")
    case WStart
    then have "mu s \<noteq> Some Worker" using assms(1) by (auto simp: lock_ok_def)
    with nolock have "mu s = None" by (metis not_None_eq who.exhaust)
    with stuck worker_locks[OF WStart] show ?thesis by blast
  next
    case WLocked
    then show ?thesis using stuck worker_writes worker_closed by blast
  next
    case WWriting
    with assms(1) r have "\<not> attached s" by (auto simp: lock_ok_def)
    with assms(1) have "\<not> conn_open s" by (simp add: lock_ok_def)
    with WWriting show ?thesis using stuck write_fails by blast
  next
    case (WReturning r)
    then show ?thesis using stuck worker_unlocks by blast
  qed auto
  then show "mu s = None"
    using assms(1) nolock by (cases "mu s"; cases "the (mu s)") (auto simp: lock_ok_def)
qed

text \<open>
  The card-mode priming write cannot hang the run: whatever the container does with its stdin
  (even if it never reads a byte), every execution stops after at most eight steps, and it can
  only stop with the caller returned, the worker finished and the stdin lock free; when
  the timer fired the tracker no longer offers the closed connection, so a later message is
  answered with \<open>ErrStdinClosed\<close>.
\<close>

theorem card_priming_returns:
  assumes "((priming_step CardMode reads) ^^ n) priming_start s"
  shows "n \<le> 8 \<and> ((\<exists>s'. priming_step CardMode reads s s') \<or>
    (caller s = CReturned \<and> (\<exists>r. worker s = WDone r) \<and> mu s = None \<and> (attached s \<longleftrightarrow> conn_open s)))"
proof -
  have n: "n \<le> 8"
    using rank_run[OF assms] by (simp add: rank_def priming_start_def)
  have ok: "lock_ok CardMode s"
    using assms by (auto intro: lock_ok_run relpowp_imp_rtranclp)
  have "caller s = CReturned \<Longrightarrow> attached s \<longleftrightarrow> conn_open s"
    using ok by (auto simp: lock_ok_def)
  with n card_enabled[OF ok] show ?thesis by blast
qed

lemma chat_blocked_run:
  "priming_step m False priming_start (priming_start\<lparr>mu := Some Worker, worker := WLocked\<rparr>)"
  "priming_step m False (priming_start\<lparr>mu := Some Worker, worker := WLocked\<rparr>)
     (priming_start\<lparr>mu := Some Worker, worker := WWriting\<rparr>)"
  using worker_locks[of priming_start m False] worker_writes[of "priming_start\<lparr>mu := Some Worker, worker := WLocked\<rparr>" m False]
  by (simp_all add: priming_start_def)

theorem card_priming_returns_witness:
  "\<exists>s'. priming_step CardMode False (priming_start\<lparr>mu := Some Worker, worker := WWriting\<rparr>) s'"
proof -
  have "((priming_step CardMode False) ^^ 2) priming_start (priming_start\<lparr>mu := Some Worker, worker := WWriting\<rparr>)"
    using chat_blocked_run[of CardMode] by (auto simp: numeral_2_eq_2)
  from card_priming_returns[OF this] show ?thesis by (simp add: priming_start_def)
qed

section \<open>Chat mode: the timeout waits for the lock it means to free\<close>

definition wedged :: "priming_state \<Rightarrow> bool" where
  "wedged s \<longleftrightarrow> mu s = Some Worker \<and> conn_open s \<and> attached s \<and> worker s = WWriting \<and> caller s \<in> {CWaiting, CTimedOut}"

lemma wedged_step: "priming_step ChatMode False s s' \<Longrightarrow> wedged s \<Longrightarrow> wedged s'"
  by (erule priming_stepE) (auto simp: wedged_def)

lemma wedged_run: "priming_run ChatMode False s s' \<Longrightarrow> wedged s \<Longrightarrow> wedged s'"
  by (induction rule: rtranclp_induct) (auto intro: wedged_step)

lemma wedged_stuck: "wedged s \<Longrightarrow> caller s = CTimedOut \<Longrightarrow> \<not> priming_step ChatMode False s s'"
  by (auto simp: wedged_def elim!: priming_stepE)

text \<open>
  C39. In chat mode the timeout does not unblock anything. Once the worker is inside \<open>Write\<close> and the container does not
  read, no continuation ever returns to the \<open>/chat/start\<close> caller, closes the connection or frees the stdin
  lock: the timeout branch calls \<open>CloseStdinChat\<close>, which takes the very lock that the blocked worker
  holds, and after the timer fired nothing can move at all.
\<close>

theorem chat_priming_deadlocks:
  assumes "priming_run ChatMode False priming_start s" and "worker s = WWriting" and "caller s = CWaiting"
    and "priming_run ChatMode False s s'"
  shows "caller s' \<noteq> CReturned \<and> mu s' = Some Worker \<and> conn_open s' \<and>
    (caller s' = CTimedOut \<longrightarrow> (\<nexists>u. priming_step ChatMode False s' u))"
proof -
  have "lock_ok ChatMode s" using assms(1) by (rule lock_ok_run)
  then have "wedged s" using assms(2,3) by (auto simp: lock_ok_def wedged_def)
  then have "wedged s'" using wedged_run assms(4) by blast
  then show ?thesis using wedged_stuck by (auto simp: wedged_def)
qed

theorem chat_priming_deadlocks_witness:
  "\<nexists>u. priming_step ChatMode False
     (priming_start\<lparr>mu := Some Worker, worker := WWriting, caller := CTimedOut\<rparr>) u"
proof -
  let ?w = "priming_start\<lparr>mu := Some Worker, worker := WWriting\<rparr>"
  have r: "priming_run ChatMode False priming_start ?w"
    using chat_blocked_run[of ChatMode] by (meson converse_rtranclp_into_rtranclp rtranclp.rtrancl_refl)
  have c: "caller ?w = CWaiting" "worker ?w = WWriting" by (simp_all add: priming_start_def)
  have "priming_run ChatMode False ?w (?w\<lparr>caller := CTimedOut\<rparr>)"
    using caller_timer[OF c(1), of ChatMode False] by blast
  from chat_priming_deadlocks[OF r c(2) c(1) this] show ?thesis by simp
qed

end
