(* ===== verification/Handler.thy ===== *)
theory Handler
  imports Replay_Cache Dedup_Cache Tracker Validate Stream_Msg Broadcaster
begin

text \<open>
  The webhook handlers of \<open>internal/webhook/handler.go\<close>, with \<open>codes.go\<close> and \<open>health.go\<close>: HMAC authentication and
  replay rejection, and one definition per endpoint. A handler takes the environment of the call
  (clock, JSON decoders, answers of Docker and of the ContextMatrix API, writer errors), the request and the
  state, and returns the response and the new state. Calls of the \<open>ContainerRunner\<close> interface are
  recorded in order; their answers come from the environment. Nil-able collaborators are options.
\<close>

section \<open>Responses\<close>

datatype code =
    CodeInvalidJSON | CodeInvalidField | CodeUnauthorized | CodeNotFound | CodeConflict
  | CodeForbidden | CodeLimitReached | CodeTooLarge | CodeDuplicate | CodeStdinClosed
  | CodeUpstreamFailure | CodeDraining | CodeInternal

record kill_result =
  kr_card :: string
  kr_session :: string
  kr_project :: string
  kr_ok :: bool
  kr_error :: string

record managed_container =
  mc_id :: string
  mc_name :: string
  mc_card :: string
  mc_session :: string
  mc_project :: string
  mc_state :: string
  mc_started :: time
  mc_tracked :: bool

datatype body =
    BSuccess string
  | BError code string
  | BRaw bytes
  | BHealth nat int
  | BReady bool string
  | BStopAll bool nat nat nat "kill_result list"
  | BChatStarted string
  | BContainers "managed_container list"
  | BStream nat

record response =
  rs_status :: int
  rs_body :: body

definition respond :: "int \<Rightarrow> body \<Rightarrow> response" where
  "respond s b = \<lparr>rs_status = s, rs_body = b\<rparr>"

definition writeSuccess :: "int \<Rightarrow> string \<Rightarrow> response" where
  "writeSuccess s m = respond s (BSuccess m)"

definition writeError :: "int \<Rightarrow> code \<Rightarrow> string \<Rightarrow> response" where
  "writeError s c m = respond s (BError c m)"

definition writeRawAck :: "cached_ack \<Rightarrow> response" where
  "writeRawAck a = respond (ack_status a) (BRaw (ack_body a))"

definition writeValidationError :: "validation_error \<Rightarrow> response" where
  "writeValidationError e = (case e of
       ValidationError f r \<Rightarrow> writeError 400 CodeInvalidField (''invalid '' @ f)
     | UnknownPayloadType t \<Rightarrow> writeError 400 CodeInvalidField ''invalid payload'')"

definition writeUnauthorized :: response where
  "writeUnauthorized = writeError 401 CodeUnauthorized ''unauthorized''"

definition writeUpstreamUnavailable :: response where
  "writeUpstreamUnavailable = writeError 502 CodeUpstreamFailure ''upstream verification failed''"

definition MsgNotInteractive :: string where
  "MsgNotInteractive = ''container is not in interactive mode''"

definition MsgNoContainerTracked :: string where
  "MsgNoContainerTracked = ''no container tracked''"

section \<open>State\<close>

record health_state =
  PreflightPassed :: bool
  Draining :: bool

datatype manager_call =
    CallRun trigger_payload
  | CallKill string string
  | CallKillChat string
  | CallForceRemove string string
  | CallMintChatGitToken
  | CallStartChat chat_start_payload
  | CallAttachChatStdin string string
  | CallWaitAndCleanupChat string string string
  | CallStreamChatLogs string string string
  | CallDeleteChatCleanup string
  | CallStop string
  | CallListManaged

record handler_state =
  h_tracker :: tracker
  h_replay :: "replay_cache option"
  h_dedup :: "dedup_cache option"
  h_bcast :: "broadcaster option"
  h_health :: "health_state option"
  h_calls :: "manager_call list"

record handler_config =
  apiKey :: string
  maxConcurrent :: int
  replaySkew :: duration
  defaultMaxClockSkew :: duration
  has_cmClient :: bool

definition NewHealthState :: health_state where
  "NewHealthState = \<lparr>PreflightPassed = False, Draining = False\<rparr>"

definition StartDraining :: "health_state \<Rightarrow> health_state" where
  "StartDraining h = h\<lparr>Draining := True\<rparr>"

definition isDraining :: "handler_state \<Rightarrow> bool" where
  "isDraining s \<longleftrightarrow> (case h_health s of None \<Rightarrow> False | Some h \<Rightarrow> Draining h)"

definition handleReadyz :: "handler_state \<Rightarrow> response" where
  "handleReadyz s = (case h_health s of
       None \<Rightarrow> respond 200 (BReady True [])
     | Some h \<Rightarrow>
         if Draining h then respond 503 (BReady False ''draining'')
         else if \<not> PreflightPassed h then respond 503 (BReady False ''preflight'')
         else respond 200 (BReady True []))"

definition call :: "manager_call \<Rightarrow> handler_state \<Rightarrow> handler_state" where
  "call c s = s\<lparr>h_calls := h_calls s @ [c]\<rparr>"

definition draining_response :: response where
  "draining_response = writeError 503 CodeDraining ''runner is draining''"

definition invalid_json :: response where
  "invalid_json = writeError 400 CodeInvalidJSON ''invalid JSON''"

definition publish_opt :: "log_entry \<Rightarrow> handler_state \<Rightarrow> handler_state" where
  "publish_opt e s = s\<lparr>h_bcast := map_option (Publish e) (h_bcast s)\<rparr>"

section \<open>Authentication\<close>

record request =
  rq_method :: string
  rq_uri :: string
  rq_content_length :: int
  rq_signature :: string
  rq_timestamp :: string
  rq_body :: "bytes option"

definition maxRequestBodyBytes :: nat where
  "maxRequestBodyBytes = 1048576"

definition trim_sha :: "string \<Rightarrow> string" where
  "trim_sha sig = (if take 7 sig = ''sha256='' then drop 7 sig else sig)"

text \<open>
  \<open>protocol.VerifySignatureWithTimestamp\<close> belongs to another module: it is the argument \<open>verify\<close>, given
  key, method, URI, signature, timestamp header, body, skew and the clock. A body that cannot be
  read is \<open>None\<close>. The wrapped handler gets the body; a response \<open>None\<close> is a handler that
  never returns.
\<close>

type_synonym verifier =
  "string \<Rightarrow> string \<Rightarrow> string \<Rightarrow> string \<Rightarrow> string \<Rightarrow> bytes \<Rightarrow> duration \<Rightarrow> time \<Rightarrow> bool"

definition seen_opt :: "time \<Rightarrow> string \<Rightarrow> handler_state \<Rightarrow> bool \<times> handler_state" where
  "seen_opt now sig s = (case h_replay s of
       None \<Rightarrow> (False, s)
     | Some r \<Rightarrow> (case Seen now sig r of (b, r') \<Rightarrow> (b, s\<lparr>h_replay := Some r'\<rparr>)))"

definition effective_skew :: "handler_config \<Rightarrow> duration" where
  "effective_skew cfg = (if replaySkew cfg = 0 then defaultMaxClockSkew cfg else replaySkew cfg)"

definition hmacAuth ::
  "handler_config \<Rightarrow> verifier \<Rightarrow> time \<Rightarrow> (bytes \<Rightarrow> handler_state \<Rightarrow> response option \<times> handler_state) \<Rightarrow>
    request \<Rightarrow> handler_state \<Rightarrow> response option \<times> handler_state" where
  "hmacAuth cfg verify t next_handler rq s =
     (if rq_content_length rq > int maxRequestBodyBytes
      then (Some (writeError 413 CodeTooLarge ''request body too large''), s)
      else if rq_signature rq = [] then (Some writeUnauthorized, s)
      else if rq_timestamp rq = [] then (Some writeUnauthorized, s)
      else case rq_body rq of
        None \<Rightarrow> (Some writeUnauthorized, s)
      | Some full \<Rightarrow>
          let content = take maxRequestBodyBytes full;
              sig = trim_sha (rq_signature rq)
          in if \<not> verify (apiKey cfg) (rq_method rq) (rq_uri rq) sig (rq_timestamp rq) content (effective_skew cfg) t
             then (Some writeUnauthorized, s)
             else case seen_opt t sig s of
               (True, s') \<Rightarrow> (Some (writeError 409 CodeDuplicate ''duplicate request''), s')
             | (False, s') \<Rightarrow> next_handler content s')"

section \<open>Card endpoints\<close>

record call_env =
  now :: time
  dec_trigger :: "bytes \<Rightarrow> trigger_payload option"
  dec_card :: "bytes \<Rightarrow> card_payload option"
  dec_stop_all :: "bytes \<Rightarrow> string option"
  dec_message :: "bytes \<Rightarrow> message_payload option"
  dec_chat_start :: "bytes \<Rightarrow> chat_start_payload option"
  dec_chat_end :: "bytes \<Rightarrow> string option"
  url_parse :: "string \<Rightarrow> url option"
  ack_json :: "string \<Rightarrow> bytes"
  cancel_of :: callback
  runner_image :: "bytes \<Rightarrow> string"
  write_error :: "string option"
  close_error :: "string option"
  verify_autonomous :: "string \<Rightarrow> string \<Rightarrow> bool option"
  kill_ok :: "string \<Rightarrow> string \<Rightarrow> bool"
  kill_chat_ok :: "string \<Rightarrow> bool"
  force_remove :: "string \<Rightarrow> string \<Rightarrow> nat option"

definition card_info :: "call_env \<Rightarrow> bytes \<Rightarrow> trigger_payload \<Rightarrow> container_info" where
  "card_info env b p = \<lparr>ContainerID = [], CardID = tp_card p, Project = tp_project p, SessionID = [],
     Image = runner_image env b, StartedAt = now env, CancelFn = Some (cancel_of env), reason = [], stdin_ptr = None\<rparr>"

definition cancel_ctx :: "call_env \<Rightarrow> tracker \<Rightarrow> tracker" where
  "cancel_ctx env t = emit [Cancelled (cancel_of env)] t"

definition handleTrigger ::
  "handler_config \<Rightarrow> call_env \<Rightarrow> bytes \<Rightarrow> handler_state \<Rightarrow> response \<times> handler_state" where
  "handleTrigger cfg env b s =
     (if isDraining s then (draining_response, s)
      else case dec_trigger env b of
        None \<Rightarrow> (invalid_json, s)
      | Some p \<Rightarrow>
          (case ValidatePayload (url_parse env) (PTrigger (Ptr (Some p))) of
             Some e \<Rightarrow> (writeValidationError e, s)
           | None \<Rightarrow>
               (case AddIfUnderLimit (card_info env b p) (maxConcurrent cfg) (h_tracker s) of
                  (Some ErrLimitReached, t) \<Rightarrow>
                    (writeError 429 CodeLimitReached ''concurrency limit reached'', s\<lparr>h_tracker := cancel_ctx env t\<rparr>)
                | (Some ErrAlreadyTracked, t) \<Rightarrow>
                    (writeError 409 CodeConflict ''conflicting container state'', s\<lparr>h_tracker := cancel_ctx env t\<rparr>)
                | (Some _, t) \<Rightarrow> (writeError 500 CodeInternal ''internal error'', s\<lparr>h_tracker := cancel_ctx env t\<rparr>)
                | (None, t) \<Rightarrow>
                    (writeSuccess 202 ''container starting'', call (CallRun p) (s\<lparr>h_tracker := t\<rparr>)))))"

definition handleKill ::
  "call_env \<Rightarrow> bytes \<Rightarrow> handler_state \<Rightarrow> response \<times> handler_state" where
  "handleKill env b s =
     (case dec_card env b of
        None \<Rightarrow> (invalid_json, s)
      | Some p \<Rightarrow>
          (case ValidatePayload (url_parse env) (PKill (Ptr (Some p))) of
             Some e \<Rightarrow> (writeValidationError e, s)
           | None \<Rightarrow>
               if \<not> Has (cp_project p) (cp_card p) (h_tracker s)
               then let s' = call (CallForceRemove (cp_project p) (cp_card p)) s in
                 (case force_remove env (cp_project p) (cp_card p) of
                    None \<Rightarrow> (writeError 500 CodeInternal ''kill failed'', s')
                  | Some removed \<Rightarrow>
                      if removed > 0 then (writeSuccess 200 ''force-removed'', s')
                      else (writeSuccess 200 ''no-op (already stopped)'', s'))
               else let s' = call (CallKill (cp_project p) (cp_card p)) s in
                 if kill_ok env (cp_project p) (cp_card p) then (writeSuccess 200 ''container killed'', s')
                 else (writeError 500 CodeInternal ''kill failed'', s')))"

text \<open>One round of the \<open>/stop-all\<close> loop: chat entries take the chat path.\<close>

definition stop_one ::
  "call_env \<Rightarrow> container_snapshot \<Rightarrow> kill_result list \<times> nat \<times> nat \<times> handler_state \<Rightarrow>
    kill_result list \<times> nat \<times> nat \<times> handler_state" where
  "stop_one env info acc = (case acc of (results, stopped, failed, s) \<Rightarrow>
     if sn_SessionID info \<noteq> []
     then let s' = call (CallKillChat (sn_SessionID info)) s;
              r = \<lparr>kr_card = [], kr_session = sn_SessionID info, kr_project = sn_Project info, kr_ok = True, kr_error = []\<rparr>
          in if kill_chat_ok env (sn_SessionID info) then (results @ [r], stopped + 1, failed, s')
             else (results @ [r\<lparr>kr_ok := False, kr_error := ''kill failed''\<rparr>], stopped, failed + 1, s')
     else let s' = call (CallKill (sn_Project info) (sn_CardID info)) s;
              r = \<lparr>kr_card = sn_CardID info, kr_session = [], kr_project = sn_Project info, kr_ok = True, kr_error = []\<rparr>
          in if kill_ok env (sn_Project info) (sn_CardID info) then (results @ [r], stopped + 1, failed, s')
             else (results @ [r\<lparr>kr_ok := False, kr_error := ''kill failed''\<rparr>], stopped, failed + 1, s'))"

definition stop_targets :: "string \<Rightarrow> tracker \<Rightarrow> container_snapshot list" where
  "stop_targets project t = (if project \<noteq> [] then ListSnapshotsByProject project t else AllSnapshots t)"

definition handleStopAll ::
  "call_env \<Rightarrow> bytes \<Rightarrow> handler_state \<Rightarrow> response \<times> handler_state" where
  "handleStopAll env b s =
     (case dec_stop_all env b of
        None \<Rightarrow> (invalid_json, s)
      | Some project \<Rightarrow>
          (case ValidatePayload (url_parse env) (PStopAll (Ptr (Some project))) of
             Some e \<Rightarrow> (writeValidationError e, s)
           | None \<Rightarrow>
               let targets = stop_targets project (h_tracker s)
               in case fold (stop_one env) targets ([], 0, 0, s) of
                    (results, stopped, failed, s') \<Rightarrow>
                      (respond (if failed > 0 then 207 else 200)
                         (BStopAll (\<not> failed > 0) (length targets) stopped failed results), s')))"

definition handleListContainers ::
  "managed_container list option \<Rightarrow> handler_state \<Rightarrow> response \<times> handler_state" where
  "handleListContainers listed s =
     (let s' = call CallListManaged s in
      case listed of
        None \<Rightarrow> (writeError 502 CodeUpstreamFailure ''docker list failed'', s')
      | Some cs \<Rightarrow> (respond 200 (BContainers cs), s'))"

definition handleHealth :: "handler_config \<Rightarrow> handler_state \<Rightarrow> response" where
  "handleHealth cfg s = respond 200 (BHealth (Count (h_tracker s)) (maxConcurrent cfg))"

text \<open>The mapping of tracker errors that \<open>/message\<close>, \<open>/promote\<close> and \<open>/end-session\<close> share.\<close>

definition stdin_error :: "tracker_error \<Rightarrow> response" where
  "stdin_error e = (case e of
       ErrNotTracked \<Rightarrow> writeError 404 CodeNotFound MsgNoContainerTracked
     | ErrStdinClosed \<Rightarrow> writeError 410 CodeStdinClosed ''session ended''
     | ErrNoStdinAttached \<Rightarrow> writeError 409 CodeConflict MsgNotInteractive
     | _ \<Rightarrow> writeError 500 CodeInternal ''internal error'')"

definition message_id :: "message_payload \<Rightarrow> dedup_id" where
  "message_id p =
     (if mp_session p \<noteq> [] then ChatMsg (mp_session p) (mp_message_id p)
      else CardMsg (mp_project p) (mp_card p) (mp_message_id p))"

definition get_ack :: "time \<Rightarrow> message_payload \<Rightarrow> handler_state \<Rightarrow> cached_ack option \<times> handler_state" where
  "get_ack t p s = (case h_dedup s of
       None \<Rightarrow> (None, s)
     | Some c \<Rightarrow>
         if mp_message_id p = [] then (None, s)
         else case dedup_lookup t (message_id p) c of (a, c') \<Rightarrow> (a, s\<lparr>h_dedup := Some c'\<rparr>))"

definition put_ack :: "time \<Rightarrow> message_payload \<Rightarrow> cached_ack \<Rightarrow> handler_state \<Rightarrow> handler_state" where
  "put_ack t p a s = (case h_dedup s of
       None \<Rightarrow> s
     | Some c \<Rightarrow>
         if mp_message_id p = [] then s else s\<lparr>h_dedup := Some (dedup_store t (message_id p) a c)\<rparr>)"

definition user_entry :: "message_payload \<Rightarrow> log_entry" where
  "user_entry p = \<lparr>le_project = mp_project p, le_session = mp_session p, le_card = mp_card p,
     le_kind = ''user'', le_content = mp_content p, le_model = [], le_usage = None\<rparr>"

definition message_has :: "message_payload \<Rightarrow> tracker \<Rightarrow> bool" where
  "message_has p t =
     (if mp_session p \<noteq> [] then HasChat (mp_session p) t else Has (mp_project p) (mp_card p) t)"

definition message_write ::
  "message_payload \<Rightarrow> bytes \<Rightarrow> string option \<Rightarrow> tracker \<Rightarrow> tracker_error option \<times> tracker" where
  "message_write p =
     (if mp_session p \<noteq> [] then WriteStdinChat (mp_session p) else WriteStdin (mp_project p) (mp_card p))"

definition handleMessage ::
  "call_env \<Rightarrow> bytes \<Rightarrow> handler_state \<Rightarrow> response \<times> handler_state" where
  "handleMessage env b s =
     (if isDraining s then (draining_response, s)
      else case dec_message env b of
        None \<Rightarrow> (invalid_json, s)
      | Some p \<Rightarrow>
          if length (mp_content p) > MaxMessageContentBytes
          then (writeError 413 CodeTooLarge ''content exceeds 8192 bytes'', s)
          else (case ValidatePayload (url_parse env) (PMessage (Ptr (Some p))) of
             Some e \<Rightarrow> (writeValidationError e, s)
           | None \<Rightarrow>
               (case get_ack (now env) p s of
                  (Some a, s1) \<Rightarrow> (writeRawAck a, s1)
                | (None, s1) \<Rightarrow>
                    if \<not> message_has p (h_tracker s1)
                    then (writeError 404 CodeNotFound MsgNoContainerTracked, s1)
                    else case message_write p (BuildUserMessage (mp_content p)) (write_error env) (h_tracker s1) of
                      (Some e, t) \<Rightarrow> (stdin_error e, s1\<lparr>h_tracker := t\<rparr>)
                    | (None, t) \<Rightarrow>
                        let a = \<lparr>ack_status = 202, ack_body = ack_json env (mp_message_id p)\<rparr>;
                            s2 = publish_opt (user_entry p) (s1\<lparr>h_tracker := t\<rparr>)
                        in (writeRawAck a, put_ack (now env) p a s2))))"

definition autonomousContent :: string where
  "autonomousContent = ''Autonomous mode has been enabled (card flag flipped). Check the card with `get_card` at your next gate and continue on the autonomous branch. Do not wait for further user input.''"

definition system_entry :: "card_payload \<Rightarrow> string \<Rightarrow> log_entry" where
  "system_entry p m = \<lparr>le_project = cp_project p, le_session = [], le_card = cp_card p,
     le_kind = ''system'', le_content = m, le_model = [], le_usage = None\<rparr>"

definition handlePromote ::
  "handler_config \<Rightarrow> call_env \<Rightarrow> bytes \<Rightarrow> handler_state \<Rightarrow> response \<times> handler_state" where
  "handlePromote cfg env b s =
     (if isDraining s then (draining_response, s)
      else case dec_card env b of
        None \<Rightarrow> (invalid_json, s)
      | Some p \<Rightarrow>
          (case ValidatePayload (url_parse env) (PPromote (Ptr (Some p))) of
             Some e \<Rightarrow> (writeValidationError e, s)
           | None \<Rightarrow>
               if \<not> Has (cp_project p) (cp_card p) (h_tracker s)
               then (writeError 404 CodeNotFound MsgNoContainerTracked, s)
               else if \<not> has_cmClient cfg
               then (writeError 500 CodeInternal ''autonomous verification not configured'', s)
               else case verify_autonomous env (cp_project p) (cp_card p) of
                 None \<Rightarrow> (writeUpstreamUnavailable, s)
               | Some False \<Rightarrow>
                   (writeError 403 CodeForbidden ''card autonomous flag is not set on contextmatrix'', s)
               | Some True \<Rightarrow>
                   (case WriteStdin (cp_project p) (cp_card p) (BuildUserMessage autonomousContent) (write_error env) (h_tracker s) of
                      (Some e, t) \<Rightarrow> (stdin_error e, s\<lparr>h_tracker := t\<rparr>)
                    | (None, t) \<Rightarrow>
                        let s1 = publish_opt (system_entry p ''promoted to autonomous mode'') (s\<lparr>h_tracker := t\<rparr>)
                        in (writeSuccess 202 [],
                            s1\<lparr>h_tracker := snd (CloseStdin (cp_project p) (cp_card p) (close_error env) (h_tracker s1))\<rparr>))))"

definition handleEndSession ::
  "call_env \<Rightarrow> bytes \<Rightarrow> handler_state \<Rightarrow> response \<times> handler_state" where
  "handleEndSession env b s =
     (if isDraining s then (draining_response, s)
      else case dec_card env b of
        None \<Rightarrow> (invalid_json, s)
      | Some p \<Rightarrow>
          (case ValidatePayload (url_parse env) (PEndSession (Ptr (Some p))) of
             Some e \<Rightarrow> (writeValidationError e, s)
           | None \<Rightarrow>
               if \<not> Has (cp_project p) (cp_card p) (h_tracker s)
               then (writeError 404 CodeNotFound MsgNoContainerTracked, s)
               else case CloseStdin (cp_project p) (cp_card p) (close_error env) (h_tracker s) of
                 (Some e, t) \<Rightarrow> (stdin_error e, s\<lparr>h_tracker := t\<rparr>)
               | (None, t) \<Rightarrow>
                   (writeSuccess 202 [],
                    publish_opt (system_entry p ''session ended (stdin closed)'') (s\<lparr>h_tracker := t\<rparr>))))"

end
