(* ===== verification/Chat_Handler.thy ===== *)
theory Chat_Handler
  imports Handler
begin

text \<open>
  The chat endpoints of \<open>internal/webhook/chat.go\<close> and \<open>chat_priming.go\<close>, with the manager operations
  they rely on for the registry (\<open>AttachChatStdin\<close>). A priming write
  that never completes makes \<open>/chat/start\<close> hang (theory \<open>Priming\<close> shows why): its response is \<open>None\<close>, and the
  state is the one it left.
\<close>

section \<open>Environment\<close>

text \<open>
  \<open>during_start\<close> is what other requests do to the registry while Docker starts the container. A failed
  \<open>Stop\<close> is only logged and counted, so the answer of \<open>Stop\<close> is not part of the environment.
\<close>

record chat_env = call_env +
  during_start :: "tracker \<Rightarrow> tracker"
  start_chat :: "chat_start_payload \<Rightarrow> string option"
  worker_image :: string
  stream_cancel :: callback
  attach_conn :: "(writer \<times> callback) option"
  write_stalls :: "string \<Rightarrow> bool"

definition Stop_container :: "string \<Rightarrow> handler_state \<Rightarrow> handler_state" where
  "Stop_container cid s = call (CallStop cid) s"

definition AttachChatStdin ::
  "(writer \<times> callback) option \<Rightarrow> string \<Rightarrow> string \<Rightarrow> handler_state \<Rightarrow> bool \<times> handler_state" where
  "AttachChatStdin conn session cid s =
     (let s1 = call (CallAttachChatStdin session cid) s in
      case conn of
        None \<Rightarrow> (False, s1)
      | Some (w, close) \<Rightarrow> (True, s1\<lparr>h_tracker := SetStdinChat session (Some w) (Some close) (h_tracker s1)\<rparr>))"

section \<open>Priming\<close>

definition LF :: string where "LF = [CHR 0x0A]"

definition lines_text :: "string list \<Rightarrow> string" where
  "lines_text ls = concat (map (\<lambda>l. l @ LF) ls)"

definition em_dash :: string where "em_dash = [CHR 0xE2, CHR 0x80, CHR 0x94]"
definition dots :: string where "dots = [CHR 0xE2, CHR 0x80, CHR 0xA6]"
definition bquote :: string where "bquote = [CHR 0x60]"

text \<open>\<open>%q\<close> of a session id that passed validation, which needs no escapes.\<close>

definition quote_ident :: "string \<Rightarrow> string" where
  "quote_ident v = QUOTE # v @ [QUOTE]"

definition buildChatRehydrationPriming :: "string \<Rightarrow> string" where
  "buildChatRehydrationPriming sessionID =
     lines_text
      [''You are resuming chat session '' @ sessionID @ '' in a FRESH container. The'',
       ''prior conversation is in /run/cm-chat/resume.jsonl (one JSON object per line,'',
       ''role + content, chronological). Metadata: /run/cm-chat/resume.meta.json '' @ em_dash @ '' if'',
       quoted ''clipped'' @ '':true, older turns were dropped to fit the context budget; only the'',
       ''first user turn and the last 20 turns are guaranteed present.'',
       [],
       ''CRITICAL CONTEXT: this is a brand-new container. Everything the prior agent'',
       ''created on disk (cloned repos, scratch files, branch checkouts) is GONE '' @ em_dash,
       ''the workspace at /home/user/workspace is empty unless this entrypoint cloned'',
       ''something automatically. Do NOT assume any prior workspace state persists.'',
       ''Always verify disk state with a command before deciding whether to act.'',
       [],
       ''Before greeting the user, do these things in order:'',
       [],
       ''1. Read /run/cm-chat/resume.jsonl in full. Also read /run/cm-chat/resume.meta.json.'',
       [],
       ''2. Run '' @ bquote @ ''ls -la /home/user/workspace/'' @ bquote @ '' to see what is ACTUALLY on disk right now.'',
       ''   Use the result, not the transcript, as the source of truth for workspace'',
       ''   state.'',
       [],
       ''3. Re-establish workspace state required to continue. For every '' @ quoted ''tool_call'',
       ''   entry in the transcript whose content is a '' @ quoted ''git clone <URL> <PATH>'',
       ''   command (typically run by Bash):'',
       ''   - If the target path is NOT on disk (per step 2), re-run the clone now.'',
       ''   - If the target path IS on disk, skip the clone.'',
       ''   Also restore any working directory and checked-out branches implied by'',
       ''   the transcript.'',
       [],
       ''4. Do NOT replay destructive or externally-visible actions (deploys, API'',
       ''   writes, package publishes, mutations to remote services). If unsure'',
       ''   whether something is safe, skip it and say so.'',
       [],
       ''5. Keep restoration narration MINIMAL '' @ em_dash @ '' the operator'' @ [CHR 0x27] @ ''s UI will collapse'',
       ''   your restoration tool_calls into a single block. Do not write a long'',
       ''   prose recap of every step.'',
       [],
       ''6. When restoration is complete, call the MCP tool'',
       ''       mcp__contextmatrix__chat_rehydration_complete(session_id='' @ quote_ident sessionID @ '', summary='' @ quoted ''...'' @ '')'',
       ''   passing a one-paragraph summary of where you and the operator left off'',
       ''   (e.g. '' @ [QUOTE] @ ''Picking up where we left off '' @ em_dash @ '' we were debugging the OAuth flow'',
       ''   in foo. I have re-cloned foo and bar.'' @ [QUOTE] @ ''). This call is MANDATORY: it'',
       ''   ends the '' @ [QUOTE] @ ''Restoring workspace'' @ dots @ [QUOTE] @ '' banner in the UI and your summary'',
       ''   becomes the first visible message of the resumed chat. The tool is in'',
       ''   the allowlist; do NOT fall back to plain text if you are unsure '' @ em_dash @ '' call'',
       ''   the tool.'',
       [],
       ''If the resume file is missing or unreadable, say so and start fresh''] @
     ''(no tool call required in that case).''"

text \<open>
  The bounded write: \<open>WriteStdinChat\<close> runs on a worker; when the write does not return, the timeout
  branch calls \<open>CloseStdinChat\<close>, which waits for the stdin lock the worker holds. A failed write is
  only logged.
\<close>

definition write_blocks :: "chat_env \<Rightarrow> string \<Rightarrow> string \<Rightarrow> tracker \<Rightarrow> bool" where
  "write_blocks env kind session t \<longleftrightarrow> write_stalls env kind \<and>
     (case capture (chatKey session) t of
        Inl e \<Rightarrow> False
      | Inr p \<Rightarrow> ss_stdin (stdins t ! p) \<noteq> None)"

definition writeChatPrimingEnvelope ::
  "chat_env \<Rightarrow> string \<Rightarrow> string \<Rightarrow> string \<Rightarrow> handler_state \<Rightarrow> bool \<times> handler_state" where
  "writeChatPrimingEnvelope env session kind content s =
     (if write_blocks env kind session (h_tracker s) then (False, s)
      else (True, s\<lparr>h_tracker :=
        snd (WriteStdinChat session (BuildUserMessage content) (write_error env) (h_tracker s))\<rparr>))"

text \<open>The primer, then the rehydration instructions; false when a write stalls.\<close>

definition prime_chat :: "chat_env \<Rightarrow> chat_start_payload \<Rightarrow> handler_state \<Rightarrow> bool \<times> handler_state" where
  "prime_chat env p s =
     (case (if cs_primer p \<noteq> [] then writeChatPrimingEnvelope env (cs_session p) ''primer'' (cs_primer p) s
            else (True, s)) of
        (False, s') \<Rightarrow> (False, s')
      | (True, s') \<Rightarrow>
          if cs_resume p \<noteq> None
          then writeChatPrimingEnvelope env (cs_session p) ''rehydration priming''
                 (buildChatRehydrationPriming (cs_session p)) s'
          else (True, s'))"

section \<open>The two endpoints\<close>

definition chat_info :: "chat_env \<Rightarrow> string \<Rightarrow> chat_start_payload \<Rightarrow> container_info" where
  "chat_info env cid p = \<lparr>ContainerID = cid, CardID = [], Project = cs_project p, SessionID = cs_session p,
     Image = worker_image env, StartedAt = now env, CancelFn = Some (stream_cancel env), reason = [], stdin_ptr = None\<rparr>"

text \<open>The part after the registration succeeded.\<close>

definition chat_registered ::
  "chat_env \<Rightarrow> chat_start_payload \<Rightarrow> string \<Rightarrow> handler_state \<Rightarrow> response option \<times> handler_state" where
  "chat_registered env p cid s =
     (let s1 = call (CallWaitAndCleanupChat (cs_session p) cid (cs_project p)) s in
      case AttachChatStdin (attach_conn env) (cs_session p) cid s1 of
        (False, s2) \<Rightarrow>
          let s3 = Stop_container cid (s2\<lparr>h_tracker := RemoveChat (cs_session p) (h_tracker s2)\<rparr>)
          in (Some (writeError 502 CodeUpstreamFailure ''attach stdin failed''), s3)
      | (True, s2) \<Rightarrow>
          (case prime_chat env p s2 of
             (False, s3) \<Rightarrow> (None, s3)
           | (True, s3) \<Rightarrow>
               (Some (respond 202 (BChatStarted cid)),
                call (CallStreamChatLogs (cs_session p) cid (cs_project p)) s3)))"

definition handleChatStart ::
  "handler_config \<Rightarrow> chat_env \<Rightarrow> bytes \<Rightarrow> handler_state \<Rightarrow> response option \<times> handler_state" where
  "handleChatStart cfg env b s =
     (if isDraining s then (Some draining_response, s)
      else case dec_chat_start env b of
        None \<Rightarrow> (Some invalid_json, s)
      | Some p \<Rightarrow>
          (case ValidatePayload (url_parse env) (PChatStart (Ptr (Some p))) of
             Some e \<Rightarrow> (Some (writeValidationError e), s)
           | None \<Rightarrow>
               if HasChat (cs_session p) (h_tracker s)
               then (Some (writeError 409 CodeConflict ''session already has a container''), s)
               else if int (Count (h_tracker s)) \<ge> maxConcurrent cfg
               then (Some (writeError 429 CodeLimitReached ''concurrency limit reached''), s)
               else
                 let s1 = call (CallStartChat p) (call CallMintChatGitToken s);
                     s2 = s1\<lparr>h_tracker := during_start env (h_tracker s1)\<rparr>
                 in case start_chat env p of
                   None \<Rightarrow> (Some (writeError 502 CodeUpstreamFailure ''start failed''), s2)
                 | Some cid \<Rightarrow>
                     (case AddChatIfUnderLimit (chat_info env cid p) (maxConcurrent cfg) (h_tracker s2) of
                        (Some e, t) \<Rightarrow>
                          let s3 = call (CallDeleteChatCleanup cid) (Stop_container cid
                                     (s2\<lparr>h_tracker := emit [Cancelled (stream_cancel env)] t\<rparr>))
                          in (Some (if e = ErrLimitReached
                                   then writeError 429 CodeLimitReached ''concurrency limit reached''
                                   else writeError 409 CodeConflict ''track failed''), s3)
                      | (None, t) \<Rightarrow> chat_registered env p cid (s2\<lparr>h_tracker := t\<rparr>))))"

definition handleChatEnd ::
  "chat_env \<Rightarrow> bytes \<Rightarrow> handler_state \<Rightarrow> response \<times> handler_state" where
  "handleChatEnd env b s =
     (if isDraining s then (draining_response, s)
      else case dec_chat_end env b of
        None \<Rightarrow> (invalid_json, s)
      | Some session \<Rightarrow>
          (case ValidatePayload (url_parse env) (PChatEnd (Ptr (Some session))) of
             Some e \<Rightarrow> (writeValidationError e, s)
           | None \<Rightarrow>
               (case SnapshotChat session (h_tracker s) of
                  None \<Rightarrow> (writeError 404 CodeNotFound MsgNoContainerTracked, s)
                | Some snap \<Rightarrow>
                    (case CloseStdinChat session (close_error env) (h_tracker s) of
                       (r, t) \<Rightarrow>
                         if r = Some ErrNotTracked
                         then (writeError 404 CodeNotFound MsgNoContainerTracked, s\<lparr>h_tracker := t\<rparr>)
                         else if r = None \<or> r = Some ErrNoStdinAttached \<or> r = Some ErrStdinClosed
                         then let s1 = Stop_container (sn_ContainerID snap) (s\<lparr>h_tracker := t\<rparr>)
                              in (writeSuccess 202 [], s1\<lparr>h_tracker := RemoveChat session (h_tracker s1)\<rparr>)
                         else (writeError 500 CodeInternal ''internal error'', s\<lparr>h_tracker := t\<rparr>)))))"

end
