(* ===== verification/Server.thy ===== *)
theory Server
  imports Chat_Handler
begin

text \<open>
  The route table of \<open>Register\<close> in \<open>internal/webhook/handler.go\<close>: which method and path reaches which
  handler, and which of them pass through \<open>hmacAuth\<close>. \<open>serve\<close> is one request, \<open>serve_all\<close> a sequence of
  requests. A hanging request (a stalled priming write) has no response.
\<close>

datatype route =
    RTrigger | RKill | RStopAll | RMessage | RPromote | REndSession | RChatStart | RChatEnd
  | RLogs | RContainers | RHealth | RReadyz

definition route_of :: "string \<Rightarrow> string \<Rightarrow> route option" where
  "route_of meth path =
     (if meth = ''POST'' then map_of
        [(''/trigger'', RTrigger), (''/kill'', RKill), (''/stop-all'', RStopAll), (''/message'', RMessage),
         (''/promote'', RPromote), (''/end-session'', REndSession), (''/chat/start'', RChatStart),
         (''/chat/end'', RChatEnd)] path
      else if meth = ''GET'' \<or> meth = ''HEAD'' then map_of
        [(''/logs'', RLogs), (''/containers'', RContainers), (''/health'', RHealth), (''/readyz'', RReadyz)] path
      else None)"

definition route_authed :: "route \<Rightarrow> bool" where
  "route_authed r \<longleftrightarrow> r \<noteq> RHealth \<and> r \<noteq> RReadyz"

record server_env = chat_env +
  list_managed :: "managed_container list option"
  log_query :: "string \<Rightarrow> string \<times> string"
  mux_answer :: "string \<Rightarrow> string \<Rightarrow> response"

text \<open>The synchronous part of \<open>/logs\<close>: a stream is opened with its subscription, or refused.\<close>

definition open_logs :: "string \<times> string \<Rightarrow> handler_state \<Rightarrow> response \<times> handler_state" where
  "open_logs q s = (case q of (project, session) \<Rightarrow>
     if project \<noteq> [] \<and> session \<noteq> []
     then (writeError 400 CodeInvalidField ''project and session_id are mutually exclusive'', s)
     else case h_bcast s of
       None \<Rightarrow> (writeError 500 CodeInternal ''log broadcaster not configured'', s)
     | Some b \<Rightarrow>
         (case (if session \<noteq> [] then SubscribeWithSessionID session b else Subscribe project b) of
            (i, b') \<Rightarrow> (respond 200 (BStream i), s\<lparr>h_bcast := Some b'\<rparr>)))"

definition answered :: "response \<times> handler_state \<Rightarrow> response option \<times> handler_state" where
  "answered r = (Some (fst r), snd r)"

definition handle_route ::
  "handler_config \<Rightarrow> server_env \<Rightarrow> route \<Rightarrow> string \<Rightarrow> bytes \<Rightarrow> handler_state \<Rightarrow> response option \<times> handler_state" where
  "handle_route cfg env r uri b s = (case r of
       RTrigger \<Rightarrow> answered (handleTrigger cfg (call_env.truncate env) b s)
     | RKill \<Rightarrow> answered (handleKill (call_env.truncate env) b s)
     | RStopAll \<Rightarrow> answered (handleStopAll (call_env.truncate env) b s)
     | RMessage \<Rightarrow> answered (handleMessage (call_env.truncate env) b s)
     | RPromote \<Rightarrow> answered (handlePromote cfg (call_env.truncate env) b s)
     | REndSession \<Rightarrow> answered (handleEndSession (call_env.truncate env) b s)
     | RChatStart \<Rightarrow> handleChatStart cfg (chat_env.truncate env) b s
     | RChatEnd \<Rightarrow> answered (handleChatEnd (chat_env.truncate env) b s)
     | RLogs \<Rightarrow> answered (open_logs (log_query env uri) s)
     | RContainers \<Rightarrow> answered (handleListContainers (list_managed env) s)
     | RHealth \<Rightarrow> answered (handleHealth cfg s, s)
     | RReadyz \<Rightarrow> (Some (handleReadyz s), s))"

definition rq_path :: "request \<Rightarrow> string" where
  "rq_path rq = takeWhile (\<lambda>c. c \<noteq> CHR ''?'') (rq_uri rq)"

text \<open>One request; the mux answers a path outside the table.\<close>

definition serve ::
  "handler_config \<Rightarrow> verifier \<Rightarrow> server_env \<Rightarrow> request \<Rightarrow> handler_state \<Rightarrow> response option \<times> handler_state" where
  "serve cfg verify env rq s =
     (case route_of (rq_method rq) (rq_path rq) of
        None \<Rightarrow> (Some (mux_answer env (rq_method rq) (rq_path rq)), s)
      | Some r \<Rightarrow>
          if route_authed r then hmacAuth cfg verify (now env) (handle_route cfg env r (rq_uri rq)) rq s
          else handle_route cfg env r (rq_uri rq) [] s)"

text \<open>The registry operations of the manager's goroutines, which run between requests.\<close>

datatype manager_op =
    MUpdateContainerID string string string
  | MSetStdin string string "writer option" "callback option"
  | MMarkStdinClosed string string
  | MWriteStdin string string bytes
  | MCancel string string
  | MCancelWithReason string string string
  | MRemove string string
  | MCloseStdinChat string
  | MRemoveChat string

fun run_manager_op :: "manager_op \<Rightarrow> tracker \<Rightarrow> tracker" where
  "run_manager_op (MUpdateContainerID pr ca cid) t = UpdateContainerID pr ca cid t"
| "run_manager_op (MSetStdin pr ca w f) t = SetStdin pr ca w f t"
| "run_manager_op (MMarkStdinClosed pr ca) t = snd (MarkStdinClosed pr ca t)"
| "run_manager_op (MWriteStdin pr ca b) t = snd (WriteStdin pr ca b None t)"
| "run_manager_op (MCancel pr ca) t = snd (tracker_Cancel pr ca t)"
| "run_manager_op (MCancelWithReason pr ca why) t = snd (CancelWithReason pr ca why t)"
| "run_manager_op (MRemove pr ca) t = tracker_Remove pr ca t"
| "run_manager_op (MCloseStdinChat session) t = snd (CloseStdinChat session None t)"
| "run_manager_op (MRemoveChat session) t = RemoveChat session t"

text \<open>
  What happens to the server: requests, the sweeps of the two caches' background loops, and the
  operations of the manager.
\<close>

datatype server_event =
    Request server_env request
  | Manager manager_op
  | ReplaySweep time
  | DedupSweep time

definition serve_event ::
  "handler_config \<Rightarrow> verifier \<Rightarrow> server_event \<Rightarrow> handler_state \<Rightarrow> handler_state" where
  "serve_event cfg verify ev s = (case ev of
       Request env rq \<Rightarrow> snd (serve cfg verify env rq s)
     | Manager op \<Rightarrow> s\<lparr>h_tracker := run_manager_op op (h_tracker s)\<rparr>
     | ReplaySweep t \<Rightarrow> s\<lparr>h_replay := map_option (replay_sweep t) (h_replay s)\<rparr>
     | DedupSweep t \<Rightarrow> s\<lparr>h_dedup := map_option (dedup_sweep t) (h_dedup s)\<rparr>)"

definition serve_all ::
  "handler_config \<Rightarrow> verifier \<Rightarrow> server_event list \<Rightarrow> handler_state \<Rightarrow> handler_state" where
  "serve_all cfg verify evs s = fold (serve_event cfg verify) evs s"

text \<open>Whether an event happens before time \<open>t\<close>; the manager's operations carry no time.\<close>

fun event_before :: "time \<Rightarrow> server_event \<Rightarrow> bool" where
  "event_before t (Request env rq) = (now env < t)"
| "event_before t (Manager op) = True"
| "event_before t (ReplaySweep u) = (u < t)"
| "event_before t (DedupSweep u) = (u < t)"

fun is_request :: "server_event \<Rightarrow> bool" where
  "is_request (Request env rq) = True"
| "is_request _ = False"

end
