(* ===== verification/Handler_Props.thy ===== *)
theory Handler_Props
  imports Server
begin

text \<open>
  Properties of the authentication and of the endpoints: which request reaches a handler, what a
  retried message does, when a container's stdin is written and whose, what a draining runner
  refuses, and how \<open>/stop-all\<close> accounts for its targets.
\<close>

section \<open>Frames\<close>

named_theorems handler_frame

lemma call_fields [handler_frame]:
  "h_tracker (call c s) = h_tracker s" "h_replay (call c s) = h_replay s" "h_dedup (call c s) = h_dedup s"
  "h_bcast (call c s) = h_bcast s" "h_health (call c s) = h_health s" "h_calls (call c s) = h_calls s @ [c]"
  by (simp_all add: call_def)

lemma publish_opt_fields [handler_frame]:
  "h_tracker (publish_opt e s) = h_tracker s" "h_replay (publish_opt e s) = h_replay s"
  "h_dedup (publish_opt e s) = h_dedup s" "h_health (publish_opt e s) = h_health s"
  "h_calls (publish_opt e s) = h_calls s"
  by (simp_all add: publish_opt_def)

lemma ack_fields [handler_frame]:
  "h_tracker (snd (get_ack t p s)) = h_tracker s" "h_replay (snd (get_ack t p s)) = h_replay s"
  "h_bcast (snd (get_ack t p s)) = h_bcast s" "h_health (snd (get_ack t p s)) = h_health s"
  "h_calls (snd (get_ack t p s)) = h_calls s"
  "h_tracker (put_ack t p a s) = h_tracker s" "h_replay (put_ack t p a s) = h_replay s"
  "h_bcast (put_ack t p a s) = h_bcast s" "h_health (put_ack t p a s) = h_health s"
  "h_calls (put_ack t p a s) = h_calls s"
  by (simp_all add: get_ack_def put_ack_def split: option.splits prod.splits)

lemma stop_one_fields:
  "h_replay (snd (snd (snd (stop_one env i acc)))) = h_replay (snd (snd (snd acc)))"
  "h_tracker (snd (snd (snd (stop_one env i acc)))) = h_tracker (snd (snd (snd acc)))"
  "h_health (snd (snd (snd (stop_one env i acc)))) = h_health (snd (snd (snd acc)))"
  "h_dedup (snd (snd (snd (stop_one env i acc)))) = h_dedup (snd (snd (snd acc)))"
  by (cases acc; simp add: stop_one_def Let_def handler_frame)+

lemma fold_stop_fields:
  "h_replay (snd (snd (snd (fold (stop_one env) is acc)))) = h_replay (snd (snd (snd acc)))"
  "h_tracker (snd (snd (snd (fold (stop_one env) is acc)))) = h_tracker (snd (snd (snd acc)))"
  "h_health (snd (snd (snd (fold (stop_one env) is acc)))) = h_health (snd (snd (snd acc)))"
  "h_dedup (snd (snd (snd (fold (stop_one env) is acc)))) = h_dedup (snd (snd (snd acc)))"
  by (induction "is" arbitrary: acc) (simp_all add: stop_one_fields)

text \<open>The outcomes of the reservation in \<open>/trigger\<close>, once the request is past the checks.\<close>

lemma trigger_valid:
  assumes "\<not> isDraining s" and "dec_trigger env b = Some p"
    and "ValidatePayload (url_parse env) (PTrigger (Ptr (Some p))) = None"
    and "AddIfUnderLimit (card_info env b p) (maxConcurrent cfg) (h_tracker s) = (r, t)"
  shows "handleTrigger cfg env b s =
    (case r of
       None \<Rightarrow> (writeSuccess 202 ''container starting'', call (CallRun p) (s\<lparr>h_tracker := t\<rparr>))
     | Some e \<Rightarrow>
         (if e = ErrLimitReached then writeError 429 CodeLimitReached ''concurrency limit reached''
          else if e = ErrAlreadyTracked then writeError 409 CodeConflict ''conflicting container state''
          else writeError 500 CodeInternal ''internal error'', s\<lparr>h_tracker := cancel_ctx env t\<rparr>))"
proof (cases r)
  case (Some e)
  then show ?thesis using assms by (cases e) (simp_all add: handleTrigger_def)
qed (use assms in \<open>simp add: handleTrigger_def\<close>)

lemma trigger_state:
  obtains "snd (handleTrigger cfg env b s) = s"
  | t where "snd (handleTrigger cfg env b s) = s\<lparr>h_tracker := t\<rparr>"
  | p t where "snd (handleTrigger cfg env b s) = call (CallRun p) (s\<lparr>h_tracker := t\<rparr>)"
proof (cases "isDraining s \<or> dec_trigger env b = None")
  case True
  then show ?thesis using that(1) by (auto simp: handleTrigger_def)
next
  case False
  then obtain p where p: "\<not> isDraining s" "dec_trigger env b = Some p" by auto
  obtain r t where rt: "AddIfUnderLimit (card_info env b p) (maxConcurrent cfg) (h_tracker s) = (r, t)"
    by fastforce
  show ?thesis
  proof (cases "ValidatePayload (url_parse env) (PTrigger (Ptr (Some p)))")
    case None
    show ?thesis
      using trigger_valid[OF p None rt] that(2,3) by (cases r) auto
  next
    case (Some e)
    then show ?thesis using that(1) p by (simp add: handleTrigger_def)
  qed
qed

lemma trigger_frame [handler_frame]:
  "h_replay (snd (handleTrigger cfg env b s)) = h_replay s"
  "h_health (snd (handleTrigger cfg env b s)) = h_health s"
  "h_dedup (snd (handleTrigger cfg env b s)) = h_dedup s"
  by (cases rule: trigger_state[of cfg env b s]; simp add: handler_frame)+

lemma kill_frame [handler_frame]:
  "h_replay (snd (handleKill env b s)) = h_replay s"
  "h_tracker (snd (handleKill env b s)) = h_tracker s"
  "h_health (snd (handleKill env b s)) = h_health s"
  "h_dedup (snd (handleKill env b s)) = h_dedup s"
  unfolding handleKill_def Let_def by (simp split: option.split add: handler_frame)+

lemma stop_all_frame [handler_frame]:
  "h_replay (snd (handleStopAll env b s)) = h_replay s"
  "h_tracker (snd (handleStopAll env b s)) = h_tracker s"
  "h_health (snd (handleStopAll env b s)) = h_health s"
  "h_dedup (snd (handleStopAll env b s)) = h_dedup s"
proof -
  have x: "snd (case fold (stop_one env) ts ([], 0, 0, s) of (results, stopped, failed, s') \<Rightarrow>
        (respond (c failed) (B results stopped failed), s')) = snd (snd (snd (fold (stop_one env) ts ([], 0, 0, s))))"
    for ts c B
    by (simp split: prod.split)
  show "h_replay (snd (handleStopAll env b s)) = h_replay s"
    "h_tracker (snd (handleStopAll env b s)) = h_tracker s"
    "h_health (snd (handleStopAll env b s)) = h_health s"
    "h_dedup (snd (handleStopAll env b s)) = h_dedup s"
    unfolding handleStopAll_def Let_def by (simp split: option.split add: x fold_stop_fields)+
qed

lemma message_frame [handler_frame]:
  "h_replay (snd (handleMessage env b s)) = h_replay s"
  "h_health (snd (handleMessage env b s)) = h_health s"
  "h_calls (snd (handleMessage env b s)) = h_calls s"
proof -
  have x: "h_replay s1 = h_replay s" "h_health s1 = h_health s" "h_calls s1 = h_calls s"
    if "get_ack t p s = (r, s1)" for t p r s1
    using ack_fields(1-5)[of t p s] that by simp_all
  show "h_replay (snd (handleMessage env b s)) = h_replay s"
    "h_health (snd (handleMessage env b s)) = h_health s"
    "h_calls (snd (handleMessage env b s)) = h_calls s"
    unfolding handleMessage_def Let_def
    by (simp split: option.split prod.split add: handler_frame x)+
qed

lemma promote_frame [handler_frame]:
  "h_replay (snd (handlePromote cfg env b s)) = h_replay s"
  "h_health (snd (handlePromote cfg env b s)) = h_health s"
  "h_dedup (snd (handlePromote cfg env b s)) = h_dedup s"
  "h_calls (snd (handlePromote cfg env b s)) = h_calls s"
  unfolding handlePromote_def Let_def
  by (simp split: option.split prod.split bool.split add: handler_frame)+

lemma end_session_frame [handler_frame]:
  "h_replay (snd (handleEndSession env b s)) = h_replay s"
  "h_health (snd (handleEndSession env b s)) = h_health s"
  "h_dedup (snd (handleEndSession env b s)) = h_dedup s"
  "h_calls (snd (handleEndSession env b s)) = h_calls s"
  unfolding handleEndSession_def Let_def
  by (simp split: option.split prod.split add: handler_frame)+

lemma priming_frame [handler_frame]:
  "h_replay (snd (prime_chat env p s)) = h_replay s"
  "h_health (snd (prime_chat env p s)) = h_health s"
  "h_dedup (snd (prime_chat env p s)) = h_dedup s"
  "h_calls (snd (prime_chat env p s)) = h_calls s"
  unfolding prime_chat_def writeChatPrimingEnvelope_def by (simp split: prod.split bool.split)+

lemma chat_registered_frame [handler_frame]:
  "h_replay (snd (chat_registered env p cid s)) = h_replay s"
  "h_health (snd (chat_registered env p cid s)) = h_health s"
  "h_dedup (snd (chat_registered env p cid s)) = h_dedup s"
proof -
  have x: "h_replay s3 = h_replay s2" "h_health s3 = h_health s2" "h_dedup s3 = h_dedup s2"
    if "prime_chat env p s2 = (r, s3)" for s2 r s3
    using priming_frame(1-3)[of env p s2] that by simp_all
  show "h_replay (snd (chat_registered env p cid s)) = h_replay s"
    "h_health (snd (chat_registered env p cid s)) = h_health s"
    "h_dedup (snd (chat_registered env p cid s)) = h_dedup s"
    unfolding chat_registered_def AttachChatStdin_def Stop_container_def Let_def
    by (cases "attach_conn env"; simp split: prod.split bool.split add: handler_frame; simp add: x handler_frame)+
qed

lemma chat_frame [handler_frame]:
  "h_replay (snd (handleChatStart cfg env b s)) = h_replay s"
  "h_health (snd (handleChatStart cfg env b s)) = h_health s"
  "h_dedup (snd (handleChatStart cfg env b s)) = h_dedup s"
  "h_replay (snd (handleChatEnd env b s)) = h_replay s"
  "h_health (snd (handleChatEnd env b s)) = h_health s"
  "h_dedup (snd (handleChatEnd env b s)) = h_dedup s"
  unfolding handleChatStart_def handleChatEnd_def Stop_container_def Let_def
  by (simp split: option.split prod.split add: handler_frame)+

lemma handle_route_frame [handler_frame]:
  "h_replay (snd (handle_route cfg env r uri b s)) = h_replay s"
  "h_health (snd (handle_route cfg env r uri b s)) = h_health s"
  by (cases r; simp add: handle_route_def answered_def handler_frame open_logs_def handleListContainers_def
        Let_def split: prod.split option.split)+

end
