(* ===== verification/Server_Example.thy ===== *)
theory Server_Example
  imports Server
begin

text \<open>
  A concrete configuration, environment and requests on which the properties of the server are
  instantiated. The verifier accepts a timestamp (its length, for brevity) up to three units ahead of
  the clock and one skew behind it.
\<close>

definition example_cfg :: handler_config where
  "example_cfg = \<lparr>apiKey = ''key'', maxConcurrent = 2, replaySkew = 5, defaultMaxClockSkew = 5, has_cmClient = True\<rparr>"

definition example_verify :: verifier where
  "example_verify key meth uri sig ts content skew t \<longleftrightarrow>
     sig = ''5a'' \<and> int (length ts) - t \<le> 3 \<and> t - int (length ts) \<le> skew"

definition example_card :: card_payload where
  "example_card = \<lparr>cp_card = ''ALPHA-001'', cp_project = ''alpha''\<rparr>"

definition example_message :: message_payload where
  "example_message = \<lparr>mp_session = [], mp_card = ''ALPHA-001'', mp_project = ''alpha'', mp_content = ''hi'', mp_message_id = ''m1''\<rparr>"

definition example_chat_payload :: chat_start_payload where
  "example_chat_payload = \<lparr>cs_session = ''s1'', cs_project = ''alpha'', cs_repo_url = [], cs_model = [],
     cs_mcp_api_key = [], cs_resume = None, cs_primer = []\<rparr>"

definition example_env :: "time \<Rightarrow> server_env" where
  "example_env t = \<lparr>now = t, dec_trigger = (\<lambda>b. Some example_trigger), dec_card = (\<lambda>b. Some example_card),
     dec_stop_all = (\<lambda>b. Some []), dec_message = (\<lambda>b. Some example_message),
     dec_chat_start = (\<lambda>b. Some example_chat_payload), dec_chat_end = (\<lambda>b. Some ''s1''),
     url_parse = example_parse, ack_json = (\<lambda>i. i), cancel_of = 90, runner_image = (\<lambda>b. []),
     write_error = None, close_error = None, verify_autonomous = (\<lambda>p c. Some True), kill_ok = (\<lambda>p c. True),
     kill_chat_ok = (\<lambda>c. False), force_remove = (\<lambda>p c. Some 1),
     during_start = (\<lambda>t. t), start_chat = (\<lambda>p. Some ''c1''), worker_image = ''w'', stream_cancel = 91,
     attach_conn = Some (7, 8), write_stalls = (\<lambda>k. False),
     list_managed = Some [], log_query = (\<lambda>u. ([], [])), mux_answer = (\<lambda>m p. writeUnauthorized)\<rparr>"

definition example_request :: "string \<Rightarrow> request" where
  "example_request path = \<lparr>rq_method = ''POST'', rq_uri = path, rq_content_length = 2, rq_signature = ''sha256=5a'',
     rq_timestamp = ''xxx'', rq_body = Some ''{}''\<rparr>"

definition example_server :: handler_state where
  "example_server = \<lparr>h_tracker = tracker_New, h_replay = Some (NewReplayCache 5 10),
     h_dedup = Some (NewMessageDedupCache 10 10), h_bcast = Some NewBroadcaster,
     h_health = Some \<lparr>PreflightPassed = True, Draining = False\<rparr>, h_calls = []\<rparr>"

text \<open>The server after one accepted \<open>/trigger\<close> and the attachment of its stdin.\<close>

definition example_events :: "server_event list" where
  "example_events = [Request (example_env 0) (example_request ''/trigger''),
     Manager (MSetStdin ''alpha'' ''ALPHA-001'' (Some 7) (Some 8))]"

definition example_served :: handler_state where
  "example_served = serve_all example_cfg example_verify example_events example_server"

end
