(* ===== verification/Auth_Props.thy ===== *)
theory Auth_Props
  imports Handler_Props Server_Example
begin

text \<open>
  What the authentication in front of the handlers guarantees: nothing happens without a valid
  signature, and a signed request takes effect at most once while the replay cache remembers it.
\<close>

section \<open>The request filter\<close>

text \<open>The checks of \<open>hmacAuth\<close> before the replay cache.\<close>

definition authentic :: "handler_config \<Rightarrow> verifier \<Rightarrow> time \<Rightarrow> request \<Rightarrow> bytes \<Rightarrow> bool" where
  "authentic cfg verify t rq content \<longleftrightarrow>
     rq_content_length rq \<le> int maxRequestBodyBytes \<and> rq_signature rq \<noteq> [] \<and> rq_timestamp rq \<noteq> [] \<and>
     (\<exists>full. rq_body rq = Some full \<and> content = take maxRequestBodyBytes full) \<and>
     verify (apiKey cfg) (rq_method rq) (rq_uri rq) (trim_sha (rq_signature rq)) (rq_timestamp rq) content
       (effective_skew cfg) t"

lemma authentic_unique: "authentic cfg verify t rq c \<Longrightarrow> authentic cfg verify t rq d \<Longrightarrow> c = d"
  by (auto simp: authentic_def)

lemma hmacAuth_reject:
  assumes "\<nexists>content. authentic cfg verify t rq content"
  shows "hmacAuth cfg verify t k rq s =
    (Some (if rq_content_length rq > int maxRequestBodyBytes
           then writeError 413 CodeTooLarge ''request body too large'' else writeUnauthorized), s)"
  using assms by (auto simp: hmacAuth_def authentic_def Let_def split: option.split)

lemma hmacAuth_accept:
  assumes "authentic cfg verify t rq content"
  shows "hmacAuth cfg verify t k rq s =
    (case seen_opt t (trim_sha (rq_signature rq)) s of
       (True, s') \<Rightarrow> (Some (writeError 409 CodeDuplicate ''duplicate request''), s')
     | (False, s') \<Rightarrow> k content s')"
  using assms by (auto simp: hmacAuth_def authentic_def Let_def)

text \<open>The request gets through to the handler of a protected route.\<close>

definition admitted ::
  "handler_config \<Rightarrow> verifier \<Rightarrow> server_env \<Rightarrow> request \<Rightarrow> handler_state \<Rightarrow> bool" where
  "admitted cfg verify env rq s \<longleftrightarrow>
     (\<exists>r. route_of (rq_method rq) (rq_path rq) = Some r \<and> route_authed r) \<and>
     (\<exists>content. authentic cfg verify (now env) rq content) \<and>
     \<not> fst (seen_opt (now env) (trim_sha (rq_signature rq)) s)"

definition protected_request :: "request \<Rightarrow> bool" where
  "protected_request rq \<longleftrightarrow> (\<exists>r. route_of (rq_method rq) (rq_path rq) = Some r \<and> route_authed r)"

lemma unprotected_state:
  assumes "\<not> protected_request rq"
  shows "snd (serve cfg verify env rq s) = s"
proof (cases "route_of (rq_method rq) (rq_path rq)")
  case (Some r)
  with assms have "r = RHealth \<or> r = RReadyz"
    by (auto simp: protected_request_def route_authed_def)
  then show ?thesis using Some by (auto simp: serve_def route_authed_def handle_route_def answered_def)
qed (simp add: serve_def)

lemma seen_opt_fields:
  "h_tracker (snd (seen_opt t sig s)) = h_tracker s" "h_dedup (snd (seen_opt t sig s)) = h_dedup s"
  "h_bcast (snd (seen_opt t sig s)) = h_bcast s" "h_health (snd (seen_opt t sig s)) = h_health s"
  "h_calls (snd (seen_opt t sig s)) = h_calls s"
  "h_replay (snd (seen_opt t sig s)) = map_option (\<lambda>r. snd (Seen t sig r)) (h_replay s)"
  by (cases "h_replay s"; simp add: seen_opt_def split: prod.split)+

lemma Seen_hit_state: "fst (Seen t sig r) \<Longrightarrow> snd (Seen t sig r) = r"
  by (auto simp: Seen_def Let_def split: if_splits option.splits)

lemma seen_opt_hit: "fst (seen_opt t sig s) \<Longrightarrow> snd (seen_opt t sig s) = s"
proof (cases "h_replay s")
  case (Some r)
  assume "fst (seen_opt t sig s)"
  then have "Seen t sig r = (True, r)"
    using Some Seen_hit_state[of t sig r] by (cases "Seen t sig r") (simp add: seen_opt_def)
  then show ?thesis using Some by (simp add: seen_opt_def)
qed (simp add: seen_opt_def)

text \<open>A protected request that is not admitted is answered 401, 409 or 413 and changes nothing.\<close>

lemma not_admitted:
  assumes "protected_request rq" and "\<not> admitted cfg verify env rq s"
  shows "snd (serve cfg verify env rq s) = s"
    and "\<exists>r. fst (serve cfg verify env rq s) = Some r \<and> rs_status r \<in> {401, 409, 413}"
proof -
  obtain r where r: "route_of (rq_method rq) (rq_path rq) = Some r" "route_authed r"
    using assms(1) by (auto simp: protected_request_def)
  have e: "serve cfg verify env rq s = hmacAuth cfg verify (now env) (handle_route cfg env r (rq_uri rq)) rq s"
    using r by (simp add: serve_def)
  show "snd (serve cfg verify env rq s) = s"
    and "\<exists>r. fst (serve cfg verify env rq s) = Some r \<and> rs_status r \<in> {401, 409, 413}"
  proof (atomize (full), cases "\<exists>content. authentic cfg verify (now env) rq content")
    case True
    then obtain content where a: "authentic cfg verify (now env) rq content" by blast
    have hit: "fst (seen_opt (now env) (trim_sha (rq_signature rq)) s)"
      using assms(2) a r by (auto simp: admitted_def)
    then obtain s' where "seen_opt (now env) (trim_sha (rq_signature rq)) s = (True, s')"
      by (metis (full_types) prod.collapse)
    then show "snd (serve cfg verify env rq s) = s \<and>
        (\<exists>r. fst (serve cfg verify env rq s) = Some r \<and> rs_status r \<in> {401, 409, 413})"
      using seen_opt_hit[OF hit] by (simp add: e hmacAuth_accept[OF a] writeError_def respond_def)
  next
    case False
    then show "snd (serve cfg verify env rq s) = s \<and>
        (\<exists>r. fst (serve cfg verify env rq s) = Some r \<and> rs_status r \<in> {401, 409, 413})"
      by (simp add: e hmacAuth_reject writeUnauthorized_def writeError_def respond_def)
  qed
qed

text \<open>An admitted request reaches its handler with the signature recorded.\<close>

lemma admitted_serve:
  assumes "admitted cfg verify env rq s"
  obtains r content where "route_of (rq_method rq) (rq_path rq) = Some r" "authentic cfg verify (now env) rq content"
    "serve cfg verify env rq s =
       handle_route cfg env r (rq_uri rq) content (snd (seen_opt (now env) (trim_sha (rq_signature rq)) s))"
proof -
  obtain r content where r: "route_of (rq_method rq) (rq_path rq) = Some r" "route_authed r"
    and a: "authentic cfg verify (now env) rq content"
    and f: "\<not> fst (seen_opt (now env) (trim_sha (rq_signature rq)) s)"
    using assms by (auto simp: admitted_def)
  obtain s' where s': "seen_opt (now env) (trim_sha (rq_signature rq)) s = (False, s')"
    using f by (metis (full_types) prod.collapse)
  show thesis
    by (rule that[OF r(1) a]) (simp add: serve_def r hmacAuth_accept[OF a] s')
qed

section \<open>The replay cache seen from outside\<close>

text \<open>Every event is, for the replay cache, at most one \<open>Seen\<close> or one sweep.\<close>

lemma serve_replay:
  assumes "h_replay s = Some r"
  shows "\<exists>ops. h_replay (snd (serve cfg verify env rq s)) = Some (replay_run ops r) \<and>
    (\<forall>op \<in> set ops. replay_time op = now env) \<and> length ops \<le> 1"
proof (cases "admitted cfg verify env rq s")
  case True
  then obtain q content where
    "serve cfg verify env rq s =
       handle_route cfg env q (rq_uri rq) content (snd (seen_opt (now env) (trim_sha (rq_signature rq)) s))"
    by (rule admitted_serve)
  then have "h_replay (snd (serve cfg verify env rq s)) = Some (replay_run [RSeen (now env) (trim_sha (rq_signature rq))] r)"
    by (simp add: handler_frame seen_opt_fields assms replay_run_def)
  then show ?thesis by fastforce
next
  case False
  then have "snd (serve cfg verify env rq s) = s"
    using not_admitted(1) unprotected_state by blast
  then show ?thesis using assms by (intro exI[of _ "[]"]) (simp add: replay_run_def)
qed

lemma event_replay:
  assumes "h_replay s = Some r"
  shows "\<exists>ops. h_replay (serve_event cfg verify ev s) = Some (replay_run ops r) \<and>
    (\<forall>op \<in> set ops. \<forall>t. event_before t ev \<longrightarrow> replay_time op < t) \<and>
    length (filter is_seen ops) \<le> (if is_request ev then 1 else 0)"
proof (cases ev)
  case (Request env rq)
  obtain ops where "h_replay (snd (serve cfg verify env rq s)) = Some (replay_run ops r)"
    "\<forall>op \<in> set ops. replay_time op = now env" "length ops \<le> 1"
    using serve_replay[OF assms] by blast
  moreover have "length (filter is_seen ops) \<le> 1"
    using length_filter_le[of is_seen ops] \<open>length ops \<le> 1\<close> by linarith
  ultimately show ?thesis using Request by (intro exI[of _ ops]) (simp add: serve_event_def)
next
  case (Manager op)
  then show ?thesis using assms
    by (intro exI[of _ "[]"]) (simp add: serve_event_def replay_run_def)
next
  case (ReplaySweep t)
  then show ?thesis using assms
    by (intro exI[of _ "[RSweep t]"]) (simp add: serve_event_def replay_run_def)
next
  case (DedupSweep t)
  then show ?thesis using assms
    by (intro exI[of _ "[]"]) (simp add: serve_event_def replay_run_def)
qed

lemma serve_all_replay:
  assumes "h_replay s = Some r"
  shows "\<exists>ops. h_replay (serve_all cfg verify evs s) = Some (replay_run ops r) \<and>
    (\<forall>t. (\<forall>ev \<in> set evs. event_before t ev) \<longrightarrow> (\<forall>op \<in> set ops. replay_time op < t)) \<and>
    length (filter is_seen ops) \<le> length (filter is_request evs)"
  using assms
proof (induction evs arbitrary: s r)
  case Nil
  then show ?case by (intro exI[of _ "[]"]) (simp add: serve_all_def replay_run_def)
next
  case (Cons ev evs)
  obtain ops where o: "h_replay (serve_event cfg verify ev s) = Some (replay_run ops r)"
    "\<forall>op \<in> set ops. \<forall>t. event_before t ev \<longrightarrow> replay_time op < t"
    "length (filter is_seen ops) \<le> (if is_request ev then 1 else 0)"
    using event_replay[OF Cons.prems] by blast
  obtain ops' where o': "h_replay (serve_all cfg verify evs (serve_event cfg verify ev s)) =
      Some (replay_run ops' (replay_run ops r))"
    "\<forall>t. (\<forall>ev \<in> set evs. event_before t ev) \<longrightarrow> (\<forall>op \<in> set ops'. replay_time op < t)"
    "length (filter is_seen ops') \<le> length (filter is_request evs)"
    using Cons.IH[OF o(1)] by blast
  have "h_replay (serve_all cfg verify (ev # evs) s) = Some (replay_run (ops @ ops') r)"
    using o'(1) by (simp add: serve_all_def replay_run_def)
  moreover have "length (filter is_seen (ops @ ops')) \<le> length (filter is_request (ev # evs))"
    using o(3) o'(3) by (simp split: if_splits)
  ultimately show ?case using o(2) o'(2) by (intro exI[of _ "ops @ ops'"]) auto
qed

section \<open>A signed request takes effect at most once\<close>

lemma not_admitted_again:
  assumes "h_replay s = Some (replay_run before (NewReplayCache t cap))" and "admitted cfg verify env rq s"
    and "protected_request rq'" and "trim_sha (rq_signature rq') = trim_sha (rq_signature rq)"
    and "trim_sha (rq_signature rq) \<noteq> []"
    and "t \<le> 0 \<or> (\<forall>ev \<in> set evs. event_before (now env + t) ev)"
    and "cap \<le> 0 \<or> int (length (filter is_request evs)) < cap"
    and "t \<le> 0 \<or> now env' - now env \<le> t"
  defines "s1 \<equiv> serve_all cfg verify evs (snd (serve cfg verify env rq s))"
  shows "\<not> admitted cfg verify env' rq' s1"
proof -
  let ?sig = "trim_sha (rq_signature rq)"
  let ?q = "replay_run before (NewReplayCache t cap)"
  note q = replay_run_new[of before t cap]
  obtain q' content where e: "serve cfg verify env rq s =
      handle_route cfg env q' (rq_uri rq) content (snd (seen_opt (now env) ?sig s))"
    using assms(2) by (rule admitted_serve)
  obtain r where r: "Seen (now env) ?sig ?q = (False, r)"
    using assms(1,2) by (cases "Seen (now env) ?sig ?q") (auto simp: admitted_def seen_opt_def)
  have "h_replay (snd (serve cfg verify env rq s)) = Some r"
    using r by (simp add: e handler_frame seen_opt_fields assms(1))
  then obtain ops where o: "h_replay s1 = Some (replay_run ops r)"
    "\<forall>t. (\<forall>ev \<in> set evs. event_before t ev) \<longrightarrow> (\<forall>op \<in> set ops. replay_time op < t)"
    "length (filter is_seen ops) \<le> length (filter is_request evs)"
    using serve_all_replay unfolding s1_def by blast
  have "Seen (now env') ?sig (replay_run ops r) = (True, replay_run ops r)"
  proof (rule seen_stays[OF q(1) r assms(5)])
    show "ttl ?q \<le> 0 \<or> (\<forall>op \<in> set ops. replay_time op - now env < ttl ?q)"
      using assms(6) o(2)[rule_format, of "now env + t"] q(2) by fastforce
    show "capacity ?q \<le> 0 \<or> int (length (filter is_seen ops)) < capacity ?q"
      using assms(7) o(3) q(3) by linarith
    show "ttl ?q \<le> 0 \<or> now env' - now env \<le> ttl ?q" using assms(8) q(2) by simp
  qed
  then have "fst (seen_opt (now env') (trim_sha (rq_signature rq')) s1)"
    using o(1) assms(4) by (simp add: seen_opt_def)
  then show ?thesis by (simp add: admitted_def)
qed

text \<open>
  A signed request takes effect at most once. After a request was admitted, any request that carries
  the same signature (the same request again, or the signature on another route or body) is answered
  401, 409 or 413 and leaves the whole server state unchanged, whatever requests and cache sweeps the
  server handled in between, as long as it comes within the TTL of the replay cache and fewer than
  \<open>capacity\<close> requests came in between.
\<close>

theorem signed_request_once:
  assumes "h_replay s = Some (replay_run before (NewReplayCache t cap))" and "admitted cfg verify env rq s"
    and "protected_request rq'" and "trim_sha (rq_signature rq') = trim_sha (rq_signature rq)"
    and "trim_sha (rq_signature rq) \<noteq> []"
    and "t \<le> 0 \<or> (\<forall>ev \<in> set evs. event_before (now env + t) ev)"
    and "cap \<le> 0 \<or> int (length (filter is_request evs)) < cap"
    and "t \<le> 0 \<or> now env' - now env \<le> t"
  defines "s1 \<equiv> serve_all cfg verify evs (snd (serve cfg verify env rq s))"
  shows "snd (serve cfg verify env' rq' s1) = s1 \<and>
    (\<exists>r. fst (serve cfg verify env' rq' s1) = Some r \<and> rs_status r \<in> {401, 409, 413})"
  using not_admitted[OF assms(3) not_admitted_again[OF assms(1-8)]] by (simp add: s1_def)

text \<open>
  The promise ends with the TTL of the replay cache, not with the acceptance window of the verifier.
  If a signature still verifies more than one TTL after the request was admitted, the identical
  request is admitted, and takes effect, a second time. \<open>main.go\<close> sets the TTL to the clock skew,
  but a verifier that also accepts timestamps up to 30 seconds in the future accepts a request for
  the skew plus these 30 seconds.
\<close>

theorem replay_admitted_after_ttl:
  assumes "h_replay s = Some (replay_run before (NewReplayCache t cap))" and "0 < t"
    and "admitted cfg verify env rq s" and "t < now env' - now env"
    and "authentic cfg verify (now env') rq content"
  shows "admitted cfg verify env' rq (snd (serve cfg verify env rq s))"
proof -
  let ?sig = "trim_sha (rq_signature rq)"
  note q = replay_run_new[of before t cap]
  let ?q = "replay_run before (NewReplayCache t cap)"
  obtain q' content where e: "serve cfg verify env rq s =
      handle_route cfg env q' (rq_uri rq) content (snd (seen_opt (now env) ?sig s))"
    using assms(3) by (rule admitted_serve)
  obtain r where r: "Seen (now env) ?sig ?q = (False, r)"
    using assms(1,3) by (cases "Seen (now env) ?sig ?q") (auto simp: admitted_def seen_opt_def)
  have h: "h_replay (snd (serve cfg verify env rq s)) = Some r"
    using r by (simp add: e handler_frame seen_opt_fields assms(1))
  have "\<not> fst (Seen (now env') ?sig r)"
  proof (cases "?sig = []")
    case False
    have ok: "replay_ok r" "ttl r = t" using Seen_refines(1,3)[OF q(1), of "now env" ?sig] r q(2) by simp_all
    have "held \<lparr>re_sig = ?sig, re_seen = now env\<rparr> 0 (vals r)" by (rule Seen_fresh_held[OF q(1) r False])
    then have in_r: "\<lparr>re_sig = ?sig, re_seen = now env\<rparr> \<in> set (vals r)" by (rule held_in)
    have "\<not> is_hit t (now env') ?sig x" if "x \<in> set (vals r)" for x
    proof
      assume "is_hit t (now env') ?sig x"
      then have x: "re_sig x = ?sig" "now env' - re_seen x \<le> t" using assms(2) by (auto simp: is_hit_def)
      then have "x = \<lparr>re_sig = ?sig, re_seen = now env\<rparr>"
        using distinct_key_eq[OF store_ok_distinct_keys[OF ok(1)] that in_r] by simp
      then show False using x(2) assms(4) by simp
    qed
    then have "fst (seen_ref t (capacity r) (now env') ?sig (vals r)) = False"
      using False by (auto simp: seen_ref_def)
    then show ?thesis using Seen_refines(2)[OF ok(1), of "now env'" ?sig] ok(2) by (metis fst_conv)
  qed (simp add: Seen_def)
  then have "\<not> fst (seen_opt (now env') ?sig (snd (serve cfg verify env rq s)))"
    by (cases "Seen (now env') ?sig r") (simp add: seen_opt_def h)
  then show ?thesis using assms(3,5) by (auto simp: admitted_def)
qed

lemma example_authentic:
  "authentic example_cfg example_verify 0 (example_request ''/kill'') ''{}''"
  "authentic example_cfg example_verify 4 (example_request ''/kill'') ''{}''"
  "authentic example_cfg example_verify 8 (example_request ''/kill'') ''{}''"
  by (simp_all add: authentic_def example_cfg_def example_verify_def example_request_def
        maxRequestBodyBytes_def trim_sha_def effective_skew_def)

lemma example_protected: "protected_request (example_request ''/kill'')"
  by (simp add: protected_request_def route_of_def route_authed_def rq_path_def example_request_def)

lemma example_admitted:
  "admitted example_cfg example_verify (example_env 0) (example_request ''/kill'') example_server"
  using example_authentic(1) example_protected
  by (auto simp: admitted_def protected_request_def example_env_def seen_opt_def example_server_def
        Seen_def find_entry_def NewReplayCache_def new_store_def split: prod.split)

lemma example_replay: "h_replay example_server = Some (replay_run [] (NewReplayCache 5 10))"
  by (simp add: example_server_def replay_run_def)

theorem signed_request_once_witness:
  "snd (serve example_cfg example_verify (example_env 4) (example_request ''/kill'')
       (serve_all example_cfg example_verify [ReplaySweep 3]
         (snd (serve example_cfg example_verify (example_env 0) (example_request ''/kill'') example_server))))
   = serve_all example_cfg example_verify [ReplaySweep 3]
       (snd (serve example_cfg example_verify (example_env 0) (example_request ''/kill'') example_server))"
proof -
  have t: "now (example_env 4) = 4" "now (example_env 0) = 0" by (simp_all add: example_env_def)
  show ?thesis
    using signed_request_once[OF example_replay example_admitted example_protected refl, of "[ReplaySweep 3]" "example_env 4"]
    by (simp add: t) (simp add: example_request_def trim_sha_def)
qed

theorem replay_admitted_after_ttl_witness:
  "admitted example_cfg example_verify (example_env 8) (example_request ''/kill'')
     (snd (serve example_cfg example_verify (example_env 0) (example_request ''/kill'') example_server))"
proof -
  have t: "now (example_env 8) = 8" "now (example_env 0) = 0" by (simp_all add: example_env_def)
  show ?thesis
    using replay_admitted_after_ttl[OF example_replay _ example_admitted, of "example_env 8"] example_authentic(3)
    by (simp add: t)
qed

end
