(* ===== verification/Identity.thy ===== *)
theory Identity
  imports Auth_Props
begin

text \<open>
  Whose container is meant. Registry keys are built from names the validators accept; in a server that
  started empty every key therefore belongs to exactly one card or chat session, whatever requests and
  manager operations ran.
\<close>

section \<open>Keys and the entries behind them\<close>

definition entry_ok :: "string \<Rightarrow> container_info \<Rightarrow> bool" where
  "entry_ok k i \<longleftrightarrow>
     (SessionID i = [] \<and> ident_ok (Project i) \<and> ident_ok (CardID i) \<and> k = tkey (Project i) (CardID i)) \<or>
     (ident_ok (SessionID i) \<and> CardID i = [] \<and> k = chatKey (SessionID i))"

definition entries_ok :: "tracker \<Rightarrow> bool" where
  "entries_ok t \<longleftrightarrow> (\<forall>(k, i) \<in> set (containers t). entry_ok k i)"

lemma tkey_inj:
  assumes "ident_ok p" "ident_ok q" and "tkey p c = tkey q d"
  shows "p = q \<and> c = d"
  using assms ident_ok_not by (simp add: tkey_def append_sep_inject)

lemma chatKey_inj: "chatKey s = chatKey u \<longleftrightarrow> s = u"
  by (simp add: chatKey_def)

lemma tkey_chatKey: "ident_ok p \<Longrightarrow> tkey p c \<noteq> chatKey s"
  using ident_ok_not[of p] by (cases p) (auto simp: tkey_def chatKey_def ident_ok_def)

section \<open>Operations keep identities\<close>

text \<open>Entries may go, and change in everything but their key and identity.\<close>

definition ids_kept :: "tracker \<Rightarrow> tracker \<Rightarrow> bool" where
  "ids_kept t t' \<longleftrightarrow> (\<forall>(k, j) \<in> set (containers t'). \<exists>i. (k, i) \<in> set (containers t) \<and>
     Project j = Project i \<and> CardID j = CardID i \<and> SessionID j = SessionID i)"

named_theorems kept_intros

lemma entries_ok_kept: "entries_ok t \<Longrightarrow> ids_kept t t' \<Longrightarrow> entries_ok t'"
  by (fastforce simp: entries_ok_def ids_kept_def entry_ok_def)

lemma kept_same: "containers t' = containers t \<Longrightarrow> ids_kept t t'"
  by (auto simp: ids_kept_def)

lemma kept_trans: "ids_kept t u \<Longrightarrow> ids_kept u v \<Longrightarrow> ids_kept t v"
  by (fastforce simp: ids_kept_def)

lemma kept_update:
  assumes "\<And>i. Project (f i) = Project i \<and> CardID (f i) = CardID i \<and> SessionID (f i) = SessionID i"
  shows "ids_kept t (update_info k f t)"
  using assms by (fastforce simp: ids_kept_def update_info_def)

lemma kept_remove [kept_intros]: "ids_kept t (remove_key k t)"
  using set_delete[of k "containers t"] by (fastforce simp: ids_kept_def remove_key_containers)

lemma kept_write [kept_intros]: "ids_kept t (snd (write_key k b io t))"
  by (rule kept_same) (simp add: write_key_def locked_frame split: sum.split)

lemma kept_close [kept_intros]: "ids_kept t (snd (close_key k io t))"
  by (rule kept_same) (simp add: close_key_def locked_frame split: sum.split)

lemma kept_mark [kept_intros]: "ids_kept t (snd (MarkStdinClosed pr ca t))"
  by (rule kept_same) (simp add: MarkStdinClosed_def locked_frame split: sum.split)

lemma kept_emit [kept_intros]: "ids_kept t (emit es t)"
  by (rule kept_same) (simp add: frame_simps)

lemma kept_tasks: "ids_kept t (fold (\<lambda>x t. fst (run_task x t)) ts t)"
proof (induction ts arbitrary: t)
  case (Cons x ts)
  have "ids_kept t (fst (run_task x t))" by (rule kept_same) (simp add: run_task_frame)
  then show ?case using Cons kept_trans by fastforce
qed (simp add: kept_same)

lemma kept_cancel:
  assumes "\<And>i. Project (f i) = Project i \<and> CardID (f i) = CardID i \<and> SessionID (f i) = SessionID i"
  shows "ids_kept t (snd (cancel_all (cancel_map k f t)))"
  using kept_trans[OF kept_update[OF assms] kept_tasks] kept_same
  by (simp add: cancel_all_def cancel_map_def split: option.split)

lemma kept_set_stdin [kept_intros]: "ids_kept t (set_stdin_key k w f t)"
proof -
  obtain t' new where m: "set_stdin_map k w f t = (t', new)" by fastforce
  have "ids_kept t t'"
    using m
  proof (cases rule: set_stdin_map_cases)
    case (first i)
    let ?u = "t\<lparr>stdins := stdins t @ [\<lparr>ss_stdin = None, ss_onClose = None\<rparr>]\<rparr>"
    have "ids_kept t ?u" by (rule kept_same) simp
    moreover have "ids_kept ?u (update_info k (\<lambda>i. i\<lparr>stdin_ptr := Some (length (stdins t))\<rparr>) ?u)"
      by (rule kept_update) simp
    moreover have "ids_kept (update_info k (\<lambda>i. i\<lparr>stdin_ptr := Some (length (stdins t))\<rparr>) ?u) t'"
      using first by (intro kept_same) (simp add: frame_simps)
    ultimately show ?thesis using kept_trans by blast
  qed (simp_all add: kept_same frame_simps)
  moreover have "ids_kept t' (closeWriterAsync w f t')"
    by (rule kept_same) (simp add: closeWriterAsync_def frame_simps)
  ultimately show ?thesis
    using kept_trans by (auto simp: set_stdin_key_def m split: list.split)
qed

lemmas op_defs = WriteStdin_def WriteStdinChat_def CloseStdin_def CloseStdinChat_def tracker_Remove_def
  RemoveChat_def SetStdin_def SetStdinChat_def

lemma kept_manager: "ids_kept t (run_manager_op op t)"
  by (cases op) (simp_all add: op_defs kept_intros UpdateContainerID_def kept_update tracker_Cancel_def
      CancelWithReason_def kept_cancel)

lemma entries_ok_add:
  assumes "entries_ok t" and "entry_ok k i"
  shows "entries_ok (snd (add_key k i t))"
  using assms by (auto simp: entries_ok_def add_key_def split: option.split)

section \<open>Handlers keep identities\<close>

lemma trigger_entries:
  assumes "entries_ok (h_tracker s)"
  shows "entries_ok (h_tracker (snd (handleTrigger cfg env b s)))"
proof (cases "isDraining s \<or> dec_trigger env b = None")
  case True
  then show ?thesis using assms by (auto simp: handleTrigger_def)
next
  case False
  then obtain p where p: "\<not> isDraining s" "dec_trigger env b = Some p" by auto
  obtain r t where rt: "AddIfUnderLimit (card_info env b p) (maxConcurrent cfg) (h_tracker s) = (r, t)"
    by fastforce
  show ?thesis
  proof (cases "ValidatePayload (url_parse env) (PTrigger (Ptr (Some p)))")
    case None
    then have "entry_ok (tkey (tp_project p) (tp_card p)) (card_info env b p)"
      by (simp add: ValidatePayload_def on_arg_def validateTrigger_def entry_ok_def card_info_def)
    then have t: "entries_ok t"
      using rt entries_ok_add[OF assms \<open>entry_ok _ _\<close>] assms
      by (cases "maxConcurrent cfg \<le> int (Count (h_tracker s))")
        (simp_all add: AddIfUnderLimit_def card_info_def prod_eq_iff)
    then have "entries_ok (cancel_ctx env t)"
      using entries_ok_kept[OF t kept_emit] by (simp add: cancel_ctx_def)
    then show ?thesis
      using t trigger_valid[OF p None rt] by (cases r) (simp_all add: handler_frame)
  next
    case (Some e)
    then show ?thesis using assms p by (simp add: handleTrigger_def)
  qed
qed

text \<open>The registry key a message is addressed to.\<close>

definition msg_key :: "message_payload \<Rightarrow> string" where
  "msg_key p = (if mp_session p \<noteq> [] then chatKey (mp_session p) else tkey (mp_project p) (mp_card p))"

lemma message_keys:
  "message_write p = write_key (msg_key p)" "message_has p t \<longleftrightarrow> has_key (msg_key p) t"
  by (simp_all add: message_write_def message_has_def msg_key_def op_defs HasChat_def Has_def has_key_def)

lemma message_entries:
  assumes "entries_ok (h_tracker s)"
  shows "entries_ok (h_tracker (snd (handleMessage env b s)))"
proof -
  have "ids_kept (h_tracker s) (h_tracker (snd (handleMessage env b s)))"
    unfolding handleMessage_def Let_def message_keys
    by (simp split: option.split add: case_prod_unfold handler_frame kept_same kept_intros)
  then show ?thesis using assms entries_ok_kept by blast
qed

lemma kept_write_close: "ids_kept t (snd (close_key k' io' (snd (write_key k b io t))))"
  using kept_trans kept_write kept_close by blast

lemma kept_close_remove: "ids_kept t (remove_key k' (snd (close_key k io t)))"
  using kept_trans kept_remove kept_close by blast

lemma end_session_entries:
  assumes "entries_ok (h_tracker s)"
  shows "entries_ok (h_tracker (snd (handleEndSession env b s)))"
proof -
  have "ids_kept (h_tracker s) (h_tracker (snd (handleEndSession env b s)))"
    unfolding handleEndSession_def Let_def op_defs
    by (simp split: option.split add: case_prod_unfold handler_frame kept_same kept_intros)
  then show ?thesis using assms entries_ok_kept by blast
qed

lemma promote_entries:
  assumes "entries_ok (h_tracker s)"
  shows "entries_ok (h_tracker (snd (handlePromote cfg env b s)))"
proof -
  have "ids_kept (h_tracker s) (h_tracker (snd (handlePromote cfg env b s)))"
    unfolding handlePromote_def Let_def op_defs
    by (simp split: option.split bool.split add: case_prod_unfold handler_frame kept_same kept_intros kept_write_close)
  then show ?thesis using assms entries_ok_kept by blast
qed

lemma chat_end_entries:
  assumes "entries_ok (h_tracker s)"
  shows "entries_ok (h_tracker (snd (handleChatEnd env b s)))"
proof -
  have "ids_kept (h_tracker s) (h_tracker (snd (handleChatEnd env b s)))"
    unfolding handleChatEnd_def Let_def op_defs Stop_container_def
    by (simp split: option.split add: case_prod_unfold handler_frame kept_same kept_intros kept_close_remove)
  then show ?thesis using assms entries_ok_kept by blast
qed

lemma priming_kept: "ids_kept (h_tracker s) (h_tracker (snd (prime_chat env p s)))"
proof -
  have w: "ids_kept (h_tracker u) (h_tracker (snd (writeChatPrimingEnvelope env session kind c u)))" for u session kind c
    by (simp add: writeChatPrimingEnvelope_def op_defs kept_intros kept_same)
  show ?thesis
    unfolding prime_chat_def
    by (cases "writeChatPrimingEnvelope env (cs_session p) ''primer'' (cs_primer p) s")
      (use w[of s "cs_session p" "''primer''" "cs_primer p"] kept_trans w in
        \<open>auto simp: kept_same split: bool.split\<close>)
qed

lemma registered_kept: "ids_kept (h_tracker s) (h_tracker (snd (chat_registered env p cid s)))"
proof (cases "attach_conn env")
  case None
  then show ?thesis
    by (simp add: chat_registered_def AttachChatStdin_def Stop_container_def Let_def handler_frame op_defs kept_intros)
next
  case (Some wf)
  obtain w f where wf: "wf = (w, f)" by fastforce
  let ?u = "(call (CallAttachChatStdin (cs_session p) cid) (call (CallWaitAndCleanupChat (cs_session p) cid (cs_project p)) s))"
  let ?v = "?u\<lparr>h_tracker := SetStdinChat (cs_session p) (Some w) (Some f) (h_tracker ?u)\<rparr>"
  have "ids_kept (h_tracker s) (h_tracker ?v)" by (simp add: handler_frame op_defs kept_intros)
  moreover have "ids_kept (h_tracker ?v) (h_tracker (snd (prime_chat env p ?v)))" by (rule priming_kept)
  ultimately show ?thesis
    using Some wf kept_trans
    by (simp add: chat_registered_def AttachChatStdin_def Let_def case_prod_unfold handler_frame split: bool.split)
qed

lemma chat_start_entries:
  assumes ok: "entries_ok (h_tracker s)" and d: "\<And>t. entries_ok t \<Longrightarrow> entries_ok (during_start env t)"
  shows "entries_ok (h_tracker (snd (handleChatStart cfg env b s)))"
proof (cases "isDraining s \<or> dec_chat_start env b = None")
  case True
  then show ?thesis using ok by (auto simp: handleChatStart_def)
next
  case False
  then obtain p where p: "\<not> isDraining s" "dec_chat_start env b = Some p" by auto
  show ?thesis
  proof (cases "ValidatePayload (url_parse env) (PChatStart (Ptr (Some p)))")
    case None
    have i: "entry_ok (chatKey (cs_session p)) (chat_info env cid p)" for cid
      using None by (simp add: ValidatePayload_def on_arg_def validateChatStart_def entry_ok_def chat_info_def)
    have t: "entries_ok t" if "AddChatIfUnderLimit (chat_info env cid p) L (during_start env (h_tracker s)) = (r, t)"
      for cid L r t
      using that entries_ok_add[OF d[OF ok] i, of cid] d[OF ok]
      by (cases "L \<le> int (Count (during_start env (h_tracker s)))")
        (simp_all add: AddChatIfUnderLimit_def chat_info_def prod_eq_iff)
    have e: "entries_ok (emit es t)" if "entries_ok t" for es t
      using entries_ok_kept[OF that kept_emit] .
    have r: "entries_ok (h_tracker (snd (chat_registered env p cid u)))" if "entries_ok (h_tracker u)" for cid u
      using entries_ok_kept[OF that registered_kept] .
    show ?thesis
      unfolding handleChatStart_def Let_def Stop_container_def
      by (simp add: p None split: option.split prod.split) (auto simp: handler_frame ok d e r dest: t)
  next
    case (Some e)
    then show ?thesis using ok p by (simp add: handleChatStart_def)
  qed
qed

lemma route_entries:
  assumes "entries_ok (h_tracker s)" and "\<And>t. entries_ok t \<Longrightarrow> entries_ok (during_start env t)"
  shows "entries_ok (h_tracker (snd (handle_route cfg env r uri b s)))"
  using assms
  by (cases r)
    (simp_all add: handle_route_def answered_def handler_frame open_logs_def handleListContainers_def Let_def
      trigger_entries message_entries end_session_entries promote_entries chat_end_entries
      chat_start_entries chat_env.defs split: prod.split option.split)

section \<open>Served requests keep identities\<close>

text \<open>What other requests may do to the registry while a chat container starts.\<close>

fun event_sane :: "server_event \<Rightarrow> bool" where
  "event_sane (Request env rq) = (\<forall>t. entries_ok t \<longrightarrow> entries_ok (during_start env t))"
| "event_sane _ = True"

lemma serve_entries:
  assumes "entries_ok (h_tracker s)" and "\<And>t. entries_ok t \<Longrightarrow> entries_ok (during_start env t)"
  shows "entries_ok (h_tracker (snd (serve cfg verify env rq s)))"
proof (cases "admitted cfg verify env rq s")
  case True
  then obtain r content where "serve cfg verify env rq s =
      handle_route cfg env r (rq_uri rq) content (snd (seen_opt (now env) (trim_sha (rq_signature rq)) s))"
    by (rule admitted_serve)
  then show ?thesis using assms by (simp add: route_entries seen_opt_fields)
next
  case False
  then have "snd (serve cfg verify env rq s) = s" using not_admitted(1) unprotected_state by blast
  then show ?thesis using assms(1) by simp
qed

lemma served_entries:
  "entries_ok (h_tracker s) \<Longrightarrow> \<forall>ev \<in> set evs. event_sane ev \<Longrightarrow> entries_ok (h_tracker (serve_all cfg verify evs s))"
proof (induction evs arbitrary: s)
  case (Cons ev evs)
  have "entries_ok (h_tracker (serve_event cfg verify ev s))"
    using Cons.prems entries_ok_kept[OF _ kept_manager] serve_entries
    by (cases ev) (auto simp: serve_event_def)
  then show ?case using Cons by (simp add: serve_all_def)
qed (simp add: serve_all_def)

section \<open>Messages\<close>

text \<open>The writer a message to key \<open>k\<close> would reach.\<close>

definition writer_at :: "string \<Rightarrow> tracker \<Rightarrow> writer option" where
  "writer_at k t = Option.bind (lookup_key k t) (\<lambda>i. Option.bind (stdin_ptr i) (\<lambda>q. ss_stdin (stdins t ! q)))"

lemma write_key_eq:
  "write_key k b io t =
    (case lookup_key k t of
       None \<Rightarrow> (Some ErrNotTracked, t)
     | Some i \<Rightarrow>
         (case stdin_ptr i of
            None \<Rightarrow> (Some ErrNoStdinAttached, t)
          | Some q \<Rightarrow>
              (case ss_stdin (stdins t ! q) of
                 None \<Rightarrow> (Some ErrStdinClosed, t)
               | Some w \<Rightarrow> (io_result io, emit [Wrote w b] t))))"
  by (simp add: write_key_def capture_def write_locked_def split: option.split)

lemma write_key_trace:
  "snd (write_key k b io t) = (case writer_at k t of None \<Rightarrow> t | Some w \<Rightarrow> emit [Wrote w b] t)"
  by (simp add: write_key_eq writer_at_def split: option.split)

lemma write_key_ok:
  "writer_at k t = Some w \<Longrightarrow> has_key k t \<and> write_key k b io t = (io_result io, emit [Wrote w b] t)"
  by (auto simp: write_key_eq writer_at_def has_key_def Option.bind_eq_Some_conv)

lemma message_accepted:
  assumes "\<not> isDraining s" and "dec_message env b = Some p"
    and "ValidatePayload (url_parse env) (PMessage (Ptr (Some p))) = None"
    and "get_ack (now env) p s = (None, s1)"
  shows "handleMessage env b s =
    (if \<not> has_key (msg_key p) (h_tracker s1) then (writeError 404 CodeNotFound MsgNoContainerTracked, s1)
     else case write_key (msg_key p) (BuildUserMessage (mp_content p)) (write_error env) (h_tracker s1) of
       (Some e, t) \<Rightarrow> (stdin_error e, s1\<lparr>h_tracker := t\<rparr>)
     | (None, t) \<Rightarrow>
         let a = \<lparr>ack_status = 202, ack_body = ack_json env (mp_message_id p)\<rparr>
         in (writeRawAck a, put_ack (now env) p a (publish_opt (user_entry p) (s1\<lparr>h_tracker := t\<rparr>))))"
proof -
  have "\<not> length (mp_content p) > MaxMessageContentBytes"
    using assms(3) by (simp add: ValidatePayload_def on_arg_def validateMessage_def content_ok_def MaxMessageContentBytes_def)
  then show ?thesis unfolding handleMessage_def Let_def using assms by (simp add: message_keys)
qed

text \<open>
  The status of \<open>/message\<close> tells exactly what happened to the text. For an accepted message that is no
  retry: 404 and nothing written when no container is tracked under the address, 409 when it has no
  stdin, 410 when its stdin was closed, 500 when the write failed, and 202 exactly when the line was
  written, once, to the current stdin of the addressed container.
\<close>

theorem message_outcome:
  assumes "\<not> isDraining s" and "dec_message env b = Some p"
    and "ValidatePayload (url_parse env) (PMessage (Ptr (Some p))) = None"
    and "fst (get_ack (now env) p s) = None"
  shows "rs_status (fst (handleMessage env b s)) =
      (case lookup_key (msg_key p) (h_tracker s) of
         None \<Rightarrow> 404
       | Some i \<Rightarrow> (case stdin_ptr i of
             None \<Rightarrow> 409
           | Some q \<Rightarrow> (case ss_stdin (stdins (h_tracker s) ! q) of
                 None \<Rightarrow> 410
               | Some w \<Rightarrow> if write_error env = None then 202 else 500))) \<and>
    h_tracker (snd (handleMessage env b s)) =
      (case writer_at (msg_key p) (h_tracker s) of
         None \<Rightarrow> h_tracker s
       | Some w \<Rightarrow> emit [Wrote w (BuildUserMessage (mp_content p))] (h_tracker s))"
proof -
  obtain s1 where s1: "get_ack (now env) p s = (None, s1)"
    using assms(4) by (cases "get_ack (now env) p s") simp
  then have t: "h_tracker s1 = h_tracker s" using ack_fields(1)[of "now env" p s] by simp
  show ?thesis
    unfolding message_accepted[OF assms(1-3) s1] Let_def write_key_eq writer_at_def has_key_def
    by (cases "write_error env")
      (simp_all add: t io_result_def writeRawAck_def respond_def writeError_def stdin_error_def handler_frame
        split: option.split)
qed

lemma message_writes:
  assumes "h_tracker (snd (handleMessage env b s)) \<noteq> h_tracker s"
  obtains p w where "dec_message env b = Some p" "writer_at (msg_key p) (h_tracker s) = Some w"
    "ValidatePayload (url_parse env) (PMessage (Ptr (Some p))) = None"
    "h_tracker (snd (handleMessage env b s)) = emit [Wrote w (BuildUserMessage (mp_content p))] (h_tracker s)"
proof -
  have "\<not> isDraining s" using assms by (auto simp: handleMessage_def)
  moreover obtain p where p: "dec_message env b = Some p"
    using assms by (cases "dec_message env b") (auto simp: handleMessage_def)
  moreover have v: "ValidatePayload (url_parse env) (PMessage (Ptr (Some p))) = None"
    using assms p by (cases "ValidatePayload (url_parse env) (PMessage (Ptr (Some p)))")
      (auto simp: handleMessage_def split: if_splits)
  moreover obtain r s1 where s1: "get_ack (now env) p s = (r, s1)" by fastforce
  moreover have t: "h_tracker s1 = h_tracker s" using s1 ack_fields(1)[of "now env" p s] by simp
  moreover have "r = None"
    using assms calculation by (cases r) (auto simp: handleMessage_def split: if_splits)
  ultimately have h: "handleMessage env b s =
    (if \<not> has_key (msg_key p) (h_tracker s) then (writeError 404 CodeNotFound MsgNoContainerTracked, s1)
     else case write_key (msg_key p) (BuildUserMessage (mp_content p)) (write_error env) (h_tracker s) of
       (Some e, t) \<Rightarrow> (stdin_error e, s1\<lparr>h_tracker := t\<rparr>)
     | (None, t) \<Rightarrow>
         let a = \<lparr>ack_status = 202, ack_body = ack_json env (mp_message_id p)\<rparr>
         in (writeRawAck a, put_ack (now env) p a (publish_opt (user_entry p) (s1\<lparr>h_tracker := t\<rparr>))))"
    using message_accepted[of s env b p s1] by simp
  have "h_tracker (snd (handleMessage env b s)) =
      snd (write_key (msg_key p) (BuildUserMessage (mp_content p)) (write_error env) (h_tracker s))"
    using assms by (simp add: h t Let_def handler_frame case_prod_unfold split: if_splits option.splits)
  then show thesis
    using that[OF p _ v] assms by (simp add: write_key_trace split: option.splits)
qed

text \<open>The identity a message names is the identity of the container behind the key.\<close>

definition addressed :: "message_payload \<Rightarrow> container_info \<Rightarrow> bool" where
  "addressed p i \<longleftrightarrow> SessionID i = mp_session p \<and>
     (mp_session p = [] \<longrightarrow> Project i = mp_project p \<and> CardID i = mp_card p)"

lemma addressed_key:
  assumes "entries_ok t" and "lookup_key (msg_key p) t = Some i"
    and "ValidatePayload parse (PMessage (Ptr (Some p))) = None"
  shows "addressed p i"
proof -
  have e: "entry_ok (msg_key p) i"
    using assms(1,2) map_of_SomeD by (fastforce simp: entries_ok_def lookup_key_def)
  show ?thesis
  proof (cases "mp_session p = []")
    case True
    then have "ident_ok (mp_project p)"
      using assms(3) by (simp add: ValidatePayload_def on_arg_def validateMessage_def)
    then show ?thesis
      using e True tkey_chatKey[of "mp_project p"]
      by (auto simp: entry_ok_def msg_key_def addressed_def dest: tkey_inj)
  next
    case False
    then show ?thesis
      using e chatKey_inj tkey_chatKey[THEN not_sym] by (auto simp: entry_ok_def msg_key_def addressed_def)
  qed
qed

text \<open>
  C32. A message never reaches another container. In a server that started with an empty registry, after
  any requests and manager operations, whenever \<open>/message\<close> touches the registry at all it wrote exactly
  its own line, once, to the current stdin of an entry whose session, or project and card, are the
  ones the message names: no card is reached through a session id, no card through another
  project, and no session through a card.
\<close>

theorem message_reaches_only_its_container:
  assumes "h_tracker s0 = tracker_New" and "\<forall>ev \<in> set evs. event_sane ev"
    and "s = serve_all cfg verify evs s0"
    and "h_tracker (snd (handleMessage env b s)) \<noteq> h_tracker s"
  shows "\<exists>p k i q w. dec_message env b = Some p \<and> (k, i) \<in> set (containers (h_tracker s)) \<and> addressed p i \<and>
    stdin_ptr i = Some q \<and> ss_stdin (stdins (h_tracker s) ! q) = Some w \<and>
    trace (h_tracker (snd (handleMessage env b s))) = Wrote w (BuildUserMessage (mp_content p)) # trace (h_tracker s)"
proof -
  have "entries_ok (h_tracker s0)" by (simp add: assms(1) entries_ok_def tracker_New_def)
  then have ok: "entries_ok (h_tracker s)" using served_entries assms(2,3) by simp
  obtain p w where p: "dec_message env b = Some p" "writer_at (msg_key p) (h_tracker s) = Some w"
    "ValidatePayload (url_parse env) (PMessage (Ptr (Some p))) = None"
    "h_tracker (snd (handleMessage env b s)) = emit [Wrote w (BuildUserMessage (mp_content p))] (h_tracker s)"
    using assms(4) by (rule message_writes)
  obtain i q where i: "lookup_key (msg_key p) (h_tracker s) = Some i" "stdin_ptr i = Some q"
    "ss_stdin (stdins (h_tracker s) ! q) = Some w"
    using p(2) by (auto simp: writer_at_def Option.bind_eq_Some_conv)
  then have "(msg_key p, i) \<in> set (containers (h_tracker s))"
    using map_of_SomeD by (fastforce simp: lookup_key_def)
  then show ?thesis
    using p i addressed_key[OF ok i(1) p(3)] by (auto simp: frame_simps)
qed

section \<open>An instance\<close>

lemma example_trigger_served:
  "serve example_cfg example_verify (example_env 0) (example_request ''/trigger'') example_server =
     answered (handleTrigger example_cfg (call_env.truncate (example_env 0)) ''{}''
       (snd (seen_opt 0 ''5a'' example_server)))"
proof -
  have a: "authentic example_cfg example_verify (now (example_env 0)) (example_request ''/trigger'') ''{}''"
    by (simp add: authentic_def example_cfg_def example_verify_def example_request_def example_env_def
        maxRequestBodyBytes_def trim_sha_def effective_skew_def)
  have r: "route_of (rq_method (example_request ''/trigger'')) (rq_path (example_request ''/trigger'')) = Some RTrigger"
    by (simp add: route_of_def rq_path_def example_request_def)
  obtain s' where f: "seen_opt 0 ''5a'' example_server = (False, s')"
    by (simp add: seen_opt_def example_server_def Seen_def find_entry_def NewReplayCache_def new_store_def)
  have n: "now (example_env 0) = 0" "trim_sha (rq_signature (example_request ''/trigger'')) = ''5a''"
    by (simp_all add: example_env_def example_request_def trim_sha_def)
  show ?thesis
    unfolding serve_def r option.case
    by (simp add: f route_authed_def hmacAuth_accept[OF a[unfolded n]] n handle_route_def)
qed

lemma example_served_tracker:
  "h_tracker example_served =
    \<lparr>containers = [(''alpha/ALPHA-001'', \<lparr>ContainerID = [], CardID = ''ALPHA-001'', Project = ''alpha'', SessionID = [],
        Image = [], StartedAt = 0, CancelFn = Some 90, reason = [], stdin_ptr = Some 0\<rparr>)],
     stdins = [\<lparr>ss_stdin = Some 7, ss_onClose = Some 8\<rparr>], trace = [Attached (Some 7) (Some 8)]\<rparr>"
proof -
  have "h_tracker (snd (handleTrigger example_cfg (call_env.truncate (example_env 0)) ''{}''
       (snd (seen_opt 0 ''5a'' example_server)))) =
     \<lparr>containers = [(''alpha/ALPHA-001'', \<lparr>ContainerID = [], CardID = ''ALPHA-001'', Project = ''alpha'', SessionID = [],
        Image = [], StartedAt = 0, CancelFn = Some 90, reason = [], stdin_ptr = None\<rparr>)],
     stdins = [], trace = []\<rparr>"
    by code_simp
  then show ?thesis
    by (simp add: example_served_def example_events_def serve_all_def serve_event_def example_trigger_served
        answered_def) code_simp
qed

lemma example_events_sane: "\<forall>ev \<in> set example_events. event_sane ev"
  by (simp add: example_events_def example_env_def)

lemma example_message_valid:
  "ValidatePayload example_parse (PMessage (Ptr (Some example_message))) = None"
  by code_simp

lemma example_message_writer: "writer_at (msg_key example_message) (h_tracker example_served) = Some 7"
  by (simp add: writer_at_def lookup_key_def example_served_tracker msg_key_def example_message_def tkey_def)

definition example_call :: call_env where
  "example_call = call_env.truncate (example_env 1)"

lemma example_call_fields [simp]:
  "dec_message example_call b = Some example_message" "url_parse example_call = example_parse"
  "write_error example_call = None" "now example_call = 1"
  by (simp_all add: example_call_def example_env_def call_env.defs)

lemma example_served_fields:
  "h_dedup example_served = h_dedup example_server" "h_health example_served = h_health example_server"
  by (simp_all add: example_served_def example_events_def serve_all_def serve_event_def
      example_trigger_served answered_def handler_frame seen_opt_fields)

lemma example_not_draining: "\<not> isDraining example_served"
  by (simp add: isDraining_def example_served_fields example_server_def)

lemma example_fresh_message: "fst (get_ack 1 example_message example_served) = None"
proof -
  have "h_dedup example_served = Some (NewMessageDedupCache 10 10)"
    by (simp add: example_served_fields example_server_def)
  moreover have "fst (dedup_lookup 1 (CardMsg ''alpha'' ''ALPHA-001'' ''m1'') (NewMessageDedupCache 10 10)) = None"
    by code_simp
  ultimately show ?thesis
    by (simp add: get_ack_def case_prod_unfold message_id_def example_message_def)
qed

lemma example_delivered:
  "h_tracker (snd (handleMessage example_call [] example_served)) =
     emit [Wrote 7 (BuildUserMessage ''hi'')] (h_tracker example_served)"
  "rs_status (fst (handleMessage example_call [] example_served)) = 202"
proof -
  obtain s1 where s1: "get_ack 1 example_message example_served = (None, s1)"
    using example_fresh_message by (cases "get_ack 1 example_message example_served") simp
  then have t: "h_tracker s1 = h_tracker example_served"
    using ack_fields(1)[of 1 example_message example_served] by simp
  have h: "handleMessage example_call [] example_served =
      (writeRawAck \<lparr>ack_status = 202, ack_body = ack_json example_call (mp_message_id example_message)\<rparr>,
       put_ack 1 example_message \<lparr>ack_status = 202, ack_body = ack_json example_call (mp_message_id example_message)\<rparr>
         (publish_opt (user_entry example_message)
           (s1\<lparr>h_tracker := emit [Wrote 7 (BuildUserMessage ''hi'')] (h_tracker example_served)\<rparr>)))"
    using message_accepted[OF example_not_draining, of example_call "[]" example_message s1] example_message_valid s1
      write_key_ok[OF example_message_writer, of "BuildUserMessage (mp_content example_message)" None]
    by (simp add: t Let_def io_result_def) (simp add: example_message_def)
  show "h_tracker (snd (handleMessage example_call [] example_served)) =
      emit [Wrote 7 (BuildUserMessage ''hi'')] (h_tracker example_served)"
    "rs_status (fst (handleMessage example_call [] example_served)) = 202"
    unfolding h by (simp_all add: handler_frame writeRawAck_def respond_def)
qed

theorem message_outcome_witness:
  "rs_status (fst (handleMessage example_call [] example_served)) = 202 \<and>
   h_tracker (snd (handleMessage example_call [] example_served)) =
     emit [Wrote 7 (BuildUserMessage ''hi'')] (h_tracker example_served)"
proof -
  show ?thesis
    using message_outcome[OF example_not_draining, of example_call "[]" example_message]
      example_message_valid example_fresh_message example_message_writer example_delivered
    by (auto simp: writer_at_def Option.bind_eq_Some_conv)
qed

theorem message_reaches_only_its_container_witness:
  "\<exists>k i q. (k, i) \<in> set (containers (h_tracker example_served)) \<and> addressed example_message i \<and>
    stdin_ptr i = Some q \<and> ss_stdin (stdins (h_tracker example_served) ! q) = Some 7"
proof -
  have w: "h_tracker (snd (handleMessage example_call [] example_served)) \<noteq> h_tracker example_served"
    by (simp add: example_delivered example_served_tracker emit_def)
  show ?thesis
    using message_reaches_only_its_container[OF _ example_events_sane example_served_def w]
    by (auto simp: example_server_def example_delivered frame_simps)
qed

end
