(* ===== verification/Retry.thy ===== *)
theory Retry
  imports Identity
begin

text \<open>
  A retried message. The dedup cache as the server drives it: an accepted \<open>/message\<close> looks its id up and
  stores its acknowledgement when it wrote; nothing else touches the cache but its own sweep.
\<close>

section \<open>The dedup cache seen from outside\<close>

lemma message_id_clean:
  assumes "ValidatePayload parse (PMessage (Ptr (Some p))) = None"
  shows "id_clean (message_id p)" and "id_message (message_id p) = mp_message_id p"
proof -
  have m: "CHR 0x00 \<notin> set (mp_message_id p)"
    using assms ident_char_not
    by (auto simp: ValidatePayload_def on_arg_def validateMessage_def message_id_ok_def)
  show "id_clean (message_id p)"
    using assms m ident_ok_not
    by (auto simp: ValidatePayload_def on_arg_def validateMessage_def message_id_def split: if_splits)
qed (simp add: message_id_def)

text \<open>
  What a request does to the cache, as a list of cache operations: at most one of them stores, and only
  under an id that the lookup before it did not find.
\<close>

definition request_effect :: "time \<Rightarrow> dedup_cache \<Rightarrow> dedup_op list \<Rightarrow> bool" where
  "request_effect t c ops \<longleftrightarrow>
     (\<forall>op \<in> set ops. op_clean op \<and> dedup_time op = t) \<and> length (filter puts_any ops) \<le> 1 \<and>
     (\<forall>i. (\<exists>op \<in> set ops. puts_id i op) \<longrightarrow>
        id_clean i \<and> id_message i \<noteq> [] \<and> fst (dedup_lookup t i c) = None)"

lemma no_effect: "request_effect t c [] \<and> dedup_run [] c = c"
  by (simp add: request_effect_def dedup_run_def)

lemma no_effectI: "d = Some c \<Longrightarrow> \<exists>ops. d = Some (dedup_run ops c) \<and> request_effect t c ops"
  using no_effect[of t c] by (intro exI[of _ "[]"]) simp

lemma handle_message_dedup:
  assumes "h_dedup s = Some c"
  shows "\<exists>ops. h_dedup (snd (handleMessage env b s)) = Some (dedup_run ops c) \<and> request_effect (now env) c ops"
proof -
  show ?thesis
  proof (cases "isDraining s \<or> dec_message env b = None")
    case True
    then have "h_dedup (snd (handleMessage env b s)) = Some c" using assms by (auto simp: handleMessage_def)
    then show ?thesis by (rule no_effectI)
  next
    case False
    then obtain p where p: "\<not> isDraining s" "dec_message env b = Some p" by auto
    show ?thesis
    proof (cases "ValidatePayload (url_parse env) (PMessage (Ptr (Some p)))")
      case (Some e)
      then have "h_dedup (snd (handleMessage env b s)) = Some c" using assms p by (simp add: handleMessage_def)
      then show ?thesis by (rule no_effectI)
    next
      case v: None
      note clean = message_id_clean[OF v]
      obtain r s1 where g: "get_ack (now env) p s = (r, s1)" by fastforce
      show ?thesis
      proof (cases "mp_message_id p = []")
        case True
        then have "s1 = s" "r = None" using g assms by (simp_all add: get_ack_def)
        then have "h_dedup (snd (handleMessage env b s)) = Some c"
          using message_accepted[OF p v] g True assms
          by (simp add: Let_def case_prod_unfold put_ack_def publish_opt_def split: option.split)
        then show ?thesis by (rule no_effectI)
      next
        case False
        obtain a c' where l: "dedup_lookup (now env) (message_id p) c = (a, c')" by fastforce
        then have rs: "r = a" "s1 = s\<lparr>h_dedup := Some c'\<rparr>"
          using g False assms by (simp_all add: get_ack_def)
        have c': "c' = dedup_run [OpGet (now env) (message_id p)] c" using l by (simp add: dedup_run_def)
        show ?thesis
        proof (cases a)
          case (Some ack)
          have "\<not> length (mp_content p) > MaxMessageContentBytes"
            using v by (simp add: ValidatePayload_def on_arg_def validateMessage_def content_ok_def MaxMessageContentBytes_def)
          then have "h_dedup (snd (handleMessage env b s)) = Some c'"
            using p v g rs Some by (simp add: handleMessage_def)
          then show ?thesis
            using clean by (intro exI[of _ "[OpGet (now env) (message_id p)]"]) (simp add: c' request_effect_def)
        next
          case None
          let ?ack = "\<lparr>ack_status = 202, ack_body = ack_json env (mp_message_id p)\<rparr>"
          let ?ops = "[OpGet (now env) (message_id p), OpPut (now env) (message_id p) ?ack]"
          have g0: "get_ack (now env) p s = (None, s1)" using g rs None by simp
          have "h_dedup (snd (handleMessage env b s)) = Some c' \<or>
              h_dedup (snd (handleMessage env b s)) = Some (dedup_run ?ops c)"
            using rs False
            by (simp add: message_accepted[OF p v g0] Let_def case_prod_unfold put_ack_def publish_opt_def
                c' dedup_run_def split: option.split)
          then show ?thesis
          proof
            assume "h_dedup (snd (handleMessage env b s)) = Some c'"
            then show ?thesis
              using clean by (intro exI[of _ "[OpGet (now env) (message_id p)]"]) (simp add: c' request_effect_def)
          next
            assume "h_dedup (snd (handleMessage env b s)) = Some (dedup_run ?ops c)"
            then show ?thesis
              using clean l None False by (intro exI[of _ ?ops]) (auto simp: request_effect_def)
          qed
        qed
      qed
    qed
  qed
qed

lemma route_dedup:
  assumes "r \<noteq> RMessage"
  shows "h_dedup (snd (handle_route cfg env r uri b s)) = h_dedup s"
  using assms
  by (cases r) (simp_all add: handle_route_def answered_def handler_frame open_logs_def handleListContainers_def
      Let_def split: prod.split option.split)

text \<open>What one event does to the cache, as cache operations.\<close>

definition cache_effect :: "time \<Rightarrow> dedup_cache \<Rightarrow> dedup_op list \<Rightarrow> bool" where
  "cache_effect t0 c ops \<longleftrightarrow>
     (\<forall>op \<in> set ops. op_clean op \<and> dedup_time op < t0) \<and>
     (\<forall>i. (\<exists>op \<in> set ops. puts_id i op) \<longrightarrow>
        id_clean i \<and> id_message i \<noteq> [] \<and> (\<exists>u < t0. fst (dedup_lookup u i c) = None))"

lemma serve_dedup:
  assumes "h_dedup s = Some c" and "now env < t0"
  shows "\<exists>ops. h_dedup (snd (serve cfg verify env rq s)) = Some (dedup_run ops c) \<and>
    cache_effect t0 c ops \<and> length (filter puts_any ops) \<le> 1"
proof (cases "admitted cfg verify env rq s")
  case True
  obtain r content where e: "serve cfg verify env rq s =
      handle_route cfg env r (rq_uri rq) content (snd (seen_opt (now env) (trim_sha (rq_signature rq)) s))"
    using True by (rule admitted_serve)
  let ?s = "snd (seen_opt (now env) (trim_sha (rq_signature rq)) s)"
  have c: "h_dedup ?s = Some c" using assms(1) by (simp add: seen_opt_fields)
  show ?thesis
  proof (cases "r = RMessage")
    case True
    have n: "now (call_env.truncate env) = now env" by (simp add: call_env.defs)
    obtain ops where o: "h_dedup (snd (handleMessage (call_env.truncate env) content ?s)) = Some (dedup_run ops c)"
      "request_effect (now env) c ops"
      using handle_message_dedup[OF c, of "call_env.truncate env" content] unfolding n by blast
    have "cache_effect t0 c ops" "length (filter puts_any ops) \<le> 1"
      using o(2) assms(2) unfolding cache_effect_def request_effect_def by auto
    moreover have "h_dedup (snd (serve cfg verify env rq s)) = Some (dedup_run ops c)"
      using o(1) by (simp add: e True handle_route_def answered_def)
    ultimately show ?thesis by blast
  next
    case False
    then show ?thesis
      using route_dedup[OF False] c by (intro exI[of _ "[]"]) (simp add: e dedup_run_def cache_effect_def)
  qed
next
  case False
  then have "snd (serve cfg verify env rq s) = s" using not_admitted(1) unprotected_state by blast
  then show ?thesis using assms by (intro exI[of _ "[]"]) (simp add: dedup_run_def cache_effect_def)
qed

lemma event_dedup:
  assumes "h_dedup s = Some c" and "event_before t0 ev"
  shows "\<exists>ops. h_dedup (serve_event cfg verify ev s) = Some (dedup_run ops c) \<and>
    cache_effect t0 c ops \<and> length (filter puts_any ops) \<le> (if is_request ev then 1 else 0)"
proof (cases ev)
  case (Request env rq)
  then show ?thesis using serve_dedup[OF assms(1), of env t0] assms(2) by (simp add: serve_event_def)
next
  case (DedupSweep t)
  then show ?thesis using assms
    by (intro exI[of _ "[OpSweep t]"]) (simp add: serve_event_def dedup_run_def cache_effect_def)
qed (use assms in \<open>auto simp: serve_event_def dedup_run_def cache_effect_def intro: exI[of _ "[]"]\<close>)

text \<open>
  While an acknowledgement is alive nothing stores under its id again: a retry in between is
  answered from the cache too.
\<close>

lemma events_keep_ack:
  assumes "h_dedup s = Some (dedup_store u i a c)" and "dedup_ok c" and "id_clean i" and "id_message i \<noteq> []"
    and "0 < ttl c" and "\<forall>ev \<in> set evs. event_before (u + ttl c) ev"
    and "capacity c \<le> 0 \<or> int (length (filter is_request evs)) < capacity c"
  shows "\<exists>ops. h_dedup (serve_all cfg verify evs s) = Some (dedup_run ops (dedup_store u i a c)) \<and>
    (\<forall>op \<in> set ops. op_clean op \<and> \<not> puts_id i op \<and> dedup_time op < u + ttl c) \<and>
    length (filter puts_any ops) \<le> length (filter is_request evs)"
  using assms(6,7)
proof (induction evs rule: rev_induct)
  case Nil
  then show ?case using assms(1) by (intro exI[of _ "[]"]) (simp add: serve_all_def dedup_run_def)
next
  case (snoc ev evs)
  have cap: "capacity c \<le> 0 \<or> int (length (filter is_request evs)) < capacity c"
    using snoc.prems(2) by (auto split: if_splits)
  obtain ops where o: "h_dedup (serve_all cfg verify evs s) = Some (dedup_run ops (dedup_store u i a c))"
    "\<forall>op \<in> set ops. op_clean op \<and> \<not> puts_id i op \<and> dedup_time op < u + ttl c"
    "length (filter puts_any ops) \<le> length (filter is_request evs)"
    using snoc.IH[OF _ cap] snoc.prems(1) by auto
  obtain new where n: "h_dedup (serve_event cfg verify ev (serve_all cfg verify evs s)) =
      Some (dedup_run new (dedup_run ops (dedup_store u i a c)))"
    "cache_effect (u + ttl c) (dedup_run ops (dedup_store u i a c)) new"
    "length (filter puts_any new) \<le> (if is_request ev then 1 else 0)"
    using event_dedup[OF o(1), of "u + ttl c" ev cfg verify] snoc.prems(1) by auto
  have hit: "fst (dedup_lookup v i (dedup_run ops (dedup_store u i a c))) = Some a" if "v < u + ttl c" for v
  proof (rule stored_stays[OF assms(2-4)])
    show "\<forall>op \<in> set ops. op_clean op \<and> \<not> puts_id i op" using o(2) by blast
    show "ttl c \<le> 0 \<or> (\<forall>op \<in> set ops. dedup_time op - u < ttl c)" using o(2) by fastforce
    show "capacity c \<le> 0 \<or> int (length (filter puts_any ops)) < capacity c" using o(3) cap by linarith
    show "ttl c \<le> 0 \<or> v - u \<le> ttl c" using that by linarith
  qed
  have "\<forall>op \<in> set new. op_clean op \<and> \<not> puts_id i op \<and> dedup_time op < u + ttl c"
    using n(2) hit unfolding cache_effect_def by fastforce
  moreover have "h_dedup (serve_all cfg verify (evs @ [ev]) s) = Some (dedup_run (ops @ new) (dedup_store u i a c))"
    using n(1) by (simp add: serve_all_def dedup_run_def)
  moreover have "length (filter puts_any (ops @ new)) \<le> length (filter is_request (evs @ [ev]))"
    using o(3) n(3) by (simp split: if_splits)
  ultimately show ?case using o(2) by (intro exI[of _ "ops @ new"]) auto
qed

section \<open>Retrying a message\<close>

lemma dedup_run_new:
  "dedup_ok (dedup_run ops (NewMessageDedupCache t cap))" "ttl (dedup_run ops (NewMessageDedupCache t cap)) = t"
  "capacity (dedup_run ops (NewMessageDedupCache t cap)) = cap"
  using dedup_run_ok[OF dedup_ok_new, of ops t cap] kv_dedup_fields[OF dedup_ok_new[of t cap]]
  by (simp_all add: dedup_run_kv)

lemma answered_202:
  assumes "\<not> isDraining s" and "dec_message env b = Some p"
    and "ValidatePayload (url_parse env) (PMessage (Ptr (Some p))) = None"
    and "mp_message_id p \<noteq> []" and "h_dedup s = Some c" and "fst (get_ack (now env) p s) = None"
    and "rs_status (fst (handleMessage env b s)) = 202"
  defines "a \<equiv> \<lparr>ack_status = 202, ack_body = ack_json env (mp_message_id p)\<rparr>"
  shows "fst (handleMessage env b s) = writeRawAck a"
    and "h_dedup (snd (handleMessage env b s)) =
      Some (dedup_store (now env) (message_id p) a (dedup_run [OpGet (now env) (message_id p)] c))"
proof -
  obtain s1 where g: "get_ack (now env) p s = (None, s1)" using assms(6) by (cases "get_ack (now env) p s") simp
  then have d: "h_dedup s1 = Some (dedup_run [OpGet (now env) (message_id p)] c)"
    using assms(4,5) by (cases "dedup_lookup (now env) (message_id p) c") (auto simp: get_ack_def dedup_run_def)
  obtain e t where w: "write_key (msg_key p) (BuildUserMessage (mp_content p)) (write_error env) (h_tracker s1) = (e, t)"
    by fastforce
  note h = message_accepted[OF assms(1-3) g, unfolded w]
  have k: "has_key (msg_key p) (h_tracker s1) \<and> e = None"
    using assms(7) by (cases e) (auto simp: h writeError_def respond_def stdin_error_def split: if_splits tracker_error.splits)
  show "fst (handleMessage env b s) = writeRawAck a" using k by (simp add: h a_def Let_def)
  show "h_dedup (snd (handleMessage env b s)) =
      Some (dedup_store (now env) (message_id p) a (dedup_run [OpGet (now env) (message_id p)] c))"
    using k d assms(4) by (simp add: h a_def Let_def put_ack_def publish_opt_def)
qed

text \<open>
  C28. A retried message is answered, not repeated. Once \<open>/message\<close> answered 202 for a message id, every request
  with the same id and address gets the byte-identical acknowledgement and nothing is written to the
  container, published or called again (the registry, the broadcaster and the call log stay as they are):
  whatever requests, retries included, sweeps and manager operations came in between, within the TTL
  of the dedup cache and with fewer than \<open>capacity\<close> requests in between. Handlers run one at a time here; of two
  copies served at once, both may miss the cache.
\<close>

theorem message_retry_answered_from_cache:
  assumes "h_dedup s = Some (dedup_run before (NewMessageDedupCache t cap))" and "0 < t"
    and "\<not> isDraining s" and "dec_message env b = Some p"
    and "ValidatePayload (url_parse env) (PMessage (Ptr (Some p))) = None"
    and "mp_message_id p \<noteq> []" and "fst (get_ack (now env) p s) = None"
    and "rs_status (fst (handleMessage env b s)) = 202"
    and "\<forall>ev \<in> set evs. event_before (now env + t) ev"
    and "cap \<le> 0 \<or> int (length (filter is_request evs)) < cap"
    and "s2 = serve_all cfg verify evs (snd (handleMessage env b s))"
    and "\<not> isDraining s2" and "dec_message env' b' = Some p'"
    and "ValidatePayload (url_parse env') (PMessage (Ptr (Some p'))) = None"
    and "message_id p' = message_id p" and "now env' \<le> now env + t"
  shows "fst (handleMessage env' b' s2) = fst (handleMessage env b s) \<and>
    h_tracker (snd (handleMessage env' b' s2)) = h_tracker s2 \<and>
    h_bcast (snd (handleMessage env' b' s2)) = h_bcast s2 \<and> h_calls (snd (handleMessage env' b' s2)) = h_calls s2"
proof -
  let ?i = "message_id p"
  let ?c0 = "dedup_run before (NewMessageDedupCache t cap)"
  let ?c = "dedup_run [OpGet (now env) ?i] ?c0"
  let ?a = "\<lparr>ack_status = 202, ack_body = ack_json env (mp_message_id p)\<rparr>"
  have c: "?c = dedup_run (before @ [OpGet (now env) ?i]) (NewMessageDedupCache t cap)"
    by (simp add: dedup_run_def)
  have ok: "dedup_ok ?c" "ttl ?c = t" "capacity ?c = cap"
    unfolding c by (rule dedup_run_new)+
  note clean = message_id_clean[OF assms(5)]
  note r = answered_202[OF assms(3-6) assms(1) assms(7,8)]
  have im: "id_message ?i \<noteq> []" using clean(2) assms(6) by simp
  obtain ops where o: "h_dedup s2 = Some (dedup_run ops (dedup_store (now env) ?i ?a ?c))"
    "\<forall>op \<in> set ops. op_clean op \<and> \<not> puts_id ?i op \<and> dedup_time op < now env + t"
    "length (filter puts_any ops) \<le> length (filter is_request evs)"
    using events_keep_ack[OF r(2) ok(1) clean(1) im, of evs cfg verify] assms(2,9,10,11) ok(2,3) by auto
  have hit: "fst (dedup_lookup (now env') ?i (dedup_run ops (dedup_store (now env) ?i ?a ?c))) = Some ?a"
  proof (rule stored_stays[OF ok(1) clean(1) im])
    show "\<forall>op \<in> set ops. op_clean op \<and> \<not> puts_id ?i op" using o(2) by blast
    show "ttl ?c \<le> 0 \<or> (\<forall>op \<in> set ops. dedup_time op - now env < ttl ?c)" using o(2) ok(2) by fastforce
    show "capacity ?c \<le> 0 \<or> int (length (filter puts_any ops)) < capacity ?c"
      using o(3) assms(10) ok(3) by linarith
    show "ttl ?c \<le> 0 \<or> now env' - now env \<le> ttl ?c" using assms(16) ok(2) by linarith
  qed
  have "mp_message_id p' = id_message (message_id p')" using message_id_clean(2)[OF assms(14)] by simp
  then have m': "mp_message_id p' \<noteq> []" using assms(15) im by simp
  obtain s3 where g: "get_ack (now env') p' s2 = (Some ?a, s3)"
    using hit o(1) m' assms(15) by (cases "dedup_lookup (now env') ?i (dedup_run ops (dedup_store (now env) ?i ?a ?c))")
      (auto simp: get_ack_def)
  have "\<not> length (mp_content p') > MaxMessageContentBytes"
    using assms(14) by (simp add: ValidatePayload_def on_arg_def validateMessage_def content_ok_def MaxMessageContentBytes_def)
  then have "handleMessage env' b' s2 = (writeRawAck ?a, s3)"
    using assms(12-14) g by (simp add: handleMessage_def)
  then show ?thesis using r(1) ack_fields(1,3,5)[of "now env'" p' s2] g by simp
qed

theorem message_retry_answered_from_cache_witness:
  "fst (handleMessage (example_call\<lparr>now := 4\<rparr>) [] (snd (handleMessage example_call [] example_served)))
     = fst (handleMessage example_call [] example_served) \<and>
   trace (h_tracker (snd (handleMessage (example_call\<lparr>now := 4\<rparr>) []
       (snd (handleMessage example_call [] example_served))))) =
     [Wrote 7 (BuildUserMessage ''hi''), Attached (Some 7) (Some 8)]"
proof -
  have d: "h_dedup example_served = Some (dedup_run [] (NewMessageDedupCache 10 10))"
    by (simp add: example_served_fields example_server_def dedup_run_def)
  have drain: "\<not> isDraining (snd (handleMessage example_call [] example_served))"
    using example_not_draining by (simp add: isDraining_def handler_frame)
  have st: "rs_status (fst (handleMessage example_call [] example_served)) = 202"
    by (rule example_delivered)
  have m: "mp_message_id example_message \<noteq> []" by (simp add: example_message_def)
  show ?thesis
    using message_retry_answered_from_cache[OF d _ example_not_draining _ _ m _ st, of "[]"
        "snd (handleMessage example_call [] example_served)" example_cfg example_verify
        "example_call\<lparr>now := 4\<rparr>" "[]" example_message]
      example_message_valid example_fresh_message drain
    by (simp add: serve_all_def example_delivered(1) example_served_tracker frame_simps)
qed

end
