(* ===== verification/Endpoint_Props.thy ===== *)
theory Endpoint_Props
  imports Identity
begin

text \<open>
  Properties of the single endpoints: promotion is fail-closed, a draining server starts nothing,
  \<open>/trigger\<close> reserves before it starts, \<open>/stop-all\<close> accounts for every target, and \<open>/chat/start\<close> either
  leaves a tracked session with its stdin attached or stops the container it started.
\<close>

section \<open>Promotion\<close>

lemma write_then_close:
  assumes "writer_at k t = Some w"
  shows "trace (snd (close_key k io (emit es t))) = Closed w # rev es @ trace t"
  using assms
  by (auto simp: writer_at_def Option.bind_eq_Some_conv close_key_def capture_def close_locked_def
      set_writer_def frame_simps)

lemma promote_checked:
  assumes "h_tracker (snd (handlePromote cfg env b s)) \<noteq> h_tracker s"
  obtains p where "\<not> isDraining s" "dec_card env b = Some p" "has_cmClient cfg"
    "ValidatePayload (url_parse env) (PPromote (Ptr (Some p))) = None"
    "has_key (tkey (cp_project p) (cp_card p)) (h_tracker s)"
    "verify_autonomous env (cp_project p) (cp_card p) = Some True"
proof -
  have "\<not> isDraining s" using assms by (auto simp: handlePromote_def)
  moreover obtain p where p: "dec_card env b = Some p"
    using assms by (cases "dec_card env b") (auto simp: handlePromote_def)
  moreover have v: "ValidatePayload (url_parse env) (PPromote (Ptr (Some p))) = None"
    using assms p by (cases "ValidatePayload (url_parse env) (PPromote (Ptr (Some p)))") (auto simp: handlePromote_def)
  moreover have h: "Has (cp_project p) (cp_card p) (h_tracker s)"
    using assms p v by (auto simp: handlePromote_def split: if_splits)
  moreover have c: "has_cmClient cfg"
    using assms p v h by (auto simp: handlePromote_def split: if_splits)
  moreover have "verify_autonomous env (cp_project p) (cp_card p) = Some True"
    using assms p v h c
    by (cases "verify_autonomous env (cp_project p) (cp_card p)") (auto simp: handlePromote_def split: if_splits bool.splits)
  ultimately show thesis using that by (simp add: Has_def has_key_def)
qed

lemma promote_accepted:
  assumes "\<not> isDraining s" and "dec_card env b = Some p" and "has_cmClient cfg"
    and "ValidatePayload (url_parse env) (PPromote (Ptr (Some p))) = None"
    and "has_key (tkey (cp_project p) (cp_card p)) (h_tracker s)"
    and "verify_autonomous env (cp_project p) (cp_card p) = Some True"
  shows "handlePromote cfg env b s =
    (case write_key (tkey (cp_project p) (cp_card p)) (BuildUserMessage autonomousContent) (write_error env) (h_tracker s) of
       (Some e, t) \<Rightarrow> (stdin_error e, s\<lparr>h_tracker := t\<rparr>)
     | (None, t) \<Rightarrow>
         let s1 = publish_opt (system_entry p ''promoted to autonomous mode'') (s\<lparr>h_tracker := t\<rparr>)
         in (writeSuccess 202 [],
             s1\<lparr>h_tracker := snd (close_key (tkey (cp_project p) (cp_card p)) (close_error env) (h_tracker s1))\<rparr>))"
proof -
  have "Has (cp_project p) (cp_card p) (h_tracker s)" using assms(5) by (simp add: Has_def has_key_def)
  then show ?thesis unfolding handlePromote_def op_defs Let_def using assms by simp
qed

text \<open>
  Promotion is fail-closed. \<open>/promote\<close> touches a container only if the server is not draining, the
  card is tracked and ContextMatrix itself confirmed that the card's autonomous flag is set (an error
  of that call, or no client to ask, is a refusal). Then it writes the one promotion line to the
  container's stdin and, if that succeeded, closes the stdin right after it and answers 202; if
  the write failed it answers 500 and leaves the stdin open.
\<close>

theorem promote_fail_closed:
  assumes "h_tracker (snd (handlePromote cfg env b s)) \<noteq> h_tracker s"
  shows "\<exists>p w. \<not> isDraining s \<and> dec_card env b = Some p \<and> has_cmClient cfg \<and>
    verify_autonomous env (cp_project p) (cp_card p) = Some True \<and>
    writer_at (tkey (cp_project p) (cp_card p)) (h_tracker s) = Some w \<and>
    (if write_error env = None
     then rs_status (fst (handlePromote cfg env b s)) = 202 \<and>
       trace (h_tracker (snd (handlePromote cfg env b s))) =
         Closed w # Wrote w (BuildUserMessage autonomousContent) # trace (h_tracker s)
     else rs_status (fst (handlePromote cfg env b s)) = 500 \<and>
       trace (h_tracker (snd (handlePromote cfg env b s))) =
         Wrote w (BuildUserMessage autonomousContent) # trace (h_tracker s))"
proof -
  obtain p where p: "\<not> isDraining s" "dec_card env b = Some p" "has_cmClient cfg"
    "ValidatePayload (url_parse env) (PPromote (Ptr (Some p))) = None"
    "has_key (tkey (cp_project p) (cp_card p)) (h_tracker s)"
    "verify_autonomous env (cp_project p) (cp_card p) = Some True"
    using assms by (rule promote_checked)
  let ?k = "tkey (cp_project p) (cp_card p)"
  let ?m = "BuildUserMessage autonomousContent"
  note eq = promote_accepted[OF p(1-6)]
  show ?thesis
  proof (cases "writer_at ?k (h_tracker s)")
    case None
    then have "snd (write_key ?k ?m (write_error env) (h_tracker s)) = h_tracker s"
      by (simp add: write_key_trace)
    moreover have "fst (write_key ?k ?m (write_error env) (h_tracker s)) \<noteq> None"
      using None by (auto simp: write_key_eq writer_at_def split: option.splits)
    ultimately have "h_tracker (snd (handlePromote cfg env b s)) = h_tracker s"
      by (auto simp: eq case_prod_unfold split: option.splits)
    with assms show ?thesis by blast
  next
    case (Some w)
    have "write_key ?k ?m (write_error env) (h_tracker s) = (io_result (write_error env), emit [Wrote w ?m] (h_tracker s))"
      using write_key_ok[OF Some] by blast
    then have "if write_error env = None
       then rs_status (fst (handlePromote cfg env b s)) = 202 \<and>
         trace (h_tracker (snd (handlePromote cfg env b s))) = Closed w # Wrote w ?m # trace (h_tracker s)
       else rs_status (fst (handlePromote cfg env b s)) = 500 \<and>
         trace (h_tracker (snd (handlePromote cfg env b s))) = Wrote w ?m # trace (h_tracker s)"
      using write_then_close[OF Some, of _ "[Wrote w ?m]"]
      by (cases "write_error env")
        (simp_all add: eq io_result_def Let_def handler_frame writeSuccess_def respond_def stdin_error_def writeError_def frame_simps)
    then show ?thesis using p(1-3,6) Some by blast
  qed
qed

lemma example_promoted: "h_tracker (snd (handlePromote example_cfg example_call [] example_served)) \<noteq> h_tracker example_served"
proof -
  have w: "writer_at (tkey (cp_project example_card) (cp_card example_card)) (h_tracker example_served) = Some 7"
    using example_message_writer by (simp add: example_message_def msg_key_def example_card_def)
  have v: "ValidatePayload (url_parse example_call) (PPromote (Ptr (Some example_card))) = None" by code_simp
  have d: "dec_card example_call [] = Some example_card" "has_cmClient example_cfg"
    "verify_autonomous example_call (cp_project example_card) (cp_card example_card) = Some True"
    by (simp_all add: example_call_def example_env_def call_env.defs example_cfg_def)
  have k: "has_key (tkey (cp_project example_card) (cp_card example_card)) (h_tracker example_served)"
    using write_key_ok[OF w] by blast
  have "trace (h_tracker (snd (handlePromote example_cfg example_call [] example_served))) \<noteq> trace (h_tracker example_served)"
    using write_then_close[OF w, of _ "[Wrote 7 (BuildUserMessage autonomousContent)]"]
    unfolding promote_accepted[OF example_not_draining d(1,2) v k d(3)] write_key_ok[OF w, THEN conjunct2]
    by (simp add: io_result_def Let_def handler_frame)
  then show ?thesis by metis
qed

theorem promote_fail_closed_witness:
  "writer_at ''alpha/ALPHA-001'' (h_tracker example_served) = Some 7 \<and>
   rs_status (fst (handlePromote example_cfg example_call [] example_served)) = 202"
proof -
  have d: "dec_card example_call [] = Some example_card"
    by (simp add: example_call_def example_env_def call_env.defs)
  have "writer_at (tkey ''alpha'' ''ALPHA-001'') (h_tracker example_served) = Some 7"
    using example_message_writer by (simp add: example_message_def msg_key_def)
  then show ?thesis
    using promote_fail_closed[OF example_promoted] d by (auto simp: tkey_def example_card_def)
qed

section \<open>Triggers\<close>

text \<open>
  C30. \<open>/trigger\<close> reserves before it starts. It hands a card to the manager exactly when it answers 202,
  and then exactly once, for a card that was not tracked, is tracked now and fits the limit; with any
  other answer nothing was started, the tracked set is unchanged and the context made for the
  run is cancelled: 429 exactly when a valid trigger found the limit reached, and 409 exactly when
  there was room but the card was already tracked.
\<close>

theorem trigger_starts_reserved:
  fixes cfg :: handler_config
  assumes "tracker_ok (h_tracker s)" and "\<not> isDraining s" and "dec_trigger env b = Some p"
    and "ValidatePayload (url_parse env) (PTrigger (Ptr (Some p))) = None"
  defines "out \<equiv> handleTrigger cfg env b s" and "k \<equiv> tkey (tp_project p) (tp_card p)"
  shows "(rs_status (fst out) = 202 \<and> h_calls (snd out) = h_calls s @ [CallRun p] \<and>
       \<not> has_key k (h_tracker s) \<and> has_key k (h_tracker (snd out)) \<and>
       int (Count (h_tracker (snd out))) \<le> maxConcurrent cfg \<and> Count (h_tracker (snd out)) = Suc (Count (h_tracker s)))
    \<or> (h_calls (snd out) = h_calls s \<and> containers (h_tracker (snd out)) = containers (h_tracker s) \<and>
       trace (h_tracker (snd out)) = Cancelled (cancel_of env) # trace (h_tracker s) \<and>
       (rs_status (fst out) = 429 \<and> int (Count (h_tracker s)) \<ge> maxConcurrent cfg \<or>
        rs_status (fst out) = 409 \<and> int (Count (h_tracker s)) < maxConcurrent cfg \<and> has_key k (h_tracker s)))"
proof -
  let ?i = "card_info env b p"
  let ?t = "h_tracker s"
  have ki: "card_key ?i = k" and det: "detached ?i" by (simp_all add: card_info_def k_def)
  obtain r t where rt: "AddIfUnderLimit ?i (maxConcurrent cfg) ?t = (r, t)" by fastforce
  note o = trigger_valid[OF assms(2-4) rt, folded out_def]
  have cancelled: "trace (cancel_ctx env u) = Cancelled (cancel_of env) # trace u"
    "containers (cancel_ctx env u) = containers u" for u
    by (simp_all add: cancel_ctx_def frame_simps)
  show ?thesis
  proof (cases r)
    case None
    then have a: "fst (AddIfUnderLimit ?i (maxConcurrent cfg) ?t) = None" using rt by simp
    have "int (Count ?t) < maxConcurrent cfg" "\<not> has_key k ?t"
      using cards.reserve_iff[OF assms(1), of ?i] a ki by simp_all
    moreover have "Count t = Suc (Count ?t)" "has_key k t"
      using cards.reserve_count[OF assms(1) a] cards.reserve_member[OF assms(1) a] rt ki by simp_all
    ultimately show ?thesis
      using None by (simp add: o handler_frame writeSuccess_def respond_def)
  next
    case (Some e)
    then have f: "fst (AddIfUnderLimit ?i (maxConcurrent cfg) ?t) = Some e" and t: "t = ?t"
      using rt cards.reserve_fail[OF assms(1), of ?i "maxConcurrent cfg"] by auto
    show ?thesis
    proof (cases "int (Count ?t) \<ge> maxConcurrent cfg")
      case True
      then have "e = ErrLimitReached" using f by (simp add: AddIfUnderLimit_def)
      then show ?thesis using Some t True by (simp add: o cancelled writeError_def respond_def)
    next
      case False
      then have h: "has_key k ?t" using cards.reserve_iff[OF assms(1), of ?i "maxConcurrent cfg"] f ki by auto
      then have "e = ErrAlreadyTracked"
        using f False ki by (auto simp: AddIfUnderLimit_def add_key_def has_key_def split: option.splits)
      then show ?thesis using Some t False h by (simp add: o cancelled writeError_def respond_def)
    qed
  qed
qed

theorem trigger_starts_reserved_witness:
  "rs_status (fst (handleTrigger example_cfg example_call [] example_server)) = 202 \<and>
   h_calls (snd (handleTrigger example_cfg example_call [] example_server)) = [CallRun example_trigger] \<and>
   int (Count (h_tracker (snd (handleTrigger example_cfg example_call [] example_server)))) \<le> 2"
proof -
  have d: "dec_trigger example_call [] = Some example_trigger"
    by (simp add: example_call_def example_env_def call_env.defs)
  have v: "ValidatePayload (url_parse example_call) (PTrigger (Ptr (Some example_trigger))) = None" by code_simp
  have s: "tracker_ok (h_tracker example_server)" "\<not> isDraining example_server" "h_calls example_server = []"
    by (simp_all add: example_server_def tracker_ok_new isDraining_def)
  have n: "int (Count (h_tracker example_server)) = 0" "maxConcurrent example_cfg = 2"
    "\<And>k. \<not> has_key k (h_tracker example_server)"
    by (simp_all add: example_server_def tracker_New_def Count_def example_cfg_def has_key_def lookup_key_def)
  show ?thesis
    using trigger_starts_reserved[OF s(1,2) d v, of example_cfg] by (auto simp: s(3) n)
qed

section \<open>Stopping everything\<close>

definition kill_call :: "container_snapshot \<Rightarrow> manager_call" where
  "kill_call i = (if sn_SessionID i \<noteq> [] then CallKillChat (sn_SessionID i) else CallKill (sn_Project i) (sn_CardID i))"

definition kill_works :: "call_env \<Rightarrow> container_snapshot \<Rightarrow> bool" where
  "kill_works env i = (if sn_SessionID i \<noteq> [] then kill_chat_ok env (sn_SessionID i)
     else kill_ok env (sn_Project i) (sn_CardID i))"

definition kill_entry :: "call_env \<Rightarrow> container_snapshot \<Rightarrow> kill_result" where
  "kill_entry env i = \<lparr>kr_card = (if sn_SessionID i \<noteq> [] then [] else sn_CardID i), kr_session = sn_SessionID i,
     kr_project = sn_Project i, kr_ok = kill_works env i,
     kr_error = (if kill_works env i then [] else ''kill failed'')\<rparr>"

lemma stop_one_spec:
  "stop_one env i (rs, a, f, s) =
    (rs @ [kill_entry env i], if kill_works env i then a + 1 else a, if kill_works env i then f else f + 1,
     call (kill_call i) s)"
  by (simp add: stop_one_def Let_def kill_entry_def kill_works_def kill_call_def)

lemma calls_append: "s\<lparr>h_calls := h_calls s @ [c]\<rparr> = call c s"
  by (simp add: call_def)

lemma fold_stop_spec:
  "fold (stop_one env) ts (rs, a, f, s) =
    (rs @ map (kill_entry env) ts, a + length (filter (kill_works env) ts),
     f + length (filter (\<lambda>i. \<not> kill_works env i) ts), s\<lparr>h_calls := h_calls s @ map kill_call ts\<rparr>)"
  by (induction ts arbitrary: rs a f s) (simp_all add: stop_one_spec call_def)

text \<open>
  \<open>/stop-all\<close> accounts for every target. It tries each tracked container (of the project, if one is
  given) exactly once and in order, chat sessions through the chat path; the response has one result
  per target, \<open>total = stopped + failed\<close>, and is 207 with \<open>ok = false\<close> exactly when a kill failed: a failure
  does not end the loop.
\<close>

theorem stop_all_accounts:
  fixes s :: handler_state
  assumes "dec_stop_all env b = Some project"
    and "ValidatePayload (url_parse env) (PStopAll (Ptr (Some project))) = None"
  defines "targets \<equiv> stop_targets project (h_tracker s)"
  shows "\<exists>stopped failed. handleStopAll env b s =
      (respond (if failed > 0 then 207 else 200)
         (BStopAll (failed = 0) (length targets) stopped failed (map (kill_entry env) targets)),
       s\<lparr>h_calls := h_calls s @ map kill_call targets\<rparr>) \<and>
    stopped + failed = length targets \<and> (failed = 0 \<longleftrightarrow> (\<forall>i \<in> set targets. kill_works env i))"
proof -
  let ?a = "length (filter (kill_works env) targets)"
  let ?f = "length (filter (\<lambda>i. \<not> kill_works env i) targets)"
  have "handleStopAll env b s =
      (respond (if ?f > 0 then 207 else 200) (BStopAll (?f = 0) (length targets) ?a ?f (map (kill_entry env) targets)),
       s\<lparr>h_calls := h_calls s @ map kill_call targets\<rparr>)"
    by (simp add: handleStopAll_def targets_def assms(1,2) fold_stop_spec Let_def)
  moreover have "?a + ?f = length targets" by (rule sum_length_filter_compl)
  moreover have "?f = 0 \<longleftrightarrow> (\<forall>i \<in> set targets. kill_works env i)" by (simp add: filter_empty_conv)
  ultimately show ?thesis by blast
qed

theorem stop_all_accounts_witness:
  "rs_status (fst (handleStopAll example_call [] example_served)) = 200 \<and>
   h_calls (snd (handleStopAll example_call [] example_served)) =
     h_calls example_served @ [CallKill ''alpha'' ''ALPHA-001'']"
proof -
  have d: "dec_stop_all example_call [] = Some []" and k: "kill_ok example_call p c"
    for p c by (simp_all add: example_call_def example_env_def call_env.defs)
  have v: "ValidatePayload (url_parse example_call) (PStopAll (Ptr (Some []))) = None" by code_simp
  have t: "stop_targets [] (h_tracker example_served) =
    [\<lparr>sn_ContainerID = [], sn_CardID = ''ALPHA-001'', sn_Project = ''alpha'', sn_SessionID = [],
      sn_Image = [], sn_StartedAt = 0\<rparr>]"
    by (simp add: example_served_tracker) code_simp
  show ?thesis
    using stop_all_accounts[OF d v, of example_served]
    by (auto simp: t kill_works_def kill_call_def k respond_def)
qed

section \<open>Draining\<close>

fun stopping_call :: "manager_call \<Rightarrow> bool" where
  "stopping_call (CallKill _ _) = True" | "stopping_call (CallKillChat _) = True"
| "stopping_call (CallForceRemove _ _) = True" | "stopping_call CallListManaged = True" | "stopping_call _ = False"

definition only_stops :: "handler_state \<Rightarrow> handler_state \<Rightarrow> bool" where
  "only_stops s s' \<longleftrightarrow> ids_kept (h_tracker s) (h_tracker s') \<and> h_health s' = h_health s \<and>
     (\<exists>cs. h_calls s' = h_calls s @ cs \<and> list_all stopping_call cs)"

lemma only_stops_refl: "only_stops s s"
  by (simp add: only_stops_def kept_same)

lemma only_stops_trans: "only_stops a b \<Longrightarrow> only_stops b c \<Longrightarrow> only_stops a c"
  by (auto simp: only_stops_def intro: kept_trans)

lemma stop_all_calls: "\<exists>cs. h_calls (snd (handleStopAll env b s)) = h_calls s @ cs \<and> list_all stopping_call cs"
proof -
  have "list_all stopping_call (map kill_call ts)" for ts by (induction ts) (auto simp: kill_call_def)
  then show ?thesis
    by (auto simp: handleStopAll_def fold_stop_spec Let_def split: option.split)
qed

lemma kill_calls: "\<exists>cs. h_calls (snd (handleKill env b s)) = h_calls s @ cs \<and> list_all stopping_call cs"
  unfolding handleKill_def Let_def by (simp split: option.split add: handler_frame)

lemma draining_route:
  assumes "isDraining s"
  shows "only_stops s (snd (handle_route cfg env r uri b s))"
  using assms kill_calls[of "call_env.truncate env" b s] stop_all_calls[of "call_env.truncate env" b s]
  by (cases r)
    (simp_all add: handle_route_def answered_def only_stops_def handleTrigger_def handleMessage_def handlePromote_def
      handleEndSession_def handleChatStart_def handleChatEnd_def handler_frame kept_same open_logs_def
      handleListContainers_def Let_def split: prod.split option.split)

lemma draining_event:
  assumes "isDraining s"
  shows "only_stops s (serve_event cfg verify ev s)"
proof (cases ev)
  case (Request env rq)
  show ?thesis
  proof (cases "admitted cfg verify env rq s")
    case True
    then obtain r content where e: "serve cfg verify env rq s =
        handle_route cfg env r (rq_uri rq) content (snd (seen_opt (now env) (trim_sha (rq_signature rq)) s))"
      by (rule admitted_serve)
    let ?s = "snd (seen_opt (now env) (trim_sha (rq_signature rq)) s)"
    have "only_stops s ?s" by (simp add: only_stops_def seen_opt_fields kept_same)
    moreover have "isDraining ?s" using assms by (simp add: isDraining_def seen_opt_fields)
    ultimately show ?thesis
      using only_stops_trans draining_route by (simp add: Request serve_event_def e)
  next
    case False
    then have "snd (serve cfg verify env rq s) = s" using not_admitted(1) unprotected_state by blast
    then show ?thesis by (simp add: Request serve_event_def only_stops_refl)
  qed
next
  case (Manager op)
  then show ?thesis by (simp add: serve_event_def only_stops_def kept_manager)
qed (simp_all add: serve_event_def only_stops_def kept_same)

text \<open>The operations of the manager among the events, in order.\<close>

fun manager_ops :: "server_event list \<Rightarrow> manager_op list" where
  "manager_ops [] = []"
| "manager_ops (Manager op # evs) = op # manager_ops evs"
| "manager_ops (ev # evs) = manager_ops evs"

lemma draining_route_tracker:
  assumes "isDraining s"
  shows "h_tracker (snd (handle_route cfg env r uri b s)) = h_tracker s"
  using assms
  by (cases r)
    (simp_all add: handle_route_def answered_def handleTrigger_def handleMessage_def handlePromote_def
      handleEndSession_def handleChatStart_def handleChatEnd_def handler_frame open_logs_def handleKill_def
      handleStopAll_def fold_stop_spec handleListContainers_def Let_def split: prod.split option.split)

lemma draining_event_tracker:
  assumes "isDraining s"
  shows "h_tracker (serve_event cfg verify ev s) = fold run_manager_op (manager_ops [ev]) (h_tracker s)"
proof (cases ev)
  case (Request env rq)
  show ?thesis
  proof (cases "admitted cfg verify env rq s")
    case True
    then obtain r content where e: "serve cfg verify env rq s =
        handle_route cfg env r (rq_uri rq) content (snd (seen_opt (now env) (trim_sha (rq_signature rq)) s))"
      by (rule admitted_serve)
    have "isDraining (snd (seen_opt (now env) (trim_sha (rq_signature rq)) s))"
      using assms by (simp add: isDraining_def seen_opt_fields)
    then show ?thesis using draining_route_tracker by (simp add: Request serve_event_def e seen_opt_fields)
  next
    case False
    then have "snd (serve cfg verify env rq s) = s" using not_admitted(1) unprotected_state by blast
    then show ?thesis by (simp add: Request serve_event_def)
  qed
qed (simp_all add: serve_event_def)

lemma draining_tracker:
  assumes "isDraining s"
  shows "h_tracker (serve_all cfg verify evs s) = fold run_manager_op (manager_ops evs) (h_tracker s)"
  using assms
proof (induction evs arbitrary: s)
  case (Cons ev evs)
  let ?s = "serve_event cfg verify ev s"
  have "isDraining ?s" using draining_event[OF Cons.prems] Cons.prems by (simp add: only_stops_def isDraining_def)
  then have "h_tracker (serve_all cfg verify evs ?s) = fold run_manager_op (manager_ops evs) (h_tracker ?s)" by (rule Cons.IH)
  then show ?case using draining_event_tracker[OF Cons.prems, of cfg verify ev] by (cases ev) (simp_all add: serve_all_def)
qed (simp add: serve_all_def)


definition example_draining :: handler_state where
  "example_draining = example_served\<lparr>h_health := Some (StartDraining NewHealthState)\<rparr>"


end
