(* ===== verification/Docker.thy ===== *)
theory Docker
  imports Tracker Broadcaster Dns_Cache Validate Stream_Msg
begin

text \<open>
  What the container manager (\<open>internal/container/manager.go\<close>) works with: the container specification it
  hands to Docker, the part of the \<open>DockerClient\<close> interface of \<open>docker.go\<close> it calls, its configuration, its
  state, and the answers of the outside world. Every call that leaves the process is appended to a log
  of events, oldest first. A Docker call may succeed, fail, or panic.
\<close>

section \<open>Specifications\<close>

record mount =
  mt_source :: string
  mt_target :: string
  mt_readonly :: bool

record host_config =
  hc_mounts :: "mount list"
  hc_extra_hosts :: "string list"
  hc_cap_drop :: "string list"
  hc_security_opt :: "string list"
  hc_memory :: int
  hc_pids_limit :: int

record container_config =
  cc_image :: string
  cc_env :: "string list"
  cc_labels :: "(string \<times> string) list"
  cc_open_stdin :: bool
  cc_attach_stdin :: bool

record docker_container =
  dc_id :: string
  dc_names :: "string list"
  dc_state :: string
  dc_created :: int
  dc_labels :: "(string \<times> string) list"

definition LabelRunner :: string where "LabelRunner = ''contextmatrix.runner''"
definition LabelCardID :: string where "LabelCardID = ''contextmatrix.card_id''"
definition LabelProject :: string where "LabelProject = ''contextmatrix.project''"
definition LabelSessionID :: string where "LabelSessionID = ''contextmatrix.session_id''"

text \<open>A missing key of a Go map reads as the empty string.\<close>

definition label :: "string \<Rightarrow> (string \<times> string) list \<Rightarrow> string" where
  "label k ls = (case map_of ls k of None \<Rightarrow> [] | Some v \<Rightarrow> v)"

section \<open>Configuration\<close>

text \<open>The fields of \<open>config.Config\<close> that the manager reads; durations are already parsed.\<close>

record manager_config =
  BaseImage :: string
  AllowedImages :: "string list"
  ImagePullPolicy :: string
  ContainerTimeoutDuration :: duration
  ContainerMemoryLimit :: int
  ContainerPidsLimit :: int
  ClaudeAuthDir :: string
  ClaudeOAuthToken :: string
  AnthropicAPIKey :: string
  CACertFile :: string
  ClaudeSettings :: string
  SecretsDir :: string
  TaskSkillsDir :: string
  IdleOutputTimeout :: duration
  IdleWatchdogInterval :: duration
  ChatContainerTimeout :: duration
  WorkerExtraEnv :: "(string \<times> string) list"
  IsDev :: bool

record run_config =
  rc_card :: string
  rc_project :: string
  rc_repo_url :: string
  rc_mcp_url :: string
  rc_mcp_api_key :: string
  rc_base_branch :: string
  rc_runner_image :: string
  rc_interactive :: bool
  rc_model :: string
  rc_correlation :: string
  rc_task_skills :: "string list option"

section \<open>State and events\<close>

datatype mgr_event =
    EvInspect string
  | EvPull string
  | EvCreate container_config host_config string
  | EvStart string
  | EvAttach string
  | EvLogs string
  | EvWait string
  | EvStop string int
  | EvRemove string
  | EvList "string list"
  | EvPrune string
  | EvMint
  | EvPullSkills string string
  | EvStatus string string string string
  | EvRunningAsync string string
  | EvLookup string
  | EvRawClose writer
  | EvMkdir string
  | EvWriteFile string string
  | EvRemoveAll string

record manager =
  m_tracker :: tracker
  m_bcast :: "broadcaster option"
  m_dns :: dns_cache
  m_chat_cleanup :: "(string \<times> string) list"
  m_chat_secrets :: "(string \<times> string list) list"
  m_events :: "mgr_event list"

definition NewManager :: "tracker \<Rightarrow> broadcaster option \<Rightarrow> manager" where
  "NewManager t b = \<lparr>m_tracker = t, m_bcast = b, m_dns = newDNSCache dnsCacheTTL dnsCacheCapacity,
     m_chat_cleanup = [], m_chat_secrets = [], m_events = []\<rparr>"

definition ev :: "mgr_event \<Rightarrow> manager \<Rightarrow> manager" where
  "ev e m = m\<lparr>m_events := m_events m @ [e]\<rparr>"

definition on_tracker :: "(tracker \<Rightarrow> tracker) \<Rightarrow> manager \<Rightarrow> manager" where
  "on_tracker f m = m\<lparr>m_tracker := f (m_tracker m)\<rparr>"

definition publish :: "log_entry \<Rightarrow> manager \<Rightarrow> manager" where
  "publish e m = m\<lparr>m_bcast := map_option (Publish e) (m_bcast m)\<rparr>"

named_theorems mgr_simps

lemma ev_fields [mgr_simps]:
  "m_tracker (ev e m) = m_tracker m" "m_dns (ev e m) = m_dns m" "m_bcast (ev e m) = m_bcast m"
  "m_chat_cleanup (ev e m) = m_chat_cleanup m" "m_chat_secrets (ev e m) = m_chat_secrets m"
  "m_events (ev e m) = m_events m @ [e]"
  by (simp_all add: ev_def)

lemma on_tracker_fields [mgr_simps]:
  "m_tracker (on_tracker f m) = f (m_tracker m)" "m_dns (on_tracker f m) = m_dns m"
  "m_bcast (on_tracker f m) = m_bcast m" "m_chat_cleanup (on_tracker f m) = m_chat_cleanup m"
  "m_chat_secrets (on_tracker f m) = m_chat_secrets m" "m_events (on_tracker f m) = m_events m"
  by (simp_all add: on_tracker_def)

lemma publish_fields [mgr_simps]:
  "m_tracker (publish e m) = m_tracker m" "m_dns (publish e m) = m_dns m"
  "m_chat_cleanup (publish e m) = m_chat_cleanup m" "m_chat_secrets (publish e m) = m_chat_secrets m"
  "m_events (publish e m) = m_events m"
  by (simp_all add: publish_def)

section \<open>Answers of the outside world\<close>

datatype 'a answer = Ok 'a | Fail string | Panic string

datatype fs_answer = FsOk | FsDenied | FsError

datatype pull_line = PullMsg string string | PullGarbage

text \<open>
  \<open>minted n\<close> is the answer of the \<open>n\<close>-th \<open>GenerateToken\<close>, \<open>spawn_others\<close> what other goroutines do to the
  registry while the container is being started, \<open>priming_stalls\<close> whether the write of the first message
  blocks, \<open>file_ok p\<close> whether creating, writing and closing the file \<open>p\<close> all succeed. \<open>url.Parse\<close>, \<open>URL.String\<close>, \<open>net.ParseIP\<close>, SHA-256 and the file system
  are functions of the environment.
\<close>

record spawn_env =
  sp_now :: time
  image_present :: bool
  pull_result :: "pull_line list option"
  token_provider :: bool
  minted :: "nat \<Rightarrow> string option"
  create_answer :: "string answer"
  start_answer :: "unit answer"
  attach_answer :: "(writer \<times> callback) answer"
  priming_stalls :: bool
  priming_error :: "string option"
  lookup_host :: "string \<Rightarrow> string list option"
  parse_ip :: "string \<Rightarrow> bool"
  parse_url :: "string \<Rightarrow> url option"
  url_string :: "url \<Rightarrow> string"
  sha256 :: "string \<Rightarrow> string"
  path_join :: "string \<Rightarrow> string \<Rightarrow> string"
  temp_dir :: string
  mkdir_answer :: "string \<Rightarrow> fs_answer"
  file_ok :: "string \<Rightarrow> bool"
  resume_nonce :: "string option"
  spawn_others :: "tracker \<Rightarrow> tracker"

text \<open>\<open>fmt\<close>'s decimal printing of an integer.\<close>

definition dec_int :: "int \<Rightarrow> string" where
  "dec_int i = (if i < 0 then CHR ''-'' # dec (nat (- i)) else dec (nat i))"

definition truncateID :: "string \<Rightarrow> string" where
  "truncateID i = (if length i > 12 then take 12 i else i)"

definition stopGracePeriod :: int where "stopGracePeriod = 10"

text \<open>Both only log the failures of Docker.\<close>

definition killContainer :: "string \<Rightarrow> manager \<Rightarrow> manager" where
  "killContainer cid m = ev (EvStop cid stopGracePeriod) m"

definition removeContainer :: "string \<Rightarrow> manager \<Rightarrow> manager" where
  "removeContainer cid m = ev (EvRemove cid) m"

end
