(* ===== verification/Container_Spec.thy ===== *)
theory Container_Spec
  imports Docker Redactor
begin

text \<open>
  How the manager builds a container: the pull policy, the environment, the mounts, the delivery of the
  secrets, the host configuration, the names. The card path and the chat path share these functions.
\<close>

section \<open>Images\<close>

definition image_allowed :: "manager_config \<Rightarrow> string \<Rightarrow> bool" where
  "image_allowed cfg img \<longleftrightarrow>
     (if AllowedImages cfg \<noteq> [] then img \<in> set (AllowedImages cfg) else img = BaseImage cfg)"

definition imagePullProgressLineMax :: nat where "imagePullProgressLineMax = 10000"

text \<open>The progress stream: the first error wins; the end of the stream or a line that does not decode stops it.\<close>

fun progress_error :: "pull_line list \<Rightarrow> string option" where
  "progress_error [] = None"
| "progress_error (PullGarbage # ls) = None"
| "progress_error (PullMsg e d # ls) = (if e \<noteq> [] then Some e else if d \<noteq> [] then Some d else progress_error ls)"

definition pullImage :: "manager_config \<Rightarrow> spawn_env \<Rightarrow> string \<Rightarrow> manager \<Rightarrow> string option \<times> manager" where
  "pullImage cfg env img m =
     (if ImagePullPolicy cfg = [] then (Some ''image_pull_policy is unset'', m)
      else if ImagePullPolicy cfg = ''never'' then (None, m)
      else
        let inspects = (ImagePullPolicy cfg = ''if-not-present'');
            m1 = (if inspects then ev (EvInspect img) m else m)
        in if inspects \<and> image_present env then (None, m1)
           else let m2 = ev (EvPull img) m1 in
             case pull_result env of
               None \<Rightarrow> (Some (''pull image '' @ img), m2)
             | Some ls \<Rightarrow>
                 (map_option (\<lambda>e. ''pull image '' @ img @ '': registry error: '' @ e)
                    (progress_error (take imagePullProgressLineMax ls)), m2))"

section \<open>Secrets\<close>

text \<open>\<open>GenerateToken\<close>: the answers are indexed by the calls made so far.\<close>

definition mint :: "spawn_env \<Rightarrow> manager \<Rightarrow> string option \<times> manager" where
  "mint env m = (minted env (length (filter (\<lambda>e. e = EvMint) (m_events m))), ev EvMint m)"

definition buildStaticAuthEnv :: "manager_config \<Rightarrow> (string \<times> string) list" where
  "buildStaticAuthEnv cfg =
     (if ClaudeAuthDir cfg \<noteq> [] then []
      else if ClaudeOAuthToken cfg \<noteq> [] then [(''CLAUDE_CODE_OAUTH_TOKEN'', ClaudeOAuthToken cfg)]
      else if AnthropicAPIKey cfg \<noteq> [] then [(''ANTHROPIC_API_KEY'', AnthropicAPIKey cfg)]
      else [])"

datatype secret_delivery = SecretModeFile string | SecretModeEnvVar "string list"

definition env_entry :: "string \<Rightarrow> string \<Rightarrow> string" where
  "env_entry k v = k @ CHR ''='' # v"

definition sharedSecretsSubdir :: string where "sharedSecretsSubdir = ''shared''"

definition buildSecretDelivery ::
  "manager_config \<Rightarrow> spawn_env \<Rightarrow> manager \<Rightarrow> (string + secret_delivery) \<times> manager" where
  "buildSecretDelivery cfg env m =
     (if SecretsDir cfg = [] then
        if \<not> token_provider env then (Inl ''mint github token: token provider is required in env-var delivery mode'', m)
        else (case mint env m of
            (None, m1) \<Rightarrow> (Inl ''mint github token'', m1)
          | (Some token, m1) \<Rightarrow>
              (Inr (SecretModeEnvVar (env_entry ''CM_GIT_TOKEN'' token #
                 map (\<lambda>(k, v). env_entry k v) (buildStaticAuthEnv cfg))), m1))
      else (Inr (SecretModeFile (path_join env (SecretsDir cfg) sharedSecretsSubdir)), m))"

definition after_equals :: "string \<Rightarrow> string list" where
  "after_equals e = (case dropWhile (\<lambda>c. c \<noteq> CHR ''='') e of [] \<Rightarrow> [] | _ # v \<Rightarrow> [v])"

definition collectSecretValues :: "string \<Rightarrow> secret_delivery \<Rightarrow> string list" where
  "collectSecretValues mcpAPIKey delivery =
     (if mcpAPIKey \<noteq> [] then [mcpAPIKey] else []) @
     (case delivery of
        SecretModeEnvVar vars \<Rightarrow> concat (map after_equals vars)
      | SecretModeFile dir \<Rightarrow> [])"

definition secretsMountTarget :: string where "secretsMountTarget = ''/run/cm-secrets''"

definition bind_ro :: "string \<Rightarrow> string \<Rightarrow> mount" where
  "bind_ro src target = \<lparr>mt_source = src, mt_target = target, mt_readonly = True\<rparr>"

definition applySecretsDelivery ::
  "string list \<Rightarrow> mount list \<Rightarrow> secret_delivery \<Rightarrow> string list \<times> mount list" where
  "applySecretsDelivery env mounts delivery = (case delivery of
       SecretModeFile dir \<Rightarrow> (env, mounts @ [bind_ro dir secretsMountTarget])
     | SecretModeEnvVar vars \<Rightarrow> (env @ vars, mounts))"

section \<open>Mounts and common environment\<close>

definition claudeAuthMount :: "manager_config \<Rightarrow> mount list" where
  "claudeAuthMount cfg = (if ClaudeAuthDir cfg = [] then [] else [bind_ro (ClaudeAuthDir cfg) ''/claude-auth''])"

definition caCertMountTarget :: string where "caCertMountTarget = ''/run/cm-ca/ca.crt''"

definition caCertMount :: "manager_config \<Rightarrow> mount list" where
  "caCertMount cfg = (if CACertFile cfg = [] then [] else [bind_ro (CACertFile cfg) caCertMountTarget])"

text \<open>A failed pull of the skills clone is only logged.\<close>

definition taskSkillsMount :: "manager_config \<Rightarrow> string \<Rightarrow> manager \<Rightarrow> mount list \<times> manager" where
  "taskSkillsMount cfg gitToken m =
     (if TaskSkillsDir cfg = [] then ([], m)
      else ([bind_ro (TaskSkillsDir cfg) ''/host-skills''], ev (EvPullSkills (TaskSkillsDir cfg) gitToken) m))"

fun join_comma :: "string list \<Rightarrow> string" where
  "join_comma [] = []"
| "join_comma [s] = s"
| "join_comma (s # ss) = s @ CHR '','' # join_comma ss"

definition only_if :: "bool \<Rightarrow> string \<Rightarrow> string \<Rightarrow> string list" where
  "only_if c k v = (if c then [env_entry k v] else [])"

text \<open>\<open>slices.Sorted\<close> of the keys of a map; strings are compared byte by byte.\<close>

fun str_less_eq :: "string \<Rightarrow> string \<Rightarrow> bool" where
  "str_less_eq [] t = True"
| "str_less_eq (a # s) [] = False"
| "str_less_eq (a # s) (b # t) = (if byte a = byte b then str_less_eq s t else byte a < byte b)"

fun insert_key :: "string \<Rightarrow> string list \<Rightarrow> string list" where
  "insert_key k [] = [k]"
| "insert_key k (j # js) = (if k = j then j # js else if str_less_eq k j then k # j # js else j # insert_key k js)"

definition sorted_keys :: "(string \<times> 'a) list \<Rightarrow> string list" where
  "sorted_keys m = fold insert_key (map fst m) []"

lemma set_sorted_keys: "set (sorted_keys m) = fst ` set m"
proof -
  have i: "set (insert_key k js) = insert k (set js)" for k js
    by (induction js) auto
  have "set (fold insert_key ks acc) = set ks \<union> set acc" for ks acc
    by (induction ks arbitrary: acc) (auto simp: i)
  then show ?thesis by (simp add: sorted_keys_def)
qed

definition appendCommonEnv :: "manager_config \<Rightarrow> string list \<Rightarrow> string list option \<Rightarrow> string list" where
  "appendCommonEnv cfg env taskSkills =
     env
     @ only_if (ClaudeSettings cfg \<noteq> []) ''CM_CLAUDE_SETTINGS'' (ClaudeSettings cfg)
     @ (case taskSkills of
          Some skills \<Rightarrow>
            if TaskSkillsDir cfg \<noteq> []
            then [env_entry ''CM_TASK_SKILLS_SET'' ''1'', env_entry ''CM_TASK_SKILLS'' (join_comma skills)] else []
        | None \<Rightarrow> [])
     @ only_if (CACertFile cfg \<noteq> []) ''NODE_EXTRA_CA_CERTS'' caCertMountTarget
     @ map (\<lambda>k. env_entry k (label k (WorkerExtraEnv cfg))) (sorted_keys (WorkerExtraEnv cfg))"

section \<open>Names and URLs\<close>

definition normalizeRepoURL :: "spawn_env \<Rightarrow> string \<Rightarrow> string" where
  "normalizeRepoURL env raw = (case parse_url env raw of
       None \<Rightarrow> raw
     | Some u \<Rightarrow> if u_scheme u = ''ssh'' then url_string env (u\<lparr>u_scheme := ''https'', u_user := None\<rparr>) else raw)"

definition container_name_char :: "char \<Rightarrow> bool" where
  "container_name_char c \<longleftrightarrow> is_alnum c \<or> c \<in> {CHR ''_'', CHR ''.'', CHR ''-''}"

text \<open>\<open>containerNameRe.ReplaceAllString(strings.ToLower(s), "-")\<close> on the ASCII names that pass validation.\<close>

definition name_chars :: "string \<Rightarrow> string" where
  "name_chars s = map (\<lambda>c. let d = lower_char c in if container_name_char d then d else CHR ''-'') s"

definition hex_bytes :: "string \<Rightarrow> string" where
  "hex_bytes s = concat (map (\<lambda>c. [hex_digit (byte c div 16), hex_digit (byte c mod 16)]) s)"

definition sanitizeContainerName :: "spawn_env \<Rightarrow> string \<Rightarrow> string \<Rightarrow> string" where
  "sanitizeContainerName env project cardID =
     name_chars (''cmr-'' @ project @ ''-'' @ cardID) @ ''-'' @
     hex_bytes (take 4 (sha256 env (project @ CHR 0x00 # cardID)))"

definition chat_container_name :: "string \<Rightarrow> string" where
  "chat_container_name sessionID = take 63 (''cmr-chat-'' @ name_chars sessionID)"

section \<open>Host configuration\<close>

definition docker_internal :: string where "docker_internal = ''host.docker.internal''"

definition buildExtraHosts :: "spawn_env \<Rightarrow> string \<Rightarrow> manager \<Rightarrow> string list \<times> manager" where
  "buildExtraHosts env mcpURL m =
     (let hosts = [docker_internal @ '':host-gateway''] in
      case parse_url env mcpURL of
        None \<Rightarrow> (hosts, m)
      | Some u \<Rightarrow>
          let hostname = Hostname u in
          if hostname = [] then (hosts, m)
          else if parse_ip env hostname \<or> hostname = ''localhost'' \<or> hostname = docker_internal then (hosts, m)
          else case dns_get (sp_now env) hostname (m_dns m) of (cached, c) \<Rightarrow>
            let m1 = m\<lparr>m_dns := c\<rparr> in
            case cached of
              Some (a # as) \<Rightarrow> (hosts @ [hostname @ '':'' @ a], m1)
            | _ \<Rightarrow>
                let m2 = ev (EvLookup hostname) m1 in
                case lookup_host env hostname of
                  Some (a # as) \<Rightarrow>
                    (hosts @ [hostname @ '':'' @ a], m2\<lparr>m_dns := dns_put (sp_now env) hostname (a # as) (m_dns m2)\<rparr>)
                | _ \<Rightarrow> (hosts, m2))"

definition baseHostConfig ::
  "manager_config \<Rightarrow> spawn_env \<Rightarrow> string \<Rightarrow> mount list \<Rightarrow> manager \<Rightarrow> host_config \<times> manager" where
  "baseHostConfig cfg env mcpURL mounts m =
     (case buildExtraHosts env mcpURL m of (hosts, m1) \<Rightarrow>
        (\<lparr>hc_mounts = mounts, hc_extra_hosts = hosts, hc_cap_drop = [''ALL''],
          hc_security_opt = [''no-new-privileges''], hc_memory = ContainerMemoryLimit cfg,
          hc_pids_limit = ContainerPidsLimit cfg\<rparr>, m1))"

section \<open>Priming of a card\<close>

definition buildPrimingContent :: "run_config \<Rightarrow> string" where
  "buildPrimingContent rc =
     ''Begin work on card `'' @ rc_card rc @ ''` now. '' @
     ''Call `get_skill(skill_name='' @ [CHR 0x27] @ ''create-plan'' @ [CHR 0x27] @ '', card_id='' @ [CHR 0x27] @ rc_card rc @
     [CHR 0x27] @ '', caller_model='' @ [CHR 0x27] @ ''sonnet'' @ [CHR 0x27] @ '')` '' @
     ''via the contextmatrix MCP server and follow the returned skill instructions exactly. '' @
     ''Never push to main or master. '' @
     ''Call heartbeat every 5 minutes during idle waits and `report_usage` after each heartbeat. '' @
     ''On completion, call `release_card` after transitioning to done.'' @
     (if rc_base_branch rc = [] then []
      else '' The base branch for this task is '' @ rc_base_branch rc @ ''; create PRs targeting that branch.'')"

end
