(* ===== verification/Card_Run.thy ===== *)
theory Card_Run
  imports Container_Spec Log_Parser
begin

text \<open>
  The life of a card container in \<open>internal/container/manager.go\<close>: \<open>startContainer\<close>, the streaming of its
  output, \<open>waitAndCleanup\<close> with its four endings, and \<open>Run\<close> with its panic recovery. The registry is
  shared: \<open>spawn_others\<close> and \<open>run_others\<close> are whatever other goroutines do to it while the container is started
  and while it runs. The context's cancellation and the answers of \<open>ContainerWait\<close> are in the environment.
\<close>

section \<open>Starting\<close>

datatype start_result =
    Started string "string list"
  | StartFailed string
  | StartPanicked string

abbreviation rc_key :: "run_config \<Rightarrow> string" where
  "rc_key rc \<equiv> tkey (rc_project rc) (rc_card rc)"

text \<open>The environment before the secrets are added.\<close>

definition card_env :: "manager_config \<Rightarrow> spawn_env \<Rightarrow> run_config \<Rightarrow> string list" where
  "card_env cfg env rc = appendCommonEnv cfg
     ([env_entry ''CM_CARD_ID'' (rc_card rc), env_entry ''CM_PROJECT'' (rc_project rc),
       env_entry ''CM_MCP_URL'' (rc_mcp_url rc), env_entry ''CM_REPO_URL'' (normalizeRepoURL env (rc_repo_url rc))]
      @ only_if (rc_mcp_api_key rc \<noteq> []) ''CM_MCP_API_KEY'' (rc_mcp_api_key rc)
      @ only_if (rc_correlation rc \<noteq> []) ''CM_CORRELATION_ID'' (rc_correlation rc)
      @ only_if (rc_base_branch rc \<noteq> []) ''CM_BASE_BRANCH'' (rc_base_branch rc)
      @ only_if (rc_interactive rc) ''CM_INTERACTIVE'' ''1''
      @ only_if (rc_model rc \<noteq> []) ''CM_ORCHESTRATOR_MODEL'' (rc_model rc))
     (rc_task_skills rc)"

text \<open>The token for the pull of the skills clone; nothing is minted without a clone.\<close>

definition skills_token :: "manager_config \<Rightarrow> spawn_env \<Rightarrow> manager \<Rightarrow> (string + string) \<times> manager" where
  "skills_token cfg env m =
     (if TaskSkillsDir cfg = [] then (Inr [], m)
      else if \<not> token_provider env
      then (Inl ''generate git token: token provider is required when task_skills_dir is set'', m)
      else case mint env m of
        (None, m1) \<Rightarrow> (Inl ''generate git token'', m1)
      | (Some tok, m1) \<Rightarrow> (Inr tok, m1))"

text \<open>
  \<open>writePrimingWithTimeout\<close>. A write that blocks is released by closing the raw writer; it then fails, and the
  registry is told that the stdin is closed.
\<close>

definition stdin_open :: "string \<Rightarrow> tracker \<Rightarrow> bool" where
  "stdin_open k t \<longleftrightarrow> (case capture k t of Inl e \<Rightarrow> False | Inr p \<Rightarrow> ss_stdin (stdins t ! p) \<noteq> None)"

definition writePrimingWithTimeout ::
  "spawn_env \<Rightarrow> run_config \<Rightarrow> bytes \<Rightarrow> writer \<Rightarrow> manager \<Rightarrow> manager" where
  "writePrimingWithTimeout env rc b w m =
     (if priming_stalls env \<and> stdin_open (rc_key rc) (m_tracker m)
      then on_tracker (\<lambda>t. snd (MarkStdinClosed (rc_project rc) (rc_card rc) t))
             (on_tracker (\<lambda>t. snd (WriteStdin (rc_project rc) (rc_card rc) b (Some ''use of closed connection'') t))
               (ev (EvRawClose w) m))
      else on_tracker (\<lambda>t. snd (WriteStdin (rc_project rc) (rc_card rc) b (priming_error env) t)) m)"

text \<open>From the created container on.\<close>

definition start_created ::
  "spawn_env \<Rightarrow> run_config \<Rightarrow> string \<Rightarrow> string list \<Rightarrow> manager \<Rightarrow> start_result \<times> manager" where
  "start_created env rc cid secrets m =
     (let m1 = ev (EvStart cid) m in
      case start_answer env of
        Panic e \<Rightarrow> (StartPanicked e, m1)
      | Fail e \<Rightarrow> (StartFailed (''start container: '' @ e), ev (EvRemove cid) m1)
      | Ok _ \<Rightarrow>
          if \<not> rc_interactive rc then (Started cid secrets, m1)
          else let m2 = ev (EvAttach cid) m1 in
            case attach_answer env of
              Panic e \<Rightarrow> (StartPanicked e, m2)
            | Fail e \<Rightarrow> (StartFailed (''attach stdin: '' @ e), ev (EvRemove cid) m2)
            | Ok (w, close) \<Rightarrow>
                (Started cid secrets,
                 writePrimingWithTimeout env rc (BuildUserMessage (buildPrimingContent rc)) w
                   (on_tracker (SetStdin (rc_project rc) (rc_card rc) (Some w) (Some close)) m2)))"

definition create_answered ::
  "spawn_env \<Rightarrow> run_config \<Rightarrow> string list \<Rightarrow> manager \<Rightarrow> start_result \<times> manager" where
  "create_answered env rc secrets m = (case create_answer env of
       Panic e \<Rightarrow> (StartPanicked e, m)
     | Fail e \<Rightarrow> (StartFailed (''create container: '' @ e), m)
     | Ok cid \<Rightarrow> start_created env rc cid secrets m)"

definition card_labels :: "run_config \<Rightarrow> (string \<times> string) list" where
  "card_labels rc = [(LabelRunner, ''true''), (LabelCardID, rc_card rc), (LabelProject, rc_project rc)]"

text \<open>From the delivery of the secrets on.\<close>

definition create_card ::
  "manager_config \<Rightarrow> spawn_env \<Rightarrow> run_config \<Rightarrow> string \<Rightarrow> mount list \<Rightarrow> secret_delivery \<Rightarrow> manager \<Rightarrow>
    start_result \<times> manager" where
  "create_card cfg env rc img mounts delivery m =
     (case applySecretsDelivery (card_env cfg env rc) mounts delivery of (envs, mounts') \<Rightarrow>
      case baseHostConfig cfg env (rc_mcp_url rc) mounts' m of (host, m1) \<Rightarrow>
        let cc = \<lparr>cc_image = img, cc_env = envs, cc_labels = card_labels rc,
                  cc_open_stdin = rc_interactive rc, cc_attach_stdin = rc_interactive rc\<rparr>;
            m2 = ev (EvCreate cc host (sanitizeContainerName env (rc_project rc) (rc_card rc))) m1
        in create_answered env rc (collectSecretValues (rc_mcp_api_key rc) delivery) m2)"

definition startContainer ::
  "manager_config \<Rightarrow> spawn_env \<Rightarrow> run_config \<Rightarrow> manager \<Rightarrow> start_result \<times> manager" where
  "startContainer cfg env rc m =
     (let img = (if rc_runner_image rc = [] then BaseImage cfg else rc_runner_image rc) in
      if \<not> image_allowed cfg img then (StartFailed (''image '' @ img @ '' not allowed''), m)
      else case pullImage cfg env img m of
        (Some e, m1) \<Rightarrow> (StartFailed e, m1)
      | (None, m1) \<Rightarrow>
          (case skills_token cfg env m1 of
             (Inl e, m2) \<Rightarrow> (StartFailed e, m2)
           | (Inr gitToken, m2) \<Rightarrow>
               (case taskSkillsMount cfg gitToken m2 of (skills, m3) \<Rightarrow>
                  let mounts = claudeAuthMount cfg @ skills @ caCertMount cfg in
                  case buildSecretDelivery cfg env m3 of
                    (Inl e, m4) \<Rightarrow> (StartFailed (''build secret delivery: '' @ e), m4)
                  | (Inr delivery, m4) \<Rightarrow> create_card cfg env rc img mounts delivery m4)))"

section \<open>Output\<close>

text \<open>One line of stderr; the suffix marks a line that was cut.\<close>

definition truncated_suffix :: string where
  "truncated_suffix = '' [...truncated; line exceeded 16 MiB cap]''"

definition stderr_line :: "(string \<Rightarrow> string) \<Rightarrow> string \<Rightarrow> bool \<Rightarrow> string list" where
  "stderr_line redact raw truncated =
     (if raw \<noteq> [] \<or> truncated
      then [redact (TrimRight_crlf raw @ (if truncated then truncated_suffix else []))] else [])"

function scan_loop :: "nat \<Rightarrow> nat \<Rightarrow> (string \<Rightarrow> string) \<Rightarrow> reader \<Rightarrow> string list" where
  "scan_loop B maxBytes redact r =
     (if B = 0 then []
      else case ReadBoundedLine B maxBytes r of
        ((raw, truncated, err), r') \<Rightarrow>
          stderr_line redact raw truncated @
          (case err of None \<Rightarrow> scan_loop B maxBytes redact r' | Some e \<Rightarrow> []))"
  by pat_completeness auto
termination
proof (relation "measure (\<lambda>(B, m, p, r). length (rd_rest r))", goal_cases)
  case (2 B m p r x r' y err z truncated)
  then show ?case
    by (auto simp: bounded_line_eq line_ref_def Let_def split: if_splits)
qed simp

declare scan_loop.simps [simp del]

definition scanRedactedStderr :: "string list option \<Rightarrow> log_entry \<Rightarrow> reader \<Rightarrow> log_entry list" where
  "scanRedactedStderr redactor lbl r =
     map (\<lambda>c. lbl\<lparr>le_kind := ''stderr'', le_content := c\<rparr>)
       (scan_loop (64 * 1024) MaxLineBytes (Redactor_Redact redactor) r)"

text \<open>The emitter of stdout: the entry is stamped with the identity of the container.\<close>

definition token_usage_of :: "usage_block \<Rightarrow> token_usage" where
  "token_usage_of u = \<lparr>tu_input = InputTokens u, tu_output = OutputTokens u, tu_cache_read = CacheReadTokens u,
     tu_cache_create = CacheCreateTokens u\<rparr>"

fun stdout_entry :: "log_entry \<Rightarrow> out_event \<Rightarrow> log_entry list" where
  "stdout_entry lbl (Emit e) = [lbl\<lparr>le_kind := oe_type e, le_content := oe_content e, le_model := oe_model e,
     le_usage := map_option token_usage_of (oe_usage e)\<rparr>]"
| "stdout_entry lbl _ = []"

definition stdout_entries :: "json_dec \<Rightarrow> string list option \<Rightarrow> log_entry \<Rightarrow> reader \<Rightarrow> log_entry list" where
  "stdout_entries J redactor lbl r = concat (map (stdout_entry lbl) (ProcessStreamWithRedactor J redactor r))"

definition card_label :: "run_config \<Rightarrow> log_entry" where
  "card_label rc = \<lparr>le_project = rc_project rc, le_session = [], le_card = rc_card rc, le_kind = [], le_content = [], le_model = [], le_usage = None\<rparr>"

section \<open>Waiting\<close>

datatype outcome = OutcomeSuccess | OutcomeFailure | OutcomeTimeout | OutcomeKilled | OutcomeIdleTimeout

datatype wait_result =
    Exited int
  | WaitError string bool bool
  | ContextDone
  | WaitPanics string

text \<open>
  \<open>WaitError e deadline cancelled\<close>: the error channel delivered \<open>e\<close> while the deadline of the wait had
  (not) passed and the parent context was (not) cancelled. The output arrives on two streams;
  \<open>stream_order\<close> is the scheduler's interleaving of what they publish.
\<close>

record wait_env =
  stdcopy :: "(reader \<times> reader) option"
  json_decoder :: json_dec
  stream_order :: "log_entry list \<Rightarrow> log_entry list \<Rightarrow> log_entry list"
  run_others :: "tracker \<Rightarrow> tracker"
  wait_result :: wait_result
  show_duration :: "duration \<Rightarrow> string"

definition killReasonIdle :: string where "killReasonIdle = ''idle_timeout''"

definition emitSystem :: "run_config \<Rightarrow> string \<Rightarrow> manager \<Rightarrow> manager" where
  "emitSystem rc content m = publish ((card_label rc)\<lparr>le_kind := ''system'', le_content := content\<rparr>) m"

definition reportFailure :: "run_config \<Rightarrow> string \<Rightarrow> manager \<Rightarrow> manager" where
  "reportFailure rc msg m = ev (EvStatus (rc_card rc) (rc_project rc) ''failed'' msg) m"

definition reportCompleted :: "run_config \<Rightarrow> manager \<Rightarrow> manager" where
  "reportCompleted rc m = ev (EvStatus (rc_card rc) (rc_project rc) ''completed'' ''container exited normally'') m"

text \<open>\<open>streamLogs\<close>: everything the container writes until its streams end; \<open>drainLogs\<close> waits for it.\<close>

definition card_stream :: "wait_env \<Rightarrow> run_config \<Rightarrow> string list \<Rightarrow> log_entry list" where
  "card_stream w rc secrets = (case stdcopy w of
       None \<Rightarrow> []
     | Some (out, err) \<Rightarrow>
         stream_order w
           (stdout_entries (json_decoder w) (Some (NewRedactor secrets)) (card_label rc) out)
           (scanRedactedStderr (Some (NewRedactor secrets)) (card_label rc) err))"

definition streamLogs :: "wait_env \<Rightarrow> string \<Rightarrow> run_config \<Rightarrow> string list \<Rightarrow> manager \<Rightarrow> manager" where
  "streamLogs w cid rc secrets m = fold publish (card_stream w rc secrets) (ev (EvLogs cid) m)"

definition fail_after_kill :: "string \<Rightarrow> run_config \<Rightarrow> string \<Rightarrow> string \<Rightarrow> manager \<Rightarrow> manager" where
  "fail_after_kill cid rc sys msg m = reportFailure rc msg (emitSystem rc sys (killContainer cid m))"

definition handleWaitTimeout ::
  "manager_config \<Rightarrow> wait_env \<Rightarrow> string \<Rightarrow> run_config \<Rightarrow> manager \<Rightarrow> outcome \<times> manager" where
  "handleWaitTimeout cfg w cid rc m =
     (let msg = ''container timed out after '' @ show_duration w (ContainerTimeoutDuration cfg)
      in (OutcomeTimeout, fail_after_kill cid rc (''container failed: '' @ msg) msg m))"

definition handleWaitError :: "string \<Rightarrow> run_config \<Rightarrow> string \<Rightarrow> manager \<Rightarrow> outcome \<times> manager" where
  "handleWaitError cid rc e m =
     (let msg = ''wait error: '' @ e
      in (OutcomeFailure, fail_after_kill cid rc (''container failed: '' @ msg) msg m))"

definition handleCanceled ::
  "manager_config \<Rightarrow> wait_env \<Rightarrow> string \<Rightarrow> run_config \<Rightarrow> manager \<Rightarrow> outcome \<times> manager" where
  "handleCanceled cfg w cid rc m =
     (let idle = (Reason (rc_project rc) (rc_card rc) (m_tracker m) = killReasonIdle);
          msg = (if idle then ''idle output timeout after '' @ show_duration w (IdleOutputTimeout cfg)
                 else ''killed by operator'')
      in (if idle then OutcomeIdleTimeout else OutcomeKilled,
          fail_after_kill cid rc ''container canceled'' msg m))"

definition exit_message :: "int \<Rightarrow> string" where
  "exit_message code = ''container exited with code '' @ dec_int code"

text \<open>The select of \<open>waitAndCleanup\<close>; \<open>None\<close> is a panic.\<close>

definition wait_select ::
  "manager_config \<Rightarrow> wait_env \<Rightarrow> string \<Rightarrow> run_config \<Rightarrow> manager \<Rightarrow> outcome option \<times> manager" where
  "wait_select cfg w cid rc m = (case wait_result w of
       Exited code \<Rightarrow>
         if code \<noteq> 0
         then (Some OutcomeFailure,
               reportFailure rc (exit_message code) (emitSystem rc (''container failed: '' @ exit_message code) m))
         else (Some OutcomeSuccess, reportCompleted rc (emitSystem rc ''container completed'' m))
     | WaitError e deadline cancelled \<Rightarrow>
         if deadline \<and> \<not> cancelled then apfst Some (handleWaitTimeout cfg w cid rc m)
         else if cancelled then apfst Some (handleCanceled cfg w cid rc m)
         else apfst Some (handleWaitError cid rc e m)
     | ContextDone \<Rightarrow> apfst Some (handleCanceled cfg w cid rc m)
     | WaitPanics e \<Rightarrow> (None, m))"

text \<open>The two deferred calls, in the order they run.\<close>

definition release :: "string \<Rightarrow> run_config \<Rightarrow> manager \<Rightarrow> manager" where
  "release cid rc m = removeContainer cid (on_tracker (tracker_Remove (rc_project rc) (rc_card rc)) m)"

definition waitAndCleanup ::
  "manager_config \<Rightarrow> wait_env \<Rightarrow> string \<Rightarrow> run_config \<Rightarrow> string list \<Rightarrow> manager \<Rightarrow> outcome option \<times> manager" where
  "waitAndCleanup cfg w cid rc secrets m =
     (let m1 = on_tracker (run_others w) (ev (EvWait cid) (streamLogs w cid rc secrets m))
      in case wait_select cfg w cid rc m1 of (r, m2) \<Rightarrow> (r, release cid rc m2))"

section \<open>Run\<close>

text \<open>The result of \<open>run\<close>: its outcome, or a panic with the container id it had published to \<open>Run\<close>.\<close>

datatype run_result = Finished outcome | Panicked string string

definition run_card ::
  "manager_config \<Rightarrow> spawn_env \<Rightarrow> wait_env \<Rightarrow> run_config \<Rightarrow> manager \<Rightarrow> run_result \<times> manager" where
  "run_card cfg env w rc m0 =
     (case startContainer cfg env rc (on_tracker (spawn_others env) m0) of
        (StartPanicked e, m) \<Rightarrow> (Panicked e [], m)
      | (StartFailed e, m) \<Rightarrow>
          (Finished OutcomeFailure,
           on_tracker (tracker_Remove (rc_project rc) (rc_card rc)) (reportFailure rc (''start failed: '' @ e) m))
      | (Started cid secrets, m) \<Rightarrow>
          let m1 = on_tracker (UpdateContainerID (rc_project rc) (rc_card rc) cid) m;
              m2 = ev (EvRunningAsync (rc_card rc) (rc_project rc)) (emitSystem rc ''container started'' m1)
          in case waitAndCleanup cfg w cid rc secrets m2 of
               (Some out, m3) \<Rightarrow> (Finished out, m3)
             | (None, m3) \<Rightarrow> (Panicked (case wait_result w of WaitPanics e \<Rightarrow> e | _ \<Rightarrow> []) cid, m3))"

text \<open>The recovery in \<open>Run\<close>: the captured id, or the one the registry knows.\<close>

definition recover_run :: "run_config \<Rightarrow> string \<Rightarrow> string \<Rightarrow> manager \<Rightarrow> manager" where
  "recover_run rc e cid m =
     (let i = (if cid \<noteq> [] then cid
               else case Snapshot (rc_project rc) (rc_card rc) (m_tracker m) of
                 Some snap \<Rightarrow> sn_ContainerID snap | None \<Rightarrow> []);
          m1 = (if i \<noteq> [] then ev (EvRemove i) m else m)
      in reportFailure rc (''internal error: '' @ e) (on_tracker (tracker_Remove (rc_project rc) (rc_card rc)) m1))"

definition Manager_Run ::
  "manager_config \<Rightarrow> spawn_env \<Rightarrow> wait_env \<Rightarrow> run_config \<Rightarrow> manager \<Rightarrow> outcome \<times> manager" where
  "Manager_Run cfg env w rc m = (case run_card cfg env w rc m of
       (Finished out, m') \<Rightarrow> (out, m')
     | (Panicked e cid, m') \<Rightarrow> (OutcomeFailure, recover_run rc e cid m'))"

section \<open>The idle watchdog\<close>

text \<open>
  One element per tick: its time and the time of the last output it loads. The list ends where the log
  stream or the context ends. An operator's kill or an idle kill is the cancellation of the run
  context.
\<close>

definition watchdog_tick :: "manager_config \<Rightarrow> duration" where
  "watchdog_tick cfg =
     (let t = (if IdleWatchdogInterval cfg \<le> 0 then 30 * second else IdleWatchdogInterval cfg)
      in if t > IdleOutputTimeout cfg \<and> IdleOutputTimeout cfg > 0 then IdleOutputTimeout cfg else t)"

fun runIdleWatchdog ::
  "manager_config \<Rightarrow> wait_env \<Rightarrow> string \<Rightarrow> run_config \<Rightarrow> (time \<times> time) list \<Rightarrow> manager \<Rightarrow> time option \<times> manager" where
  "runIdleWatchdog cfg w cid rc [] m = (None, m)"
| "runIdleWatchdog cfg w cid rc ((t, last_output) # ticks) m =
     (if t - last_output \<le> IdleOutputTimeout cfg then runIdleWatchdog cfg w cid rc ticks m
      else let m1 = emitSystem rc (''idle timeout: no output for '' @ show_duration w (IdleOutputTimeout cfg)) m
        in case CancelWithReason (rc_project rc) (rc_card rc) killReasonIdle (m_tracker m1) of
             (True, t') \<Rightarrow> (Some t, m1\<lparr>m_tracker := t'\<rparr>)
           | (False, t') \<Rightarrow> (Some t, killContainer cid (m1\<lparr>m_tracker := t'\<rparr>)))"

end
