(* ===== verification/Run_Props.thy ===== *)
theory Run_Props
  imports Card_Run
begin

text \<open>
  Properties of the card run: whatever Docker, the network, the container and the other goroutines do,
  \<open>Run\<close> gives back the registry entry, reports one final status, and removes the container it created;
  the container it creates is the one the configuration allows; and no secret in its environment
  reaches the log stream.
\<close>

section \<open>Quiet steps\<close>

text \<open>The steps before the creation touch nothing but the log of events and the DNS cache.\<close>

fun quiet :: "mgr_event \<Rightarrow> bool" where
  "quiet (EvInspect _) = True" | "quiet (EvPull _) = True" | "quiet EvMint = True"
| "quiet (EvPullSkills _ _) = True" | "quiet (EvLookup _) = True" | "quiet _ = False"

definition quietly :: "manager \<Rightarrow> manager \<Rightarrow> bool" where
  "quietly m m' \<longleftrightarrow> m_tracker m' = m_tracker m \<and> m_bcast m' = m_bcast m \<and>
     m_chat_cleanup m' = m_chat_cleanup m \<and> m_chat_secrets m' = m_chat_secrets m \<and>
     (\<exists>q. m_events m' = m_events m @ q \<and> list_all quiet q)"

named_theorems quiet_intros

lemma quietly_refl [quiet_intros, simp]: "quietly m m"
  by (simp add: quietly_def)

lemma quietly_trans: "quietly a b \<Longrightarrow> quietly b c \<Longrightarrow> quietly a c"
  by (auto simp: quietly_def)

lemma quietly_ev [quiet_intros]: "quiet e \<Longrightarrow> quietly m (ev e m)"
  by (auto simp: quietly_def mgr_simps)

lemma quietly_dns [quiet_intros]: "quietly m m' \<Longrightarrow> quietly m (m'\<lparr>m_dns := c\<rparr>)"
  by (simp add: quietly_def)

lemma quietly_ev_after: "quietly m m' \<Longrightarrow> quiet e \<Longrightarrow> quietly m (ev e m')"
  by (rule quietly_trans) (auto intro: quiet_intros)

lemma pullImage_quiet: "quietly m (snd (pullImage cfg env img m))"
  by (simp add: pullImage_def Let_def quietly_ev quietly_ev_after split: option.split)

lemma mint_quiet: "quietly m (snd (mint env m))"
  by (simp add: mint_def quietly_ev)

lemma skills_token_quiet: "quietly m (snd (skills_token cfg env m))"
  using mint_quiet[of m env]
  by (simp add: skills_token_def mint_def split: option.split)

lemma taskSkillsMount_quiet: "quietly m (snd (taskSkillsMount cfg tok m))"
  by (simp add: taskSkillsMount_def quietly_ev)

lemma buildSecretDelivery_quiet: "quietly m (snd (buildSecretDelivery cfg env m))"
  using mint_quiet[of m env]
  by (simp add: buildSecretDelivery_def mint_def split: option.split)

lemma buildExtraHosts_quiet: "quietly m (snd (buildExtraHosts env url m))"
  by (simp add: buildExtraHosts_def Let_def case_prod_unfold quietly_ev quietly_ev_after quietly_dns
      split: option.split list.split)

lemma baseHostConfig_quiet: "quietly m (snd (baseHostConfig cfg env url mounts m))"
  using buildExtraHosts_quiet[of m env url] by (simp add: baseHostConfig_def case_prod_unfold)

section \<open>The shape of a start\<close>

text \<open>The host paths that a container may see, each with its place in the container; all are bound read-only.\<close>

definition secrets_mount :: "manager_config \<Rightarrow> spawn_env \<Rightarrow> (string \<times> string) list" where
  "secrets_mount cfg env =
     (if SecretsDir cfg = [] then [] else [(path_join env (SecretsDir cfg) ''shared'', ''/run/cm-secrets'')])"

definition worker_mounts :: "manager_config \<Rightarrow> spawn_env \<Rightarrow> (string \<times> string) list" where
  "worker_mounts cfg env =
     filter (\<lambda>(source, target). source \<noteq> [])
       [(ClaudeAuthDir cfg, ''/claude-auth''), (TaskSkillsDir cfg, ''/host-skills''), (CACertFile cfg, ''/run/cm-ca/ca.crt'')]
     @ secrets_mount cfg env"

definition read_only_binds :: "(string \<times> string) list \<Rightarrow> mount list" where
  "read_only_binds xs = map (\<lambda>(source, target). \<lparr>mt_source = source, mt_target = target, mt_readonly = True\<rparr>) xs"

lemma delivery_mounts:
  "snd (applySecretsDelivery envs mounts d) = mounts @ snd (applySecretsDelivery [] [] d)"
  by (cases d) (simp_all add: applySecretsDelivery_def)

lemma buildSecretDelivery_mounts:
  assumes "buildSecretDelivery cfg env m = (Inr d, m')"
  shows "snd (applySecretsDelivery [] [] d) = read_only_binds (secrets_mount cfg env)"
  using assms
  by (auto simp: buildSecretDelivery_def applySecretsDelivery_def read_only_binds_def secrets_mount_def bind_ro_def
      sharedSecretsSubdir_def secretsMountTarget_def split: if_splits option.splits prod.splits)

lemma all_mounts:
  assumes "buildSecretDelivery cfg env m = (Inr d, m')"
  shows "snd (applySecretsDelivery envs (claudeAuthMount cfg @ fst (taskSkillsMount cfg tok m0) @ caCertMount cfg) d) =
    read_only_binds (worker_mounts cfg env)"
  unfolding delivery_mounts[of envs] buildSecretDelivery_mounts[OF assms]
  by (simp add: worker_mounts_def read_only_binds_def claudeAuthMount_def caCertMount_def caCertMountTarget_def
      taskSkillsMount_def bind_ro_def)

lemma startContainer_shape:
  assumes "startContainer cfg env rc m = (r, m')"
  obtains (refused) e where "r = StartFailed e" "quietly m m'"
  | (created) img mounts delivery m1 where "image_allowed cfg img"
      "\<And>envs. snd (applySecretsDelivery envs mounts delivery) = read_only_binds (worker_mounts cfg env)" "quietly m m1"
      "create_card cfg env rc img mounts delivery m1 = (r, m')"
proof -
  define img where "img = (if rc_runner_image rc = [] then BaseImage cfg else rc_runner_image rc)"
  obtain e1 m1 where p: "pullImage cfg env img m = (e1, m1)" by fastforce
  obtain t m2 where t: "skills_token cfg env m1 = (t, m2)" by fastforce
  have q1: "quietly m m1" using pullImage_quiet[of m cfg env img] p by simp
  have q2: "quietly m m2" using quietly_trans[OF q1] skills_token_quiet[of m1 cfg env] t by simp
  consider (refused) e where "r = StartFailed e" "quietly m m'"
    | (go) tok where "image_allowed cfg img" "e1 = None" "t = Inr tok"
    using assms q1 q2 p t
    by (auto simp: startContainer_def Let_def img_def[symmetric] split: if_splits option.splits sum.splits)
  then show thesis
  proof cases
    case refused
    then show ?thesis using that(1) by blast
  next
    case (go tok)
    obtain skills m3 where s: "taskSkillsMount cfg tok m2 = (skills, m3)" by fastforce
    obtain d m4 where d: "buildSecretDelivery cfg env m3 = (d, m4)" by fastforce
    have q4: "quietly m m4"
      using quietly_trans[OF q2 quietly_trans] taskSkillsMount_quiet[of m2 cfg tok]
        buildSecretDelivery_quiet[of m3 cfg env] s d by simp
    let ?mounts = "claudeAuthMount cfg @ skills @ caCertMount cfg"
    have e: "startContainer cfg env rc m = (case d of
        Inl e \<Rightarrow> (StartFailed (''build secret delivery: '' @ e), m4)
      | Inr delivery \<Rightarrow> create_card cfg env rc img ?mounts delivery m4)"
      using go p t s d by (simp add: startContainer_def Let_def img_def[symmetric])
    show ?thesis
    proof (cases d)
      case (Inl x)
      then show ?thesis using e assms q4 that(1) by auto
    next
      case (Inr delivery)
      have "snd (applySecretsDelivery envs ?mounts delivery) = read_only_binds (worker_mounts cfg env)" for envs
        using all_mounts[of cfg env m3 delivery m4 envs tok m2] d Inr s by simp
      then show ?thesis using that(2)[OF go(1) _ q4, of ?mounts delivery] e assms Inr by simp
    qed
  qed
qed

text \<open>The restrictions of a container; \<open>extra\<close> are the mounts beyond those of every worker.\<close>

definition hardened ::
  "manager_config \<Rightarrow> spawn_env \<Rightarrow> (string \<times> string) list \<Rightarrow> container_config \<Rightarrow> host_config \<Rightarrow> bool" where
  "hardened cfg env extra cc host \<longleftrightarrow> hc_mounts host = read_only_binds (worker_mounts cfg env @ extra) \<and> hc_cap_drop host = [''ALL''] \<and>
     hc_security_opt host = [''no-new-privileges''] \<and> hc_memory host = ContainerMemoryLimit cfg \<and>
     hc_pids_limit host = ContainerPidsLimit cfg \<and> image_allowed cfg (cc_image cc)"

lemma baseHostConfig_fields:
  "hc_mounts (fst (baseHostConfig cfg env url mounts m)) = mounts"
  "hc_cap_drop (fst (baseHostConfig cfg env url mounts m)) = [''ALL'']"
  "hc_security_opt (fst (baseHostConfig cfg env url mounts m)) = [''no-new-privileges'']"
  "hc_memory (fst (baseHostConfig cfg env url mounts m)) = ContainerMemoryLimit cfg"
  "hc_pids_limit (fst (baseHostConfig cfg env url mounts m)) = ContainerPidsLimit cfg"
  by (simp_all add: baseHostConfig_def case_prod_unfold)

text \<open>A created card container: its specification, then the answer of Docker.\<close>

definition card_container :: "manager_config \<Rightarrow> spawn_env \<Rightarrow> run_config \<Rightarrow> secret_delivery \<Rightarrow> container_config \<Rightarrow> bool" where
  "card_container cfg env rc delivery cc \<longleftrightarrow> cc_labels cc = card_labels rc \<and>
     cc_open_stdin cc = rc_interactive rc \<and> cc_attach_stdin cc = rc_interactive rc \<and>
     cc_env cc = fst (applySecretsDelivery (card_env cfg env rc) [] delivery)"

lemma create_card_shape:
  assumes "create_card cfg env rc img mounts delivery m = (r, m')"
    and "image_allowed cfg img" "\<And>envs. snd (applySecretsDelivery envs mounts delivery) = read_only_binds (worker_mounts cfg env)"
  obtains cc host name m1 where "quietly m m1" "hardened cfg env [] cc host" "card_container cfg env rc delivery cc"
    "create_answered env rc (collectSecretValues (rc_mcp_api_key rc) delivery) (ev (EvCreate cc host name) m1) = (r, m')"
proof -
  obtain envs mounts' where a: "applySecretsDelivery (card_env cfg env rc) mounts delivery = (envs, mounts')" by fastforce
  obtain host m1 where h: "baseHostConfig cfg env (rc_mcp_url rc) mounts' m = (host, m1)" by fastforce
  let ?cc = "\<lparr>cc_image = img, cc_env = envs, cc_labels = card_labels rc,
      cc_open_stdin = rc_interactive rc, cc_attach_stdin = rc_interactive rc\<rparr>"
  have "fst (applySecretsDelivery (card_env cfg env rc) [] delivery) = envs"
    using a by (cases delivery) (simp_all add: applySecretsDelivery_def)
  then have c: "card_container cfg env rc delivery ?cc" by (simp add: card_container_def)
  have "mounts' = read_only_binds (worker_mounts cfg env)" using a assms(3)[of "card_env cfg env rc"] by simp
  then have "hardened cfg env [] ?cc host"
    using baseHostConfig_fields[of cfg env "rc_mcp_url rc" mounts' m] h assms(2) by (simp add: hardened_def)
  moreover have "quietly m m1" using baseHostConfig_quiet[of m cfg env "rc_mcp_url rc" mounts'] h by simp
  ultimately show thesis
    using that[of m1 ?cc host "sanitizeContainerName env (rc_project rc) (rc_card rc)"] c assms(1) a h
    by (simp add: create_card_def Let_def)
qed

section \<open>Nothing is left behind\<close>

fun is_status :: "mgr_event \<Rightarrow> bool" where
  "is_status (EvStatus c p s t) = True" | "is_status _ = False"

fun is_create :: "mgr_event \<Rightarrow> bool" where
  "is_create (EvCreate c h n) = True" | "is_create _ = False"

definition news :: "manager \<Rightarrow> manager \<Rightarrow> mgr_event list" where
  "news m m' = drop (length (m_events m)) (m_events m')"

lemma quiet_plain: "quiet e \<Longrightarrow> \<not> is_status e \<and> \<not> is_create e"
  by (cases e) simp_all

lemma quietly_plain:
  assumes "quietly m m'"
  obtains q where "m_events m' = m_events m @ q" "filter is_status q = []" "filter is_create q = []"
proof -
  obtain q where q: "m_events m' = m_events m @ q" "list_all quiet q" using assms by (auto simp: quietly_def)
  have "filter is_status q = []" "filter is_create q = []"
    using q(2) quiet_plain by (auto simp: filter_empty_conv list_all_iff)
  then show thesis using that q(1) by blast
qed

lemma priming_events [mgr_simps]:
  "m_events (writePrimingWithTimeout env rc b w m) = m_events m @
     (if priming_stalls env \<and> stdin_open (rc_key rc) (m_tracker m) then [EvRawClose w] else [])"
  by (simp add: writePrimingWithTimeout_def mgr_simps)

text \<open>What follows the creation, up to the return of \<open>startContainer\<close>.\<close>

lemma created_events:
  assumes "create_answered env rc secrets m = (r, m')"
  obtains es where "m_events m' = m_events m @ es" "filter is_status es = []" "filter is_create es = []"
    "\<And>cid s. r = Started cid s \<Longrightarrow> create_answer env = Ok cid \<and> s = secrets"
    "\<And>e cid. r = StartFailed e \<Longrightarrow> create_answer env = Ok cid \<Longrightarrow> EvRemove cid \<in> set es"
proof (cases "create_answer env")
  case (Ok cid)
  then have s: "start_created env rc cid secrets m = (r, m')" using assms by (simp add: create_answered_def)
  show thesis
  proof (cases "start_answer env")
    case (Ok u)
    note st = Ok
    show ?thesis
    proof (cases "rc_interactive rc")
      case True
      then show ?thesis
        using s st \<open>create_answer env = Ok cid\<close>
        by (cases "attach_answer env")
          (auto simp: start_created_def Let_def mgr_simps split: if_splits intro!: that)
    next
      case False
      then show ?thesis
        using s st \<open>create_answer env = Ok cid\<close> by (intro that[of "[EvStart cid]"]) (auto simp: start_created_def mgr_simps)
    qed
  next
    case (Fail e)
    then show ?thesis
      using s \<open>create_answer env = Ok cid\<close>
      by (intro that[of "[EvStart cid, EvRemove cid]"]) (auto simp: start_created_def mgr_simps)
  next
    case (Panic e)
    then show ?thesis
      using s \<open>create_answer env = Ok cid\<close>
      by (intro that[of "[EvStart cid]"]) (auto simp: start_created_def mgr_simps)
  qed
qed (use assms in \<open>auto simp: create_answered_def intro: that[of "[]"]\<close>)

lemma start_events:
  assumes "startContainer cfg env rc m = (r, m')"
  obtains es where "m_events m' = m_events m @ es" "filter is_status es = []"
    "\<And>cid s. r = Started cid s \<Longrightarrow> create_answer env = Ok cid"
    "\<And>cc host n. EvCreate cc host n \<in> set es \<Longrightarrow> hardened cfg env [] cc host"
    "\<And>e cid. r = StartFailed e \<Longrightarrow> create_answer env = Ok cid \<Longrightarrow> filter is_create es \<noteq> [] \<Longrightarrow> EvRemove cid \<in> set es"
    "length (filter is_create es) \<le> 1"
  using assms
proof (cases rule: startContainer_shape)
  case (refused e)
  obtain q where q: "m_events m' = m_events m @ q" "filter is_status q = []" "filter is_create q = []"
    using refused(2) by (rule quietly_plain)
  have "EvCreate cc host n \<notin> set q" for cc host n
    using q(3) by (fastforce simp: filter_empty_conv)
  then show ?thesis using that[of q] q refused(1) by simp
next
  case (created img mounts delivery m1)
  obtain cc host name m2 where c: "quietly m1 m2" "hardened cfg env [] cc host" "card_container cfg env rc delivery cc"
    "create_answered env rc (collectSecretValues (rc_mcp_api_key rc) delivery) (ev (EvCreate cc host name) m2) = (r, m')"
    using created(4,1,2) by (rule create_card_shape)
  obtain q where q: "m_events m2 = m_events m @ q" "filter is_status q = []" "filter is_create q = []"
    using quietly_trans[OF created(3) c(1)] by (rule quietly_plain)
  obtain es where es: "m_events m' = m_events (ev (EvCreate cc host name) m2) @ es" "filter is_status es = []"
    "filter is_create es = []"
    "\<And>cid s. r = Started cid s \<Longrightarrow> create_answer env = Ok cid \<and> s = collectSecretValues (rc_mcp_api_key rc) delivery"
    "\<And>e cid. r = StartFailed e \<Longrightarrow> create_answer env = Ok cid \<Longrightarrow> EvRemove cid \<in> set es"
    using c(4) by (rule created_events) blast
  have no: "EvCreate cc' host' n' \<notin> set q \<union> set es" for cc' host' n'
    using q(3) es(3) by (fastforce simp: filter_empty_conv)
  let ?es = "q @ EvCreate cc host name # es"
  show ?thesis
  proof (rule that[of ?es])
    show "m_events m' = m_events m @ ?es" using es(1) q(1) by (simp add: mgr_simps)
    show "filter is_status ?es = []" "length (filter is_create ?es) \<le> 1" using q es by simp_all
    show "create_answer env = Ok cid" if "r = Started cid s" for cid s using es(4) that by blast
    show "hardened cfg env [] cc' host'" if "EvCreate cc' host' n' \<in> set ?es" for cc' host' n'
      using that no[of cc' host' n'] c(2) by auto
    show "EvRemove cid \<in> set ?es" if "r = StartFailed e" "create_answer env = Ok cid" for e cid
      using es(5)[OF that] by simp
  qed
qed

lemma fold_publish [mgr_simps]:
  "m_tracker (fold publish xs m) = m_tracker m" "m_events (fold publish xs m) = m_events m"
  by (induction xs arbitrary: m) (simp_all add: mgr_simps)

lemma emitSystem_fields [mgr_simps]:
  "m_tracker (emitSystem rc c m) = m_tracker m" "m_events (emitSystem rc c m) = m_events m"
  by (simp_all add: emitSystem_def mgr_simps)

lemma reports [mgr_simps]:
  "m_tracker (reportFailure rc msg m) = m_tracker m"
  "m_events (reportFailure rc msg m) = m_events m @ [EvStatus (rc_card rc) (rc_project rc) ''failed'' msg]"
  "m_tracker (reportCompleted rc m) = m_tracker m"
  "m_events (reportCompleted rc m) =
     m_events m @ [EvStatus (rc_card rc) (rc_project rc) ''completed'' ''container exited normally'']"
  by (simp_all add: reportFailure_def reportCompleted_def mgr_simps)

lemma fail_after_kill_fields [mgr_simps]:
  "m_tracker (fail_after_kill cid rc sys msg m) = m_tracker m"
  "m_events (fail_after_kill cid rc sys msg m) = m_events m @
     [EvStop cid stopGracePeriod, EvStatus (rc_card rc) (rc_project rc) ''failed'' msg]"
  by (simp_all add: fail_after_kill_def killContainer_def mgr_simps)

lemma release_fields [mgr_simps]:
  "m_tracker (release cid rc m) = tracker_Remove (rc_project rc) (rc_card rc) (m_tracker m)"
  "m_events (release cid rc m) = m_events m @ [EvRemove cid]"
  by (simp_all add: release_def removeContainer_def mgr_simps)

text \<open>What each ending of the wait does, and how it is classified.\<close>

definition wait_report :: "manager_config \<Rightarrow> wait_env \<Rightarrow> bool \<Rightarrow> (outcome \<times> string \<times> string) option" where
  "wait_report cfg w idle =
     (let canceled = Some (if idle
          then (OutcomeIdleTimeout, ''failed'', ''idle output timeout after '' @ show_duration w (IdleOutputTimeout cfg))
          else (OutcomeKilled, ''failed'', ''killed by operator''))
      in case wait_result w of
           Exited code \<Rightarrow> Some (if code = 0 then (OutcomeSuccess, ''completed'', ''container exited normally'')
             else (OutcomeFailure, ''failed'', exit_message code))
         | WaitError e deadline cancelled \<Rightarrow>
             if cancelled then canceled
             else if deadline
             then Some (OutcomeTimeout, ''failed'', ''container timed out after '' @ show_duration w (ContainerTimeoutDuration cfg))
             else Some (OutcomeFailure, ''failed'', ''wait error: '' @ e)
         | ContextDone \<Rightarrow> canceled
         | WaitPanics e \<Rightarrow> None)"

definition exited :: "wait_env \<Rightarrow> bool" where
  "exited w \<longleftrightarrow> (\<exists>code. wait_result w = Exited code)"

lemma wait_select_report:
  assumes "wait_select cfg w cid rc m = (r, m')"
  defines "idle \<equiv> Reason (rc_project rc) (rc_card rc) (m_tracker m) = killReasonIdle"
  shows "m_tracker m' = m_tracker m"
    and "(case wait_report cfg w idle of
       None \<Rightarrow> r = None \<and> m_events m' = m_events m
     | Some (out, st, msg) \<Rightarrow> r = Some out \<and> m_events m' = m_events m @
         (if exited w then [] else [EvStop cid stopGracePeriod]) @ [EvStatus (rc_card rc) (rc_project rc) st msg])"
  using assms(1)
  by (cases "wait_result w"; auto simp: wait_select_def wait_report_def exited_def idle_def Let_def mgr_simps
      handleWaitTimeout_def handleWaitError_def handleCanceled_def split: if_splits)+

lemma removed_key: "\<not> has_key k (remove_key k t)"
  by (simp add: has_key_def lookup_key_def remove_key_containers delete_conv')

definition no_spawn_panic :: "spawn_env \<Rightarrow> bool" where
  "no_spawn_panic env \<longleftrightarrow> (\<forall>e. start_answer env \<noteq> Panic e) \<and> (\<forall>e. attach_answer env \<noteq> Panic e)"

lemma panic_source:
  "create_answered env rc secrets m = (StartPanicked e, m') \<Longrightarrow> create_answer env = Ok cid \<Longrightarrow> \<not> no_spawn_panic env"
  by (auto simp: create_answered_def start_created_def Let_def no_spawn_panic_def split: answer.splits if_splits)

lemma wait_and_cleanup:
  assumes "waitAndCleanup cfg w cid rc secrets m = (r, m')"
  defines "t \<equiv> run_others w (m_tracker m)"
  defines "idle \<equiv> Reason (rc_project rc) (rc_card rc) t = killReasonIdle"
  shows "m_tracker m' = tracker_Remove (rc_project rc) (rc_card rc) t"
    and "case wait_report cfg w idle of
       None \<Rightarrow> r = None \<and> m_events m' = m_events m @ [EvLogs cid, EvWait cid, EvRemove cid]
     | Some (out, st, msg) \<Rightarrow> r = Some out \<and> m_events m' = m_events m @ [EvLogs cid, EvWait cid] @
         (if exited w then [] else [EvStop cid stopGracePeriod]) @
         [EvStatus (rc_card rc) (rc_project rc) st msg, EvRemove cid]"
proof -
  let ?m1 = "on_tracker (run_others w) (ev (EvWait cid) (streamLogs w cid rc secrets m))"
  have f: "m_tracker ?m1 = t" "m_events ?m1 = m_events m @ [EvLogs cid, EvWait cid]"
    by (simp_all add: streamLogs_def mgr_simps t_def)
  obtain r' m2 where s: "wait_select cfg w cid rc ?m1 = (r', m2)" by fastforce
  then have r: "r = r'" "m' = release cid rc m2" using assms(1) by (simp_all add: waitAndCleanup_def Let_def)
  note report = wait_select_report[OF s, unfolded f]
  show "m_tracker m' = tracker_Remove (rc_project rc) (rc_card rc) t" using report(1) by (simp add: r mgr_simps)
  show "case wait_report cfg w idle of
       None \<Rightarrow> r = None \<and> m_events m' = m_events m @ [EvLogs cid, EvWait cid, EvRemove cid]
     | Some (out, st, msg) \<Rightarrow> r = Some out \<and> m_events m' = m_events m @ [EvLogs cid, EvWait cid] @
         (if exited w then [] else [EvStop cid stopGracePeriod]) @
         [EvStatus (rc_card rc) (rc_project rc) st msg, EvRemove cid]"
    using report(2) by (simp add: r mgr_simps idle_def split: option.splits prod.splits)
qed

lemma wait_report_completed:
  "wait_report cfg w idle = Some (out, st, msg) \<Longrightarrow> st = ''completed'' \<longleftrightarrow> out = OutcomeSuccess"
  by (auto simp: wait_report_def Let_def split: wait_result.splits if_splits)

lemma recover_fields:
  "m_tracker (recover_run rc e cid m) = tracker_Remove (rc_project rc) (rc_card rc) (m_tracker m)"
  "\<exists>es. m_events (recover_run rc e cid m) = m_events m @ es @
     [EvStatus (rc_card rc) (rc_project rc) ''failed'' (''internal error: '' @ e)] \<and> filter is_status es = []"
  by (auto simp: recover_run_def Let_def mgr_simps)

lemma started_run_ends:
  assumes s: "startContainer cfg env rc (on_tracker (spawn_others env) m) = (Started cid secrets, m1)"
    and r: "Manager_Run cfg env w rc m = (out, m')"
  shows "\<not> has_key (rc_key rc) (m_tracker m') \<and>
    (\<exists>x st msg. m_events m' = m_events m1 @ x \<and> filter is_status x = [EvStatus (rc_card rc) (rc_project rc) st msg] \<and>
       EvRemove cid \<in> set x \<and> (st = ''completed'' \<longleftrightarrow> out = OutcomeSuccess))"
proof -
  let ?m2 = "ev (EvRunningAsync (rc_card rc) (rc_project rc)) (emitSystem rc ''container started''
      (on_tracker (UpdateContainerID (rc_project rc) (rc_card rc) cid) m1))"
  obtain q m3 where q: "waitAndCleanup cfg w cid rc secrets ?m2 = (q, m3)" by fastforce
  have e2: "m_events ?m2 = m_events m1 @ [EvRunningAsync (rc_card rc) (rc_project rc)]" by (simp add: mgr_simps)
  note run = r[unfolded Manager_Run_def run_card_def s]
  note wc = wait_and_cleanup[OF q, unfolded e2]
  show ?thesis
  proof (cases q)
    case None
    let ?e = "case wait_result w of WaitPanics e \<Rightarrow> e | _ \<Rightarrow> []"
    have "m' = recover_run rc ?e cid m3" "out = OutcomeFailure" using run q None by (simp_all add: Let_def)
    moreover obtain x where "m_events m3 = m_events m1 @ x" "filter is_status x = []" "EvRemove cid \<in> set x"
      using wc(2) None by (auto split: option.splits)
    ultimately show ?thesis
      using recover_fields[of rc ?e cid m3] by (auto simp: tracker_Remove_def removed_key)
  next
    case (Some o')
    then have "m' = m3" "out = o'" using run q by (simp_all add: Let_def)
    then show ?thesis
      using wc wait_report_completed Some by (auto simp: tracker_Remove_def removed_key split: option.splits)
  qed
qed

text \<open>
  C8. A card run gives everything back. However the start, the container and the wait end, with errors and
  panics of Docker and with any changes other goroutines make to the registry meanwhile: when \<open>Run\<close>
  returns, the card is no longer tracked, exactly one final status was reported for it, \<open>completed\<close> exactly
  when the run counts as a success, and a container that was created has been force-removed (unless
  Docker's start or attach call itself panicked).
\<close>

theorem run_gives_everything_back:
  assumes "Manager_Run cfg env w rc m = (out, m')"
  shows "\<not> has_key (rc_key rc) (m_tracker m') \<and>
    (\<exists>st msg. filter is_status (news m m') = [EvStatus (rc_card rc) (rc_project rc) st msg] \<and>
       (st = ''completed'' \<longleftrightarrow> out = OutcomeSuccess)) \<and>
    (\<forall>cid. create_answer env = Ok cid \<and> filter is_create (news m m') \<noteq> [] \<and> no_spawn_panic env \<longrightarrow>
       EvRemove cid \<in> set (news m m'))"
proof -
  let ?m0 = "on_tracker (spawn_others env) m"
  obtain r m1 where s: "startContainer cfg env rc ?m0 = (r, m1)" by fastforce
  obtain es where es0: "m_events m1 = m_events ?m0 @ es" and es1: "filter is_status es = []"
    "\<And>cid s. r = Started cid s \<Longrightarrow> create_answer env = Ok cid"
    "\<And>e cid. r = StartFailed e \<Longrightarrow> create_answer env = Ok cid \<Longrightarrow> filter is_create es \<noteq> [] \<Longrightarrow> EvRemove cid \<in> set es"
    using s by (rule start_events) blast
  have "m_events m1 = m_events m @ es" using es0 by (simp add: mgr_simps)
  note es = this es1
  note run = assms[unfolded Manager_Run_def run_card_def s]
  show ?thesis
  proof (cases r)
    case (StartFailed e)
    then have "m' = on_tracker (tracker_Remove (rc_project rc) (rc_card rc)) (reportFailure rc (''start failed: '' @ e) m1)"
      "out = OutcomeFailure"
      using run by simp_all
    then show ?thesis
      using es StartFailed by (auto simp: mgr_simps tracker_Remove_def removed_key news_def)
  next
    case (StartPanicked e)
    then have o: "m' = recover_run rc e [] m1" "out = OutcomeFailure" using run by simp_all
    have p: "create_answer env = Ok cid \<Longrightarrow> \<not> no_spawn_panic env" for cid
      using s StartPanicked
      by (auto elim!: startContainer_shape create_card_shape dest: panic_source)
    show ?thesis
      using es recover_fields[of rc e "[]" m1] p by (auto simp: o tracker_Remove_def removed_key news_def)
  next
    case (Started cid secrets)
    then show ?thesis
      using es started_run_ends[OF s[unfolded Started] assms] by (auto simp: news_def)
  qed
qed

section \<open>How a run is classified\<close>

lemma run_started:
  assumes "startContainer cfg env rc (on_tracker (spawn_others env) m) = (Started cid secrets, m1)"
    and "Manager_Run cfg env w rc m = (out, m')"
    and "wait_report cfg w (Reason (rc_project rc) (rc_card rc)
           (run_others w (UpdateContainerID (rc_project rc) (rc_card rc) cid (m_tracker m1))) = killReasonIdle)
         = Some (out', st, msg)"
  shows "out = out' \<and> m_events m' = m_events m1 @
    [EvRunningAsync (rc_card rc) (rc_project rc), EvLogs cid, EvWait cid] @
    (if exited w then [] else [EvStop cid stopGracePeriod]) @
    [EvStatus (rc_card rc) (rc_project rc) st msg, EvRemove cid]"
proof -
  let ?m2 = "ev (EvRunningAsync (rc_card rc) (rc_project rc)) (emitSystem rc ''container started''
      (on_tracker (UpdateContainerID (rc_project rc) (rc_card rc) cid) m1))"
  obtain q m3 where q: "waitAndCleanup cfg w cid rc secrets ?m2 = (q, m3)" by fastforce
  have "m_tracker ?m2 = UpdateContainerID (rc_project rc) (rc_card rc) cid (m_tracker m1)" by (simp add: mgr_simps)
  then have "q = Some out' \<and> m_events m3 = m_events ?m2 @ [EvLogs cid, EvWait cid] @
      (if exited w then [] else [EvStop cid stopGracePeriod]) @ [EvStatus (rc_card rc) (rc_project rc) st msg, EvRemove cid]"
    using wait_and_cleanup(2)[OF q] assms(3) by simp
  then show ?thesis using assms(2) q by (auto simp: Manager_Run_def run_card_def assms(1) Let_def mgr_simps)
qed

text \<open>
  C9. The classification of a run. Once the container is started, the outcome, the reported status and the
  Docker calls are a function of how the wait ended: exit code 0 is a success, any other code a
  failure; a passed deadline is a timeout only while the run was not cancelled; a cancelled run counts
  as idle timeout when the watchdog left its reason, else as killed; and the container is stopped
  before the report in every case but its own exit, and removed after it.
\<close>

theorem run_outcome:
  assumes "startContainer cfg env rc (on_tracker (spawn_others env) m) = (Started cid secrets, m1)"
    and "Manager_Run cfg env w rc m = (out, m')"
    and "wait_report cfg w (Reason (rc_project rc) (rc_card rc)
           (run_others w (UpdateContainerID (rc_project rc) (rc_card rc) cid (m_tracker m1))) = killReasonIdle)
         = Some (out', st, msg)"
  shows "out = out' \<and> m_events m' = m_events m1 @
    [EvRunningAsync (rc_card rc) (rc_project rc), EvLogs cid, EvWait cid] @
    (if exited w then [] else [EvStop cid stopGracePeriod]) @
    [EvStatus (rc_card rc) (rc_project rc) st msg, EvRemove cid]"
  using assms by (rule run_started)

section \<open>The idle watchdog\<close>

lemma watchdog_find:
  "fst (runIdleWatchdog cfg w cid rc ticks m) =
     map_option fst (find (\<lambda>(t, l). t - l > IdleOutputTimeout cfg) ticks)"
  by (induction ticks) (auto simp: Let_def split: prod.split bool.split)

lemma lookup_update: "lookup_key k (update_info k f t) = map_option f (lookup_key k t)"
proof -
  have "map_of (map (\<lambda>(j, i). (j, if j = k then f i else i)) xs) k = map_option f (map_of xs k)" for xs
    by (induction xs) auto
  then show ?thesis by (simp add: lookup_key_def update_info_def)
qed

lemma cancel_reason:
  "fst (CancelWithReason project cid why t) \<longleftrightarrow> has_key (tkey project cid) t"
  "has_key (tkey project cid) t \<Longrightarrow> Reason project cid (snd (CancelWithReason project cid why t)) = why"
proof -
  have l: "lookup_key k (emit es t) = lookup_key k t" for k es t by (simp add: frame_simps)
  show "fst (CancelWithReason project cid why t) \<longleftrightarrow> has_key (tkey project cid) t"
    by (auto simp: CancelWithReason_def cancel_all_def cancel_map_def has_key_def split: option.splits)
  show "has_key (tkey project cid) t \<Longrightarrow> Reason project cid (snd (CancelWithReason project cid why t)) = why"
    by (auto simp: CancelWithReason_def cancel_all_def cancel_map_def has_key_def Reason_def lookup_update l
        split: option.splits)
qed

lemma cancel_calls:
  assumes "lookup_key (tkey project cid) t = Some i" and "CancelFn i = Some c"
  shows "trace (snd (CancelWithReason project cid why t)) = Cancelled c # trace t"
  using assms by (simp add: CancelWithReason_def cancel_all_def cancel_map_def emit_def update_info_def)

lemma watchdog_effect:
  "fst (runIdleWatchdog cfg w cid rc ticks m) = Some t \<Longrightarrow>
   (case lookup_key (rc_key rc) (m_tracker m) of
      Some i \<Rightarrow> (let m' = snd (runIdleWatchdog cfg w cid rc ticks m) in
        Reason (rc_project rc) (rc_card rc) (m_tracker m') = killReasonIdle \<and>
        (\<forall>c. CancelFn i = Some c \<longrightarrow> trace (m_tracker m') = Cancelled c # trace (m_tracker m)))
    | None \<Rightarrow> m_events (snd (runIdleWatchdog cfg w cid rc ticks m)) = m_events m @ [EvStop cid stopGracePeriod])"
proof (induction ticks)
  case (Cons x ticks)
  obtain u l where x: "x = (u, l)" by fastforce
  obtain b t' where c: "CancelWithReason (rc_project rc) (rc_card rc) killReasonIdle (m_tracker m) = (b, t')" by fastforce
  show ?case
    using Cons cancel_reason[where project = "rc_project rc" and cid = "rc_card rc" and why = killReasonIdle and t = "m_tracker m"]
      cancel_calls[where project = "rc_project rc" and cid = "rc_card rc" and why = killReasonIdle and t = "m_tracker m"]
    by (cases b) (auto simp: x Let_def mgr_simps c killContainer_def has_key_def split: option.splits)
qed simp

text \<open>Ticks of period \<open>d\<close> from \<open>t0\<close> on, with no output after \<open>l\<close>.\<close>

definition quiet_ticks :: "time \<Rightarrow> duration \<Rightarrow> time \<Rightarrow> nat \<Rightarrow> (time \<times> time) list" where
  "quiet_ticks t0 d l n = map (\<lambda>i. (t0 + int i * d, l)) [0..<n]"

lemma find_quiet:
  assumes "0 < d" and "t0 \<le> l + idle" and "l + idle < t0 + int n * d"
  shows "\<exists>t. map_option fst (find (\<lambda>(t, l). t - l > idle) (quiet_ticks t0 d l (Suc n))) = Some t \<and>
    l + idle < t \<and> t \<le> l + idle + d"
  using assms
proof (induction n arbitrary: t0)
  case (Suc n)
  have shift: "quiet_ticks t0 d l (Suc (Suc n)) = (t0, l) # quiet_ticks (t0 + d) d l (Suc n)"
  proof -
    have "[0..<Suc (Suc n)] = 0 # map Suc [0..<Suc n]" by (simp add: map_Suc_upt upt_conv_Cons del: upt_Suc)
    then show ?thesis by (simp add: quiet_ticks_def algebra_simps del: upt_Suc)
  qed
  show ?case
  proof (cases "t0 + d \<le> l + idle")
    case True
    then show ?thesis using Suc.IH[of "t0 + d"] Suc.prems by (simp add: shift algebra_simps)
  next
    case False
    have "quiet_ticks (t0 + d) d l (Suc n) = (t0 + d, l) # map (\<lambda>i. (t0 + d + int i * d, l)) [Suc 0..<Suc n]"
      by (simp add: quiet_ticks_def upt_conv_Cons del: upt_Suc)
    then show ?thesis using False Suc.prems by (simp add: shift del: upt_Suc)
  qed
qed simp

lemma idle_classified:
  assumes "Reason (rc_project rc) (rc_card rc) (m_tracker m) = killReasonIdle"
    and "wait_result w = ContextDone \<or> wait_result w = WaitError e d True"
  shows "\<exists>m'. wait_select cfg w cid rc m = (Some OutcomeIdleTimeout, m') \<and>
    m_events m' = m_events m @ [EvStop cid stopGracePeriod,
      EvStatus (rc_card rc) (rc_project rc) ''failed'' (''idle output timeout after '' @ show_duration w (IdleOutputTimeout cfg))]"
  using assms by (auto simp: wait_select_def handleCanceled_def fail_after_kill_def reportFailure_def killContainer_def mgr_simps Let_def)

text \<open>
  C29. A silent container is killed in time. When nothing arrives after time \<open>l\<close>, the watchdog's ticker of the
  effective period makes it fire, once, later than \<open>l\<close> plus the idle limit and at most one period
  after that. If the card is still tracked, the watchdog leaves the idle reason on the entry and calls the entry's
  cancel function; the wait of the run, ended by that cancellation, then stops the container and reports the card
  failed, with the outcome idle timeout. If the card is no longer tracked, the watchdog stops the container itself.
\<close>

theorem idle_kill_in_time:
  assumes "0 < IdleOutputTimeout cfg" and "t0 \<le> l + IdleOutputTimeout cfg"
    and "l + IdleOutputTimeout cfg < t0 + int n * watchdog_tick cfg"
  shows "\<exists>t m'. runIdleWatchdog cfg w cid rc (quiet_ticks t0 (watchdog_tick cfg) l (Suc n)) m = (Some t, m') \<and>
    l + IdleOutputTimeout cfg < t \<and> t \<le> l + IdleOutputTimeout cfg + watchdog_tick cfg \<and>
    (case lookup_key (rc_key rc) (m_tracker m) of
       None \<Rightarrow> m_events m' = m_events m @ [EvStop cid stopGracePeriod]
     | Some i \<Rightarrow> Reason (rc_project rc) (rc_card rc) (m_tracker m') = killReasonIdle \<and>
         (\<forall>c. CancelFn i = Some c \<longrightarrow> trace (m_tracker m') = Cancelled c # trace (m_tracker m)) \<and>
         (\<forall>w'. wait_result w' = ContextDone \<or> (\<exists>e d. wait_result w' = WaitError e d True) \<longrightarrow>
           (\<exists>m''. wait_select cfg w' cid rc m' = (Some OutcomeIdleTimeout, m'') \<and>
             m_events m'' = m_events m' @ [EvStop cid stopGracePeriod, EvStatus (rc_card rc) (rc_project rc) ''failed''
               (''idle output timeout after '' @ show_duration w' (IdleOutputTimeout cfg))])))"
proof -
  have d: "0 < watchdog_tick cfg" using assms(1) by (simp add: watchdog_tick_def Let_def)
  let ?ticks = "quiet_ticks t0 (watchdog_tick cfg) l (Suc n)"
  obtain t where t: "fst (runIdleWatchdog cfg w cid rc ?ticks m) = Some t" "l + IdleOutputTimeout cfg < t"
    "t \<le> l + IdleOutputTimeout cfg + watchdog_tick cfg"
    using find_quiet[OF d assms(2,3)] by (auto simp: watchdog_find)
  have p: "runIdleWatchdog cfg w cid rc ?ticks m = (Some t, snd (runIdleWatchdog cfg w cid rc ?ticks m))"
    using t(1) by (metis prod.collapse)
  show ?thesis
  proof (cases "lookup_key (rc_key rc) (m_tracker m)")
    case None
    then show ?thesis using p t(2,3) watchdog_effect[OF t(1)] by auto
  next
    case (Some i)
    then have e: "Reason (rc_project rc) (rc_card rc) (m_tracker (snd (runIdleWatchdog cfg w cid rc ?ticks m))) = killReasonIdle"
      "\<forall>c. CancelFn i = Some c \<longrightarrow>
         trace (m_tracker (snd (runIdleWatchdog cfg w cid rc ?ticks m))) = Cancelled c # trace (m_tracker m)"
      using watchdog_effect[OF t(1)] by (auto simp: Let_def)
    show ?thesis
      unfolding Some option.case using p t(2,3) e idle_classified[OF e(1)]
      by (intro exI[of _ t] exI[of _ "snd (runIdleWatchdog cfg w cid rc ?ticks m)"]) blast
  qed
qed

section \<open>Secrets of a card in its log stream\<close>

lemma env_entry_inj:
  assumes "CHR ''='' \<notin> set k" and "CHR ''='' \<notin> set k'" and "env_entry k v = env_entry k' v'"
  shows "k = k' \<and> v = v'"
proof -
  have t: "takeWhile (\<lambda>c. c \<noteq> CHR ''='') (env_entry j x) = j" if "CHR ''='' \<notin> set j" for j x
    using that by (auto simp: env_entry_def takeWhile_eq_all_conv takeWhile_append2[where P = "\<lambda>c. c \<noteq> CHR ''=''"]
        takeWhile_tail)
  have "k = k'" using arg_cong[OF assms(3), of "takeWhile (\<lambda>c. c \<noteq> CHR ''='')"] assms(1,2) by (simp add: t)
  then show ?thesis using assms(3) by (simp add: env_entry_def)
qed

lemma after_equals_entry:
  assumes "CHR ''='' \<notin> set k"
  shows "after_equals (env_entry k v) = [v]"
proof -
  have "dropWhile (\<lambda>c. c \<noteq> CHR ''='') (k @ CHR ''='' # v) = CHR ''='' # v"
    using assms by (induction k) auto
  then show ?thesis by (simp add: after_equals_def env_entry_def)
qed

text \<open>What \<open>config.Validate\<close> enforces of the keys of \<open>worker_extra_env\<close>.\<close>

definition worker_env_ok :: "manager_config \<Rightarrow> bool" where
  "worker_env_ok cfg \<longleftrightarrow> (\<forall>k \<in> fst ` set (WorkerExtraEnv cfg). CHR ''='' \<notin> set k \<and> k \<notin> set secretenv_Keys)"

lemma secret_key_plain: "k \<in> set secretenv_Keys \<Longrightarrow> CHR ''='' \<notin> set k"
  by (auto simp: secretenv_Keys_def)

lemma common_env_secret:
  assumes "worker_env_ok cfg" and "k \<in> set secretenv_Keys"
    and "env_entry k v \<in> set (appendCommonEnv cfg envs skills)"
  shows "env_entry k v \<in> set envs"
proof -
  have k: "CHR ''='' \<notin> set k" using assms(2) by (rule secret_key_plain)
  have n: "env_entry k v \<noteq> env_entry j u" if "j \<notin> set secretenv_Keys" "CHR ''='' \<notin> set j" for j u
    using env_entry_inj[OF k that(2)] that(1) assms(2) by blast
  have w: False if "env_entry k v = env_entry j u" "(j, x) \<in> set (WorkerExtraEnv cfg)" for j u x
    using n[of j u] assms(1) that unfolding worker_env_ok_def by force
  show ?thesis
    using assms(3) n[of "''CM_CLAUDE_SETTINGS''"] n[of "''CM_TASK_SKILLS_SET''"] n[of "''CM_TASK_SKILLS''"]
      n[of "''NODE_EXTRA_CA_CERTS''"]
    by (auto simp: appendCommonEnv_def only_if_def secretenv_Keys_def set_sorted_keys dest: w split: option.splits if_splits)
qed

lemma delivered_secret:
  assumes "env_entry k v \<in> set (fst (applySecretsDelivery envs [] delivery))" and "CHR ''='' \<notin> set k"
  shows "env_entry k v \<in> set envs \<or> v \<in> set (collectSecretValues key delivery)"
proof (cases delivery)
  case (SecretModeEnvVar vars)
  have "v \<in> set (concat (map after_equals vars))" if "env_entry k v \<in> set vars"
    using that after_equals_entry[OF assms(2), of v] by force
  then show ?thesis using assms(1) SecretModeEnvVar by (auto simp: applySecretsDelivery_def collectSecretValues_def)
qed (use assms(1) in \<open>simp add: applySecretsDelivery_def\<close>)

lemma card_secret_collected:
  assumes "card_container cfg env rc delivery cc" and "worker_env_ok cfg" and "k \<in> set secretenv_Keys"
    and "env_entry k v \<in> set (cc_env cc)"
  shows "v \<in> set (collectSecretValues (rc_mcp_api_key rc) delivery)"
proof -
  have k: "CHR ''='' \<notin> set k" using assms(3) by (rule secret_key_plain)
  have n: "env_entry k v \<noteq> env_entry j u" if "j \<notin> set secretenv_Keys" "CHR ''='' \<notin> set j" for j u
    using env_entry_inj[OF k that(2)] that(1) assms(3) by blast
  have "env_entry k v \<in> set (card_env cfg env rc) \<or> ?thesis"
    using delivered_secret[OF _ k] assms(1,4) by (auto simp: card_container_def)
  moreover have "?thesis" if c: "env_entry k v \<in> set (card_env cfg env rc)"
  proof -
    have "rc_mcp_api_key rc \<noteq> [] \<and> env_entry k v = env_entry ''CM_MCP_API_KEY'' (rc_mcp_api_key rc)"
      using common_env_secret[OF assms(2,3) c[unfolded card_env_def]] n[of "''CM_CARD_ID''"] n[of "''CM_PROJECT''"]
        n[of "''CM_MCP_URL''"] n[of "''CM_REPO_URL''"] n[of "''CM_CORRELATION_ID''"] n[of "''CM_BASE_BRANCH''"]
        n[of "''CM_INTERACTIVE''"] n[of "''CM_ORCHESTRATOR_MODEL''"]
      by (auto simp: only_if_def secretenv_Keys_def split: if_splits)
    then show ?thesis using env_entry_inj[OF k, of "''CM_MCP_API_KEY''"] by (auto simp: collectSecretValues_def)
  qed
  ultimately show ?thesis by blast
qed

lemma start_created:
  assumes "startContainer cfg env rc m = (Started cid secrets, m')"
  obtains cc host name delivery where "filter is_create (news m m') = [EvCreate cc host name]"
    "card_container cfg env rc delivery cc" "hardened cfg env [] cc host"
    "secrets = collectSecretValues (rc_mcp_api_key rc) delivery"
  using assms
proof (cases rule: startContainer_shape)
  case (created img mounts delivery m1)
  obtain cc host name m2 where c: "quietly m1 m2" "hardened cfg env [] cc host" "card_container cfg env rc delivery cc"
    "create_answered env rc (collectSecretValues (rc_mcp_api_key rc) delivery) (ev (EvCreate cc host name) m2) =
      (Started cid secrets, m')"
    using created(4,1,2) by (rule create_card_shape)
  obtain q where q: "m_events m2 = m_events m @ q" "filter is_create q = []"
    using quietly_trans[OF created(3) c(1)] by (rule quietly_plain)
  obtain es where es: "m_events m' = m_events (ev (EvCreate cc host name) m2) @ es" "filter is_create es = []"
    "secrets = collectSecretValues (rc_mcp_api_key rc) delivery"
    using c(4) by (rule created_events) blast
  have "filter is_create (news m m') = [EvCreate cc host name]"
    using q es by (simp add: news_def mgr_simps)
  then show ?thesis using that c(2,3) es(3) by blast
qed simp

lemma scan_redacts: "x \<in> set (scan_loop B m redact r) \<Longrightarrow> \<exists>s. x = redact s"
proof (induction B m redact r rule: scan_loop.induct)
  case (1 B m redact r)
  have "x \<in> set (if B = 0 then []
      else case ReadBoundedLine B m r of
        ((raw, truncated, err), r') \<Rightarrow>
          stderr_line redact raw truncated @ (case err of None \<Rightarrow> scan_loop B m redact r' | Some e \<Rightarrow> []))"
    using 1(2) scan_loop.simps[of B m redact r] by simp
  then show ?case
    using 1(1) by (auto simp: stderr_line_def split: if_splits option.splits prod.splits)
qed

lemma emitted_secret:
  assumes "v \<in> set secrets" and "8 \<le> length v"
    and "CHR ''['' \<notin> set v" "CHR '']'' \<notin> set v" "\<not> sublist v ''REDACTED''"
    and "Emit e \<in> set (ProcessStreamWithRedactor J (Some (NewRedactor secrets)) r)"
  shows "sublist v (oe_content e) \<Longrightarrow> oe_type e = ''system'' \<and> (oe_content e \<in> set parser_messages \<or>
      (\<exists>m. rd_err r = IOError m \<and> oe_content e \<in> {m, read_failed_msg @ m}))"
    and "sublist v (oe_model e) \<Longrightarrow> oe_type e = ''usage'' \<and> oe_content e = []"
proof -
  note k = secret_only_raw[OF assms]
  have n: "v \<noteq> []" using assms(2) by auto
  show "oe_type e = ''system'' \<and> (oe_content e \<in> set parser_messages \<or>
      (\<exists>m. rd_err r = IOError m \<and> oe_content e \<in> {m, read_failed_msg @ m}))" if "sublist v (oe_content e)"
    using k[of "oe_content e"] that n
    by (cases e) (auto simp: raw_string_def usage_model_def decoder_error_def system_only_def entry_def)
  show "oe_type e = ''usage'' \<and> oe_content e = []" if "sublist v (oe_model e)"
    using k[of "oe_model e"] that n
    by (cases e) (auto simp: raw_string_def usage_model_def decoder_error_def system_only_def entry_def)
qed


section \<open>An instance\<close>

definition example_mcfg :: manager_config where
  "example_mcfg = \<lparr>BaseImage = ''img'', AllowedImages = [], ImagePullPolicy = ''never'', ContainerTimeoutDuration = 7200,
     ContainerMemoryLimit = 1024, ContainerPidsLimit = 512, ClaudeAuthDir = [], ClaudeOAuthToken = ''oauth'',
     AnthropicAPIKey = [], CACertFile = [], ClaudeSettings = [], SecretsDir = [], TaskSkillsDir = [],
     IdleOutputTimeout = 50, IdleWatchdogInterval = 20, ChatContainerTimeout = 0,
     WorkerExtraEnv = [(''CI'', ''true'')], IsDev = False\<rparr>"

definition example_spawn :: spawn_env where
  "example_spawn = \<lparr>sp_now = 0, image_present = True, pull_result = None, token_provider = True,
     minted = (\<lambda>n. Some ''sesame-open''), create_answer = Ok ''c1'', start_answer = Ok (),
     attach_answer = Ok (7, 8), priming_stalls = False, priming_error = None, lookup_host = (\<lambda>h. None),
     parse_ip = (\<lambda>h. False), parse_url = example_parse, url_string = u_host, sha256 = (\<lambda>s. ''abcd''),
     path_join = (\<lambda>a b. a @ ''/'' @ b), temp_dir = ''/tmp'', mkdir_answer = (\<lambda>p. FsOk), file_ok = (\<lambda>p. True),
     resume_nonce = Some ''n'', spawn_others = (\<lambda>t. t)\<rparr>"

definition example_rc :: run_config where
  "example_rc = \<lparr>rc_card = ''ALPHA-001'', rc_project = ''alpha'', rc_repo_url = ''https://h/r'', rc_mcp_url = ''https://h'',
     rc_mcp_api_key = [], rc_base_branch = ''main'', rc_runner_image = [], rc_interactive = True, rc_model = [],
     rc_correlation = [], rc_task_skills = None\<rparr>"

definition example_manager :: manager where
  "example_manager = NewManager
     (snd (AddIfUnderLimit \<lparr>ContainerID = [], CardID = ''ALPHA-001'', Project = ''alpha'', SessionID = [], Image = [],
        StartedAt = 0, CancelFn = Some 9, reason = [], stdin_ptr = None\<rparr> 2 tracker_New)) None"

definition example_wait :: wait_env where
  "example_wait = \<lparr>stdcopy = Some (\<lparr>rd_rest = [], rd_err = EOF\<rparr>, \<lparr>rd_rest = ''my sesame-open!'', rd_err = EOF\<rparr>),
     json_decoder = example_json, stream_order = (@), run_others = (\<lambda>t. t), wait_result = Exited 0,
     show_duration = (\<lambda>d. ''d'')\<rparr>"

definition example_start :: "start_result \<times> manager" where
  "example_start = startContainer example_mcfg example_spawn example_rc
     (on_tracker (spawn_others example_spawn) example_manager)"

lemmas start_defs = startContainer_def image_allowed_def pullImage_def skills_token_def taskSkillsMount_def
  buildSecretDelivery_def mint_def create_card_def create_answered_def start_created_def buildStaticAuthEnv_def
  collectSecretValues_def after_equals_def env_entry_def

lemma example_started: "fst example_start = Started ''c1'' [''sesame-open'', ''oauth'']"
  by (simp add: example_start_def start_defs Let_def case_prod_unfold example_mcfg_def example_spawn_def example_rc_def)

lemma example_dns: "fst (dns_get 0 ''h'' (newDNSCache dnsCacheTTL dnsCacheCapacity)) = None"
  by (simp add: dns_get_def find_entry_def newDNSCache_def new_store_def)

lemma example_env_secret:
  "\<exists>cc host name. EvCreate cc host name \<in> set (news example_manager (snd example_start)) \<and>
     env_entry ''CM_GIT_TOKEN'' ''sesame-open'' \<in> set (cc_env cc)"
  by (simp add: example_start_def start_defs Let_def case_prod_unfold example_mcfg_def example_spawn_def example_rc_def
      news_def mgr_simps applySecretsDelivery_def baseHostConfig_def buildExtraHosts_def split: list.split option.split)

lemma example_run:
  "\<exists>m'. Manager_Run example_mcfg example_spawn example_wait example_rc example_manager = (OutcomeSuccess, m') \<and>
    filter is_create (news example_manager m') \<noteq> [] \<and>
    EvStatus ''ALPHA-001'' ''alpha'' ''completed'' ''container exited normally'' \<in> set (m_events m')"
proof -
  obtain m1 where s: "startContainer example_mcfg example_spawn example_rc
      (on_tracker (spawn_others example_spawn) example_manager) = (Started ''c1'' [''sesame-open'', ''oauth''], m1)"
    using example_started unfolding example_start_def by (metis prod.collapse)
  obtain out m' where r: "Manager_Run example_mcfg example_spawn example_wait example_rc example_manager = (out, m')" by fastforce
  have w: "wait_report example_mcfg example_wait idle = Some (OutcomeSuccess, ''completed'', ''container exited normally'')" for idle
    by (simp add: wait_report_def example_wait_def)
  note e = run_started[OF s r w]
  have "filter is_create (news (on_tracker (spawn_others example_spawn) example_manager) m1) \<noteq> []"
    using s by (rule start_created) simp
  then have "filter is_create (news example_manager m1) \<noteq> []" by (simp add: news_def mgr_simps)
  then show ?thesis
    using r e by (auto simp: news_def example_rc_def split: if_splits)
qed

theorem run_gives_everything_back_witness:
  "\<exists>m'. Manager_Run example_mcfg example_spawn example_wait example_rc example_manager = (OutcomeSuccess, m') \<and>
     \<not> has_key (tkey ''alpha'' ''ALPHA-001'') (m_tracker m') \<and> EvRemove ''c1'' \<in> set (news example_manager m')"
proof -
  obtain m' where r: "Manager_Run example_mcfg example_spawn example_wait example_rc example_manager = (OutcomeSuccess, m')"
    and c: "filter is_create (news example_manager m') \<noteq> []" using example_run by blast
  have n: "no_spawn_panic example_spawn" "create_answer example_spawn = Ok ''c1''"
    by (simp_all add: no_spawn_panic_def example_spawn_def)
  show ?thesis using run_gives_everything_back[OF r] r c n by (auto simp: example_rc_def)
qed

theorem run_outcome_witness:
  "\<exists>(m1 :: manager) m'. Manager_Run example_mcfg example_spawn example_wait example_rc example_manager = (OutcomeSuccess, m') \<and>
     m_events m' = m_events m1 @ [EvRunningAsync ''ALPHA-001'' ''alpha'', EvLogs ''c1'', EvWait ''c1'',
       EvStatus ''ALPHA-001'' ''alpha'' ''completed'' ''container exited normally'', EvRemove ''c1'']"
proof -
  obtain m1 where s: "startContainer example_mcfg example_spawn example_rc
      (on_tracker (spawn_others example_spawn) example_manager) = (Started ''c1'' [''sesame-open'', ''oauth''], m1)"
    using example_started unfolding example_start_def by (metis prod.collapse)
  obtain out m' where r: "Manager_Run example_mcfg example_spawn example_wait example_rc example_manager = (out, m')" by fastforce
  have w: "wait_report example_mcfg example_wait idle = Some (OutcomeSuccess, ''completed'', ''container exited normally'')"
    "exited example_wait" for idle
    by (simp_all add: wait_report_def example_wait_def exited_def)
  show ?thesis using run_outcome[OF s r w(1)] r w(2) by (auto simp: example_rc_def intro!: exI[of _ m1])
qed

theorem idle_kill_in_time_witness:
  "\<exists>t m'. runIdleWatchdog example_mcfg example_wait ''c1'' example_rc (quiet_ticks 0 20 0 4) example_manager = (Some t, m') \<and>
     50 < t \<and> t \<le> 70 \<and> trace (m_tracker m') = [Cancelled 9]"
proof -
  have c: "IdleOutputTimeout example_mcfg = 50" "watchdog_tick example_mcfg = 20"
    by (simp_all add: example_mcfg_def watchdog_tick_def)
  have n: "quiet_ticks 0 20 0 4 = quiet_ticks 0 20 0 (Suc 3)" by (simp add: numeral_eq_Suc)
  obtain i where i: "lookup_key (rc_key example_rc) (m_tracker example_manager) = Some i" "CancelFn i = Some 9"
    "trace (m_tracker example_manager) = []"
    by (auto simp: example_manager_def example_rc_def tkey_def AddIfUnderLimit_def tracker_New_def NewManager_def
        Count_def add_key_def lookup_key_def)
  show ?thesis
    using idle_kill_in_time[of example_mcfg 0 0 3 example_wait "''c1''" example_rc example_manager] i unfolding c n by auto
qed

lemma example_stderr:
  "(card_label example_rc)\<lparr>le_kind := ''stderr'', le_content := ''my [REDACTED]!''\<rparr>
     \<in> set (card_stream example_wait example_rc [''sesame-open'', ''oauth''])"
proof -
  have t: "TrimRight_crlf ''my sesame-open!'' = ''my sesame-open!''"
    "Redactor_Redact (Some (NewRedactor [''sesame-open'', ''oauth''])) ''my sesame-open!'' = ''my [REDACTED]!''"
    by code_simp+
  have l: "line_ref MaxLineBytes \<lparr>rd_rest = ''my sesame-open!'', rd_err = EOF\<rparr> =
      ((''my sesame-open!'', False, Some EOF), \<lparr>rd_rest = [], rd_err = EOF\<rparr>)"
    by (simp add: line_ref_def line_content_def NL_def MaxLineBytes_def)
  have "scan_loop (64 * 1024) MaxLineBytes (Redactor_Redact (Some (NewRedactor [''sesame-open'', ''oauth''])))
      \<lparr>rd_rest = ''my sesame-open!'', rd_err = EOF\<rparr> = [''my [REDACTED]!'']"
    by (subst scan_loop.simps) (simp add: bounded_line_eq l stderr_line_def t del: numeral_times_numeral)
  then show ?thesis
    by (simp add: card_stream_def example_wait_def scanRedactedStderr_def del: numeral_times_numeral)
qed


end
