(* ===== verification/Chat_Run.thy ===== *)
theory Chat_Run
  imports Card_Run
begin

text \<open>
  The life of a chat container in \<open>internal/container/manager.go\<close>: \<open>StartChat\<close> with the resume files,
  the two maps that hand cleanup state from one goroutine to the next (\<open>chatCleanup\<close>, \<open>chatSecrets\<close>),
  \<open>DeleteChatCleanup\<close>, the goroutine of \<open>WaitAndCleanupChat\<close> and \<open>StreamChatLogs\<close>. Unlike a card, a chat
  is registered by the webhook handler only after its container runs.
\<close>

section \<open>Resume files\<close>

record chat_resume_turn =
  ct_seq :: int
  ct_role :: string
  ct_content :: string

record chat_resume =
  cr_turns :: "chat_resume_turn list"
  cr_clipped :: bool
  cr_orig_seq :: int

definition json_field :: "string \<Rightarrow> string \<Rightarrow> string" where
  "json_field k v = quoted k @ '':'' @ v"

definition json_object :: "string list \<Rightarrow> string" where
  "json_object fs = ''{'' @ join_comma fs @ ''}''"

definition turn_json :: "chat_resume_turn \<Rightarrow> string" where
  "turn_json t = json_object
     [json_field ''seq'' (dec_int (ct_seq t)), json_field ''role'' (json_string (ct_role t)),
      json_field ''content'' (json_string (ct_content t))]"

definition PromptVersion :: nat where "PromptVersion = 1"

definition json_bool :: "bool \<Rightarrow> string" where
  "json_bool b = (if b then ''true'' else ''false'')"

definition resume_meta :: "string \<Rightarrow> string \<Rightarrow> chat_resume \<Rightarrow> string" where
  "resume_meta sessionID project r = json_object
     ([json_field ''prompt_version'' (dec PromptVersion), json_field ''clipped'' (json_bool (cr_clipped r)),
       json_field ''turn_count'' (dec (length (cr_turns r))), json_field ''original_seq_max'' (dec_int (cr_orig_seq r)),
       json_field ''session_id'' (json_string sessionID)]
      @ (if project = [] then [] else [json_field ''project'' (json_string project)]))"

definition resume_lines :: "chat_resume_turn list \<Rightarrow> string" where
  "resume_lines ts = concat (map (\<lambda>t. turn_json t @ [NL]) ts)"

text \<open>
  \<open>prepareChatResume\<close>. The directory is created below the secrets directory, or below the temporary
  directory when that is not writable in the dev profile. Any later failure removes it again. The empty
  path is no delivery.
\<close>

definition resume_base :: "manager_config \<Rightarrow> spawn_env \<Rightarrow> manager \<Rightarrow> string option \<times> manager" where
  "resume_base cfg env m =
     (let baseDir = (if SecretsDir cfg = [] then ''/var/run/cm-runner/secrets'' else SecretsDir cfg);
          m1 = ev (EvMkdir baseDir) m
      in case mkdir_answer env baseDir of
           FsOk \<Rightarrow> (Some baseDir, m1)
         | a \<Rightarrow>
             if a = FsDenied \<and> IsDev cfg
             then let tmpBase = path_join env (temp_dir env) ''cm-runner-chat-resume'';
                      m2 = ev (EvMkdir tmpBase) m1
                  in (if mkdir_answer env tmpBase = FsOk then (Some tmpBase, m2) else (None, m2))
             else (None, m1))"

definition prepareChatResume ::
  "manager_config \<Rightarrow> spawn_env \<Rightarrow> string \<Rightarrow> string \<Rightarrow> string \<Rightarrow> chat_resume \<Rightarrow> manager \<Rightarrow> string option \<times> manager" where
  "prepareChatResume cfg env containerName sessionID project r m =
     (case resume_base cfg env m of
        (None, m1) \<Rightarrow> (None, m1)
      | (Some baseDir, m1) \<Rightarrow>
          (case resume_nonce env of
             None \<Rightarrow> (None, m1)
           | Some nonce \<Rightarrow>
               let dir = path_join env baseDir (''cmr-chat-resume-'' @ containerName @ ''-'' @ hex_bytes nonce);
                   m2 = ev (EvMkdir dir) m1;
                   jsonlPath = path_join env dir ''resume.jsonl'';
                   metaPath = path_join env dir ''resume.meta.json''
               in if mkdir_answer env dir \<noteq> FsOk then (None, m2)
                  else if \<not> file_ok env jsonlPath then (None, ev (EvRemoveAll dir) m2)
                  else let m3 = ev (EvWriteFile jsonlPath (resume_lines (cr_turns r))) m2 in
                    if \<not> file_ok env metaPath then (None, ev (EvRemoveAll dir) m3)
                    else (Some dir, ev (EvWriteFile metaPath (resume_meta sessionID project r)) m3)))"

definition removeChatResume :: "string \<Rightarrow> manager \<Rightarrow> manager" where
  "removeChatResume dir m = (if dir = [] then m else ev (EvRemoveAll dir) m)"

section \<open>Starting a chat\<close>

record chat_opts =
  co_session :: string
  co_project :: string
  co_repo_url :: string
  co_mcp_url :: string
  co_mcp_api_key :: string
  co_git_token :: string
  co_model :: string
  co_resume :: "chat_resume option"
  co_task_skills :: "string list option"

definition MintChatGitToken :: "manager_config \<Rightarrow> spawn_env \<Rightarrow> manager \<Rightarrow> string \<times> manager" where
  "MintChatGitToken cfg env m =
     (if TaskSkillsDir cfg = [] \<or> \<not> token_provider env then ([], m)
      else case mint env m of (t, m1) \<Rightarrow> ((case t of None \<Rightarrow> [] | Some tok \<Rightarrow> tok), m1))"

definition chat_env_vars :: "manager_config \<Rightarrow> spawn_env \<Rightarrow> chat_opts \<Rightarrow> string list" where
  "chat_env_vars cfg env opts = appendCommonEnv cfg
     ([env_entry ''CM_CHAT_SESSION'' (co_session opts)]
      @ only_if (co_mcp_api_key opts \<noteq> []) ''CM_MCP_API_KEY'' (co_mcp_api_key opts)
      @ only_if (co_project opts \<noteq> []) ''CM_CHAT_PROJECT'' (co_project opts)
      @ only_if (co_repo_url opts \<noteq> []) ''CM_CHAT_REPO_URL'' (normalizeRepoURL env (co_repo_url opts))
      @ only_if (co_mcp_url opts \<noteq> []) ''CM_MCP_URL'' (co_mcp_url opts)
      @ only_if (co_model opts \<noteq> []) ''CM_ORCHESTRATOR_MODEL'' (co_model opts))
     (co_task_skills opts)"

text \<open>A failed preparation of the resume files only starts a fresh agent.\<close>

definition chat_resume_dir :: "manager_config \<Rightarrow> spawn_env \<Rightarrow> chat_opts \<Rightarrow> manager \<Rightarrow> string \<times> string list \<times> manager" where
  "chat_resume_dir cfg env opts m = (case co_resume opts of
       None \<Rightarrow> ([], [], m)
     | Some r \<Rightarrow>
         (case prepareChatResume cfg env (chat_container_name (co_session opts)) (co_session opts) (co_project opts) r m of
            (None, m1) \<Rightarrow> ([], [], m1)
          | (Some dir, m1) \<Rightarrow> (dir, [env_entry ''CM_CHAT_RESUME'' ''1''], m1)))"

definition chat_labels :: "chat_opts \<Rightarrow> (string \<times> string) list" where
  "chat_labels opts = [(LabelRunner, ''true''), (LabelSessionID, co_session opts)] @
     (if co_project opts \<noteq> [] then [(LabelProject, co_project opts)] else [])"

definition chatResumeMountTarget :: string where "chatResumeMountTarget = ''/run/cm-chat''"

definition stash :: "string \<Rightarrow> string \<Rightarrow> string list \<Rightarrow> manager \<Rightarrow> manager" where
  "stash cid dir secrets m = m\<lparr>m_chat_cleanup := AList.update cid dir (m_chat_cleanup m),
     m_chat_secrets := AList.update cid secrets (m_chat_secrets m)\<rparr>"

text \<open>
  From the creation on: the answers of Docker, the removal after a failed start, and the stash of
  the cleanup state for the goroutines the handler starts later. \<open>None\<close> is an error; a panic unwinds past all cleanup.
\<close>

definition chat_created ::
  "spawn_env \<Rightarrow> string \<Rightarrow> string list \<Rightarrow> manager \<Rightarrow> string option \<times> manager" where
  "chat_created env dir secrets m = (case create_answer env of
       Ok cid \<Rightarrow>
         let m1 = ev (EvStart cid) m in
         (case start_answer env of
            Ok _ \<Rightarrow> (Some cid, stash cid dir secrets m1)
          | Fail e \<Rightarrow> (None, removeChatResume dir (ev (EvRemove cid) m1))
          | Panic e \<Rightarrow> (None, m1))
     | Fail e \<Rightarrow> (None, removeChatResume dir m)
     | Panic e \<Rightarrow> (None, m))"

definition create_chat ::
  "manager_config \<Rightarrow> spawn_env \<Rightarrow> chat_opts \<Rightarrow> secret_delivery \<Rightarrow> manager \<Rightarrow> string option \<times> manager" where
  "create_chat cfg env opts delivery m =
     (case chat_resume_dir cfg env opts m of (dir, flag, m1) \<Rightarrow>
      case taskSkillsMount cfg (co_git_token opts) m1 of (skills, m2) \<Rightarrow>
      case applySecretsDelivery (chat_env_vars cfg env opts @ flag) (claudeAuthMount cfg @ skills @ caCertMount cfg) delivery of
        (envs, mounts) \<Rightarrow>
          let mounts' = mounts @ (if dir \<noteq> [] then [bind_ro dir chatResumeMountTarget] else []) in
          case baseHostConfig cfg env (co_mcp_url opts) mounts' m2 of (host, m3) \<Rightarrow>
            let cc = \<lparr>cc_image = BaseImage cfg, cc_env = envs, cc_labels = chat_labels opts,
                      cc_open_stdin = True, cc_attach_stdin = True\<rparr>
            in chat_created env dir (collectSecretValues (co_mcp_api_key opts) delivery)
                 (ev (EvCreate cc host (chat_container_name (co_session opts))) m3))"

definition StartChat ::
  "manager_config \<Rightarrow> spawn_env \<Rightarrow> chat_opts \<Rightarrow> manager \<Rightarrow> string option \<times> manager" where
  "StartChat cfg env opts m =
     (if co_session opts = [] then (None, m)
      else case pullImage cfg env (BaseImage cfg) m of
        (Some e, m1) \<Rightarrow> (None, m1)
      | (None, m1) \<Rightarrow>
          (case buildSecretDelivery cfg env m1 of
             (Inl e, m2) \<Rightarrow> (None, m2)
           | (Inr delivery, m2) \<Rightarrow> create_chat cfg env opts delivery m2))"

section \<open>Handing over the cleanup state\<close>

definition drop_secrets :: "string \<Rightarrow> manager \<Rightarrow> manager" where
  "drop_secrets cid m = m\<lparr>m_chat_secrets := AList.delete cid (m_chat_secrets m)\<rparr>"

definition pop_cleanup :: "string \<Rightarrow> manager \<Rightarrow> string option \<times> manager" where
  "pop_cleanup cid m =
     (map_of (m_chat_cleanup m) cid, m\<lparr>m_chat_cleanup := AList.delete cid (m_chat_cleanup m)\<rparr>)"

definition DeleteChatCleanup :: "string \<Rightarrow> manager \<Rightarrow> manager" where
  "DeleteChatCleanup cid m = (case pop_cleanup cid m of (rd, m1) \<Rightarrow>
     let m2 = drop_secrets cid m1 in
     case rd of None \<Rightarrow> m2 | Some dir \<Rightarrow> removeChatResume dir m2)"

text \<open>
  The goroutine of \<open>WaitAndCleanupChat\<close> in its two halves: it takes the cleanup state and waits; when the
  wait ends it may stop the container, then it drops the registry entry of the session, removes the
  container and the resume directory. \<open>WaitError _ True _\<close> is the lifetime limit. None of these steps is deferred, so
  a panic of the wait is recovered and skips them all.
\<close>

fun wait_panicked :: "wait_result \<Rightarrow> bool" where
  "wait_panicked (WaitPanics e) = True"
| "wait_panicked _ = False"

definition wait_chat_begin :: "string \<Rightarrow> manager \<Rightarrow> string option \<times> manager" where
  "wait_chat_begin cid m = (case pop_cleanup cid m of (rd, m1) \<Rightarrow> (rd, ev (EvWait cid) m1))"

definition wait_chat_end :: "wait_result \<Rightarrow> string option \<Rightarrow> string \<Rightarrow> string \<Rightarrow> manager \<Rightarrow> manager" where
  "wait_chat_end res rd sessionID cid m =
     (if wait_panicked res then m
      else let m1 = (case res of WaitError e True c \<Rightarrow> killContainer cid m | _ \<Rightarrow> m);
               m2 = removeContainer cid (on_tracker (RemoveChat sessionID) m1);
               m3 = (case rd of None \<Rightarrow> m2 | Some dir \<Rightarrow> removeChatResume dir m2)
           in drop_secrets cid m3)"

definition manager_AttachChatStdin ::
  "(writer \<times> callback) option \<Rightarrow> string \<Rightarrow> string \<Rightarrow> manager \<Rightarrow> bool \<times> manager" where
  "manager_AttachChatStdin conn sessionID cid m =
     (let m1 = ev (EvAttach cid) m in
      case conn of
        None \<Rightarrow> (False, m1)
      | Some (w, close) \<Rightarrow> (True, on_tracker (SetStdinChat sessionID (Some w) (Some close)) m1))"

definition chat_label :: "string \<Rightarrow> string \<Rightarrow> log_entry" where
  "chat_label sessionID project = \<lparr>le_project = project, le_session = sessionID, le_card = [], le_kind = [], le_content = [], le_model = [], le_usage = None\<rparr>"

text \<open>\<open>StreamChatLogs\<close>: the secrets leave the map for the redactor of the stream.\<close>

definition StreamChatLogs ::
  "(reader \<times> reader) option \<Rightarrow> json_dec \<Rightarrow> (log_entry list \<Rightarrow> log_entry list \<Rightarrow> log_entry list) \<Rightarrow>
    string \<Rightarrow> string \<Rightarrow> string \<Rightarrow> manager \<Rightarrow> log_entry list \<times> manager" where
  "StreamChatLogs output J order sessionID cid project m =
     (let secrets = (case map_of (m_chat_secrets m) cid of None \<Rightarrow> [] | Some s \<Rightarrow> s);
          m1 = ev (EvLogs cid) (drop_secrets cid m);
          r = Some (NewRedactor secrets);
          es = (case output of
            None \<Rightarrow> []
          | Some (out, err) \<Rightarrow>
              order (stdout_entries J r (chat_label sessionID project) out)
                (scanRedactedStderr r (chat_label sessionID project) err))
      in (es, fold publish es m1))"

section \<open>Stopping\<close>

text \<open>\<open>Stop\<close> and \<open>ForceKillContainer\<close> both stop and remove whatever the stop answers; the errors are joined.\<close>

definition Manager_Stop :: "(string \<Rightarrow> bool) \<Rightarrow> (string \<Rightarrow> bool) \<Rightarrow> string \<Rightarrow> manager \<Rightarrow> bool \<times> manager" where
  "Manager_Stop stop_ok remove_ok cid m =
     (stop_ok cid \<and> remove_ok cid, ev (EvRemove cid) (ev (EvStop cid stopGracePeriod) m))"

definition ForceKillContainer :: "(string \<Rightarrow> bool) \<Rightarrow> (string \<Rightarrow> bool) \<Rightarrow> string \<Rightarrow> manager \<Rightarrow> bool \<times> manager" where
  "ForceKillContainer stop_ok remove_ok cid m =
     (stop_ok cid \<and> remove_ok cid, ev (EvRemove cid) (ev (EvStop cid 0) m))"

definition Kill :: "string \<Rightarrow> string \<Rightarrow> manager \<Rightarrow> bool \<times> manager" where
  "Kill project cardID m = (case tracker_Cancel project cardID (m_tracker m) of (b, t) \<Rightarrow> (b, m\<lparr>m_tracker := t\<rparr>))"

definition KillChat ::
  "(string \<Rightarrow> bool) \<Rightarrow> (string \<Rightarrow> bool) \<Rightarrow> string option \<Rightarrow> string \<Rightarrow> manager \<Rightarrow> bool \<times> manager" where
  "KillChat stop_ok remove_ok io sessionID m = (case SnapshotChat sessionID (m_tracker m) of
       None \<Rightarrow> (False, m)
     | Some snap \<Rightarrow>
         Manager_Stop stop_ok remove_ok (sn_ContainerID snap)
           (on_tracker (\<lambda>t. snd (CloseStdinChat sessionID io t)) m))"

end
