(* ===== verification/Chat_Props.thy ===== *)
theory Chat_Props
  imports Endpoint_Props Run_Props Chat_Run
begin

text \<open>
  Properties of chat sessions: \<open>/chat/start\<close> leaves a tracked session or no container, the cleanup state of
  a chat container is handed over and released on every path, and the cleanup goroutine of a
  container that is gone unregisters whatever container its session has by then.
\<close>

section \<open>Starting a session\<close>

lemma added_then_removed:
  assumes "fst (add_key k i t) = None" and "detached i"
  shows "containers (remove_key k (snd (add_key k i t))) = containers t"
    and "trace (remove_key k (snd (add_key k i t))) = (case CancelFn i of None \<Rightarrow> [] | Some c \<Rightarrow> [Cancelled c]) @ trace t"
proof -
  have n: "lookup_key k t = None" and a: "snd (add_key k i t) = t\<lparr>containers := (k, i) # containers t\<rparr>"
    using assms(1) by (auto simp: add_key_def split: option.splits)
  have d: "AList.delete k (containers t) = containers t"
    using n by (simp add: lookup_key_def map_of_eq_None_iff delete_id)
  show "containers (remove_key k (snd (add_key k i t))) = containers t"
    by (simp add: remove_key_containers a d)
  show "trace (remove_key k (snd (add_key k i t))) = (case CancelFn i of None \<Rightarrow> [] | Some c \<Rightarrow> [Cancelled c]) @ trace t"
    using assms(2) by (simp add: remove_key_def a lookup_key_def Let_def call_fn_def frame_simps split: option.split)
qed

lemma attach_entry:
  assumes "lookup_key k t = Some i" and "detached i"
  shows "writer_at k (set_stdin_key k w f t) = w"
    and "map_option ContainerID (lookup_key k (set_stdin_key k w f t)) = Some (ContainerID i)"
proof -
  have u: "lookup_key k (update_info k g t') = map_option g (lookup_key k t')" for g t'
    by (rule lookup_update)
  have a: "lookup_key j (attach p w' f' t') = lookup_key j t'" for j p w' f' t'
    by (simp add: lookup_key_def frame_simps)
  have s: "lookup_key j (t'\<lparr>stdins := xs\<rparr>) = lookup_key j t'" for j t' xs by (simp add: lookup_key_def)
  have e: "lookup_key k (emit es t) = Some i" for es using assms(1) by (simp add: frame_simps)
  show "writer_at k (set_stdin_key k w f t) = w"
    "map_option ContainerID (lookup_key k (set_stdin_key k w f t)) = Some (ContainerID i)"
    by (simp_all add: set_stdin_key_def set_stdin_map_def Let_def e assms writer_at_def a u s frame_simps)
qed

text \<open>The requests that reach the start of the container.\<close>

definition chat_admitted :: "handler_config \<Rightarrow> chat_env \<Rightarrow> bytes \<Rightarrow> handler_state \<Rightarrow> chat_start_payload \<Rightarrow> bool" where
  "chat_admitted cfg env b s p \<longleftrightarrow> \<not> isDraining s \<and> dec_chat_start env b = Some p \<and>
     ValidatePayload (url_parse env) (PChatStart (Ptr (Some p))) = None \<and>
     \<not> HasChat (cs_session p) (h_tracker s) \<and> int (Count (h_tracker s)) < maxConcurrent cfg"

definition chat_start_calls :: "chat_start_payload \<Rightarrow> manager_call list" where
  "chat_start_calls p = [CallMintChatGitToken, CallStartChat p]"

lemma chat_start_admitted:
  fixes env :: chat_env
  assumes "chat_admitted cfg env b s p" and "start_chat env p = Some cid"
    and "AddChatIfUnderLimit (chat_info env cid p) (maxConcurrent cfg) (during_start env (h_tracker s)) = (r, t)"
  shows "handleChatStart cfg env b s =
    (let s2 = s\<lparr>h_calls := h_calls s @ chat_start_calls p\<rparr> in
     case r of
       Some e \<Rightarrow>
         (Some (if e = ErrLimitReached then writeError 429 CodeLimitReached ''concurrency limit reached''
                else writeError 409 CodeConflict ''track failed''),
          s2\<lparr>h_tracker := emit [Cancelled (stream_cancel env)] t,
             h_calls := h_calls s @ chat_start_calls p @ [CallStop cid, CallDeleteChatCleanup cid]\<rparr>)
     | None \<Rightarrow> chat_registered env p cid (s2\<lparr>h_tracker := t\<rparr>))"
  using assms
  by (cases r) (simp_all add: handleChatStart_def chat_admitted_def chat_start_calls_def Let_def call_def Stop_container_def)

lemma prime_chat_keys:
  "h_calls (snd (prime_chat env p s)) = h_calls s"
  "containers (h_tracker (snd (prime_chat env p s))) = containers (h_tracker s)"
  "stdins (h_tracker (snd (prime_chat env p s))) = stdins (h_tracker s)"
proof -
  have w: "containers (snd (write_key k m io t)) = containers t" "stdins (snd (write_key k m io t)) = stdins t" for k m io t
    by (auto simp: write_key_def write_locked_def frame_simps split: sum.split option.split)
  show "h_calls (snd (prime_chat env p s)) = h_calls s" by (simp add: handler_frame)
  show "containers (h_tracker (snd (prime_chat env p s))) = containers (h_tracker s)"
    "stdins (h_tracker (snd (prime_chat env p s))) = stdins (h_tracker s)"
    unfolding prime_chat_def writeChatPrimingEnvelope_def WriteStdinChat_def by (simp_all add: w split: prod.split bool.split)
qed

lemma started_or_stopped:
  fixes env :: chat_env
  assumes "chat_admitted cfg env b s p" and "start_chat env p = Some cid"
    and "handleChatStart cfg env b s = (Some r, s')"
  defines "t \<equiv> during_start env (h_tracker s)" and "calls \<equiv> drop (length (h_calls s)) (h_calls s')"
  shows "(rs_status r = 202 \<and> (\<exists>w. attach_conn env = Some w \<and> writer_at (chatKey (cs_session p)) (h_tracker s') = Some (fst w)) \<and>
       map_option ContainerID (lookup_key (chatKey (cs_session p)) (h_tracker s')) = Some cid \<and>
       int (Count (h_tracker s')) \<le> maxConcurrent cfg \<and>
       calls = chat_start_calls p @ [CallWaitAndCleanupChat (cs_session p) cid (cs_project p),
         CallAttachChatStdin (cs_session p) cid, CallStreamChatLogs (cs_session p) cid (cs_project p)])
    \<or> (rs_status r \<in> {409, 429, 502} \<and> containers (h_tracker s') = containers t \<and>
       trace (h_tracker s') = Cancelled (stream_cancel env) # trace t \<and>
       (calls = chat_start_calls p @ [CallStop cid, CallDeleteChatCleanup cid] \<or>
        calls = chat_start_calls p @ [CallWaitAndCleanupChat (cs_session p) cid (cs_project p),
          CallAttachChatStdin (cs_session p) cid, CallStop cid]))"
proof -
  let ?i = "chat_info env cid p"
  let ?k = "chatKey (cs_session p)"
  have i: "SessionID ?i = cs_session p" "detached ?i" "CancelFn ?i = Some (stream_cancel env)" "ContainerID ?i = cid"
    by (simp_all add: chat_info_def)
  obtain q u where a: "AddChatIfUnderLimit ?i (maxConcurrent cfg) t = (q, u)" by fastforce
  note h = chat_start_admitted[OF assms(1,2) a[unfolded t_def]]
  show ?thesis
  proof (cases q)
    case (Some e)
    then have "u = t" using a by (auto simp: AddChatIfUnderLimit_def add_key_def split: if_splits option.splits)
    then show ?thesis
      using assms(3) h Some
      by (cases "e = ErrLimitReached") (auto simp: calls_def writeError_def respond_def frame_simps)
  next
    case None
    let ?s = "s\<lparr>h_calls := h_calls s @ chat_start_calls p, h_tracker := u\<rparr>"
    have reg: "chat_registered env p cid ?s = (Some r, s')" using assms(3) h None by simp
    have lim: "int (Count t) < maxConcurrent cfg" and add: "add_key ?k ?i t = (None, u)"
      using a None by (auto simp: AddChatIfUnderLimit_def i split: if_splits)
    have add1: "fst (add_key ?k ?i t) = None" and u: "snd (add_key ?k ?i t) = u" using add by simp_all
    have cnt: "int (Count u) \<le> maxConcurrent cfg" using add_key_cases(3)[OF add1] u lim by simp
    have look: "lookup_key ?k u = Some ?i"
      using add by (auto simp: add_key_def lookup_key_def split: option.splits)
    show ?thesis
    proof (cases "attach_conn env")
      case None
      then show ?thesis
        using reg added_then_removed[OF add1 i(2)]
        by (auto simp: chat_registered_def AttachChatStdin_def Stop_container_def Let_def call_def calls_def
            RemoveChat_def u i writeError_def respond_def)
    next
      case (Some wf)
      obtain w f where wf: "wf = (w, f)" by fastforce
      let ?t1 = "set_stdin_key ?k (Some w) (Some f) u"
      have c1: "Count ?t1 = Count u"
        by (auto simp: set_stdin_key_def set_stdin_map_def Let_def Count_def closeWriterAsync_def update_info_def frame_simps
            split: option.splits list.splits)
      let ?s1 = "?s\<lparr>h_calls := h_calls ?s @ [CallWaitAndCleanupChat (cs_session p) cid (cs_project p), CallAttachChatStdin (cs_session p) cid],
          h_tracker := ?t1\<rparr>"
      obtain ok s3 where pr: "prime_chat env p ?s1 = (ok, s3)" by fastforce
      note k = prime_chat_keys[of env p ?s1, unfolded pr snd_conv]
      have ok: "ok" "r = respond 202 (BChatStarted cid)"
        "s' = call (CallStreamChatLogs (cs_session p) cid (cs_project p)) s3"
        using reg Some pr
        by (auto simp: chat_registered_def AttachChatStdin_def Let_def call_def wf SetStdinChat_def split: bool.splits)
      have l3: "lookup_key ?k (h_tracker s3) = lookup_key ?k ?t1" using k(2) by (simp add: lookup_key_def)
      then have w3: "writer_at ?k (h_tracker s3) = writer_at ?k ?t1" using k(3) by (simp add: writer_at_def)
      have "Count (h_tracker s3) = Count u" using k(2) c1 by (simp add: Count_def)
      then show ?thesis
        using attach_entry[OF look i(2), of "Some w" "Some f"] l3 w3 cnt k(1) Some
        by (simp add: ok wf calls_def handler_frame respond_def i)
    qed
  qed
qed

text \<open>
  C31. No chat container is left without an owner. Once Docker started the container \<open>cid\<close> for an admitted
  \<open>/chat/start\<close>, whatever other requests did to the registry meanwhile: an answer 202 means that the session
  is tracked with this container and its stdin attached, within the limit, and that its cleanup
  goroutine and log stream were started, in this order; any other answer means that the container was
  stopped, the stream context cancelled, the registry is as the other requests left it, and
  the resume state has exactly one owner (the rollback itself, or the cleanup goroutine).
\<close>

theorem chat_start_no_orphan:
  fixes env :: chat_env
  assumes "chat_admitted cfg env b s p" and "start_chat env p = Some cid"
    and "handleChatStart cfg env b s = (Some r, s')"
  defines "t \<equiv> during_start env (h_tracker s)" and "calls \<equiv> drop (length (h_calls s)) (h_calls s')"
  shows "(rs_status r = 202 \<and> (\<exists>w. attach_conn env = Some w \<and> writer_at (chatKey (cs_session p)) (h_tracker s') = Some (fst w)) \<and>
       map_option ContainerID (lookup_key (chatKey (cs_session p)) (h_tracker s')) = Some cid \<and>
       int (Count (h_tracker s')) \<le> maxConcurrent cfg \<and>
       calls = chat_start_calls p @ [CallWaitAndCleanupChat (cs_session p) cid (cs_project p),
         CallAttachChatStdin (cs_session p) cid, CallStreamChatLogs (cs_session p) cid (cs_project p)])
    \<or> (rs_status r \<in> {409, 429, 502} \<and> containers (h_tracker s') = containers t \<and>
       trace (h_tracker s') = Cancelled (stream_cancel env) # trace t \<and>
       (calls = chat_start_calls p @ [CallStop cid, CallDeleteChatCleanup cid] \<or>
        calls = chat_start_calls p @ [CallWaitAndCleanupChat (cs_session p) cid (cs_project p),
          CallAttachChatStdin (cs_session p) cid, CallStop cid]))"
  using started_or_stopped[OF assms(1-3)] unfolding t_def calls_def .

definition example_chat_env :: chat_env where
  "example_chat_env = chat_env.truncate (example_env 1)"

lemma example_chat_fields:
  "dec_chat_start example_chat_env b = Some example_chat_payload" "start_chat example_chat_env p = Some ''c1''"
  "url_parse example_chat_env = example_parse" "during_start example_chat_env t = t"
  by (simp_all add: example_chat_env_def example_env_def chat_env.defs)

lemma example_chat_admitted: "chat_admitted example_cfg example_chat_env [] example_server example_chat_payload"
proof -
  have "ValidatePayload example_parse (PChatStart (Ptr (Some example_chat_payload))) = None" by code_simp
  then show ?thesis
    by (simp add: chat_admitted_def example_chat_fields isDraining_def example_server_def HasChat_def lookup_key_def
        tracker_New_def Count_def example_cfg_def)
qed

lemma example_chat_started:
  "fst (handleChatStart example_cfg example_chat_env [] example_server) = Some (respond 202 (BChatStarted ''c1''))"
  by code_simp

theorem chat_start_no_orphan_witness:
  "map_option ContainerID (lookup_key (chatKey ''s1'') (h_tracker (snd (handleChatStart example_cfg example_chat_env [] example_server))))
     = Some ''c1''"
proof -
  have h: "handleChatStart example_cfg example_chat_env [] example_server =
      (Some (respond 202 (BChatStarted ''c1'')), snd (handleChatStart example_cfg example_chat_env [] example_server))"
    using example_chat_started by (metis prod.collapse)
  show ?thesis
    using chat_start_no_orphan[OF example_chat_admitted example_chat_fields(2) h]
    by (auto simp: respond_def example_chat_payload_def)
qed

section \<open>The cleanup of an earlier container\<close>

lemma wait_chat_end_effect:
  assumes "\<not> wait_panicked res"
  shows "m_tracker (wait_chat_end res rd sid c m) = RemoveChat sid (m_tracker m)"
  "\<exists>es. m_events (wait_chat_end res rd sid c m) = m_events m @ es \<and> EvRemove c \<in> set es \<and>
     set es \<subseteq> {EvStop c stopGracePeriod, EvRemove c} \<union> EvRemoveAll ` set_option rd"
  "m_chat_cleanup (wait_chat_end res rd sid c m) = m_chat_cleanup m"
  "m_chat_secrets (wait_chat_end res rd sid c m) = AList.delete c (m_chat_secrets m)"
  using assms
  by (auto simp: wait_chat_end_def Let_def removeChatResume_def drop_secrets_def killContainer_def removeContainer_def mgr_simps
      split: wait_result.split option.split bool.split)

lemma remove_closes:
  assumes "writer_at k t = Some w"
  shows "Closed w \<in> set (trace (remove_key k t))"
  using assms
  by (auto simp: writer_at_def Option.bind_eq_Some_conv remove_key_def Let_def closeStdinAsync_def teardown_locked_def
      call_fn_def frame_simps split: option.splits)

text \<open>
  The cleanup of an earlier container unregisters its successor. Suppose \<open>/chat/start\<close> just answered 202
  for a session with container \<open>cid\<close>. If the cleanup goroutine of any other container of the same session (one whose
  stop failed or timed out, so that \<open>/chat/end\<close> or a failed start dropped the entry while it still ran)
  ends now, the session is no longer tracked and the stdin of the running container is closed, although
  only the other container is removed: \<open>cid\<close> keeps running without entry and limit.
\<close>

theorem chat_cleanup_untracks_successor:
  fixes env :: chat_env and res :: wait_result and rd :: "string option"
  assumes "chat_admitted cfg env b s p" and "start_chat env p = Some cid"
    and "handleChatStart cfg env b s = (Some r, s')" and "rs_status r = 202"
    and "m_tracker m = h_tracker s'" and "c \<noteq> cid" and "\<not> wait_panicked res"
  defines "m' \<equiv> wait_chat_end res rd (cs_session p) c m"
  shows "HasChat (cs_session p) (h_tracker s') \<and> \<not> HasChat (cs_session p) (m_tracker m') \<and>
    (\<exists>w. attach_conn env = Some w \<and> Closed (fst w) \<in> set (trace (m_tracker m'))) \<and>
    EvRemove c \<in> set (news m m') \<and> EvRemove cid \<notin> set (news m m') \<and> EvStop cid stopGracePeriod \<notin> set (news m m')"
proof -
  let ?k = "chatKey (cs_session p)"
  have k: "\<exists>w. attach_conn env = Some w \<and> writer_at ?k (h_tracker s') = Some (fst w)"
    "map_option ContainerID (lookup_key ?k (h_tracker s')) = Some cid"
    using started_or_stopped[OF assms(1-3)] assms(4) by auto
  obtain w where w: "attach_conn env = Some w" "writer_at ?k (h_tracker s') = Some (fst w)" using k(1) by blast
  have t: "m_tracker m' = remove_key ?k (h_tracker s')" by (simp add: m'_def wait_chat_end_effect(1)[OF assms(7)] RemoveChat_def assms(5))
  obtain es where es: "m_events m' = m_events m @ es" "EvRemove c \<in> set es"
    "set es \<subseteq> {EvStop c stopGracePeriod, EvRemove c} \<union> EvRemoveAll ` set_option rd"
    using wait_chat_end_effect(2)[OF assms(7), of rd "cs_session p" c m] by (auto simp: m'_def)
  have "news m m' = es" by (simp add: news_def es(1))
  moreover have "Closed (fst w) \<in> set (trace (m_tracker m'))" using remove_closes[OF w(2)] by (simp add: t)
  moreover have "HasChat (cs_session p) (h_tracker s')" using k(2) by (auto simp: HasChat_def)
  moreover have "\<not> HasChat (cs_session p) (m_tracker m')"
    using removed_key[of ?k "h_tracker s'"] by (simp add: t HasChat_def has_key_def)
  ultimately show ?thesis using w(1) es(2,3) assms(6) by auto
qed

theorem chat_cleanup_untracks_successor_witness:
  "\<not> HasChat ''s1'' (m_tracker (wait_chat_end (Exited 0) (Some []) ''s1'' ''c0''
      (NewManager (h_tracker (snd (handleChatStart example_cfg example_chat_env [] example_server))) None)))"
proof -
  have h: "handleChatStart example_cfg example_chat_env [] example_server =
      (Some (respond 202 (BChatStarted ''c1'')), snd (handleChatStart example_cfg example_chat_env [] example_server))"
    using example_chat_started by (metis prod.collapse)
  have m: "m_tracker (NewManager t None) = t" for t by (simp add: NewManager_def)
  show ?thesis
    using chat_cleanup_untracks_successor[OF example_chat_admitted example_chat_fields(2) h _ m, where c = "''c0''" and res = "Exited 0" and rd = "Some []"]
    by (simp add: respond_def example_chat_payload_def)
qed

section \<open>The cleanup state of a chat container\<close>

text \<open>Steps that create nothing, except by \<open>EvCreate\<close> of a listed container.\<close>

definition creates :: "mgr_event list \<Rightarrow> manager \<Rightarrow> manager \<Rightarrow> bool" where
  "creates cs m m' \<longleftrightarrow> (\<exists>q. m_events m' = m_events m @ q \<and> filter is_create q = cs)"

lemma creates_trans: "creates xs a b \<Longrightarrow> creates ys b c \<Longrightarrow> creates (xs @ ys) a c"
  by (auto simp: creates_def)

lemma creates_refl [simp]: "creates [] m m"
  by (simp add: creates_def)

lemma creates_quietly: "quietly m m' \<Longrightarrow> creates [] m m'"
  by (auto simp: creates_def elim: quietly_plain)

lemma creates_ev: "creates cs m m' \<Longrightarrow> creates (cs @ filter is_create [e]) m (ev e m')"
  by (auto simp: creates_def mgr_simps)

lemma creates_news: "creates cs m m' \<Longrightarrow> filter is_create (news m m') = cs"
  by (auto simp: creates_def news_def)

lemma resume_base_creates: "creates [] m (snd (resume_base cfg env m))"
  by (auto simp: resume_base_def Let_def creates_def mgr_simps split: fs_answer.split)

lemma prepareChatResume_creates: "creates [] m (snd (prepareChatResume cfg env n sid pr r m))"
proof -
  obtain b m1 where b: "resume_base cfg env m = (b, m1)" by fastforce
  then have "creates [] m m1" using resume_base_creates[of m cfg env] by simp
  then show ?thesis
    by (auto simp: prepareChatResume_def b Let_def creates_def mgr_simps split: option.split)
qed

lemma chat_resume_dir_creates: "chat_resume_dir cfg env opts m = (dir, flag, m') \<Longrightarrow> creates [] m m'"
  using prepareChatResume_creates[of m cfg env "chat_container_name (co_session opts)" "co_session opts" "co_project opts"]
  by (auto simp: chat_resume_dir_def split: option.splits prod.splits)
    (metis prod.collapse snd_conv)+

lemma chat_created_result:
  assumes "chat_created env dir secrets m = (r, m')"
  shows "creates [] m m'" and "r = Some cid \<Longrightarrow> create_answer env = Ok cid \<and>
    m' = stash cid dir secrets (ev (EvStart cid) m)"
  using assms
  by (auto simp: chat_created_def Let_def stash_def creates_def removeChatResume_def mgr_simps split: answer.splits)

text \<open>
  The directories that a chat may get its history from: a fresh name below the secrets directory, or below the
  temporary directory in the dev profile.
\<close>

definition resume_dirs :: "manager_config \<Rightarrow> spawn_env \<Rightarrow> string \<Rightarrow> string set" where
  "resume_dirs cfg env sessionID =
     {path_join env base (''cmr-chat-resume-'' @ chat_container_name sessionID @ ''-'' @ hex_bytes nonce) | base nonce.
        resume_nonce env = Some nonce \<and>
        (base = (if SecretsDir cfg = [] then ''/var/run/cm-runner/secrets'' else SecretsDir cfg) \<or>
         IsDev cfg \<and> base = path_join env (temp_dir env) ''cm-runner-chat-resume'')}"

definition chat_extra :: "manager_config \<Rightarrow> spawn_env \<Rightarrow> chat_opts \<Rightarrow> (string \<times> string) list \<Rightarrow> bool" where
  "chat_extra cfg env opts extra \<longleftrightarrow> extra = [] \<or>
     (\<exists>dir \<in> resume_dirs cfg env (co_session opts). co_resume opts \<noteq> None \<and> extra = [(dir, ''/run/cm-chat'')])"

lemma chat_resume_dir_fresh:
  assumes "chat_resume_dir cfg env opts m = (dir, flag, m')" and "dir \<noteq> []"
  shows "co_resume opts \<noteq> None \<and> dir \<in> resume_dirs cfg env (co_session opts)"
proof -
  have b: "base = (if SecretsDir cfg = [] then ''/var/run/cm-runner/secrets'' else SecretsDir cfg) \<or>
      IsDev cfg \<and> base = path_join env (temp_dir env) ''cm-runner-chat-resume''"
    if "resume_base cfg env m = (Some base, m1)" for base m1
    using that by (auto simp: resume_base_def Let_def split: fs_answer.splits if_splits)
  show ?thesis
    using assms
    by (auto simp: chat_resume_dir_def prepareChatResume_def Let_def resume_dirs_def
        split: option.splits prod.splits if_splits dest!: b)
qed

text \<open>A created chat container runs the base image under the same host restrictions as a card.\<close>

lemma create_chat_shape:
  assumes "create_chat cfg env opts delivery m = (r, m')"
    and "buildSecretDelivery cfg env m0 = (Inr delivery, m)"
  obtains cc host name dir extra m1 where "creates [EvCreate cc host name] m m1"
    "hardened (cfg\<lparr>AllowedImages := []\<rparr>) env extra cc host" "chat_extra cfg env opts extra"
    "cc_image cc = BaseImage cfg" "chat_created env dir (collectSecretValues (co_mcp_api_key opts) delivery) m1 = (r, m')"
proof -
  obtain dir flag m1 where d: "chat_resume_dir cfg env opts m = (dir, flag, m1)" by (metis prod_cases3)
  obtain skills m2 where s: "taskSkillsMount cfg (co_git_token opts) m1 = (skills, m2)" by fastforce
  obtain envs mounts where a: "applySecretsDelivery (chat_env_vars cfg env opts @ flag)
      (claudeAuthMount cfg @ skills @ caCertMount cfg) delivery = (envs, mounts)" by fastforce
  let ?mounts = "mounts @ (if dir \<noteq> [] then [bind_ro dir chatResumeMountTarget] else [])"
  obtain host m3 where h: "baseHostConfig cfg env (co_mcp_url opts) ?mounts m2 = (host, m3)" by fastforce
  let ?cc = "\<lparr>cc_image = BaseImage cfg, cc_env = envs, cc_labels = chat_labels opts, cc_open_stdin = True, cc_attach_stdin = True\<rparr>"
  let ?n = "chat_container_name (co_session opts)"
  let ?extra = "if dir \<noteq> [] then [(dir, ''/run/cm-chat'')] else []"
  have "mounts = read_only_binds (worker_mounts cfg env)"
    using all_mounts[OF assms(2), of "chat_env_vars cfg env opts @ flag" "co_git_token opts" m1] s a by simp
  then have "?mounts = read_only_binds (worker_mounts cfg env @ ?extra)"
    by (simp add: read_only_binds_def bind_ro_def chatResumeMountTarget_def)
  then have "hardened (cfg\<lparr>AllowedImages := []\<rparr>) env ?extra ?cc host"
    using baseHostConfig_fields[of cfg env "co_mcp_url opts" ?mounts m2] h
    by (simp add: hardened_def image_allowed_def worker_mounts_def secrets_mount_def)
  moreover have "chat_extra cfg env opts ?extra" using chat_resume_dir_fresh[OF d] by (auto simp: chat_extra_def)
  moreover have "creates [] m m3"
    using creates_trans[OF chat_resume_dir_creates[OF d] creates_trans[OF creates_quietly creates_quietly]]
      taskSkillsMount_quiet[of m1 cfg "co_git_token opts"] baseHostConfig_quiet[of m2 cfg env "co_mcp_url opts" ?mounts] s h
    by simp
  then have "creates [EvCreate ?cc host ?n] m (ev (EvCreate ?cc host ?n) m3)"
    using creates_ev[of "[]" m m3 "EvCreate ?cc host ?n"] by simp
  ultimately show thesis
    using that[of ?cc host ?n "ev (EvCreate ?cc host ?n) m3" ?extra dir] assms(1) d s a h
    by (simp add: create_chat_def Let_def)
qed

lemma StartChat_shape:
  assumes "StartChat cfg env opts m = (r, m')"
  obtains (refused) "r = None" "quietly m m'"
  | (created) cc host name dir extra delivery m1 where "creates [EvCreate cc host name] m m1"
    "hardened (cfg\<lparr>AllowedImages := []\<rparr>) env extra cc host" "chat_extra cfg env opts extra" "cc_image cc = BaseImage cfg"
    "chat_created env dir (collectSecretValues (co_mcp_api_key opts) delivery) m1 = (r, m')"
proof -
  obtain e m1 where p: "pullImage cfg env (BaseImage cfg) m = (e, m1)" by fastforce
  obtain d m2 where d: "buildSecretDelivery cfg env m1 = (d, m2)" by fastforce
  have q1: "quietly m m1" using pullImage_quiet[of m cfg env "BaseImage cfg"] p by simp
  have q2: "quietly m m2" using quietly_trans[OF q1] buildSecretDelivery_quiet[of m1 cfg env] d by simp
  consider "r = None" "quietly m m'" | delivery where "create_chat cfg env opts delivery m2 = (r, m')"
    "d = Inr delivery"
    using assms q1 q2 by (auto simp: StartChat_def p d split: if_splits option.splits sum.splits)
  then show thesis
  proof cases
    case (2 delivery)
    obtain cc host name dir extra m3 where c: "creates [EvCreate cc host name] m2 m3"
      "hardened (cfg\<lparr>AllowedImages := []\<rparr>) env extra cc host" "chat_extra cfg env opts extra" "cc_image cc = BaseImage cfg" "chat_created env dir (collectSecretValues (co_mcp_api_key opts) delivery) m3 = (r, m')"
      using 2(1) d[unfolded 2(2)] by (rule create_chat_shape)
    then show thesis using that(2)[of cc host name m3 extra dir delivery] creates_trans[OF creates_quietly[OF q2] c(1)] by simp
  qed (use that(1) in blast)
qed

lemma resume_base_tracker: "m_tracker (snd (resume_base cfg env m)) = m_tracker m"
  by (simp add: resume_base_def Let_def mgr_simps split: fs_answer.split)

lemma chat_resume_dir_tracker: "m_tracker (snd (snd (chat_resume_dir cfg env opts m))) = m_tracker m"
  using resume_base_tracker[of cfg env m]
  by (simp add: chat_resume_dir_def prepareChatResume_def Let_def mgr_simps case_prod_unfold split: option.split)

lemma startchat_tracker:
  assumes "StartChat cfg env opts m = (r, m')"
  shows "m_tracker m' = m_tracker m"
proof -
  have q: "m_tracker (snd (pullImage cfg env img m)) = m_tracker m" for img m
    using pullImage_quiet[of m cfg env img] by (simp add: quietly_def)
  have b: "m_tracker (snd (buildSecretDelivery cfg env m)) = m_tracker m" for m
    using buildSecretDelivery_quiet[of m cfg env] by (simp add: quietly_def)
  have h: "m_tracker (snd (baseHostConfig cfg env url mounts m)) = m_tracker m" for url mounts m
    using baseHostConfig_quiet[of m cfg env url mounts] by (simp add: quietly_def)
  have k: "m_tracker (snd (taskSkillsMount cfg tok m)) = m_tracker m" for tok m
    using taskSkillsMount_quiet[of m cfg tok] by (simp add: quietly_def)
  have c: "m_tracker (snd (chat_created env dir secrets m)) = m_tracker m" for dir secrets m
    by (simp add: chat_created_def Let_def removeChatResume_def stash_def mgr_simps split: answer.split)
  have "m_tracker (snd (create_chat cfg env opts d m)) = m_tracker m" for d m
    by (simp add: create_chat_def Let_def case_prod_unfold c h k chat_resume_dir_tracker mgr_simps)
  then have "m_tracker (snd (StartChat cfg env opts m)) = m_tracker m"
    using q[of "BaseImage cfg" m] b
    by (auto simp: StartChat_def case_prod_unfold split: option.split sum.split)
  then show ?thesis using assms by simp
qed

lemma created_container:
  assumes "startContainer cfg env rc m = (r, m') \<or> StartChat cfg env opts m = (q, m')"
    and "EvCreate cc host name \<in> set (news m m')"
  shows "(hc_mounts host = read_only_binds (worker_mounts cfg env) \<or>
      StartChat cfg env opts m = (q, m') \<and> co_resume opts \<noteq> None \<and> (\<exists>dir \<in> resume_dirs cfg env (co_session opts).
        hc_mounts host = read_only_binds (worker_mounts cfg env @ [(dir, ''/run/cm-chat'')]))) \<and>
    hc_cap_drop host = [''ALL''] \<and> hc_security_opt host = [''no-new-privileges''] \<and> hc_memory host = ContainerMemoryLimit cfg \<and>
    hc_pids_limit host = ContainerPidsLimit cfg \<and> (image_allowed cfg (cc_image cc) \<or> cc_image cc = BaseImage cfg) \<and>
    filter is_create (news m m') = [EvCreate cc host name]"
  using assms(1)
proof
  assume "startContainer cfg env rc m = (r, m')"
  then obtain es where es: "m_events m' = m_events m @ es"
    "\<And>cc host n. EvCreate cc host n \<in> set es \<Longrightarrow> hardened cfg env [] cc host" "length (filter is_create es) \<le> 1"
    by (rule start_events) blast
  have n: "news m m' = es" using es(1) by (simp add: news_def)
  then have "EvCreate cc host name \<in> set (filter is_create es)" using assms(2) by simp
  then have "filter is_create es = [EvCreate cc host name]"
    using es(3) by (cases "filter is_create es") auto
  then show ?thesis using es(2) assms(2) by (simp add: n hardened_def)
next
  assume "StartChat cfg env opts m = (q, m')"
  then show ?thesis
  proof (cases rule: StartChat_shape)
    case refused
    have "filter is_create (news m m') = []" using creates_news[OF creates_quietly[OF refused(2)]] .
    moreover have "EvCreate cc host name \<in> set (filter is_create (news m m'))" using assms(2) by simp
    ultimately show ?thesis by simp
  next
    case (created cc' host' name' dir extra delivery m1)
    have e: "filter is_create (news m m') = [EvCreate cc' host' name']"
      using creates_news[OF creates_trans[OF created(1) chat_created_result(1)[OF created(5)]]] by simp
    moreover have "EvCreate cc host name \<in> set (filter is_create (news m m'))" using assms(2) by simp
    ultimately show ?thesis
      using created(2-4) \<open>StartChat cfg env opts m = (q, m')\<close>
      by (auto simp: hardened_def image_allowed_def chat_extra_def worker_mounts_def secrets_mount_def)
  qed
qed

text \<open>
  C11. Containers are confined. Every container that the manager creates, for a card or for a chat, and at most
  one per start, has exactly the configured host paths mounted, each at its fixed place and read-only: the Claude
  credentials, the skills clone, the CA certificate and the shared secrets directory, as far as they are
  configured, and a resumed chat the directory prepared for its history, nothing else of the host. It drops all
  capabilities, cannot gain privileges, has the configured memory and process limits, and runs an image of the allow
  list (a chat: the base image).
\<close>

theorem containers_confined:
  assumes "startContainer cfg env rc m = (r, m') \<or> StartChat cfg env opts m = (q, m')"
    and "EvCreate cc host name \<in> set (news m m')"
  shows "(hc_mounts host = read_only_binds (worker_mounts cfg env) \<or>
      StartChat cfg env opts m = (q, m') \<and> co_resume opts \<noteq> None \<and> (\<exists>dir \<in> resume_dirs cfg env (co_session opts).
        hc_mounts host = read_only_binds (worker_mounts cfg env @ [(dir, ''/run/cm-chat'')]))) \<and>
    hc_cap_drop host = [''ALL''] \<and> hc_security_opt host = [''no-new-privileges''] \<and> hc_memory host = ContainerMemoryLimit cfg \<and>
    hc_pids_limit host = ContainerPidsLimit cfg \<and> (image_allowed cfg (cc_image cc) \<or> cc_image cc = BaseImage cfg) \<and>
    filter is_create (news m m') = [EvCreate cc host name]"
  using assms by (rule created_container)

lemma delete_gone: "k \<notin> fst ` set (AList.delete k xs)"
  by (auto simp: AList.delete_eq)

lemma pop_fields [mgr_simps]:
  "m_events (drop_secrets cid m) = m_events m" "m_chat_cleanup (drop_secrets cid m) = m_chat_cleanup m"
  "m_chat_secrets (drop_secrets cid m) = AList.delete cid (m_chat_secrets m)"
  by (simp_all add: drop_secrets_def)

lemma removeChatResume_fields [mgr_simps]:
  "m_events (removeChatResume dir m) = m_events m @ (if dir = [] then [] else [EvRemoveAll dir])"
  "m_chat_cleanup (removeChatResume dir m) = m_chat_cleanup m" "m_chat_secrets (removeChatResume dir m) = m_chat_secrets m"
  by (simp_all add: removeChatResume_def mgr_simps)

text \<open>
  C34. The cleanup state of a chat container is released exactly once. A successful \<open>StartChat\<close> stashes the
  resume directory and the secrets under the container's id. Both maps lose the entry and the directory is removed
  whichever way the handler continues: by its rollback (\<open>DeleteChatCleanup\<close>), or by the cleanup goroutine,
  which takes the directory when it starts and removes it, with the container and the secrets, when the
  wait ends, whatever happened in between. The one exception is a panic of the wait, which releases nothing.
\<close>

theorem chat_state_released:
  assumes "StartChat cfg env opts m = (Some cid, m1)"
  shows "\<exists>dir secrets. map_of (m_chat_cleanup m1) cid = Some dir \<and> map_of (m_chat_secrets m1) cid = Some secrets \<and>
    (let m2 = DeleteChatCleanup cid m1 in
       cid \<notin> fst ` set (m_chat_cleanup m2) \<and> cid \<notin> fst ` set (m_chat_secrets m2) \<and>
       news m1 m2 = (if dir = [] then [] else [EvRemoveAll dir])) \<and>
    (case wait_chat_begin cid m1 of (rd, m2) \<Rightarrow> rd = Some dir \<and> cid \<notin> fst ` set (m_chat_cleanup m2) \<and>
       (\<forall>res sid m3. let m4 = wait_chat_end res rd sid cid m3 in
          if wait_panicked res then m4 = m3
          else cid \<notin> fst ` set (m_chat_secrets m4) \<and> EvRemove cid \<in> set (news m3 m4) \<and>
            (dir = [] \<or> EvRemoveAll dir \<in> set (news m3 m4))))"
  using assms
proof (cases rule: StartChat_shape)
  case (created cc host name dir extra delivery m0)
  let ?secrets = "collectSecretValues (co_mcp_api_key opts) delivery"
  have m1: "m1 = stash cid dir ?secrets (ev (EvStart cid) m0)"
    using chat_created_result(2)[OF created(5)] by simp
  have s: "map_of (m_chat_cleanup m1) cid = Some dir" "map_of (m_chat_secrets m1) cid = Some ?secrets"
    by (simp_all add: m1 stash_def mgr_simps update_conv)
  have w: "wait_chat_begin cid m1 = (Some dir, ev (EvWait cid) (m1\<lparr>m_chat_cleanup := AList.delete cid (m_chat_cleanup m1)\<rparr>))"
    by (simp add: wait_chat_begin_def pop_cleanup_def s)
  have e: "EvRemove cid \<in> set (news m3 (wait_chat_end res (Some dir) sid cid m3))"
    "dir = [] \<or> EvRemoveAll dir \<in> set (news m3 (wait_chat_end res (Some dir) sid cid m3))"
    if "\<not> wait_panicked res" for res sid m3
    using that by (auto simp: wait_chat_end_def Let_def news_def killContainer_def removeContainer_def mgr_simps
        split: wait_result.split bool.split)
  have d: "DeleteChatCleanup cid m1 = removeChatResume dir (drop_secrets cid
      (m1\<lparr>m_chat_cleanup := AList.delete cid (m_chat_cleanup m1)\<rparr>))"
    by (simp add: DeleteChatCleanup_def pop_cleanup_def s)
  have "news m1 (DeleteChatCleanup cid m1) = (if dir = [] then [] else [EvRemoveAll dir])"
    by (simp add: d news_def mgr_simps)
  moreover have "wait_panicked res \<Longrightarrow> wait_chat_end res rd sid cid m3 = m3" for res rd sid m3
    by (simp add: wait_chat_end_def)
  ultimately show ?thesis
    using s e by (cases "dir = []") (simp_all add: w d Let_def mgr_simps delete_gone wait_chat_end_effect(4))
qed simp

definition example_chat_opts :: chat_opts where
  "example_chat_opts = \<lparr>co_session = ''s1'', co_project = ''alpha'', co_repo_url = [], co_mcp_url = ''https://h'',
     co_mcp_api_key = [], co_git_token = [], co_model = [],
     co_resume = Some \<lparr>cr_turns = [\<lparr>ct_seq = 1, ct_role = ''user'', ct_content = ''hi''\<rparr>], cr_clipped = False, cr_orig_seq = 1\<rparr>,
     co_task_skills = None\<rparr>"

lemma example_StartChat: "fst (StartChat example_mcfg example_spawn example_chat_opts example_manager) = Some ''c1''"
  by (simp add: StartChat_def example_chat_opts_def pullImage_def buildSecretDelivery_def mint_def create_chat_def
      chat_created_def example_mcfg_def example_spawn_def Let_def case_prod_unfold)

lemma started_chat_creates:
  assumes "StartChat cfg env opts m = (Some cid, m')"
  shows "\<exists>cc host name. EvCreate cc host name \<in> set (news m m')"
  using assms
proof (cases rule: StartChat_shape)
  case (created cc host name dir extra delivery m1)
  then have "filter is_create (news m m') = [EvCreate cc host name]"
    using creates_news[OF creates_trans[OF created(1) chat_created_result(1)[OF created(5)]]] by simp
  then have "EvCreate cc host name \<in> set (filter is_create (news m m'))" by simp
  then show ?thesis by auto
qed simp

theorem containers_confined_witness:
  "\<exists>cc host name. EvCreate cc host name \<in> set (news example_manager (snd (StartChat example_mcfg example_spawn example_chat_opts example_manager))) \<and>
     hc_cap_drop host = [''ALL''] \<and> cc_image cc = ''img''"
proof -
  obtain m' where s: "StartChat example_mcfg example_spawn example_chat_opts example_manager = (Some ''c1'', m')"
    using example_StartChat by (metis prod.collapse)
  obtain cc host name where c: "EvCreate cc host name \<in> set (news example_manager m')"
    using started_chat_creates[OF s] by blast
  have "image_allowed example_mcfg i \<longleftrightarrow> i = ''img''" "BaseImage example_mcfg = ''img''" for i
    by (simp_all add: image_allowed_def example_mcfg_def)
  then show ?thesis using containers_confined[OF disjI2[OF s] c] c s by auto
qed

theorem chat_state_released_witness:
  "''c1'' \<notin> fst ` set (m_chat_cleanup (DeleteChatCleanup ''c1''
       (snd (StartChat example_mcfg example_spawn example_chat_opts example_manager)))) \<and>
   ''c1'' \<notin> fst ` set (m_chat_secrets (DeleteChatCleanup ''c1''
       (snd (StartChat example_mcfg example_spawn example_chat_opts example_manager))))"
proof -
  have s: "StartChat example_mcfg example_spawn example_chat_opts example_manager =
      (Some ''c1'', snd (StartChat example_mcfg example_spawn example_chat_opts example_manager))"
    using example_StartChat by (metis prod.collapse)
  show ?thesis using chat_state_released[OF s] by (auto simp: Let_def)
qed

end
