(* ===== verification/Reconcile.thy ===== *)
theory Reconcile
  imports Chat_Props
begin

text \<open>
  The operations of \<open>internal/container/manager.go\<close> that take Docker, not the registry, as the authority:
  \<open>ListManaged\<close>, \<open>ForceRemoveByLabels\<close>, \<open>CleanupOrphans\<close>, \<open>SweepStaleChatResumeDirs\<close> and \<open>PruneImages\<close>.
  Docker's list is an answer of the environment to the label filters; a failed list is \<open>None\<close>.
\<close>

record docker_env =
  list_answer :: "string list \<Rightarrow> docker_container list option"
  stop_ok :: "string \<Rightarrow> bool"
  remove_ok :: "string \<Rightarrow> bool"

definition label_filter :: "string \<Rightarrow> string \<Rightarrow> string" where
  "label_filter k v = k @ CHR ''='' # v"

definition runner_filter :: "string list" where
  "runner_filter = [label_filter LabelRunner ''true'']"

abbreviation dc_project :: "docker_container \<Rightarrow> string" where
  "dc_project c \<equiv> label LabelProject (dc_labels c)"

abbreviation dc_card :: "docker_container \<Rightarrow> string" where
  "dc_card c \<equiv> label LabelCardID (dc_labels c)"

abbreviation dc_session :: "docker_container \<Rightarrow> string" where
  "dc_session c \<equiv> label LabelSessionID (dc_labels c)"

section \<open>Listing\<close>

record listed_container =
  lc_id :: string
  lc_name :: string
  lc_card :: string
  lc_session :: string
  lc_project :: string
  lc_state :: string
  lc_started :: int
  lc_tracked :: bool

definition trim_slash :: "string list \<Rightarrow> string" where
  "trim_slash names = (case names of [] \<Rightarrow> [] | n # ns \<Rightarrow> (case n of c # s \<Rightarrow> if c = CHR ''/'' then s else n | [] \<Rightarrow> []))"

definition list_entry :: "tracker \<Rightarrow> docker_container \<Rightarrow> listed_container list" where
  "list_entry t c =
     (if dc_card c \<noteq> [] \<and> dc_project c = [] then []
      else if dc_card c = [] \<and> dc_session c = [] then []
      else [\<lparr>lc_id = dc_id c, lc_name = trim_slash (dc_names c), lc_card = dc_card c, lc_session = dc_session c,
             lc_project = dc_project c, lc_state = dc_state c, lc_started = dc_created c,
             lc_tracked = (if dc_session c \<noteq> [] then HasChat (dc_session c) t else Has (dc_project c) (dc_card c) t)\<rparr>])"

definition ListManaged :: "docker_env \<Rightarrow> manager \<Rightarrow> listed_container list option \<times> manager" where
  "ListManaged d m =
     (map_option (\<lambda>cs. concat (map (list_entry (m_tracker m)) cs)) (list_answer d runner_filter),
      ev (EvList runner_filter) m)"

section \<open>Removing by labels\<close>

text \<open>One removal after another; the number of successes and the ids that failed.\<close>

fun remove_each :: "(string \<Rightarrow> bool) \<Rightarrow> docker_container list \<Rightarrow> nat \<times> string list \<Rightarrow> manager \<Rightarrow> (nat \<times> string list) \<times> manager" where
  "remove_each ok [] acc m = (acc, m)"
| "remove_each ok (c # cs) (removed, errs) m =
     (let m1 = ev (EvRemove (dc_id c)) m
      in if ok (dc_id c) then remove_each ok cs (removed + 1, errs) m1
         else remove_each ok cs (removed, errs @ [truncateID (dc_id c)]) m1)"

text \<open>The count and whether there was an error.\<close>

definition ForceRemoveByLabels :: "docker_env \<Rightarrow> string \<Rightarrow> string \<Rightarrow> manager \<Rightarrow> (nat \<times> bool) \<times> manager" where
  "ForceRemoveByLabels d project cardID m =
     (if project = [] \<or> cardID = [] then ((0, True), m)
      else let fs = runner_filter @ [label_filter LabelProject project, label_filter LabelCardID cardID];
               m1 = ev (EvList fs) m
        in case list_answer d fs of
             None \<Rightarrow> ((0, True), m1)
           | Some cs \<Rightarrow> (case remove_each (remove_ok d) cs (0, []) m1 of
               ((removed, errs), m2) \<Rightarrow> ((removed, errs \<noteq> []), m2)))"

section \<open>Orphans\<close>

definition tracked_container :: "tracker \<Rightarrow> docker_container \<Rightarrow> bool" where
  "tracked_container t c \<longleftrightarrow>
     (dc_project c \<noteq> [] \<and> dc_card c \<noteq> [] \<and> Has (dc_project c) (dc_card c) t) \<or>
     (dc_session c \<noteq> [] \<and> HasChat (dc_session c) t)"

fun remove_orphans ::
  "docker_env \<Rightarrow> docker_container list \<Rightarrow> nat \<times> nat \<times> string list \<Rightarrow> manager \<Rightarrow> (nat \<times> nat \<times> string list) \<times> manager" where
  "remove_orphans d [] acc m = (acc, m)"
| "remove_orphans d (c # cs) (removed, stop_failures, errs) m =
     (let m1 = ev (EvRemove (dc_id c)) (ev (EvStop (dc_id c) 5) m);
          stop_failures' = (if stop_ok d (dc_id c) then stop_failures else stop_failures + 1)
      in if remove_ok d (dc_id c) then remove_orphans d cs (removed + 1, stop_failures', errs) m1
         else remove_orphans d cs (removed, stop_failures', errs @ [truncateID (dc_id c)]) m1)"

text \<open>\<open>None\<close>: the list failed; otherwise the ids whose removal failed. A failed stop is no error.\<close>

definition CleanupOrphans :: "docker_env \<Rightarrow> manager \<Rightarrow> string list option \<times> manager" where
  "CleanupOrphans d m =
     (let m1 = ev (EvList runner_filter) m in
      case list_answer d runner_filter of
        None \<Rightarrow> (None, m1)
      | Some cs \<Rightarrow>
          (case remove_orphans d (filter (\<lambda>c. \<not> tracked_container (m_tracker m) c) cs) (0, 0, []) m1 of
             ((removed, stop_failures, errs), m2) \<Rightarrow> (Some errs, m2)))"

section \<open>Stale files and images\<close>

text \<open>The entries of a directory with their modification times (\<open>None\<close>: the stat failed).\<close>

definition sweep_entry :: "(string \<Rightarrow> string \<Rightarrow> string) \<Rightarrow> time \<Rightarrow> duration \<Rightarrow> string \<Rightarrow> string \<times> time option \<Rightarrow> manager \<Rightarrow> manager" where
  "sweep_entry join t maxAge parent e m = (case e of (name, mtime) \<Rightarrow>
     if take 16 name \<noteq> ''cmr-chat-resume-'' then m
     else case mtime of
       None \<Rightarrow> m
     | Some u \<Rightarrow> if t - u \<le> maxAge then m else ev (EvRemoveAll (join parent name)) m)"

definition sweep_dir :: "(string \<Rightarrow> (string \<times> time option) list option) \<Rightarrow> (string \<Rightarrow> string \<Rightarrow> string) \<Rightarrow> time \<Rightarrow> duration \<Rightarrow>
    string \<Rightarrow> manager \<Rightarrow> manager" where
  "sweep_dir read_dir join t maxAge parent m = (case read_dir parent of
       None \<Rightarrow> m
     | Some es \<Rightarrow> fold (sweep_entry join t maxAge parent) es m)"

definition SweepStaleChatResumeDirs ::
  "manager_config \<Rightarrow> (string \<Rightarrow> (string \<times> time option) list option) \<Rightarrow> (string \<Rightarrow> string \<Rightarrow> string) \<Rightarrow> string \<Rightarrow> time \<Rightarrow> duration \<Rightarrow>
    manager \<Rightarrow> manager" where
  "SweepStaleChatResumeDirs cfg read_dir join tmp t maxAge m =
     (let secrets = (if SecretsDir cfg = [] then ''/var/run/cm-runner/secrets'' else SecretsDir cfg)
      in sweep_dir read_dir join t maxAge (join tmp ''cm-runner-chat-resume'')
           (sweep_dir read_dir join t maxAge secrets m))"

definition imagePruneMaxAge :: string where "imagePruneMaxAge = ''24h''"

definition PruneImages :: "bool \<Rightarrow> manager \<Rightarrow> bool \<times> manager" where
  "PruneImages prune_ok m = (prune_ok, ev (EvPrune imagePruneMaxAge) m)"

section \<open>What the sweeps do\<close>

lemma remove_orphans_effect:
  "remove_orphans d cs (removed, sf, errs) m =
    ((removed + length (filter (\<lambda>c. remove_ok d (dc_id c)) cs), sf + length (filter (\<lambda>c. \<not> stop_ok d (dc_id c)) cs),
      errs @ map (\<lambda>c. truncateID (dc_id c)) (filter (\<lambda>c. \<not> remove_ok d (dc_id c)) cs)),
     m\<lparr>m_events := m_events m @ concat (map (\<lambda>c. [EvStop (dc_id c) 5, EvRemove (dc_id c)]) cs)\<rparr>)"
  by (induction cs arbitrary: removed sf errs m) (simp_all add: Let_def ev_def)

lemma remove_each_effect:
  "remove_each ok cs (removed, errs) m =
    ((removed + length (filter (\<lambda>c. ok (dc_id c)) cs), errs @ map (\<lambda>c. truncateID (dc_id c)) (filter (\<lambda>c. \<not> ok (dc_id c)) cs)),
     m\<lparr>m_events := m_events m @ map (\<lambda>c. EvRemove (dc_id c)) cs\<rparr>)"
  by (induction cs arbitrary: removed errs m) (simp_all add: Let_def ev_def)

lemma cleanup_effect:
  fixes m :: manager
  assumes "list_answer d runner_filter = Some cs"
  defines "orphans \<equiv> filter (\<lambda>c. \<not> tracked_container (m_tracker m) c) cs"
  shows "CleanupOrphans d m =
    (Some (map (\<lambda>c. truncateID (dc_id c)) (filter (\<lambda>c. \<not> remove_ok d (dc_id c)) orphans)),
     m\<lparr>m_events := m_events m @ EvList runner_filter # concat (map (\<lambda>c. [EvStop (dc_id c) 5, EvRemove (dc_id c)]) orphans)\<rparr>)"
  by (simp add: CleanupOrphans_def Let_def assms remove_orphans_effect ev_def)

text \<open>
  C35. The orphan sweep removes exactly what the registry does not know. For every list that Docker gives, the
  sweep stops and force-removes every listed container without a registry entry, in order and whatever
  fails, it never touches one whose card or session is tracked (container ids being distinct), it leaves
  the registry alone, and it reports an error exactly when some removal failed.
\<close>

theorem orphan_sweep_exact:
  assumes "list_answer d runner_filter = Some cs" and "distinct (map dc_id cs)"
    and "CleanupOrphans d m = (errs, m')"
  shows "m_tracker m' = m_tracker m \<and>
    (\<forall>c \<in> set cs. (EvRemove (dc_id c) \<in> set (news m m')) = (\<not> tracked_container (m_tracker m) c)) \<and>
    (\<forall>c \<in> set cs. (EvStop (dc_id c) 5 \<in> set (news m m')) = (\<not> tracked_container (m_tracker m) c)) \<and>
    (errs = Some [] \<longleftrightarrow> (\<forall>c \<in> set cs. tracked_container (m_tracker m) c \<or> remove_ok d (dc_id c)))"
proof -
  let ?orphans = "filter (\<lambda>c. \<not> tracked_container (m_tracker m) c) cs"
  note e = cleanup_effect[OF assms(1), of m]
  have n: "news m m' = EvList runner_filter # concat (map (\<lambda>c. [EvStop (dc_id c) 5, EvRemove (dc_id c)]) ?orphans)"
    and t: "m_tracker m' = m_tracker m"
    using assms(3) e by (auto simp: news_def)
  have same: "c = c'" if "c \<in> set cs" "c' \<in> set cs" "dc_id c = dc_id c'" for c c'
    using assms(2) that by (auto simp: distinct_map inj_on_def)
  have "errs = Some [] \<longleftrightarrow> (\<forall>c \<in> set cs. tracked_container (m_tracker m) c \<or> remove_ok d (dc_id c))"
    using assms(3) e by (auto simp: filter_empty_conv)
  then show ?thesis using t same by (fastforce simp: n)
qed

text \<open>
  The sweep can kill a chat that is being started. A chat container runs before its session is tracked; if
  the periodic sweep lists Docker in between (the container with the labels it was created with), it stops
  and removes the container although \<open>StartChat\<close> succeeded.
\<close>

theorem orphan_sweep_hits_starting_chat:
  assumes "StartChat cfg env opts m = (Some cid, m1)" and "\<not> HasChat (co_session opts) (m_tracker m1)"
    and "list_answer d runner_filter = Some cs" and "c \<in> set cs" and "dc_id c = cid" and "dc_labels c = chat_labels opts"
  shows "EvStop cid 5 \<in> set (news m1 (snd (CleanupOrphans d m1))) \<and> EvRemove cid \<in> set (news m1 (snd (CleanupOrphans d m1)))"
proof -
  have "\<not> tracked_container (m_tracker m1) c"
    using assms(2) by (auto simp: tracked_container_def assms(6) chat_labels_def label_def LabelCardID_def LabelRunner_def
        LabelSessionID_def LabelProject_def)
  then show ?thesis
    using assms(4,5) by (fastforce simp: cleanup_effect[OF assms(3), of m1] news_def)
qed

text \<open>The sweep of resume directories looks only at the name and the age, not at the live sessions.\<close>

definition swept :: "time \<Rightarrow> duration \<Rightarrow> string \<times> time option \<Rightarrow> bool" where
  "swept t maxAge e \<longleftrightarrow> take 16 (fst e) = ''cmr-chat-resume-'' \<and> (case snd e of None \<Rightarrow> False | Some u \<Rightarrow> maxAge < t - u)"

lemma sweep_dir_events:
  assumes "read_dir parent = Some es"
  shows "m_events (sweep_dir read_dir join t maxAge parent m) =
    m_events m @ map (\<lambda>e. EvRemoveAll (join parent (fst e))) (filter (swept t maxAge) es)"
proof -
  have s: "sweep_entry join t maxAge parent e m = (if swept t maxAge e then ev (EvRemoveAll (join parent (fst e))) m else m)" for e m
    by (auto simp: sweep_entry_def swept_def split: option.split prod.split)
  have "m_events (fold (sweep_entry join t maxAge parent) es m) =
    m_events m @ map (\<lambda>e. EvRemoveAll (join parent (fst e))) (filter (swept t maxAge) es)"
    by (induction es arbitrary: m) (simp_all add: s mgr_simps)
  then show ?thesis by (simp add: sweep_dir_def assms)
qed

definition example_listed :: "docker_container list" where
  "example_listed =
     [\<lparr>dc_id = ''c1'', dc_names = [''/cmr-chat-s1''], dc_state = ''running'', dc_created = 0, dc_labels = chat_labels example_chat_opts\<rparr>,
      \<lparr>dc_id = ''c2'', dc_names = [], dc_state = ''running'', dc_created = 0,
        dc_labels = [(LabelRunner, ''true''), (LabelCardID, ''ALPHA-001''), (LabelProject, ''alpha'')]\<rparr>]"

definition example_docker :: docker_env where
  "example_docker = \<lparr>list_answer = (\<lambda>fs. Some example_listed), stop_ok = (\<lambda>i. False), remove_ok = (\<lambda>i. True)\<rparr>"

lemma example_list: "list_answer example_docker runner_filter = Some example_listed"
  by (simp add: example_docker_def)

theorem orphan_sweep_exact_witness:
  "EvRemove ''c1'' \<in> set (news example_manager (snd (CleanupOrphans example_docker example_manager))) \<and>
   EvRemove ''c2'' \<notin> set (news example_manager (snd (CleanupOrphans example_docker example_manager)))"
proof -
  have t: "m_tracker example_manager = tracker_New\<lparr>containers := [(''alpha/ALPHA-001'', \<lparr>ContainerID = [], CardID = ''ALPHA-001'',
      Project = ''alpha'', SessionID = [], Image = [], StartedAt = 0, CancelFn = Some 9, reason = [], stdin_ptr = None\<rparr>)]\<rparr>"
    by code_simp
  have e: "CleanupOrphans example_docker example_manager = (fst (CleanupOrphans example_docker example_manager),
      snd (CleanupOrphans example_docker example_manager))" by simp
  show ?thesis
    using orphan_sweep_exact[OF example_list _ e]
    by (simp add: example_listed_def tracked_container_def chat_labels_def label_def LabelCardID_def LabelRunner_def LabelSessionID_def
        LabelProject_def example_chat_opts_def HasChat_def Has_def lookup_key_def t chatKey_def tkey_def)
qed

theorem orphan_sweep_hits_starting_chat_witness:
  "EvRemove ''c1'' \<in> set (news (snd (StartChat example_mcfg example_spawn example_chat_opts (NewManager tracker_New None)))
     (snd (CleanupOrphans example_docker (snd (StartChat example_mcfg example_spawn example_chat_opts (NewManager tracker_New None))))))"
proof -
  let ?m = "NewManager tracker_New None"
  have f: "fst (StartChat example_mcfg example_spawn example_chat_opts ?m) = Some ''c1''"
    by (simp add: StartChat_def example_chat_opts_def pullImage_def buildSecretDelivery_def mint_def create_chat_def
        chat_created_def example_mcfg_def example_spawn_def Let_def case_prod_unfold)
  then have s: "StartChat example_mcfg example_spawn example_chat_opts ?m =
      (Some ''c1'', snd (StartChat example_mcfg example_spawn example_chat_opts ?m))" by (metis prod.collapse)
  have h: "\<not> HasChat (co_session example_chat_opts) (m_tracker (snd (StartChat example_mcfg example_spawn example_chat_opts ?m)))"
    using startchat_tracker[OF s] by (simp add: NewManager_def HasChat_def lookup_key_def tracker_New_def)
  show ?thesis
    using orphan_sweep_hits_starting_chat[OF s h example_list, of "hd example_listed"] by (simp add: example_listed_def)
qed

section \<open>A chat whose wait panicked\<close>

text \<open>
  After a panic of the wait the session stays registered: it holds its slot, the orphan sweep passes its container by, and
  nothing waits for the container any more. A card run cleans up after the same panic (\<open>recover_run\<close>).
\<close>

lemma chat_wait_panic_leaks:
  assumes "HasChat sid (m_tracker m)" and "dc_session c = sid" and "sid \<noteq> []"
  shows "HasChat sid (m_tracker (wait_chat_end (WaitPanics e) rd sid cid m)) \<and>
    tracked_container (m_tracker (wait_chat_end (WaitPanics e) rd sid cid m)) c"
  using assms by (simp add: wait_chat_end_def tracked_container_def)

end
