(* ===== verification/Secrets.thy ===== *)
theory Secrets
  imports Container_Spec "HOL-Library.Word"
begin

text \<open>
  The token refresher of \<open>internal/container/secrets_refresher.go\<close>: the rendering of the shell-sourced secrets
  file, its atomic replacement on disk, and the schedule of the refresh loop. Durations are
  nanoseconds; the shift of \<open>clampBackoffDuration\<close> is done at 64 bits.
\<close>

section \<open>Rendering\<close>

definition IsValidStaticSecretByte :: "char \<Rightarrow> bool" where
  "IsValidStaticSecretByte c \<longleftrightarrow> between 32 126 c"

datatype secrets_error =
    ErrInvalidTokenChars
  | ErrStaticCMGitTokenForbidden
  | ErrInvalidStaticSecretChars string
  | ErrMint
  | ErrWriteSecrets

definition validateStaticSecretValue :: "string \<Rightarrow> bool" where
  "validateStaticSecretValue v \<longleftrightarrow> list_all IsValidStaticSecretByte v"

definition SQ :: char where "SQ = CHR 0x27"

text \<open>\<open>strings.ReplaceAll(s, "'", `'\''`)\<close>.\<close>

definition shellSingleQuoteEscape :: "string \<Rightarrow> string" where
  "shellSingleQuoteEscape s = concat (map (\<lambda>c. if c = SQ then [SQ, BSLASH, SQ, SQ] else [c]) s)"

definition token_char :: "char \<Rightarrow> bool" where
  "token_char c \<longleftrightarrow> is_alnum c \<or> c = CHR ''_'' \<or> c = CHR ''-''"

definition secrets_line :: "string \<Rightarrow> string \<Rightarrow> string" where
  "secrets_line k v = ''export '' @ k @ ''='' @ [SQ] @ shellSingleQuoteEscape v @ [SQ, CHR 0x0A]"

definition combined_env :: "string \<Rightarrow> (string \<times> string) list \<Rightarrow> (string \<times> string) list" where
  "combined_env gitToken static = AList.update ''CM_GIT_TOKEN'' gitToken static"

definition renderSecretsFile :: "string \<Rightarrow> (string \<times> string) list \<Rightarrow> secrets_error + string" where
  "renderSecretsFile gitToken static =
     (if ''CM_GIT_TOKEN'' \<in> fst ` set static then Inl ErrStaticCMGitTokenForbidden
      else if \<not> list_all token_char gitToken then Inl ErrInvalidTokenChars
      else case find (\<lambda>k. \<not> validateStaticSecretValue (label k static)) (sorted_keys static) of
        Some k \<Rightarrow> Inl (ErrInvalidStaticSecretChars k)
      | None \<Rightarrow>
          let combined = combined_env gitToken static
          in Inr (concat (map (\<lambda>k. secrets_line k (label k combined)) (sorted_keys combined))))"

section \<open>What a shell reads\<close>

text \<open>
  The POSIX reading of the value of an assignment, as far as the file uses it: text in single quotes is
  literal, a backslash outside quotes quotes the next character, and the word ends at the newline.
  Anything else outside quotes is not part of a plain value: \<open>None\<close>.
\<close>

fun sh_value :: "bool \<Rightarrow> string \<Rightarrow> (string \<times> string) option" where
  "sh_value True [] = None"
| "sh_value True (c # s) =
     (if c = SQ then sh_value False s else map_option (apfst (Cons c)) (sh_value True s))"
| "sh_value False [] = None"
| "sh_value False (c # s) =
     (if c = SQ then sh_value True s
      else if c = CHR 0x0A then Some ([], s)
      else if c = BSLASH then (case s of [] \<Rightarrow> None | d # t \<Rightarrow> map_option (apfst (Cons d)) (sh_value False t))
      else None)"

definition name_char :: "char \<Rightarrow> bool" where
  "name_char c \<longleftrightarrow> is_alnum c \<or> c = CHR ''_''"

definition sh_export :: "string \<Rightarrow> ((string \<times> string) \<times> string) option" where
  "sh_export s =
     (if take 7 s \<noteq> ''export '' then None
      else let rest = drop 7 s; k = takeWhile name_char rest in
        case drop (length k) rest of
          c # t \<Rightarrow> if c = CHR ''='' \<and> k \<noteq> [] then map_option (apfst (Pair k)) (sh_value False t) else None
        | [] \<Rightarrow> None)"

text \<open>The file is read line by line; the fuel bounds the number of lines.\<close>

fun sh_source :: "nat \<Rightarrow> string \<Rightarrow> (string \<times> string) list option" where
  "sh_source n [] = Some []"
| "sh_source 0 s = None"
| "sh_source (Suc n) s = (case sh_export s of
     None \<Rightarrow> None
   | Some (kv, rest) \<Rightarrow> map_option (Cons kv) (sh_source n rest))"

lemma sh_value_escape:
  "sh_value True (shellSingleQuoteEscape v @ SQ # CHR 0x0A # rest) = Some (v, rest)"
proof (induction v)
  case Nil
  then show ?case by (simp add: shellSingleQuoteEscape_def SQ_def)
next
  case (Cons c v)
  then show ?case
    by (cases "c = SQ") (simp_all add: shellSingleQuoteEscape_def, simp_all add: SQ_def BSLASH_def)
qed

lemma sh_export_line:
  assumes "list_all name_char k" and "k \<noteq> []"
  shows "sh_export (secrets_line k v @ rest) = Some ((k, v), rest)"
proof -
  have n: "\<not> name_char (CHR ''='')" by code_simp
  have "takeWhile name_char (k @ CHR ''='' # t) = k" for t
    using assms(1) n by (auto simp: takeWhile_append2 list_all_iff)
  moreover have "sh_value False (SQ # shellSingleQuoteEscape v @ SQ # CHR 0x0A # rest) = Some (v, rest)"
    using sh_value_escape by simp
  ultimately show ?thesis
    using assms(2) by (simp add: sh_export_def secrets_line_def Let_def)
qed

lemma sh_source_lines:
  assumes "\<forall>k \<in> set ks. list_all name_char k \<and> k \<noteq> []"
  shows "sh_source (length ks) (concat (map (\<lambda>k. secrets_line k (f k)) ks)) = Some (map (\<lambda>k. (k, f k)) ks)"
  using assms
proof (induction ks)
  case (Cons k ks)
  have "secrets_line k (f k) @ s \<noteq> []" for s by (simp add: secrets_line_def)
  then have "sh_source (Suc n) (secrets_line k (f k) @ s) = map_option (Cons (k, f k)) (sh_source n s)" for n s
    using Cons.prems sh_export_line[of k "f k" s] by (cases "secrets_line k (f k) @ s") (simp_all split: option.split)
  then show ?case using Cons by simp
qed simp

text \<open>
  C36. Sourcing the secrets file sets exactly the secrets. Whatever the token and the static values are
  (quotes, dollar signs, backslashes, semicolons), if the file is rendered at all, a shell that sources
  it reads, to its end and with nothing else, one exported variable per key of the static environment and
  \<open>CM_GIT_TOKEN\<close>, each with its exact value; and rendering is refused only for a token or value with
  bytes outside the allowed ranges or a static \<open>CM_GIT_TOKEN\<close>.
\<close>

theorem secrets_file_sources:
  assumes "\<forall>k \<in> fst ` set static. list_all name_char k \<and> k \<noteq> []"
  shows "(case renderSecretsFile token static of
      Inr body \<Rightarrow> \<exists>n vars. sh_source n body = Some vars \<and>
        set (map fst vars) = insert ''CM_GIT_TOKEN'' (fst ` set static) \<and>
        (\<forall>(k, v) \<in> set vars. v = (if k = ''CM_GIT_TOKEN'' then token else label k static))
    | Inl e \<Rightarrow> ''CM_GIT_TOKEN'' \<in> fst ` set static \<or> \<not> list_all token_char token \<or>
        (\<exists>k \<in> fst ` set static. \<not> validateStaticSecretValue (label k static)))"
proof (cases "renderSecretsFile token static")
  case (Inl e)
  have f: "\<exists>k \<in> fst ` set static. \<not> validateStaticSecretValue (label k static)"
    if "find (\<lambda>k. \<not> validateStaticSecretValue (label k static)) (sorted_keys static) = Some k" for k
    using that set_sorted_keys[of static] by (metis (no_types, lifting) find_Some_iff nth_mem)
  show ?thesis
    using Inl f by (auto simp: renderSecretsFile_def Let_def split: if_splits option.splits)
next
  case (Inr body)
  let ?c = "combined_env token static"
  have b: "body = concat (map (\<lambda>k. secrets_line k (label k ?c)) (sorted_keys ?c))"
    using Inr by (auto simp: renderSecretsFile_def Let_def split: if_splits option.splits)
  have "set (map fst ?c) = insert ''CM_GIT_TOKEN'' (set (map fst static))"
    by (auto simp: combined_env_def update_keys simp del: set_map)
  then have ks: "set (sorted_keys ?c) = insert ''CM_GIT_TOKEN'' (fst ` set static)" by (simp add: set_sorted_keys)
  have g: "list_all name_char ''CM_GIT_TOKEN''" by code_simp
  have "\<forall>k \<in> set (sorted_keys ?c). list_all name_char k \<and> k \<noteq> []" unfolding ks using assms g by auto
  from sh_source_lines[OF this, of "\<lambda>k. label k ?c"]
  have s: "sh_source (length (sorted_keys ?c)) body = Some (map (\<lambda>k. (k, label k ?c)) (sorted_keys ?c))"
    by (simp add: b)
  have v: "label k ?c = (if k = ''CM_GIT_TOKEN'' then token else label k static)" for k
    by (simp add: label_def combined_env_def update_conv')
  show ?thesis
    unfolding Inr sum.case
    by (rule exI[of _ "length (sorted_keys ?c)"], rule exI[of _ "map (\<lambda>k. (k, label k ?c)) (sorted_keys ?c)"])
      (use s ks in \<open>auto simp: v\<close>)
qed

theorem secrets_file_sources_witness:
  "\<exists>n vars. sh_source n (case renderSecretsFile ''ghs_1'' [(''ANTHROPIC_API_KEY'', ''it'' @ [SQ] @ ''s; $x'')] of Inr b \<Rightarrow> b | Inl e \<Rightarrow> [])
     = Some vars \<and> set (map fst vars) = {''CM_GIT_TOKEN'', ''ANTHROPIC_API_KEY''}"
proof -
  have k: "\<forall>k \<in> fst ` set [(''ANTHROPIC_API_KEY'', ''it'' @ [SQ] @ ''s; $x'')]. list_all name_char k \<and> k \<noteq> []"
    by code_simp
  have v: "list_all token_char ''ghs_1''"
    "validateStaticSecretValue (label ''ANTHROPIC_API_KEY'' [(''ANTHROPIC_API_KEY'', ''it'' @ [SQ] @ ''s; $x'')])"
    by code_simp+
  show ?thesis
    using secrets_file_sources[OF k, of "''ghs_1''"] v
    by (cases "renderSecretsFile ''ghs_1'' [(''ANTHROPIC_API_KEY'', ''it'' @ [SQ] @ ''s; $x'')]") auto
qed

section \<open>Writing the file\<close>

text \<open>
  The file system holds the file and its temporary sibling (\<open>None\<close>: absent). The write is a sequence of
  system calls, each of which may fail; a failure closes and removes the temporary file. All states
  passed through are recorded: a crash can leave any of them. \<open>WriteFails n\<close> is a write cut short. The code ignores the
  result of \<open>os.Remove\<close>, which is taken to succeed here; what a power failure does to data not yet synced is
  outside the model.
\<close>

record secrets_fs =
  fs_path :: "string option"
  fs_tmp :: "string option"

datatype file_outcome = FileWritten | OpenFails | ChmodFails | WriteFails nat | SyncFails | CloseFails | RenameFails

definition writeSecretsFileAtomic :: "file_outcome \<Rightarrow> string \<Rightarrow> secrets_fs \<Rightarrow> bool \<times> secrets_fs list" where
  "writeSecretsFileAtomic out body s0 =
     (let opened = s0\<lparr>fs_tmp := Some []\<rparr>;
          part = (\<lambda>n. s0\<lparr>fs_tmp := Some (take n body)\<rparr>);
          full = s0\<lparr>fs_tmp := Some body\<rparr>;
          removed = s0\<lparr>fs_tmp := None\<rparr>
      in case out of
           OpenFails \<Rightarrow> (False, [s0])
         | ChmodFails \<Rightarrow> (False, [s0, opened, removed])
         | WriteFails n \<Rightarrow> (False, [s0, opened, part n, removed])
         | SyncFails \<Rightarrow> (False, [s0, opened, full, removed])
         | CloseFails \<Rightarrow> (False, [s0, opened, full, removed])
         | RenameFails \<Rightarrow> (False, [s0, opened, full, removed])
         | FileWritten \<Rightarrow> (True, [s0, opened, full, \<lparr>fs_path = Some body, fs_tmp = None\<rparr>]))"

section \<open>One refresh\<close>

text \<open>\<open>None\<close> is the zero time: a token that does not expire.\<close>

record refresh_env =
  minted_token :: "(string \<times> time option) option"
  read_fails :: bool
  file_outcome :: file_outcome

datatype refresh_result = RefreshError secrets_error | Refreshed bool "time option"

definition doOneRefresh ::
  "refresh_env \<Rightarrow> (string \<times> string) list \<Rightarrow> secrets_fs \<Rightarrow> refresh_result \<times> secrets_fs list" where
  "doOneRefresh env static s = (case minted_token env of
       None \<Rightarrow> (RefreshError ErrMint, [s])
     | Some (token, expires) \<Rightarrow>
         (case renderSecretsFile token static of
            Inl e \<Rightarrow> (RefreshError e, [s])
          | Inr body \<Rightarrow>
              if (case fs_path s of None \<Rightarrow> False | Some old \<Rightarrow> length old = length body \<and> \<not> read_fails env \<and> old = body)
              then (Refreshed False expires, [s])
              else (case writeSecretsFileAtomic (file_outcome env) body s of
                 (True, ss) \<Rightarrow> (Refreshed True expires, ss)
               | (False, ss) \<Rightarrow> (RefreshError ErrWriteSecrets, ss))))"

text \<open>
  C37. A worker never sees a torn secrets file. In every state a refresh passes through, at which the host may
  crash or a container may read, the file is either the old one or the complete rendering of the new
  token; after a success it is the new one, after an error the old one, and no temporary file is left
  behind that was not there before.
\<close>

theorem refresh_never_tears:
  assumes "doOneRefresh env static s = (r, ss)"
  shows "(\<forall>x \<in> set ss. fs_path x = fs_path s \<or>
      (\<exists>token e body. minted_token env = Some (token, e) \<and> renderSecretsFile token static = Inr body \<and> fs_path x = Some body)) \<and>
    (case r of
       Refreshed changed e \<Rightarrow> \<exists>token body. minted_token env = Some (token, e) \<and> renderSecretsFile token static = Inr body \<and>
         fs_path (last ss) = Some body
     | RefreshError e \<Rightarrow> fs_path (last ss) = fs_path s) \<and>
    (fs_tmp (last ss) = None \<or> fs_tmp (last ss) = fs_tmp s)"
  using assms
  by (cases "file_outcome env")
    (auto simp: doOneRefresh_def writeSecretsFileAtomic_def Let_def split: option.splits prod.splits sum.splits if_splits)

theorem refresh_never_tears_witness:
  "(case doOneRefresh \<lparr>minted_token = Some (''ghs_1'', None), read_fails = False, file_outcome = FileWritten\<rparr> []
      \<lparr>fs_path = None, fs_tmp = None\<rparr> of
    (r, ss) \<Rightarrow> r = Refreshed True None \<and> fs_path (last ss) = Some (secrets_line ''CM_GIT_TOKEN'' ''ghs_1''))"
proof -
  have b: "renderSecretsFile ''ghs_1'' [] = Inr (secrets_line ''CM_GIT_TOKEN'' ''ghs_1'')"
    "fst (doOneRefresh \<lparr>minted_token = Some (''ghs_1'', None), read_fails = False, file_outcome = FileWritten\<rparr> []
      \<lparr>fs_path = None, fs_tmp = None\<rparr>) = Refreshed True None"
    by code_simp+
  obtain ss where ss: "doOneRefresh \<lparr>minted_token = Some (''ghs_1'', None), read_fails = False, file_outcome = FileWritten\<rparr> []
      \<lparr>fs_path = None, fs_tmp = None\<rparr> = (Refreshed True None, ss)"
    using b(2) by (metis prod.collapse)
  show ?thesis using refresh_never_tears[OF ss] b(1) by (simp add: ss)
qed

section \<open>The schedule\<close>

definition tokenExpiryBuffer :: duration where "tokenExpiryBuffer = 10 * 60 * second"

text \<open>
  Times are unbounded; \<open>time.Time.Sub\<close> saturates at 64 bits, so the model is the code's for a clock and an expiry
  less than 292 years apart.
\<close>

definition nextWake :: "time \<Rightarrow> time option \<Rightarrow> duration \<times> bool" where
  "nextWake t expiresAt = (case expiresAt of
       None \<Rightarrow> (3600 * second, False)
     | Some e \<Rightarrow>
         let d = (e - t) - tokenExpiryBuffer
         in if d < second then (second, True) else (d, False))"

definition clampBackoffStreakThreshold :: int where "clampBackoffStreakThreshold = 3"

definition clampBackoffFloor :: "64 word" where "clampBackoffFloor = 1000000000"

definition clampBackoffCeiling :: "64 word" where "clampBackoffCeiling = 30000000000"

definition clampBackoffDuration :: "int \<Rightarrow> duration" where
  "clampBackoffDuration streak =
     (let excess = streak - clampBackoffStreakThreshold in
      if excess < 1 then sint clampBackoffFloor
      else if excess - 1 \<ge> 30 then sint clampBackoffCeiling
      else let d = push_bit (nat (excess - 1)) clampBackoffFloor
           in if sint d > sint clampBackoffCeiling then sint clampBackoffCeiling else sint d)"

definition nextBackoff :: "duration \<Rightarrow> duration \<Rightarrow> duration" where
  "nextBackoff d limit = (if d * 2 > limit then limit else d * 2)"

definition maxBackoff :: duration where "maxBackoff = 5 * 60 * second"

text \<open>
  One round of \<open>Run\<close> after \<open>doOneRefresh\<close>: how long it sleeps, and the state (backoff, clamp streak) for the
  next round. The loop itself ends only with its context.
\<close>

definition run_round :: "time \<Rightarrow> refresh_result \<Rightarrow> duration \<times> int \<Rightarrow> duration \<times> duration \<times> int" where
  "run_round t r st = (case st of (backoff, streak) \<Rightarrow>
     case r of
       RefreshError e \<Rightarrow> (backoff, nextBackoff backoff maxBackoff, streak)
     | Refreshed changed expires \<Rightarrow>
         (case nextWake t expires of (wake, clamped) \<Rightarrow>
            if clamped
            then (if streak + 1 > clampBackoffStreakThreshold then clampBackoffDuration (streak + 1) else wake, second, streak + 1)
            else (wake, second, 0)))"

text \<open>The sleeps of a sequence of rounds.\<close>

fun run_rounds :: "(time \<times> refresh_result) list \<Rightarrow> duration \<times> int \<Rightarrow> duration list" where
  "run_rounds [] st = []"
| "run_rounds ((t, r) # rs) st = (case run_round t r st of (d, st') \<Rightarrow> d # run_rounds rs st')"

definition run_start :: "duration \<times> int" where "run_start = (second, 0)"

definition tokenMode :: "time option \<Rightarrow> string" where
  "tokenMode e = (if e = None then ''pat'' else ''app'')"

lemma clamp_shift: "n < 30 \<Longrightarrow> sint (push_bit n clampBackoffFloor) = 2 ^ n * second"
proof -
  assume n: "n < 30"
  have "(2 :: int) ^ n \<le> 2 ^ 29" using n by (intro power_increasing) auto
  then have b: "(2 :: int) ^ n * 1000000000 < 2 ^ 63" by simp
  have "push_bit n clampBackoffFloor = word_of_int (2 ^ n * 1000000000)"
    by (simp add: clampBackoffFloor_def push_bit_eq_mult mult.commute)
  then have "sint (push_bit n clampBackoffFloor) = signed_take_bit 63 (2 ^ n * 1000000000)"
    by (simp add: sint_sbintrunc' del: of_int_mult of_int_power of_int_numeral)
  also have "\<dots> = 2 ^ n * 1000000000"
    using b by (intro signed_take_bit_int_eq_self) (auto intro: order_trans[of _ 0])
  finally show ?thesis by simp
qed

lemma clamp_backoff:
  "clampBackoffDuration (int n + 4) = min (2 ^ n * second) (30 * second)"
  "streak \<le> 3 \<Longrightarrow> clampBackoffDuration streak = second"
proof -
  have c: "sint clampBackoffCeiling = 30 * second" "sint clampBackoffFloor = second"
    by (simp_all add: clampBackoffCeiling_def clampBackoffFloor_def)
  show "streak \<le> 3 \<Longrightarrow> clampBackoffDuration streak = second"
    by (simp add: clampBackoffDuration_def clampBackoffStreakThreshold_def Let_def c)
  show "clampBackoffDuration (int n + 4) = min (2 ^ n * second) (30 * second)"
  proof (cases "n < 30")
    case True
    then show ?thesis
      using clamp_shift[OF True] by (auto simp: clampBackoffDuration_def clampBackoffStreakThreshold_def Let_def c)
  next
    case False
    then have "(2 :: int) ^ 30 \<le> 2 ^ n" by (intro power_increasing) auto
    then show ?thesis
      using False by (simp add: clampBackoffDuration_def clampBackoffStreakThreshold_def Let_def c)
  qed
qed

definition round_ok :: "duration \<times> int \<Rightarrow> bool" where
  "round_ok st \<longleftrightarrow> second \<le> fst st \<and> 0 \<le> snd st"

lemma clamp_at_least: "0 \<le> streak \<Longrightarrow> second \<le> clampBackoffDuration streak"
proof (cases "streak \<le> 3")
  case False
  then have "streak = int (nat (streak - 4)) + 4" by simp
  then obtain n where "streak = int n + 4" by blast
  moreover have "(1 :: int) \<le> 2 ^ n" by simp
  ultimately show ?thesis using clamp_backoff(1)[of n] by simp
qed (simp add: clamp_backoff(2))

fun run_state :: "(time \<times> refresh_result) list \<Rightarrow> duration \<times> int \<Rightarrow> duration \<times> int" where
  "run_state [] st = st"
| "run_state ((t, r) # rs) st = run_state rs (snd (run_round t r st))"

lemma run_rounds_append: "run_rounds (xs @ ys) st = run_rounds xs st @ run_rounds ys (run_state xs st)"
  by (induction xs st rule: run_state.induct) (simp_all add: case_prod_unfold)

lemma run_state_append: "run_state (xs @ ys) st = run_state ys (run_state xs st)"
  by (induction xs st rule: run_state.induct) simp_all

lemma run_round_ok: "round_ok st \<Longrightarrow> round_ok (snd (run_round t r st)) \<and> second \<le> fst (run_round t r st)"
  by (cases st; cases r)
    (auto simp: run_round_def round_ok_def nextBackoff_def maxBackoff_def nextWake_def Let_def clamp_at_least
      split: option.splits)

lemma run_rounds_ok: "round_ok st \<Longrightarrow> d \<in> set (run_rounds rs st) \<Longrightarrow> second \<le> d"
proof (induction rs arbitrary: st)
  case (Cons x rs)
  obtain t r where "x = (t, r)" by force
  then show ?case using Cons.prems Cons.IH[of "snd (run_round t r st)"] run_round_ok[of st t r]
    by (auto simp: case_prod_unfold)
qed simp

text \<open>What a round is: failed, or successful with an expiry that forces the minimal sleep.\<close>

fun failed :: "time \<times> refresh_result \<Rightarrow> bool" where
  "failed (t, RefreshError e) = True"
| "failed (t, Refreshed changed e) = False"

fun clamped :: "time \<times> refresh_result \<Rightarrow> bool" where
  "clamped (t, RefreshError e) = False"
| "clamped (t, Refreshed changed e) = snd (nextWake t e)"

lemma error_rounds:
  assumes "list_all failed rs"
  shows "run_rounds rs (min (2 ^ k * second) maxBackoff, n) = map (\<lambda>j. min (2 ^ (k + j) * second) maxBackoff) [0..<length rs]"
  using assms
proof (induction rs arbitrary: k)
  case (Cons x rs)
  obtain t e where x: "x = (t, RefreshError e)" using Cons.prems by (cases x rule: failed.cases) auto
  have "run_round t (RefreshError e) (min (2 ^ k * second) maxBackoff, n) =
      (min (2 ^ k * second) maxBackoff, min (2 ^ Suc k * second) maxBackoff, n)"
    by (simp add: run_round_def nextBackoff_def maxBackoff_def)
  then show ?case
    using Cons.IH[of "Suc k"] Cons.prems by (simp add: x upt_conv_Cons map_Suc_upt[symmetric] del: upt_Suc power_Suc)
qed simp

definition clamp_sleep :: "nat \<Rightarrow> duration" where
  "clamp_sleep i = (if i < 3 then second else min (2 ^ (i - 3) * second) (30 * second))"

lemma clamp_rounds:
  assumes "list_all clamped rs"
  shows "run_rounds rs (b, int n) = map (\<lambda>i. clamp_sleep (n + i)) [0..<length rs]"
  using assms
proof (induction rs arbitrary: n b)
  case (Cons x rs)
  obtain t c e where x: "x = (t, Refreshed c e)" "snd (nextWake t e)"
    using Cons.prems by (cases x rule: clamped.cases) auto
  have w: "nextWake t e = (second, True)" using x(2) by (auto simp: nextWake_def Let_def split: option.splits if_splits)
  have "clampBackoffDuration (int n + 1) = clamp_sleep n" if "\<not> n < 3"
    using that clamp_backoff(1)[of "n - 3"] by (simp add: clamp_sleep_def of_nat_diff add.commute)
  then have "run_round t (Refreshed c e) (b, int n) = (clamp_sleep n, second, int (Suc n))"
    by (auto simp: run_round_def w clampBackoffStreakThreshold_def clamp_sleep_def)
  then show ?case
    using Cons.IH[of second "Suc n"] Cons.prems
    by (simp add: x(1) upt_conv_Cons map_Suc_upt[symmetric] del: upt_Suc of_nat_Suc)
qed simp

lemma run_start_ok: "round_ok run_start" by (simp add: round_ok_def run_start_def)

lemma state_after_success:
  "run_state (xs @ [(t, Refreshed c e)]) st = (second, if snd (nextWake t e) then snd (run_state xs st) + 1 else 0)"
  by (auto simp: run_state_append run_round_def case_prod_unfold)

text \<open>
  C38. The refresher's schedule. It never spins: every sleep is at least a second. After an unclamped success it
  wakes exactly ten minutes before the token expires (hourly for a token without expiry). The k-th of a
  series of failures sleeps \<open>min (2^k s) (5 min)\<close>, whatever came before the success that precedes the
  series. And tokens that expire inside the buffer, as under a clock skew, are minted with sleeps of
  1, 1, 1 s and then 1, 2, 4, ... up to 30 s: the 64-bit shift never overflows.
\<close>

theorem refresh_schedule:
  "(\<forall>d \<in> set (run_rounds rs run_start). second \<le> d) \<and>
   (\<not> clamped (t, Refreshed c e) \<longrightarrow>
      last (run_rounds (rs @ [(t, Refreshed c e)]) run_start) =
        (case e of None \<Rightarrow> 3600 * second | Some x \<Rightarrow> x - tokenExpiryBuffer - t)) \<and>
   (list_all failed fs \<longrightarrow>
      run_rounds (rs @ (t, Refreshed c e) # fs) run_start =
        run_rounds (rs @ [(t, Refreshed c e)]) run_start @
        map (\<lambda>k. min (2 ^ k * second) (5 * 60 * second)) [0..<length fs]) \<and>
   (list_all clamped cs \<and> \<not> clamped (t, Refreshed c e) \<longrightarrow>
      run_rounds (rs @ (t, Refreshed c e) # cs) run_start =
        run_rounds (rs @ [(t, Refreshed c e)]) run_start @
        map (\<lambda>i. if i < 3 then second else min (2 ^ (i - 3) * second) (30 * second)) [0..<length cs])"
proof -
  have step: "run_rounds (rs @ (t, Refreshed c e) # ys) run_start = run_rounds (rs @ [(t, Refreshed c e)]) run_start @
      run_rounds ys (run_state (rs @ [(t, Refreshed c e)]) run_start)" for ys
    using run_rounds_append[of "rs @ [(t, Refreshed c e)]" ys] by simp
  have one: "\<forall>d \<in> set (run_rounds rs run_start). second \<le> d" using run_rounds_ok[OF run_start_ok] by blast
  have two: "last (run_rounds (rs @ [(t, Refreshed c e)]) run_start) =
      (case e of None \<Rightarrow> 3600 * second | Some x \<Rightarrow> x - tokenExpiryBuffer - t)" if "\<not> clamped (t, Refreshed c e)"
    using that by (auto simp: run_rounds_append run_round_def case_prod_unfold nextWake_def Let_def split: option.splits if_splits)
  have three: "list_all failed fs \<Longrightarrow> run_rounds fs (second, n) = map (\<lambda>k. min (2 ^ k * second) (5 * 60 * second)) [0..<length fs]" for n
    using error_rounds[of fs 0 n] by (simp add: maxBackoff_def)
  have four: "list_all clamped cs \<Longrightarrow> run_rounds cs (second, 0) =
      map (\<lambda>i. if i < 3 then second else min (2 ^ (i - 3) * second) (30 * second)) [0..<length cs]"
    using clamp_rounds[of cs second 0] by (simp add: clamp_sleep_def cong: map_cong)
  show ?thesis
    unfolding step[of fs] step[of cs] state_after_success using one two three four by simp
qed

theorem refresh_schedule_witness:
  "run_rounds [(0, Refreshed True None), (0, RefreshError ErrMint), (0, RefreshError ErrMint)] run_start =
     [3600 * second, second, 2 * second] \<and>
   run_rounds [(0, Refreshed True None), (0, Refreshed True (Some 0)), (0, Refreshed True (Some 0))] run_start =
     [3600 * second, second, second]"
  using refresh_schedule[of "[]" 0 True None "[(0, RefreshError ErrMint), (0, RefreshError ErrMint)]"
      "[(0, Refreshed True (Some 0)), (0, Refreshed True (Some 0))]"]
  by (simp add: nextWake_def tokenExpiryBuffer_def run_round_def run_start_def Let_def)

end
