(* ===== verification/Go_Parse.thy ===== *)
theory Go_Parse
  imports Validate
begin

text \<open>
  The text parsers of the Go standard library that the configuration relies on: \<open>strconv.Atoi\<close> and
  \<open>ParseInt\<close> (the same function on a 64-bit machine), \<open>strconv.ParseBool\<close>, \<open>time.ParseDuration\<close> with its
  64-bit overflow checks, and \<open>strings.Index\<close>, \<open>Split\<close> and \<open>Cut\<close>. The one part that is not modelled is the
  floating-point product of a decimal fraction with its unit: it is the argument \<open>frac\<close> of
  \<open>ParseDuration\<close>.
\<close>

section \<open>Substrings\<close>

fun str_index :: "string \<Rightarrow> string \<Rightarrow> nat option" where
  "str_index pat [] = (if pat = [] then Some 0 else None)"
| "str_index pat (c # s) =
     (if take (length pat) (c # s) = pat then Some 0 else map_option Suc (str_index pat s))"

lemma str_index_sound:
  "str_index pat s = Some i \<Longrightarrow> take (length pat) (drop i s) = pat \<and> i + length pat \<le> length s"
  by (induction s arbitrary: i) (auto split: if_splits, metis length_take min.bounded_iff order_refl take_all_iff length_Cons)

fun split_on :: "char \<Rightarrow> string \<Rightarrow> string list" where
  "split_on sep [] = [[]]"
| "split_on sep (c # s) = (if c = sep then [] # split_on sep s
     else case split_on sep s of [] \<Rightarrow> [[c]] | w # ws \<Rightarrow> (c # w) # ws)"

definition cut :: "char \<Rightarrow> string \<Rightarrow> (string \<times> string) option" where
  "cut sep s = (if sep \<in> set s then Some (takeWhile (\<lambda>c. c \<noteq> sep) s, tl (dropWhile (\<lambda>c. c \<noteq> sep) s)) else None)"

lemma cut_append: "cut sep s = Some (k, v) \<Longrightarrow> s = k @ sep # v \<and> sep \<notin> set k"
proof -
  assume a: "cut sep s = Some (k, v)"
  have m: "sep \<in> set s" using a by (simp add: cut_def split: if_splits)
  then obtain p q where s: "s = p @ sep # q" "sep \<notin> set p" by (meson split_list_first)
  have "takeWhile (\<lambda>c. c \<noteq> sep) s = p" "dropWhile (\<lambda>c. c \<noteq> sep) s = sep # q"
    using takeWhile_append2[of p "\<lambda>c. c \<noteq> sep" "sep # q"] dropWhile_append2[of p "\<lambda>c. c \<noteq> sep" "sep # q"] s
    by fastforce+
  then show ?thesis using a m s by (simp add: cut_def)
qed

section \<open>Numbers\<close>

definition digit_val :: "char \<Rightarrow> nat" where
  "digit_val c = byte c - 48"

definition digits_val :: "string \<Rightarrow> nat" where
  "digits_val ds = foldl (\<lambda>n c. n * 10 + digit_val c) 0 ds"

definition ParseInt64 :: "string \<Rightarrow> int option" where
  "ParseInt64 s =
     (let neg = (s \<noteq> [] \<and> hd s = CHR ''-'');
          ds = (if s \<noteq> [] \<and> (hd s = CHR ''-'' \<or> hd s = CHR ''+'') then tl s else s);
          n = int (digits_val ds)
      in if ds = [] \<or> \<not> list_all is_digit ds then None
         else if neg then (if n > 2 ^ 63 then None else Some (- n))
         else if n \<ge> 2 ^ 63 then None else Some n)"

lemma ParseInt64_range: "ParseInt64 s = Some n \<Longrightarrow> - (2 ^ 63) \<le> n \<and> n < 2 ^ 63"
  by (auto simp: ParseInt64_def Let_def split: if_splits)

definition ParseBool :: "string \<Rightarrow> bool option" where
  "ParseBool s =
     (if s \<in> set [''1'', ''t'', ''T'', ''TRUE'', ''true'', ''True''] then Some True
      else if s \<in> set [''0'', ''f'', ''F'', ''FALSE'', ''false'', ''False''] then Some False
      else None)"

section \<open>Durations\<close>

fun leadingInt :: "nat \<Rightarrow> string \<Rightarrow> (nat \<times> string) option" where
  "leadingInt x [] = Some (x, [])"
| "leadingInt x (c # s) =
     (if \<not> is_digit c then Some (x, c # s)
      else if x > 2 ^ 63 div 10 then None
      else if x * 10 + digit_val c > 2 ^ 63 then None
      else leadingInt (x * 10 + digit_val c) s)"

lemma leadingInt_rest: "leadingInt x s = Some (v, r) \<Longrightarrow> r = dropWhile is_digit s"
  by (induction x s rule: leadingInt.induct) (auto split: if_splits)

lemma leadingInt_bound: "leadingInt x s = Some (v, r) \<Longrightarrow> x \<le> 2 ^ 63 \<Longrightarrow> v \<le> 2 ^ 63"
  by (induction x s rule: leadingInt.induct) (auto split: if_splits)

definition unit_of :: "string \<Rightarrow> nat option" where
  "unit_of u = map_of
     [(''ns'', 1), (''us'', 1000), ([CHR 0xC2, CHR 0xB5, CHR ''s''], 1000), ([CHR 0xCE, CHR 0xBC, CHR ''s''], 1000),
      (''ms'', 1000000), (''s'', 1000000000), (''m'', 60000000000), (''h'', 3600000000000)] u"

text \<open>One \<open>number unit\<close> pair: its value in nanoseconds, or \<open>None\<close> for every malformed or overflowing text.\<close>

definition duration_part :: "(string \<Rightarrow> nat \<Rightarrow> nat) \<Rightarrow> string \<Rightarrow> (nat \<times> string) option" where
  "duration_part frac s =
     (case leadingInt 0 s of
        None \<Rightarrow> None
      | Some (v, r) \<Rightarrow>
          let pre = (length r \<noteq> length s);
              dot = (r \<noteq> [] \<and> hd r = CHR ''.'');
              fs = (if dot then takeWhile is_digit (tl r) else []);
              r' = (if dot then dropWhile is_digit (tl r) else r);
              u = takeWhile (\<lambda>c. c \<noteq> CHR ''.'' \<and> \<not> is_digit c) r'
          in if \<not> pre \<and> fs = [] then None
             else if u = [] then None
             else case unit_of u of
               None \<Rightarrow> None
             | Some k \<Rightarrow>
                 if v > 2 ^ 63 div k then None
                 else let w = (if fs = [] then v * k else (v * k + frac fs k) mod 2 ^ 64)
                      in if w > 2 ^ 63 then None
                         else Some (w, dropWhile (\<lambda>c. c \<noteq> CHR ''.'' \<and> \<not> is_digit c) r'))"

lemma length_tl_dropWhile: "length (dropWhile P (tl r)) \<le> length r"
  using length_dropWhile_le[of P "tl r"] by simp

lemma takeWhile_shorter: "takeWhile P s \<noteq> [] \<Longrightarrow> length (dropWhile P s) < length s"
  by (cases s) (auto simp: le_imp_less_Suc length_dropWhile_le split: if_splits)

text \<open>Every part consumes input, so the loop over the parts ends.\<close>

lemma duration_part_shorter:
  assumes "duration_part frac s = Some (w, r)"
  shows "length r < length s"
proof -
  obtain v q where q: "leadingInt 0 s = Some (v, q)" using assms by (cases "leadingInt 0 s") (auto simp: duration_part_def)
  have l: "length q \<le> length s" using leadingInt_rest[OF q] length_dropWhile_le by simp
  let ?P = "\<lambda>c. c \<noteq> CHR ''.'' \<and> \<not> is_digit c"
  let ?q = "if q \<noteq> [] \<and> hd q = CHR ''.'' then dropWhile is_digit (tl q) else q"
  have "takeWhile ?P ?q \<noteq> []" "r = dropWhile ?P ?q"
    using assms by (auto simp: duration_part_def q Let_def split: option.splits if_splits)
  moreover have "length ?q \<le> length q" using length_tl_dropWhile[of is_digit q] by simp
  ultimately show ?thesis using takeWhile_shorter[of ?P ?q] l by simp
qed

function duration_sum :: "(string \<Rightarrow> nat \<Rightarrow> nat) \<Rightarrow> nat \<Rightarrow> string \<Rightarrow> nat option" where
  "duration_sum frac d s =
     (if s = [] then Some d
      else case duration_part frac s of
        None \<Rightarrow> None
      | Some (w, r) \<Rightarrow>
          if (d + w) mod 2 ^ 64 > 2 ^ 63 then None else duration_sum frac ((d + w) mod 2 ^ 64) r)"
  by pat_completeness auto
termination by (relation "measure (\<lambda>(f, d, s). length s)") (auto dest: duration_part_shorter)

declare duration_sum.simps [simp del]

definition ParseDuration :: "(string \<Rightarrow> nat \<Rightarrow> nat) \<Rightarrow> string \<Rightarrow> duration option" where
  "ParseDuration frac s =
     (let neg = (s \<noteq> [] \<and> hd s = CHR ''-'');
          r = (if s \<noteq> [] \<and> (hd s = CHR ''-'' \<or> hd s = CHR ''+'') then tl s else s)
      in if r = ''0'' then Some 0
         else if r = [] then None
         else case duration_sum frac 0 r of
           None \<Rightarrow> None
         | Some d \<Rightarrow> if neg then Some (- int d) else if d \<ge> 2 ^ 63 then None else Some (int d))"

lemma duration_sum_bound: "duration_sum frac d s = Some e \<Longrightarrow> d \<le> 2 ^ 63 \<Longrightarrow> e \<le> 2 ^ 63"
proof (induction frac d s rule: duration_sum.induct)
  case (1 frac d s)
  show ?case
  proof (cases "s = []")
    case True
    then have "e = d" using 1(2) duration_sum.simps[of frac d "[]"] by simp
    then show ?thesis using 1(3) by simp
  next
    case False
    then obtain w r where p: "duration_part frac s = Some (w, r)"
      using 1(2) by (cases "duration_part frac s") (auto simp: duration_sum.simps[of frac d s])
    have b: "\<not> (d + w) mod 2 ^ 64 > 2 ^ 63" "duration_sum frac ((d + w) mod 2 ^ 64) r = Some e"
      using 1(2) False p by (auto simp: duration_sum.simps[of frac d s] split: if_splits)
    then show ?thesis using 1(1)[OF False p refl b(1,2)] by simp
  qed
qed

lemma ParseDuration_range: "ParseDuration frac s = Some d \<Longrightarrow> - (2 ^ 63) \<le> d \<and> d < 2 ^ 63"
proof -
  assume a: "ParseDuration frac s = Some d"
  have "e \<le> 2 ^ 63" if "duration_sum frac 0 r = Some e" for r e using duration_sum_bound[OF that] by simp
  then have "int e \<le> 2 ^ 63" if "duration_sum frac 0 r = Some e" for r e
    using that by (metis of_nat_le_iff of_nat_numeral of_nat_power)
  then show ?thesis using a by (fastforce simp: ParseDuration_def Let_def split: if_splits option.splits)
qed

lemma duration_examples:
  "ParseDuration frac ''0s'' = Some 0" "ParseDuration frac ''2h'' = Some (2 * 3600 * second)"
  "ParseDuration frac ''-1m30s'' = Some (- 90 * second)" "ParseDuration frac ''10'' = None"
  by (simp_all add: ParseDuration_def duration_sum.simps duration_part_def unit_of_def is_digit_def between_def digit_val_def)

end
