(* ===== verification/Config.thy ===== *)
theory Config
  imports Go_Parse Log_Parser Docker
begin

text \<open>
  The configuration, \<open>internal/config/config.go\<close>: loading, environment overrides, defaults, the dev
  profile, and validation. Reading and decoding the YAML file, \<open>url.Parse\<close>, \<open>json.Valid\<close>, \<open>os.Stat\<close> and the
  floating-point part of \<open>time.ParseDuration\<close> belong to the environment. An error is the text of the code
  up to the values that it interpolates, which are left out.
\<close>

section \<open>Data\<close>

record github_config =
  gh_auth_mode :: string
  gh_host :: string
  gh_api_base_url :: string
  gh_app_id :: int
  gh_installation_id :: int
  gh_private_key_path :: string
  gh_pat_token :: string

record config =
  c_port :: int
  c_admin_port :: int
  c_contextmatrix_url :: string
  c_container_contextmatrix_url :: string
  c_api_key :: string
  c_base_image :: string
  c_allowed_images :: "string list"
  c_image_pull_policy :: string
  c_max_concurrent :: int
  c_container_timeout :: string
  c_container_memory_limit :: int
  c_container_pids_limit :: int
  c_claude_auth_dir :: string
  c_claude_oauth_token :: string
  c_anthropic_api_key :: string
  c_ca_cert_file :: string
  c_claude_settings :: string
  c_github :: github_config
  c_log_level :: string
  c_log_format :: string
  c_secrets_dir :: string
  c_task_skills_dir :: string
  c_webhook_replay_cache_size :: int
  c_webhook_replay_skew_seconds :: int
  c_message_dedup_cache_size :: int
  c_message_dedup_ttl_seconds :: int
  c_idle_output_timeout :: duration
  c_idle_watchdog_interval :: duration
  c_chat_container_timeout :: duration
  c_worker_extra_env :: "(string \<times> string) list"
  c_maintenance_interval :: duration
  c_use_hmac_for_verify_autonomous :: bool
  c_deployment_profile :: string
  c_unpinned_image_refs :: "(string \<times> string) list"
  c_applied_dev_defaults :: "string list"
  c_container_timeout_duration :: duration

text \<open>
  \<open>yaml_decode c\<close> decodes the document over the initial value \<open>c\<close> (\<open>None\<close>: a parse error), \<open>yaml_has\<close> tells
  whether a key is present at the top level.
\<close>

record config_env =
  file_readable :: bool
  yaml_decode :: "config \<Rightarrow> config option"
  yaml_raw_ok :: bool
  yaml_has :: "string \<Rightarrow> bool"
  os_env :: "string \<Rightarrow> string option"
  path_exists :: "string \<Rightarrow> bool"
  service_url :: "string \<Rightarrow> url option"
  json_valid :: "string \<Rightarrow> bool"
  float_part :: "string \<Rightarrow> nat \<Rightarrow> nat"

definition MinAPIKeyLength :: nat where "MinAPIKeyLength = 32"

definition PullAlways :: string where "PullAlways = ''always''"
definition PullNever :: string where "PullNever = ''never''"
definition PullIfNotPresent :: string where "PullIfNotPresent = ''if-not-present''"

definition ProfileProduction :: string where "ProfileProduction = ''production''"
definition ProfileDev :: string where "ProfileDev = ''dev''"

definition config_IsDev :: "config \<Rightarrow> bool" where
  "config_IsDev c \<longleftrightarrow> c_deployment_profile c = ProfileDev"

section \<open>Defaults\<close>

definition defaultSecretsDir :: string where "defaultSecretsDir = ''/var/run/cm-runner/secrets''"
definition defaultIdleOutputTimeout :: duration where "defaultIdleOutputTimeout = 30 * 60 * second"
definition defaultIdleWatchdogInterval :: duration where "defaultIdleWatchdogInterval = 30 * second"
definition defaultMaintenanceInterval :: duration where "defaultMaintenanceInterval = 10 * 60 * second"
definition defaultWebhookReplaySkew :: int where "defaultWebhookReplaySkew = 330"

definition or_int :: "int \<Rightarrow> int \<Rightarrow> int" where "or_int d v = (if v = 0 then d else v)"
definition or_str :: "string \<Rightarrow> string \<Rightarrow> string" where "or_str d v = (if v = [] then d else v)"

text \<open>The host without a scheme, as \<open>ApplyDefaults\<close> takes it from \<open>github.host\<close>.\<close>

definition bare_host :: "string \<Rightarrow> string" where
  "bare_host host = (case str_index ''://'' host of None \<Rightarrow> host | Some i \<Rightarrow> drop (i + 3) host)"

definition derive_api_base_url :: "github_config \<Rightarrow> github_config" where
  "derive_api_base_url g =
     (if gh_host g \<noteq> [] \<and> gh_api_base_url g = []
      then g\<lparr>gh_api_base_url := ''https://'' @ bare_host (gh_host g) @ ''/api/v3''\<rparr> else g)"

definition ApplyDefaults :: "config \<Rightarrow> config" where
  "ApplyDefaults c = c\<lparr>
     c_port := or_int 9090 (c_port c),
     c_max_concurrent := or_int 3 (c_max_concurrent c),
     c_container_timeout := or_str ''2h'' (c_container_timeout c),
     c_container_memory_limit := or_int (8 * 1024 * 1024 * 1024) (c_container_memory_limit c),
     c_container_pids_limit := or_int 512 (c_container_pids_limit c),
     c_log_level := or_str ''info'' (c_log_level c),
     c_log_format := or_str ''text'' (c_log_format c),
     c_webhook_replay_cache_size := or_int 10000 (c_webhook_replay_cache_size c),
     c_webhook_replay_skew_seconds := or_int defaultWebhookReplaySkew (c_webhook_replay_skew_seconds c),
     c_message_dedup_cache_size := or_int 1000 (c_message_dedup_cache_size c),
     c_message_dedup_ttl_seconds := or_int 600 (c_message_dedup_ttl_seconds c),
     c_secrets_dir := or_str defaultSecretsDir (c_secrets_dir c),
     c_idle_output_timeout := or_int defaultIdleOutputTimeout (c_idle_output_timeout c),
     c_idle_watchdog_interval := or_int defaultIdleWatchdogInterval (c_idle_watchdog_interval c),
     c_maintenance_interval := or_int defaultMaintenanceInterval (c_maintenance_interval c),
     c_deployment_profile := or_str ProfileProduction (c_deployment_profile c),
     c_github := derive_api_base_url (c_github c)\<rparr>"

section \<open>Environment overrides\<close>

definition getenv :: "config_env \<Rightarrow> string \<Rightarrow> string" where
  "getenv E n = (case os_env E n of None \<Rightarrow> [] | Some v \<Rightarrow> v)"

text \<open>An override maps the errors collected so far and the configuration.\<close>

type_synonym override = "string list \<times> config \<Rightarrow> string list \<times> config"

definition set_string :: "config_env \<Rightarrow> string \<Rightarrow> (string \<Rightarrow> config \<Rightarrow> config) \<Rightarrow> override" where
  "set_string E n put st = (case getenv E n of [] \<Rightarrow> st | v \<Rightarrow> apsnd (put (getenv E n)) st)"

definition set_parsed ::
  "config_env \<Rightarrow> (string \<Rightarrow> 'a option) \<Rightarrow> string \<Rightarrow> string \<Rightarrow> ('a \<Rightarrow> config \<Rightarrow> config) \<Rightarrow> override" where
  "set_parsed E parse what n put st =
     (if getenv E n = [] then st
      else case parse (getenv E n) of
        None \<Rightarrow> apfst (\<lambda>errs. errs @ [n @ '': parse '' @ what]) st
      | Some x \<Rightarrow> apsnd (put x) st)"

text \<open>\<open>CMR_WORKER_EXTRA_ENV\<close>: comma-separated \<open>KEY=VALUE\<close> pairs over the map of the file.\<close>

definition extra_env_entry :: "string \<Rightarrow> override" where
  "extra_env_entry raw st =
     (let kv = TrimSpace raw in
      if kv = [] then st
      else case cut (CHR ''='') kv of
        Some (k, v) \<Rightarrow>
          if k = [] then apfst (\<lambda>errs. errs @ [''CMR_WORKER_EXTRA_ENV: entry is not KEY=VALUE'']) st
          else apsnd (c_worker_extra_env_update (AList.update k v)) st
      | None \<Rightarrow> apfst (\<lambda>errs. errs @ [''CMR_WORKER_EXTRA_ENV: entry is not KEY=VALUE'']) st)"

definition set_extra_env :: "config_env \<Rightarrow> override" where
  "set_extra_env E st =
     (if getenv E ''CMR_WORKER_EXTRA_ENV'' = [] then st
      else fold extra_env_entry (split_on (CHR '','') (getenv E ''CMR_WORKER_EXTRA_ENV'')) st)"

definition put_github :: "(github_config \<Rightarrow> github_config) \<Rightarrow> config \<Rightarrow> config" where
  "put_github f c = c\<lparr>c_github := f (c_github c)\<rparr>"

definition env_overrides :: "config_env \<Rightarrow> override list" where
  "env_overrides E =
     (let str = set_string E;
          int = set_parsed E ParseInt64 ''int'';
          int64 = set_parsed E ParseInt64 ''int64'';
          dur = set_parsed E (ParseDuration (float_part E)) ''duration'';
          bool = set_parsed E ParseBool ''bool''
      in [int ''CMR_PORT'' (\<lambda>v c. c\<lparr>c_port := v\<rparr>),
          int ''CMR_ADMIN_PORT'' (\<lambda>v c. c\<lparr>c_admin_port := v\<rparr>),
          str ''CMR_CONTEXTMATRIX_URL'' (\<lambda>v c. c\<lparr>c_contextmatrix_url := v\<rparr>),
          str ''CMR_CONTAINER_CONTEXTMATRIX_URL'' (\<lambda>v c. c\<lparr>c_container_contextmatrix_url := v\<rparr>),
          str ''CMR_API_KEY'' (\<lambda>v c. c\<lparr>c_api_key := v\<rparr>),
          str ''CMR_BASE_IMAGE'' (\<lambda>v c. c\<lparr>c_base_image := v\<rparr>),
          str ''CMR_IMAGE_PULL_POLICY'' (\<lambda>v c. c\<lparr>c_image_pull_policy := v\<rparr>),
          int ''CMR_MAX_CONCURRENT'' (\<lambda>v c. c\<lparr>c_max_concurrent := v\<rparr>),
          str ''CMR_CONTAINER_TIMEOUT'' (\<lambda>v c. c\<lparr>c_container_timeout := v\<rparr>),
          int64 ''CMR_CONTAINER_MEMORY_LIMIT'' (\<lambda>v c. c\<lparr>c_container_memory_limit := v\<rparr>),
          int64 ''CMR_CONTAINER_PIDS_LIMIT'' (\<lambda>v c. c\<lparr>c_container_pids_limit := v\<rparr>),
          str ''CMR_CLAUDE_AUTH_DIR'' (\<lambda>v c. c\<lparr>c_claude_auth_dir := v\<rparr>),
          str ''CMR_CLAUDE_OAUTH_TOKEN'' (\<lambda>v c. c\<lparr>c_claude_oauth_token := v\<rparr>),
          str ''CMR_ANTHROPIC_API_KEY'' (\<lambda>v c. c\<lparr>c_anthropic_api_key := v\<rparr>),
          str ''CMR_CA_CERT_FILE'' (\<lambda>v c. c\<lparr>c_ca_cert_file := v\<rparr>),
          str ''CMR_CLAUDE_SETTINGS'' (\<lambda>v c. c\<lparr>c_claude_settings := v\<rparr>),
          str ''CMR_GITHUB_AUTH_MODE'' (\<lambda>v. put_github (\<lambda>g. g\<lparr>gh_auth_mode := v\<rparr>)),
          str ''CMR_GITHUB_HOST'' (\<lambda>v. put_github (\<lambda>g. g\<lparr>gh_host := v\<rparr>)),
          str ''CMR_GITHUB_API_BASE_URL'' (\<lambda>v. put_github (\<lambda>g. g\<lparr>gh_api_base_url := v\<rparr>)),
          int64 ''CMR_GITHUB_APP_ID'' (\<lambda>v. put_github (\<lambda>g. g\<lparr>gh_app_id := v\<rparr>)),
          int64 ''CMR_GITHUB_INSTALLATION_ID'' (\<lambda>v. put_github (\<lambda>g. g\<lparr>gh_installation_id := v\<rparr>)),
          str ''CMR_GITHUB_PRIVATE_KEY_PATH'' (\<lambda>v. put_github (\<lambda>g. g\<lparr>gh_private_key_path := v\<rparr>)),
          str ''CMR_GITHUB_PAT_TOKEN'' (\<lambda>v. put_github (\<lambda>g. g\<lparr>gh_pat_token := v\<rparr>)),
          str ''CMR_LOG_LEVEL'' (\<lambda>v c. c\<lparr>c_log_level := v\<rparr>),
          str ''CMR_LOG_FORMAT'' (\<lambda>v c. c\<lparr>c_log_format := v\<rparr>),
          str ''CMR_SECRETS_DIR'' (\<lambda>v c. c\<lparr>c_secrets_dir := v\<rparr>),
          str ''CMR_TASK_SKILLS_DIR'' (\<lambda>v c. c\<lparr>c_task_skills_dir := v\<rparr>),
          int ''CMR_WEBHOOK_REPLAY_CACHE_SIZE'' (\<lambda>v c. c\<lparr>c_webhook_replay_cache_size := v\<rparr>),
          int ''CMR_WEBHOOK_REPLAY_SKEW_SECONDS'' (\<lambda>v c. c\<lparr>c_webhook_replay_skew_seconds := v\<rparr>),
          int ''CMR_MESSAGE_DEDUP_CACHE_SIZE'' (\<lambda>v c. c\<lparr>c_message_dedup_cache_size := v\<rparr>),
          int ''CMR_MESSAGE_DEDUP_TTL_SECONDS'' (\<lambda>v c. c\<lparr>c_message_dedup_ttl_seconds := v\<rparr>),
          dur ''CMR_IDLE_OUTPUT_TIMEOUT'' (\<lambda>v c. c\<lparr>c_idle_output_timeout := v\<rparr>),
          dur ''CMR_IDLE_WATCHDOG_INTERVAL'' (\<lambda>v c. c\<lparr>c_idle_watchdog_interval := v\<rparr>),
          dur ''CMR_MAINTENANCE_INTERVAL'' (\<lambda>v c. c\<lparr>c_maintenance_interval := v\<rparr>),
          dur ''CMR_CHAT_CONTAINER_TIMEOUT'' (\<lambda>v c. c\<lparr>c_chat_container_timeout := v\<rparr>),
          bool ''CMR_USE_HMAC_FOR_VERIFY_AUTONOMOUS'' (\<lambda>v c. c\<lparr>c_use_hmac_for_verify_autonomous := v\<rparr>),
          str ''CMR_DEPLOYMENT_PROFILE'' (\<lambda>v c. c\<lparr>c_deployment_profile := v\<rparr>),
          set_extra_env E])"

definition applyEnvOverrides :: "config_env \<Rightarrow> config \<Rightarrow> string list + config" where
  "applyEnvOverrides E c =
     (case fold (\<lambda>f. f) (env_overrides E) ([], c) of
        ([], c') \<Rightarrow> Inr c'
      | (errs, c') \<Rightarrow> Inl errs)"

section \<open>Validation\<close>

text \<open>The checks run in the order of the code; the first one that fails is the error.\<close>

fun first_error :: "string option list \<Rightarrow> string option" where
  "first_error [] = None"
| "first_error (Some e # es) = Some e"
| "first_error (None # es) = first_error es"

lemma first_error_None: "first_error es = None \<longleftrightarrow> list_all (\<lambda>e. e = None) es"
  by (induction es rule: first_error.induct) auto

definition fail_when :: "bool \<Rightarrow> string \<Rightarrow> string option" where
  "fail_when b e = (if b then Some e else None)"

lemma fail_when_None [simp]: "fail_when b e = None \<longleftrightarrow> \<not> b"
  by (simp add: fail_when_def)

definition validateServiceURL :: "config_env \<Rightarrow> string \<Rightarrow> string \<Rightarrow> string option" where
  "validateServiceURL E field raw =
     (case service_url E raw of
        None \<Rightarrow> Some (field @ '': invalid URL'')
      | Some u \<Rightarrow> first_error
          [fail_when (map lower_char (u_scheme u) \<notin> {''http'', ''https''}) (field @ '': scheme must be http or https''),
           fail_when (Hostname u = []) (field @ '': host is required''),
           fail_when (u_user u \<noteq> None) (field @ '': must not embed userinfo credentials'')])"

definition url_errors :: "config_env \<Rightarrow> config \<Rightarrow> string option list" where
  "url_errors E c =
     (let g = c_github c in
      [fail_when (c_contextmatrix_url c = []) ''contextmatrix_url is required'',
       validateServiceURL E ''contextmatrix_url'' (c_contextmatrix_url c),
       validateServiceURL E ''container_contextmatrix_url'' (c_container_contextmatrix_url c),
       (if gh_api_base_url g = [] then None else validateServiceURL E ''github.api_base_url'' (gh_api_base_url g)),
       (if gh_host g = [] then None
        else validateServiceURL E ''github.host''
          (if str_index ''://'' (gh_host g) \<noteq> None then gh_host g else ''https://'' @ gh_host g))])"

definition api_key_errors :: "config \<Rightarrow> string option list" where
  "api_key_errors c =
     [fail_when (c_api_key c = []) ''api_key is required'',
      fail_when (length (c_api_key c) < MinAPIKeyLength) ''api_key must be at least 32 characters'',
      fail_when (\<not> list_all (between 0x21 0x7E) (c_api_key c)) ''api_key contains invalid character'']"

definition hex_digit_char :: "char \<Rightarrow> bool" where
  "hex_digit_char r \<longleftrightarrow> is_digit r \<or> between 97 102 r"

definition requireDigestPin :: "string \<Rightarrow> string \<Rightarrow> string option" where
  "requireDigestPin field img =
     (if img = [] then Some (field @ '' must be @sha256:... pinned'')
      else case str_index ''@sha256:'' img of
        None \<Rightarrow> Some (field @ '' must be @sha256:... pinned'')
      | Some at \<Rightarrow>
          if at = 0 then Some (field @ '' must be @sha256:... pinned'')
          else let digest = drop (at + 8) img
            in if length digest \<noteq> 64 then Some (field @ '' has invalid sha256 digest length'')
               else if \<not> list_all hex_digit_char digest then Some (field @ '' has non-hex characters in sha256 digest'')
               else None)"

definition image_refs :: "config \<Rightarrow> (string \<times> string) list" where
  "image_refs c = (''base_image'', c_base_image c) #
     map (\<lambda>(i, img). (''allowed_images['' @ dec i @ '']'', img)) (enumerate 0 (c_allowed_images c))"

definition image_errors :: "config \<Rightarrow> string option list" where
  "image_errors c =
     fail_when (c_base_image c = []) ''base_image is required'' #
     (if config_IsDev c then [] else map (\<lambda>(field, img). requireDigestPin field img) (image_refs c)) @
     [fail_when (c_image_pull_policy c \<notin> {PullAlways, PullNever, PullIfNotPresent})
        ''image_pull_policy must be one of: always, never, if-not-present'']"

definition unpinned_refs :: "config \<Rightarrow> (string \<times> string) list" where
  "unpinned_refs c = (if config_IsDev c
     then filter (\<lambda>(field, img). requireDigestPin field img \<noteq> None) (image_refs c) else [])"

definition maxMaxConcurrent :: int where "maxMaxConcurrent = 256"
definition maxCacheSize :: int where "maxCacheSize = 1000000"
definition maxWindowSec :: int where "maxWindowSec = 7 * 24 * 60 * 60"
definition maxContainerMemoryLimit :: int where "maxContainerMemoryLimit = 64 * 1024 * 1024 * 1024"
definition maxContainerPidsLimit :: int where "maxContainerPidsLimit = 65536"
definition maxIdleOutputTimeout :: duration where "maxIdleOutputTimeout = 24 * 3600 * second"
definition maxIdleWatchdogInterval :: duration where "maxIdleWatchdogInterval = 3600 * second"
definition maxMaintenanceInterval :: duration where "maxMaintenanceInterval = 24 * 3600 * second"

definition range_errors :: "config \<Rightarrow> string option list" where
  "range_errors c =
     [fail_when (c_max_concurrent c < 1) ''max_concurrent must be at least 1'',
      fail_when (c_max_concurrent c > maxMaxConcurrent) ''max_concurrent must not exceed 256'',
      fail_when (c_webhook_replay_cache_size c < 0) ''webhook_replay_cache_size must not be negative'',
      fail_when (c_webhook_replay_cache_size c > maxCacheSize) ''webhook_replay_cache_size must not exceed 1000000'',
      fail_when (c_webhook_replay_skew_seconds c < 0) ''webhook_replay_skew_seconds must not be negative'',
      fail_when (c_webhook_replay_skew_seconds c > maxWindowSec) ''webhook_replay_skew_seconds must not exceed 604800'',
      fail_when (c_message_dedup_cache_size c < 0) ''message_dedup_cache_size must not be negative'',
      fail_when (c_message_dedup_cache_size c > maxCacheSize) ''message_dedup_cache_size must not exceed 1000000'',
      fail_when (c_message_dedup_ttl_seconds c < 0) ''message_dedup_ttl_seconds must not be negative'',
      fail_when (c_message_dedup_ttl_seconds c > maxWindowSec) ''message_dedup_ttl_seconds must not exceed 604800'',
      fail_when (c_container_memory_limit c < 0) ''container_memory_limit must not be negative'',
      fail_when (c_container_memory_limit c > maxContainerMemoryLimit) ''container_memory_limit must not exceed 64 GiB'',
      fail_when (c_container_pids_limit c < 0) ''container_pids_limit must not be negative'',
      fail_when (c_container_pids_limit c > maxContainerPidsLimit) ''container_pids_limit must not exceed 65536'',
      fail_when (c_port c < 0 \<or> c_port c > 65535) ''port must be between 1 and 65535'',
      fail_when (c_admin_port c \<noteq> 0 \<and> (c_admin_port c < 1 \<or> c_admin_port c > 65535))
        ''admin_port must be 0 (disabled) or between 1 and 65535'',
      fail_when (c_admin_port c \<noteq> 0 \<and> c_admin_port c = c_port c) ''admin_port must differ from port'']"

text \<open>
  \<open>strings.ToLower\<close> as far as a comparison with ASCII words can tell: the ASCII letters and the two other runes
  whose lower case is an ASCII letter, U+0130 and U+212A. The bytes of every other rune are kept.
\<close>

fun go_lower :: "string \<Rightarrow> string" where
  "go_lower [] = []"
| "go_lower (c # s) =
     (if c = CHR 0xC4 \<and> take 1 s = [CHR 0xB0] then CHR ''i'' # go_lower (drop 1 s)
      else if c = CHR 0xE2 \<and> take 2 s = [CHR 0x84, CHR 0xAA] then CHR ''k'' # go_lower (drop 2 s)
      else lower_char c # go_lower s)"

definition format_errors :: "config \<Rightarrow> string option list" where
  "format_errors c =
     [fail_when (go_lower (c_log_format c) \<notin> set [[], ''text'', ''json'']) ''log_format must be one of: text, json'',
      fail_when (go_lower (c_log_level c) \<notin> set [[], ''debug'', ''info'', ''warn'', ''error''])
        ''log_level must be one of: debug, info, warn, error'',
      fail_when (c_deployment_profile c \<notin> set [[], ProfileProduction, ProfileDev])
        ''deployment_profile must be one of: production, dev'']"

definition duration_errors :: "config_env \<Rightarrow> config \<Rightarrow> string option list" where
  "duration_errors E c =
     [fail_when (ParseDuration (float_part E) (c_container_timeout c) = None) ''container_timeout is invalid'',
      fail_when (c_idle_output_timeout c < 0) ''idle_output_timeout must be zero or positive'',
      fail_when (c_idle_output_timeout c > maxIdleOutputTimeout) ''idle_output_timeout must not exceed 24h0m0s'',
      fail_when (c_idle_watchdog_interval c < 0) ''idle_watchdog_interval must not be negative'',
      fail_when (c_idle_watchdog_interval c > maxIdleWatchdogInterval) ''idle_watchdog_interval must not exceed 1h0m0s'',
      fail_when (c_chat_container_timeout c < 0) ''chat_container_timeout must not be negative'']"

definition validEnvKey :: "string \<Rightarrow> bool" where
  "validEnvKey s \<longleftrightarrow> s \<noteq> [] \<and> \<not> is_digit (hd s) \<and> list_all (\<lambda>r. r = CHR ''_'' \<or> is_alnum r) s"

definition unsafe_env_keys :: "string list" where
  "unsafe_env_keys = [''GIT_SSL_NO_VERIFY'', ''GIT_TERMINAL_PROMPT'', ''LD_PRELOAD'', ''LD_LIBRARY_PATH'',
     ''HTTP_PROXY'', ''HTTPS_PROXY'', ''NO_PROXY'', ''NODE_OPTIONS'', ''NODE_EXTRA_CA_CERTS'', ''PATH'',
     ''GOPROXY'', ''GOSUMDB'', ''GOFLAGS'', ''PYTHONPATH'']"

definition extra_env_error :: "string \<Rightarrow> string option" where
  "extra_env_error k =
     (if \<not> validEnvKey k then Some ''worker_extra_env key is not a valid env var name''
      else if k \<in> set secretenv_Keys then
        (if k = ''CM_MCP_API_KEY'' then Some ''worker_extra_env key collides with a per-container env var; remove it''
         else Some ''worker_extra_env key collides with a secrets-file var; remove it'')
      else fail_when (k \<in> set unsafe_env_keys)
        ''worker_extra_env key is unsafe (would let YAML override worker behaviour); remove it'')"

definition validatePrintableASCIISecret :: "string \<Rightarrow> string \<Rightarrow> string option" where
  "validatePrintableASCIISecret field v =
     fail_when (\<not> list_all (between 0x20 0x7E) v) (field @ '' contains invalid byte'')"

definition credential_errors :: "config_env \<Rightarrow> config \<Rightarrow> string option list" where
  "credential_errors E c =
     [fail_when (c_maintenance_interval c < 0) ''maintenance_interval must not be negative'',
      fail_when (c_maintenance_interval c > maxMaintenanceInterval) ''maintenance_interval must not exceed 24h0m0s'',
      fail_when (c_claude_auth_dir c = [] \<and> c_claude_oauth_token c = [] \<and> c_anthropic_api_key c = [])
        ''at least one of claude_auth_dir, claude_oauth_token, or anthropic_api_key is required'',
      fail_when (c_claude_auth_dir c \<noteq> [] \<and> \<not> path_exists E (c_claude_auth_dir c)) ''claude_auth_dir does not exist'',
      fail_when (c_ca_cert_file c \<noteq> [] \<and> \<not> path_exists E (c_ca_cert_file c)) ''ca_cert_file does not exist'',
      (if c_claude_oauth_token c = [] then None
       else validatePrintableASCIISecret ''claude_oauth_token'' (c_claude_oauth_token c)),
      (if c_anthropic_api_key c = [] then None
       else validatePrintableASCIISecret ''anthropic_api_key'' (c_anthropic_api_key c)),
      fail_when (c_claude_settings c \<noteq> [] \<and> \<not> json_valid E (c_claude_settings c)) ''claude_settings is not valid JSON'']"

definition github_errors :: "config_env \<Rightarrow> github_config \<Rightarrow> string option list" where
  "github_errors E g =
     (if gh_auth_mode g = ''app'' then
        [fail_when (gh_app_id g = 0) ''github.app.app_id is required when github.auth_mode is app'',
         fail_when (gh_installation_id g = 0) ''github.app.installation_id is required when github.auth_mode is app'',
         fail_when (gh_private_key_path g = []) ''github.app.private_key_path is required when github.auth_mode is app'',
         fail_when (\<not> path_exists E (gh_private_key_path g)) ''github.app.private_key_path does not exist'',
         fail_when (gh_pat_token g \<noteq> []) ''github.pat.token must be empty when github.auth_mode is app'']
      else if gh_auth_mode g = ''pat'' then
        [fail_when (gh_pat_token g = []) ''github.pat.token is required when github.auth_mode is pat'',
         fail_when (gh_app_id g \<noteq> 0 \<or> gh_installation_id g \<noteq> 0 \<or> gh_private_key_path g \<noteq> [])
           ''github.app.* must be empty when github.auth_mode is pat'']
      else [Some ''github.auth_mode is required: must be app or pat''])"

definition config_errors :: "config_env \<Rightarrow> config \<Rightarrow> string option list" where
  "config_errors E c =
     url_errors E c @ api_key_errors c @ image_errors c @ range_errors c @ format_errors c @ duration_errors E c @
     map extra_env_error (map fst (c_worker_extra_env c)) @ credential_errors E c @ github_errors E (c_github c)"

definition config_Validate :: "config_env \<Rightarrow> config \<Rightarrow> string + config" where
  "config_Validate E c =
     (let c1 = c\<lparr>c_container_contextmatrix_url := or_str (c_contextmatrix_url c) (c_container_contextmatrix_url c)\<rparr>
      in case first_error (config_errors E c1) of
        Some e \<Rightarrow> Inl e
      | None \<Rightarrow> Inr (c1\<lparr>
          c_unpinned_image_refs := unpinned_refs c1,
          c_log_format := go_lower (c_log_format c1),
          c_container_timeout_duration :=
            (case ParseDuration (float_part E) (c_container_timeout c1) of Some d \<Rightarrow> d | None \<Rightarrow> 0)\<rparr>))"

section \<open>Loading\<close>

definition explicit_key :: "config_env \<Rightarrow> string \<Rightarrow> string \<Rightarrow> bool" where
  "explicit_key E key var \<longleftrightarrow> yaml_has E key \<or> os_env E var \<noteq> None"

definition restore_zero :: "bool \<Rightarrow> duration \<Rightarrow> duration \<Rightarrow> duration" where
  "restore_zero explicit before v = (if explicit \<and> before = 0 then 0 else v)"

text \<open>From the overridden configuration to the one that is validated.\<close>

definition load_defaults :: "config_env \<Rightarrow> config \<Rightarrow> config" where
  "load_defaults E c =
     (let explicit_pull = (c_image_pull_policy c \<noteq> []);
          explicit_skew = (c_webhook_replay_skew_seconds c \<noteq> 0);
          d = ApplyDefaults (c\<lparr>c_image_pull_policy := or_str PullNever (c_image_pull_policy c)\<rparr>);
          r = d\<lparr>
            c_idle_output_timeout := restore_zero (explicit_key E ''idle_output_timeout'' ''CMR_IDLE_OUTPUT_TIMEOUT'')
              (c_idle_output_timeout c) (c_idle_output_timeout d),
            c_idle_watchdog_interval := restore_zero (explicit_key E ''idle_watchdog_interval'' ''CMR_IDLE_WATCHDOG_INTERVAL'')
              (c_idle_watchdog_interval c) (c_idle_watchdog_interval d),
            c_maintenance_interval := restore_zero (explicit_key E ''maintenance_interval'' ''CMR_MAINTENANCE_INTERVAL'')
              (c_maintenance_interval c) (c_maintenance_interval d)\<rparr>
      in if c_deployment_profile r \<noteq> ProfileDev then r
         else let s = (if explicit_skew then r
                       else r\<lparr>c_webhook_replay_skew_seconds := 86400,
                              c_applied_dev_defaults := c_applied_dev_defaults r @ [''webhook_replay_skew_seconds=86400'']\<rparr>)
              in if explicit_pull then s
                 else s\<lparr>c_image_pull_policy := PullIfNotPresent,
                        c_applied_dev_defaults := c_applied_dev_defaults s @ [''image_pull_policy=if-not-present'']\<rparr>)"

definition empty_github :: github_config where
  "empty_github = \<lparr>gh_auth_mode = [], gh_host = [], gh_api_base_url = [], gh_app_id = 0, gh_installation_id = 0,
     gh_private_key_path = [], gh_pat_token = []\<rparr>"

definition initial_config :: config where
  "initial_config = \<lparr>c_port = 0, c_admin_port = 0, c_contextmatrix_url = [], c_container_contextmatrix_url = [],
     c_api_key = [], c_base_image = [], c_allowed_images = [], c_image_pull_policy = [], c_max_concurrent = 0,
     c_container_timeout = [], c_container_memory_limit = 0, c_container_pids_limit = 0, c_claude_auth_dir = [],
     c_claude_oauth_token = [], c_anthropic_api_key = [], c_ca_cert_file = [], c_claude_settings = [],
     c_github = empty_github, c_log_level = [], c_log_format = [], c_secrets_dir = [], c_task_skills_dir = [],
     c_webhook_replay_cache_size = 0, c_webhook_replay_skew_seconds = 0, c_message_dedup_cache_size = 0,
     c_message_dedup_ttl_seconds = 0, c_idle_output_timeout = 0, c_idle_watchdog_interval = 0,
     c_chat_container_timeout = 0, c_worker_extra_env = [], c_maintenance_interval = 0,
     c_use_hmac_for_verify_autonomous = True, c_deployment_profile = [], c_unpinned_image_refs = [],
     c_applied_dev_defaults = [], c_container_timeout_duration = 0\<rparr>"

definition config_Load :: "config_env \<Rightarrow> string + config" where
  "config_Load E =
     (if \<not> file_readable E then Inl ''read config''
      else case yaml_decode E initial_config of
        None \<Rightarrow> Inl ''parse config''
      | Some c0 \<Rightarrow>
          if \<not> yaml_raw_ok E then Inl ''parse config''
          else case applyEnvOverrides E c0 of
            Inl errs \<Rightarrow> Inl ''apply env overrides''
          | Inr c1 \<Rightarrow>
              (case config_Validate E (load_defaults E c1) of
                 Inl e \<Rightarrow> Inl (''validate config: '' @ e)
               | Inr c \<Rightarrow> Inr c))"

text \<open>What the manager reads of it.\<close>

definition manager_config_of :: "config \<Rightarrow> manager_config" where
  "manager_config_of c = \<lparr>BaseImage = c_base_image c, AllowedImages = c_allowed_images c,
     ImagePullPolicy = c_image_pull_policy c, ContainerTimeoutDuration = c_container_timeout_duration c,
     ContainerMemoryLimit = c_container_memory_limit c, ContainerPidsLimit = c_container_pids_limit c,
     ClaudeAuthDir = c_claude_auth_dir c, ClaudeOAuthToken = c_claude_oauth_token c,
     AnthropicAPIKey = c_anthropic_api_key c, CACertFile = c_ca_cert_file c, ClaudeSettings = c_claude_settings c,
     SecretsDir = c_secrets_dir c, TaskSkillsDir = c_task_skills_dir c, IdleOutputTimeout = c_idle_output_timeout c,
     IdleWatchdogInterval = c_idle_watchdog_interval c, ChatContainerTimeout = c_chat_container_timeout c,
     WorkerExtraEnv = c_worker_extra_env c, IsDev = config_IsDev c\<rparr>"

end
