(* ===== verification/Config_Props.thy ===== *)
theory Config_Props
  imports Config Secrets Chat_Props
begin

text \<open>
  What an accepted configuration guarantees: the ranges the other components rely on, the meaning of zero,
  pinned images, static secrets that the refresher can render; and what an empty environment variable does.
\<close>

lemma ApplyDefaults_fields:
  "c_port (ApplyDefaults c) = or_int 9090 (c_port c)"
  "c_admin_port (ApplyDefaults c) = c_admin_port c"
  "c_api_key (ApplyDefaults c) = c_api_key c"
  "c_base_image (ApplyDefaults c) = c_base_image c"
  "c_allowed_images (ApplyDefaults c) = c_allowed_images c"
  "c_max_concurrent (ApplyDefaults c) = or_int 3 (c_max_concurrent c)"
  "c_container_timeout (ApplyDefaults c) = or_str ''2h'' (c_container_timeout c)"
  "c_container_memory_limit (ApplyDefaults c) = or_int (8 * 1024 * 1024 * 1024) (c_container_memory_limit c)"
  "c_container_pids_limit (ApplyDefaults c) = or_int 512 (c_container_pids_limit c)"
  "c_webhook_replay_cache_size (ApplyDefaults c) = or_int 10000 (c_webhook_replay_cache_size c)"
  "c_webhook_replay_skew_seconds (ApplyDefaults c) = or_int defaultWebhookReplaySkew (c_webhook_replay_skew_seconds c)"
  "c_message_dedup_cache_size (ApplyDefaults c) = or_int 1000 (c_message_dedup_cache_size c)"
  "c_message_dedup_ttl_seconds (ApplyDefaults c) = or_int 600 (c_message_dedup_ttl_seconds c)"
  "c_idle_output_timeout (ApplyDefaults c) = or_int defaultIdleOutputTimeout (c_idle_output_timeout c)"
  "c_idle_watchdog_interval (ApplyDefaults c) = or_int defaultIdleWatchdogInterval (c_idle_watchdog_interval c)"
  "c_maintenance_interval (ApplyDefaults c) = or_int defaultMaintenanceInterval (c_maintenance_interval c)"
  "c_deployment_profile (ApplyDefaults c) = or_str ProfileProduction (c_deployment_profile c)"
  "c_image_pull_policy (ApplyDefaults c) = c_image_pull_policy c"
  "c_claude_oauth_token (ApplyDefaults c) = c_claude_oauth_token c"
  "c_anthropic_api_key (ApplyDefaults c) = c_anthropic_api_key c"
  "c_worker_extra_env (ApplyDefaults c) = c_worker_extra_env c"
  by (simp_all add: ApplyDefaults_def)

lemma load_fields:
  "c_port (load_defaults E c) = or_int 9090 (c_port c)"
  "c_admin_port (load_defaults E c) = c_admin_port c"
  "c_api_key (load_defaults E c) = c_api_key c"
  "c_base_image (load_defaults E c) = c_base_image c"
  "c_allowed_images (load_defaults E c) = c_allowed_images c"
  "c_max_concurrent (load_defaults E c) = or_int 3 (c_max_concurrent c)"
  "c_container_timeout (load_defaults E c) = or_str ''2h'' (c_container_timeout c)"
  "c_container_memory_limit (load_defaults E c) = or_int (8 * 1024 * 1024 * 1024) (c_container_memory_limit c)"
  "c_container_pids_limit (load_defaults E c) = or_int 512 (c_container_pids_limit c)"
  "c_webhook_replay_cache_size (load_defaults E c) = or_int 10000 (c_webhook_replay_cache_size c)"
  "c_webhook_replay_skew_seconds (load_defaults E c) =
     (if c_webhook_replay_skew_seconds c \<noteq> 0 then c_webhook_replay_skew_seconds c
      else if c_deployment_profile c = ProfileDev then 86400 else 330)"
  "c_message_dedup_cache_size (load_defaults E c) = or_int 1000 (c_message_dedup_cache_size c)"
  "c_message_dedup_ttl_seconds (load_defaults E c) = or_int 600 (c_message_dedup_ttl_seconds c)"
  "c_idle_output_timeout (load_defaults E c) =
     (if c_idle_output_timeout c \<noteq> 0 then c_idle_output_timeout c
      else if explicit_key E ''idle_output_timeout'' ''CMR_IDLE_OUTPUT_TIMEOUT'' then 0 else defaultIdleOutputTimeout)"
  "c_idle_watchdog_interval (load_defaults E c) =
     (if c_idle_watchdog_interval c \<noteq> 0 then c_idle_watchdog_interval c
      else if explicit_key E ''idle_watchdog_interval'' ''CMR_IDLE_WATCHDOG_INTERVAL'' then 0 else defaultIdleWatchdogInterval)"
  "c_maintenance_interval (load_defaults E c) =
     (if c_maintenance_interval c \<noteq> 0 then c_maintenance_interval c
      else if explicit_key E ''maintenance_interval'' ''CMR_MAINTENANCE_INTERVAL'' then 0 else defaultMaintenanceInterval)"
  "c_deployment_profile (load_defaults E c) = or_str ProfileProduction (c_deployment_profile c)"
  "c_image_pull_policy (load_defaults E c) =
     (if c_image_pull_policy c \<noteq> [] then c_image_pull_policy c
      else if c_deployment_profile c = ProfileDev then PullIfNotPresent else PullNever)"
  "c_claude_oauth_token (load_defaults E c) = c_claude_oauth_token c"
  "c_anthropic_api_key (load_defaults E c) = c_anthropic_api_key c"
  "c_worker_extra_env (load_defaults E c) = c_worker_extra_env c"
  by (simp_all add: load_defaults_def ApplyDefaults_fields Let_def or_int_def or_str_def restore_zero_def
      ProfileDev_def ProfileProduction_def defaultWebhookReplaySkew_def)

lemma Validate_accepts:
  assumes "config_Validate E d = Inr c"
  obtains d' where "d' = d\<lparr>c_container_contextmatrix_url := or_str (c_contextmatrix_url d) (c_container_contextmatrix_url d)\<rparr>"
    "list_all (\<lambda>e. e = None) (config_errors E d')"
    "c = d'\<lparr>c_unpinned_image_refs := unpinned_refs d', c_log_format := go_lower (c_log_format d'),
          c_container_timeout_duration :=
            (case ParseDuration (float_part E) (c_container_timeout d') of Some d \<Rightarrow> d | None \<Rightarrow> 0)\<rparr>"
proof -
  let ?d = "d\<lparr>c_container_contextmatrix_url := or_str (c_contextmatrix_url d) (c_container_contextmatrix_url d)\<rparr>"
  have n: "first_error (config_errors E ?d) = None"
    using assms by (auto simp: config_Validate_def Let_def split: option.splits)
  have "c = ?d\<lparr>c_unpinned_image_refs := unpinned_refs ?d, c_log_format := go_lower (c_log_format ?d),
          c_container_timeout_duration :=
            (case ParseDuration (float_part E) (c_container_timeout ?d) of Some d \<Rightarrow> d | None \<Rightarrow> 0)\<rparr>"
    using assms by (simp add: config_Validate_def Let_def n)
  then show thesis using that[of ?d] n by (simp add: first_error_None)
qed

lemma Validate_keeps:
  assumes "config_Validate E d = Inr c"
  shows "c_port c = c_port d" "c_max_concurrent c = c_max_concurrent d"
    "c_webhook_replay_cache_size c = c_webhook_replay_cache_size d"
    "c_webhook_replay_skew_seconds c = c_webhook_replay_skew_seconds d"
    "c_message_dedup_cache_size c = c_message_dedup_cache_size d"
    "c_message_dedup_ttl_seconds c = c_message_dedup_ttl_seconds d"
    "c_container_memory_limit c = c_container_memory_limit d" "c_container_pids_limit c = c_container_pids_limit d"
    "c_idle_output_timeout c = c_idle_output_timeout d" "c_maintenance_interval c = c_maintenance_interval d"
    "c_deployment_profile c = c_deployment_profile d" "c_worker_extra_env c = c_worker_extra_env d"
    "c_container_timeout c = c_container_timeout d"
    "ParseDuration (float_part E) (c_container_timeout d) = Some (c_container_timeout_duration c)"
proof -
  obtain d' where d': "d' = d\<lparr>c_container_contextmatrix_url := or_str (c_contextmatrix_url d) (c_container_contextmatrix_url d)\<rparr>"
    "list_all (\<lambda>e. e = None) (config_errors E d')"
    "c = d'\<lparr>c_unpinned_image_refs := unpinned_refs d', c_log_format := go_lower (c_log_format d'),
          c_container_timeout_duration :=
            (case ParseDuration (float_part E) (c_container_timeout d') of Some d \<Rightarrow> d | None \<Rightarrow> 0)\<rparr>"
    using assms by (rule Validate_accepts)
  obtain u a b t where c: "c = d\<lparr>c_container_contextmatrix_url := u, c_unpinned_image_refs := a, c_log_format := b,
      c_container_timeout_duration := t\<rparr>" "t = (case ParseDuration (float_part E) (c_container_timeout d) of Some d \<Rightarrow> d | None \<Rightarrow> 0)"
    using d'(1,3) by simp
  have "list_all (\<lambda>e. e = None) (duration_errors E d')" using d'(2) by (simp add: config_errors_def)
  then have "ParseDuration (float_part E) (c_container_timeout d) \<noteq> None" by (simp add: duration_errors_def d'(1))
  then show "ParseDuration (float_part E) (c_container_timeout d) = Some (c_container_timeout_duration c)"
    by (auto simp: c)
qed (use assms in \<open>elim Validate_accepts, simp\<close>)+

lemma Load_accepts:
  assumes "config_Load E = Inr c"
  obtains c0 c1 where "yaml_decode E initial_config = Some c0" "applyEnvOverrides E c0 = Inr c1"
    "config_Validate E (load_defaults E c1) = Inr c"
  using assms by (auto simp: config_Load_def split: if_splits option.splits sum.splits)

lemma first_error_in: "first_error es = None \<Longrightarrow> e \<in> set es \<Longrightarrow> e = None"
  by (auto simp: first_error_None list_all_iff)

text \<open>An accepted configuration, field by field; nothing but the environment decides about the rest.\<close>

lemma accepted:
  assumes "config_Validate E d = Inr c"
  shows "1 \<le> c_max_concurrent c \<and> c_max_concurrent c \<le> 256"
    "0 \<le> c_webhook_replay_cache_size c \<and> c_webhook_replay_cache_size c \<le> 1000000"
    "0 \<le> c_webhook_replay_skew_seconds c \<and> c_webhook_replay_skew_seconds c \<le> 604800"
    "0 \<le> c_message_dedup_cache_size c \<and> c_message_dedup_cache_size c \<le> 1000000"
    "0 \<le> c_message_dedup_ttl_seconds c \<and> c_message_dedup_ttl_seconds c \<le> 604800"
    "0 \<le> c_container_memory_limit c \<and> c_container_memory_limit c \<le> 64 * 1024 * 1024 * 1024"
    "0 \<le> c_container_pids_limit c \<and> c_container_pids_limit c \<le> 65536"
    "0 \<le> c_port c \<and> c_port c \<le> 65535"
    "c_admin_port c = 0 \<or> (1 \<le> c_admin_port c \<and> c_admin_port c \<le> 65535 \<and> c_admin_port c \<noteq> c_port c)"
    "0 \<le> c_idle_output_timeout c \<and> c_idle_output_timeout c \<le> 24 * 3600 * second"
    "0 \<le> c_idle_watchdog_interval c \<and> c_idle_watchdog_interval c \<le> 3600 * second"
    "0 \<le> c_maintenance_interval c \<and> c_maintenance_interval c \<le> 24 * 3600 * second"
    "0 \<le> c_chat_container_timeout c"
    "32 \<le> length (c_api_key c) \<and> list_all (between 0x21 0x7E) (c_api_key c)"
    "c_image_pull_policy c \<in> {PullAlways, PullNever, PullIfNotPresent}"
    "\<not> config_IsDev c \<Longrightarrow> i \<in> set (c_base_image c # c_allowed_images c) \<Longrightarrow> \<exists>f. requireDigestPin f i = None"
    "c_claude_oauth_token c \<noteq> [] \<Longrightarrow> list_all (between 0x20 0x7E) (c_claude_oauth_token c)"
    "c_anthropic_api_key c \<noteq> [] \<Longrightarrow> list_all (between 0x20 0x7E) (c_anthropic_api_key c)"
    "k \<in> fst ` set (c_worker_extra_env c) \<Longrightarrow> extra_env_error k = None"
    "c_claude_auth_dir c \<noteq> [] \<or> c_claude_oauth_token c \<noteq> [] \<or> c_anthropic_api_key c \<noteq> []"
proof -
  obtain d' where d': "list_all (\<lambda>e. e = None) (config_errors E d')"
    "c = d'\<lparr>c_unpinned_image_refs := unpinned_refs d', c_log_format := go_lower (c_log_format d'),
          c_container_timeout_duration :=
            (case ParseDuration (float_part E) (c_container_timeout d') of Some d \<Rightarrow> d | None \<Rightarrow> 0)\<rparr>"
    using Validate_accepts[OF assms] by blast
  note errs = d'(1)[unfolded config_errors_def list_all_append]
  have r: "list_all (\<lambda>e. e = None) (range_errors d')" and du: "list_all (\<lambda>e. e = None) (duration_errors E d')"
    and cr: "list_all (\<lambda>e. e = None) (credential_errors E d')" and im: "list_all (\<lambda>e. e = None) (image_errors d')"
    and ap: "list_all (\<lambda>e. e = None) (api_key_errors d')"
    and ex: "list_all (\<lambda>e. e = None) (map extra_env_error (map fst (c_worker_extra_env d')))"
    using errs by simp_all
  have "1 \<le> c_max_concurrent d' \<and> c_max_concurrent d' \<le> 256"
    "0 \<le> c_webhook_replay_cache_size d' \<and> c_webhook_replay_cache_size d' \<le> 1000000"
    "0 \<le> c_webhook_replay_skew_seconds d' \<and> c_webhook_replay_skew_seconds d' \<le> 604800"
    "0 \<le> c_message_dedup_cache_size d' \<and> c_message_dedup_cache_size d' \<le> 1000000"
    "0 \<le> c_message_dedup_ttl_seconds d' \<and> c_message_dedup_ttl_seconds d' \<le> 604800"
    "0 \<le> c_container_memory_limit d' \<and> c_container_memory_limit d' \<le> 64 * 1024 * 1024 * 1024"
    "0 \<le> c_container_pids_limit d' \<and> c_container_pids_limit d' \<le> 65536"
    "0 \<le> c_port d' \<and> c_port d' \<le> 65535"
    "c_admin_port d' = 0 \<or> (1 \<le> c_admin_port d' \<and> c_admin_port d' \<le> 65535 \<and> c_admin_port d' \<noteq> c_port d')"
    using r by (simp_all add: range_errors_def maxMaxConcurrent_def maxCacheSize_def maxWindowSec_def
        maxContainerMemoryLimit_def maxContainerPidsLimit_def linorder_not_less) linarith
  then show "1 \<le> c_max_concurrent c \<and> c_max_concurrent c \<le> 256"
    "0 \<le> c_webhook_replay_cache_size c \<and> c_webhook_replay_cache_size c \<le> 1000000"
    "0 \<le> c_webhook_replay_skew_seconds c \<and> c_webhook_replay_skew_seconds c \<le> 604800"
    "0 \<le> c_message_dedup_cache_size c \<and> c_message_dedup_cache_size c \<le> 1000000"
    "0 \<le> c_message_dedup_ttl_seconds c \<and> c_message_dedup_ttl_seconds c \<le> 604800"
    "0 \<le> c_container_memory_limit c \<and> c_container_memory_limit c \<le> 64 * 1024 * 1024 * 1024"
    "0 \<le> c_container_pids_limit c \<and> c_container_pids_limit c \<le> 65536"
    "0 \<le> c_port c \<and> c_port c \<le> 65535"
    "c_admin_port c = 0 \<or> (1 \<le> c_admin_port c \<and> c_admin_port c \<le> 65535 \<and> c_admin_port c \<noteq> c_port c)"
    by (simp_all add: d'(2))
  show "0 \<le> c_idle_output_timeout c \<and> c_idle_output_timeout c \<le> 24 * 3600 * second"
    "0 \<le> c_idle_watchdog_interval c \<and> c_idle_watchdog_interval c \<le> 3600 * second"
    "0 \<le> c_chat_container_timeout c"
    using du by (simp_all add: duration_errors_def d'(2) maxIdleOutputTimeout_def maxIdleWatchdogInterval_def)
  show "0 \<le> c_maintenance_interval c \<and> c_maintenance_interval c \<le> 24 * 3600 * second"
    "c_claude_auth_dir c \<noteq> [] \<or> c_claude_oauth_token c \<noteq> [] \<or> c_anthropic_api_key c \<noteq> []"
    "c_claude_oauth_token c \<noteq> [] \<Longrightarrow> list_all (between 0x20 0x7E) (c_claude_oauth_token c)"
    "c_anthropic_api_key c \<noteq> [] \<Longrightarrow> list_all (between 0x20 0x7E) (c_anthropic_api_key c)"
    using cr by (auto simp: credential_errors_def d'(2) maxMaintenanceInterval_def validatePrintableASCIISecret_def)
  show "32 \<le> length (c_api_key c) \<and> list_all (between 0x21 0x7E) (c_api_key c)"
    using ap by (simp add: api_key_errors_def d'(2) MinAPIKeyLength_def)
  show "c_image_pull_policy c \<in> {PullAlways, PullNever, PullIfNotPresent}"
    using im by (simp add: image_errors_def d'(2))
  show "k \<in> fst ` set (c_worker_extra_env c) \<Longrightarrow> extra_env_error k = None"
    using ex by (auto simp: list_all_iff d'(2))
  show "\<exists>f. requireDigestPin f i = None" if prod: "\<not> config_IsDev c" and i: "i \<in> set (c_base_image c # c_allowed_images c)"
  proof -
    have "\<not> config_IsDev d'" using prod by (simp add: d'(2) config_IsDev_def)
    then have "\<forall>(f, i) \<in> set (image_refs d'). requireDigestPin f i = None"
      using im by (auto simp: image_errors_def list_all_iff)
    moreover have "\<exists>f. (f, i) \<in> set (image_refs d')"
    proof (cases "i = c_base_image c")
      case False
      then obtain n where "n < length (c_allowed_images d')" "c_allowed_images d' ! n = i"
        using i by (auto simp: in_set_conv_nth d'(2))
      then have "(''allowed_images['' @ dec n @ '']'', i) \<in> set (image_refs d')"
        by (force simp: image_refs_def in_set_enumerate_eq)
      then show ?thesis by blast
    qed (auto simp: image_refs_def d'(2))
    ultimately show ?thesis by blast
  qed
qed

lemma extra_env_ok:
  "extra_env_error k = None \<longleftrightarrow> validEnvKey k \<and> k \<notin> set secretenv_Keys \<and> k \<notin> set unsafe_env_keys"
  by (simp add: extra_env_error_def)

section \<open>What the rest of the runner relies on\<close>

lemma load_positive:
  assumes "config_Load E = Inr c"
  shows "1 \<le> c_webhook_replay_cache_size c \<and> c_webhook_replay_cache_size c \<le> 1000000"
    "1 \<le> c_webhook_replay_skew_seconds c \<and> c_webhook_replay_skew_seconds c \<le> 604800"
    "1 \<le> c_message_dedup_cache_size c \<and> c_message_dedup_cache_size c \<le> 1000000"
    "1 \<le> c_message_dedup_ttl_seconds c \<and> c_message_dedup_ttl_seconds c \<le> 604800"
    "1 \<le> c_container_memory_limit c \<and> c_container_memory_limit c \<le> 64 * 1024 * 1024 * 1024"
    "1 \<le> c_container_pids_limit c \<and> c_container_pids_limit c \<le> 65536"
    "1 \<le> c_port c \<and> c_port c \<le> 65535"
    "0 \<le> c_admin_port c \<and> c_admin_port c \<le> 65535 \<and> c_admin_port c \<noteq> c_port c"
    "32 \<le> length (c_api_key c)"
proof -
  obtain c1 where v: "config_Validate E (load_defaults E c1) = Inr c" using Load_accepts[OF assms] by blast
  have nz: "c_webhook_replay_cache_size c \<noteq> 0" "c_webhook_replay_skew_seconds c \<noteq> 0" "c_message_dedup_cache_size c \<noteq> 0"
    "c_message_dedup_ttl_seconds c \<noteq> 0" "c_container_memory_limit c \<noteq> 0" "c_container_pids_limit c \<noteq> 0" "c_port c \<noteq> 0"
    unfolding Validate_keeps[OF v] by (simp_all add: load_fields or_int_def)
  note a = accepted[OF v]
  have pos: "0 \<le> x \<and> x \<le> y \<Longrightarrow> x \<noteq> 0 \<Longrightarrow> 1 \<le> x \<and> x \<le> y" for x y :: int by linarith
  show "1 \<le> c_webhook_replay_cache_size c \<and> c_webhook_replay_cache_size c \<le> 1000000"
    "1 \<le> c_webhook_replay_skew_seconds c \<and> c_webhook_replay_skew_seconds c \<le> 604800"
    "1 \<le> c_message_dedup_cache_size c \<and> c_message_dedup_cache_size c \<le> 1000000"
    "1 \<le> c_message_dedup_ttl_seconds c \<and> c_message_dedup_ttl_seconds c \<le> 604800"
    "1 \<le> c_container_memory_limit c \<and> c_container_memory_limit c \<le> 64 * 1024 * 1024 * 1024"
    "1 \<le> c_container_pids_limit c \<and> c_container_pids_limit c \<le> 65536"
    "1 \<le> c_port c \<and> c_port c \<le> 65535"
    by (intro pos[OF a(2) nz(1)] pos[OF a(3) nz(2)] pos[OF a(4) nz(3)] pos[OF a(5) nz(4)] pos[OF a(6) nz(5)]
        pos[OF a(7) nz(6)] pos[OF a(8) nz(7)])+
  show "0 \<le> c_admin_port c \<and> c_admin_port c \<le> 65535 \<and> c_admin_port c \<noteq> c_port c" using a(9) nz(7) by auto
  show "32 \<le> length (c_api_key c)" using a(14) by simp
qed

text \<open>
  Zero means the default, except where it was asked for. The replay window of a loaded configuration is the
  configured one, or 330 s (24 h in the dev profile) when the configuration says zero: replay protection cannot be turned
  off. The watchdog timeout and the maintenance interval are zero exactly when the key or its variable is present
  and the value is zero; otherwise they are the configured value or the default.
\<close>

theorem zero_is_default_unless_asked:
  assumes "config_Load E = Inr c"
  shows "\<exists>c0 c1. yaml_decode E initial_config = Some c0 \<and> applyEnvOverrides E c0 = Inr c1 \<and>
    c_webhook_replay_skew_seconds c =
      (if c_webhook_replay_skew_seconds c1 \<noteq> 0 then c_webhook_replay_skew_seconds c1
       else if c_deployment_profile c1 = ProfileDev then 86400 else 330) \<and>
    c_idle_output_timeout c =
      (if c_idle_output_timeout c1 \<noteq> 0 then c_idle_output_timeout c1
       else if yaml_has E ''idle_output_timeout'' \<or> os_env E ''CMR_IDLE_OUTPUT_TIMEOUT'' \<noteq> None then 0 else 30 * 60 * second) \<and>
    c_maintenance_interval c =
      (if c_maintenance_interval c1 \<noteq> 0 then c_maintenance_interval c1
       else if yaml_has E ''maintenance_interval'' \<or> os_env E ''CMR_MAINTENANCE_INTERVAL'' \<noteq> None then 0 else 10 * 60 * second)"
proof -
  obtain c0 c1 where c: "yaml_decode E initial_config = Some c0" "applyEnvOverrides E c0 = Inr c1"
    and v: "config_Validate E (load_defaults E c1) = Inr c" using Load_accepts[OF assms] by blast
  show ?thesis
    using c Validate_keeps[OF v] by (intro exI[of _ c0] exI[of _ c1])
      (simp add: load_fields explicit_key_def defaultIdleOutputTimeout_def defaultMaintenanceInterval_def)
qed

section \<open>Images and secrets\<close>

text \<open>An image reference that names its content: \<open>name@sha256:\<close> and 64 hex digits.\<close>

definition digest_pinned :: "string \<Rightarrow> bool" where
  "digest_pinned img \<longleftrightarrow> (\<exists>name digest. img = name @ ''@sha256:'' @ digest \<and> name \<noteq> [] \<and> length digest = 64 \<and>
     list_all hex_digit_char digest)"

lemma requireDigestPin_sound: "requireDigestPin f img = None \<Longrightarrow> digest_pinned img"
proof -
  assume a: "requireDigestPin f img = None"
  obtain i where i: "str_index ''@sha256:'' img = Some i" "i \<noteq> 0" "length (drop (i + 8) img) = 64"
    "list_all hex_digit_char (drop (i + 8) img)"
    using a by (auto simp: requireDigestPin_def Let_def split: if_splits option.splits)
  have l: "length ''@sha256:'' = 8" by simp
  have "take 8 (drop i img) = ''@sha256:''" "i + 8 \<le> length img" using str_index_sound[OF i(1)] unfolding l by blast+
  then have "img = take i img @ ''@sha256:'' @ drop (i + 8) img"
    by (metis append_take_drop_id drop_drop add.commute)
  moreover have "take i img \<noteq> []" using i(2) \<open>i + 8 \<le> length img\<close> by auto
  ultimately show ?thesis using i(3,4) unfolding digest_pinned_def by blast
qed

lemma Load_pinned:
  assumes "config_Load E = Inr c" "c_deployment_profile c \<noteq> ProfileDev" "i = c_base_image c \<or> i \<in> set (c_allowed_images c)"
  shows "digest_pinned i"
proof -
  obtain c1 where v: "config_Validate E (load_defaults E c1) = Inr c" using Load_accepts[OF assms(1)] by blast
  have "\<exists>f. requireDigestPin f i = None"
    by (rule accepted(16)[OF v]) (use assms(2,3) in \<open>auto simp: config_IsDev_def\<close>)
  then show ?thesis using requireDigestPin_sound by blast
qed

text \<open>
  C21. A configuration that loads is within the limits everything else relies on, whatever the file and the
  environment say. No limit is zero or negative, so neither the replay window, nor the dedup cache,
  nor a resource limit can be switched off by an unset or zero value; only the two idle knobs, the
  maintenance interval, the chat timeout and the admin port may be zero. The signing key has 32 printable
  characters at least; outside the dev profile the base image and every allowed image are named by their digest;
  there is a Claude credential, and a token or API key among them is printable; and no extra variable shadows a secret
  or one of the listed dangerous variables. The timeout of a run is not among the limits: the code only parses it.
\<close>

theorem loaded_config_sound:
  assumes "config_Load E = Inr c"
  shows "1 \<le> c_max_concurrent c \<and> c_max_concurrent c \<le> 256 \<and>
    1 \<le> c_webhook_replay_cache_size c \<and> c_webhook_replay_cache_size c \<le> 1000000 \<and>
    1 \<le> c_webhook_replay_skew_seconds c \<and> c_webhook_replay_skew_seconds c \<le> 604800 \<and>
    1 \<le> c_message_dedup_cache_size c \<and> c_message_dedup_cache_size c \<le> 1000000 \<and>
    1 \<le> c_message_dedup_ttl_seconds c \<and> c_message_dedup_ttl_seconds c \<le> 604800 \<and>
    1 \<le> c_container_memory_limit c \<and> c_container_memory_limit c \<le> 64 * 1024 * 1024 * 1024 \<and>
    1 \<le> c_container_pids_limit c \<and> c_container_pids_limit c \<le> 65536 \<and>
    1 \<le> c_port c \<and> c_port c \<le> 65535 \<and>
    0 \<le> c_admin_port c \<and> c_admin_port c \<le> 65535 \<and> c_admin_port c \<noteq> c_port c \<and>
    0 \<le> c_idle_output_timeout c \<and> c_idle_output_timeout c \<le> 24 * 3600 * second \<and>
    0 \<le> c_idle_watchdog_interval c \<and> c_idle_watchdog_interval c \<le> 3600 * second \<and>
    0 \<le> c_maintenance_interval c \<and> c_maintenance_interval c \<le> 24 * 3600 * second \<and>
    0 \<le> c_chat_container_timeout c \<and>
    32 \<le> length (c_api_key c) \<and> list_all (between 0x21 0x7E) (c_api_key c) \<and>
    c_image_pull_policy c \<in> {PullAlways, PullNever, PullIfNotPresent} \<and>
    (c_deployment_profile c \<noteq> ProfileDev \<longrightarrow> (\<forall>i \<in> set (c_base_image c # c_allowed_images c). digest_pinned i)) \<and>
    (c_claude_auth_dir c \<noteq> [] \<or> c_claude_oauth_token c \<noteq> [] \<or> c_anthropic_api_key c \<noteq> []) \<and>
    list_all (between 0x20 0x7E) (c_claude_oauth_token c) \<and> list_all (between 0x20 0x7E) (c_anthropic_api_key c) \<and>
    (\<forall>k \<in> fst ` set (c_worker_extra_env c). validEnvKey k \<and> k \<notin> set secretenv_Keys \<and> k \<notin> set unsafe_env_keys)"
proof -
  obtain c1 where v: "config_Validate E (load_defaults E c1) = Inr c" using Load_accepts[OF assms] by blast
  note a = accepted[OF v]
  have ks: "\<forall>k \<in> fst ` set (c_worker_extra_env c). validEnvKey k \<and> k \<notin> set secretenv_Keys \<and> k \<notin> set unsafe_env_keys"
    using a(19) by (simp only: extra_env_ok) blast
  have im: "c_deployment_profile c \<noteq> ProfileDev \<longrightarrow> (\<forall>i \<in> set (c_base_image c # c_allowed_images c). digest_pinned i)"
    using Load_pinned[OF assms] by auto
  have cr: "list_all (between 0x20 0x7E) (c_claude_oauth_token c)" "list_all (between 0x20 0x7E) (c_anthropic_api_key c)"
    using a(17,18) by fastforce+
  note p = load_positive[OF assms]
  show ?thesis
    by (intro conjI a(1)[THEN conjunct1] a(1)[THEN conjunct2] p(1-8)[THEN conjunct1] p(1-7)[THEN conjunct2]
        p(8)[THEN conjunct2, THEN conjunct1] p(8)[THEN conjunct2, THEN conjunct2] p(9)
        a(10-12)[THEN conjunct1] a(10-12)[THEN conjunct2] a(13) a(15) im a(20) cr a(14)[THEN conjunct1] a(14)[THEN conjunct2] ks)
qed

text \<open>
  C22. In production only pinned images run. Under every configuration that loads in the production profile, each
  container that the manager creates, for a card with whatever image the payload asks for, or for a chat, runs an image
  named by its sha256 digest: no mutable tag can be slipped in by a webhook.
\<close>

theorem production_image_pinned:
  assumes "config_Load E = Inr c" and "c_deployment_profile c \<noteq> ProfileDev"
    and "startContainer (manager_config_of c) env rc m = (r, m') \<or> StartChat (manager_config_of c) env opts m = (q, m')"
    and "EvCreate cc host name \<in> set (news m m')"
  shows "digest_pinned (cc_image cc)"
proof -
  have "image_allowed (manager_config_of c) (cc_image cc) \<or> cc_image cc = BaseImage (manager_config_of c)"
    using created_container[OF assms(3,4)] by blast
  then have "cc_image cc = c_base_image c \<or> cc_image cc \<in> set (c_allowed_images c)"
    by (auto simp: image_allowed_def manager_config_of_def split: if_splits)
  then show ?thesis by (rule Load_pinned[OF assms(1,2)])
qed

lemma label_single: "label k [(k, v)] = v"
  by (simp add: label_def)

lemma render_loaded:
  assumes "config_Load E = Inr c"
  shows "if list_all token_char token
    then \<exists>body. renderSecretsFile token (buildStaticAuthEnv (manager_config_of c)) = Inr body
    else renderSecretsFile token (buildStaticAuthEnv (manager_config_of c)) = Inl ErrInvalidTokenChars"
proof -
  obtain c1 where v: "config_Validate E (load_defaults E c1) = Inr c" using Load_accepts[OF assms] by blast
  define static where "static = buildStaticAuthEnv (manager_config_of c)"
  have e: "static = (if c_claude_auth_dir c \<noteq> [] then []
      else if c_claude_oauth_token c \<noteq> [] then [(''CLAUDE_CODE_OAUTH_TOKEN'', c_claude_oauth_token c)]
      else if c_anthropic_api_key c \<noteq> [] then [(''ANTHROPIC_API_KEY'', c_anthropic_api_key c)] else [])"
    by (simp add: static_def buildStaticAuthEnv_def manager_config_of_def cong: if_cong)
  have "static = [] \<or> (\<exists>k x. static = [(k, x)] \<and> k \<noteq> ''CM_GIT_TOKEN'' \<and> list_all (between 0x20 0x7E) x)"
    unfolding e using accepted(17,18)[OF v] by auto
  then consider "static = []" | k x where "static = [(k, x)]" "k \<noteq> ''CM_GIT_TOKEN''" "list_all (between 0x20 0x7E) x"
    by blast
  then have k: "''CM_GIT_TOKEN'' \<notin> fst ` set static"
    and s: "find (\<lambda>k. \<not> validateStaticSecretValue (label k static)) (sorted_keys static) = None"
    by (cases; force simp: find_None_iff set_sorted_keys label_single validateStaticSecretValue_def IsValidStaticSecretByte_def list_all_iff)+
  show ?thesis using k s by (simp add: renderSecretsFile_def static_def[symmetric] Let_def)
qed

text \<open>
  A configuration that boots can always be refreshed. The static secrets of every configuration that loads pass the
  checks of the refresher, so rendering the secrets file fails only for a token with a character outside
  \<open>[A-Za-z0-9_-]\<close>; a green start is never followed by a refresh that rejects the configured values.
\<close>

theorem loaded_secrets_render:
  assumes "config_Load E = Inr c"
  shows "if list_all token_char token
    then \<exists>body. renderSecretsFile token (buildStaticAuthEnv (manager_config_of c)) = Inr body
    else renderSecretsFile token (buildStaticAuthEnv (manager_config_of c)) = Inl ErrInvalidTokenChars"
  using render_loaded[OF assms] .

section \<open>Two ways to lose a limit\<close>

lemma overrides_keep:
  assumes "\<And>f st. f \<in> set fs \<Longrightarrow> g (snd (f st)) = g (snd st)"
  shows "g (snd (fold (\<lambda>f. f) fs st)) = g (snd st)"
  using assms by (induction fs arbitrary: st) auto

lemma set_string_keeps: "(\<And>v c. g (put v c) = g c) \<Longrightarrow> g (snd (set_string E n put st)) = g (snd st)"
  by (cases "getenv E n"; cases st) (auto simp: set_string_def)

lemma set_parsed_keeps:
  "getenv E n = [] \<or> (\<forall>v c. g (put v c) = g c) \<Longrightarrow> g (snd (set_parsed E parse what n put st)) = g (snd st)"
  by (cases st) (auto simp: set_parsed_def split: option.splits)

lemma set_extra_env_keeps:
  assumes "\<And>f c. g (c_worker_extra_env_update f c) = g c"
  shows "g (snd (set_extra_env E st)) = g (snd st)"
proof -
  have e: "g (snd (extra_env_entry raw st)) = g (snd st)" for raw st
    by (cases st) (auto simp: extra_env_entry_def Let_def assms split: option.splits)
  have "g (snd (fold extra_env_entry es st)) = g (snd st)" for es st
    by (induction es arbitrary: st) (simp_all add: e)
  then show ?thesis by (simp add: set_extra_env_def)
qed

lemma idle_kept:
  assumes "applyEnvOverrides E c = Inr c'" "getenv E ''CMR_IDLE_OUTPUT_TIMEOUT'' = []"
  shows "c_idle_output_timeout c' = c_idle_output_timeout c"
proof -
  have "c_idle_output_timeout (snd (f st)) = c_idle_output_timeout (snd st)" if "f \<in> set (env_overrides E)" for f st
    using that assms(2)
    by (auto simp: env_overrides_def Let_def put_github_def intro!: set_string_keeps set_parsed_keeps set_extra_env_keeps)
  then have "c_idle_output_timeout (snd (fold (\<lambda>f. f) (env_overrides E) ([], c))) = c_idle_output_timeout c"
    using overrides_keep[of "env_overrides E" c_idle_output_timeout "([], c)"] by simp
  then show ?thesis using assms(1) by (auto simp: applyEnvOverrides_def split: prod.splits list.splits)
qed

text \<open>
  An empty variable switches the idle watchdog off. Everywhere else an empty \<open>CMR_*\<close> variable counts as
  unset, but \<open>Load\<close> asks with \<open>LookupEnv\<close> whether \<open>CMR_IDLE_OUTPUT_TIMEOUT\<close> is there: when it is set to the
  empty text, as a compose file does with an undefined variable, and the file says nothing, the
  timeout is zero, which disables the watchdog, instead of the default of thirty minutes.
\<close>

theorem empty_variable_disables_watchdog:
  assumes "config_Load E = Inr c" and "os_env E ''CMR_IDLE_OUTPUT_TIMEOUT'' = Some []"
    and "\<And>c0. yaml_decode E initial_config = Some c0 \<Longrightarrow> c_idle_output_timeout c0 = 0"
  shows "IdleOutputTimeout (manager_config_of c) = 0"
proof -
  obtain c0 c1 where c: "yaml_decode E initial_config = Some c0" "applyEnvOverrides E c0 = Inr c1"
    and v: "config_Validate E (load_defaults E c1) = Inr c" using Load_accepts[OF assms(1)] by blast
  have "c_idle_output_timeout c1 = 0" using idle_kept[OF c(2)] assms(2,3) c(1) by (simp add: getenv_def)
  then show ?thesis
    by (simp add: manager_config_of_def Validate_keeps[OF v] load_fields explicit_key_def assms(2))
qed

text \<open>A container timeout of zero or less passes the validation and reaches the manager as it is.\<close>

lemma timeout_unchecked:
  assumes "config_Load E = Inr c"
  shows "ParseDuration (float_part E) (c_container_timeout c) = Some (ContainerTimeoutDuration (manager_config_of c))"
proof -
  obtain c1 where v: "config_Validate E (load_defaults E c1) = Inr c" using Load_accepts[OF assms] by blast
  show ?thesis using Validate_keeps(13,14)[OF v] by (simp add: manager_config_of_def)
qed

text \<open>The list of dangerous variables is case sensitive and has no \<open>ALL_PROXY\<close>.\<close>

lemma proxy_accepted: "extra_env_error ''ALL_PROXY'' = None" "extra_env_error ''https_proxy'' = None"
  by code_simp+

section \<open>An example\<close>

definition example_file :: config where
  "example_file = initial_config\<lparr>c_contextmatrix_url := ''http://cm'', c_api_key := replicate 32 (CHR ''k''),
     c_base_image := ''w@sha256:'' @ replicate 64 (CHR ''a''), c_anthropic_api_key := ''sk-1'', c_container_timeout := ''0s'',
     c_worker_extra_env := [(''CI'', ''true'')],
     c_github := empty_github\<lparr>gh_auth_mode := ''pat'', gh_pat_token := ''t''\<rparr>\<rparr>"

definition example_config_env :: config_env where
  "example_config_env = \<lparr>file_readable = True, yaml_decode = (\<lambda>c. Some example_file), yaml_raw_ok = True, yaml_has = (\<lambda>k. False),
     os_env = (\<lambda>n. if n = ''CMR_IDLE_OUTPUT_TIMEOUT'' then Some [] else None), path_exists = (\<lambda>p. True),
     service_url = (\<lambda>u. Some \<lparr>u_scheme = ''http'', u_user = None, u_host = ''cm''\<rparr>), json_valid = (\<lambda>s. True),
     float_part = (\<lambda>d k. 0)\<rparr>"

lemma no_overrides: "(\<And>n. getenv E n = []) \<Longrightarrow> applyEnvOverrides E c = Inr c"
  by (simp add: applyEnvOverrides_def env_overrides_def Let_def set_string_def set_parsed_def set_extra_env_def)

definition example_defaulted :: config where
  "example_defaulted = (load_defaults example_config_env example_file)\<lparr>c_container_contextmatrix_url := ''http://cm''\<rparr>"

lemma example_errors:
  "list_all (\<lambda>e. e = None) (url_errors example_config_env example_defaulted)"
  "list_all (\<lambda>e. e = None) (api_key_errors example_defaulted)"
  "list_all (\<lambda>e. e = None) (image_errors example_defaulted)"
  "list_all (\<lambda>e. e = None) (range_errors example_defaulted)"
  "list_all (\<lambda>e. e = None) (format_errors example_defaulted)"
  "list_all (\<lambda>e. e = None) (map extra_env_error (map fst (c_worker_extra_env example_defaulted)))"
  "list_all (\<lambda>e. e = None) (credential_errors example_config_env example_defaulted)"
  "list_all (\<lambda>e. e = None) (github_errors example_config_env (c_github example_defaulted))"
  by code_simp+

lemma example_durations: "list_all (\<lambda>e. e = None) (duration_errors example_config_env example_defaulted)"
proof -
  have "c_container_timeout example_defaulted = ''0s''"
    "c_idle_output_timeout example_defaulted = 0" "c_idle_watchdog_interval example_defaulted = 30 * second"
    "c_chat_container_timeout example_defaulted = 0"
    by code_simp+
  then show ?thesis by (simp add: duration_errors_def duration_examples maxIdleWatchdogInterval_def maxIdleOutputTimeout_def)
qed

lemma example_loads:
  "\<exists>c. config_Load example_config_env = Inr c \<and> c_deployment_profile c = ProfileProduction \<and> c_anthropic_api_key c = ''sk-1'' \<and>
     c_claude_auth_dir c = [] \<and> c_claude_oauth_token c = [] \<and> c_base_image c = c_base_image example_file \<and>
     c_allowed_images c = [] \<and> c_container_timeout c = ''0s'' \<and> c_image_pull_policy c = ''never'' \<and>
     c_secrets_dir c = defaultSecretsDir"
proof -
  have "applyEnvOverrides example_config_env example_file = Inr example_file"
    by (rule no_overrides) (simp add: getenv_def example_config_env_def)
  moreover have "first_error (config_errors example_config_env example_defaulted) = None"
    by (simp add: first_error_None config_errors_def example_errors[simplified] example_durations)
  moreover have "(load_defaults example_config_env example_file)\<lparr>c_container_contextmatrix_url :=
      or_str (c_contextmatrix_url (load_defaults example_config_env example_file))
        (c_container_contextmatrix_url (load_defaults example_config_env example_file))\<rparr> = example_defaulted"
    by code_simp
  ultimately obtain u f t where l: "config_Load example_config_env = Inr (example_defaulted\<lparr>c_unpinned_image_refs := u,
      c_log_format := f, c_container_timeout_duration := t\<rparr>)"
    by (simp add: config_Load_def config_Validate_def Let_def example_config_env_def)
  have "c_deployment_profile example_defaulted = ProfileProduction" "c_anthropic_api_key example_defaulted = ''sk-1''"
    "c_claude_auth_dir example_defaulted = []" "c_claude_oauth_token example_defaulted = []"
    "c_base_image example_defaulted = c_base_image example_file" "c_allowed_images example_defaulted = []"
    "c_container_timeout example_defaulted = ''0s''" "c_image_pull_policy example_defaulted = ''never''"
    "c_secrets_dir example_defaulted = defaultSecretsDir"
    by code_simp+
  then show ?thesis by (simp add: l)
qed

theorem loaded_config_sound_witness:
  "\<exists>c. config_Load example_config_env = Inr c \<and> 1 \<le> c_max_concurrent c \<and> 1 \<le> c_webhook_replay_skew_seconds c"
proof -
  obtain c where l: "config_Load example_config_env = Inr c" using example_loads by blast
  then show ?thesis using loaded_config_sound[OF l] by simp
qed

theorem zero_is_default_unless_asked_witness:
  "\<exists>c. config_Load example_config_env = Inr c \<and> c_maintenance_interval c = 600 * second"
proof -
  obtain c where l: "config_Load example_config_env = Inr c" using example_loads by blast
  have o: "applyEnvOverrides example_config_env example_file = Inr example_file"
    by (rule no_overrides) (simp add: getenv_def example_config_env_def)
  have "c_maintenance_interval example_file = 0" by code_simp
  then show ?thesis
    using zero_is_default_unless_asked[OF l] l o by (simp add: example_config_env_def)
qed

theorem production_image_pinned_witness:
  "\<exists>c cc host name. config_Load example_config_env = Inr c \<and>
     EvCreate cc host name \<in> set (news example_manager
       (snd (StartChat (manager_config_of c) example_spawn example_chat_opts example_manager))) \<and>
     digest_pinned (cc_image cc)"
proof -
  obtain c where l: "config_Load example_config_env = Inr c" "c_deployment_profile c = ProfileProduction"
    "c_image_pull_policy c = ''never''" "c_secrets_dir c = defaultSecretsDir" using example_loads by blast
  have "fst (StartChat (manager_config_of c) example_spawn example_chat_opts example_manager) = Some ''c1''"
    by (simp add: StartChat_def example_chat_opts_def pullImage_def buildSecretDelivery_def mint_def create_chat_def
        chat_created_def manager_config_of_def example_spawn_def Let_def case_prod_unfold l(3,4) defaultSecretsDir_def)
  then obtain m' where s: "StartChat (manager_config_of c) example_spawn example_chat_opts example_manager = (Some ''c1'', m')"
    by (metis prod.collapse)
  obtain cc host name where e: "EvCreate cc host name \<in> set (news example_manager m')"
    using started_chat_creates[OF s] by blast
  have "digest_pinned (cc_image cc)"
    using production_image_pinned[OF l(1) _ disjI2[OF s] e] l(2) by (simp add: ProfileProduction_def ProfileDev_def)
  then show ?thesis using l(1) s e by auto
qed

theorem loaded_secrets_render_witness:
  "\<exists>c body. config_Load example_config_env = Inr c \<and>
     renderSecretsFile ''ghs_1'' (buildStaticAuthEnv (manager_config_of c)) = Inr body"
proof -
  obtain c where l: "config_Load example_config_env = Inr c" using example_loads by blast
  have "list_all token_char ''ghs_1''" by code_simp
  then show ?thesis using loaded_secrets_render[OF l, of "''ghs_1''"] l by auto
qed

theorem empty_variable_disables_watchdog_witness:
  "\<exists>c. config_Load example_config_env = Inr c \<and> IdleOutputTimeout (manager_config_of c) = 0"
proof -
  obtain c where l: "config_Load example_config_env = Inr c" using example_loads by blast
  have z: "c_idle_output_timeout example_file = 0" by code_simp
  have "IdleOutputTimeout (manager_config_of c) = 0"
    by (rule empty_variable_disables_watchdog[OF l]) (auto simp: example_config_env_def z)
  then show ?thesis using l by blast
qed

lemma zero_timeout_loads:
  "\<exists>c. config_Load example_config_env = Inr c \<and> ContainerTimeoutDuration (manager_config_of c) = 0"
proof -
  obtain c where l: "config_Load example_config_env = Inr c" "c_container_timeout c = ''0s''" using example_loads by blast
  then show ?thesis using timeout_unchecked[OF l(1)] by (simp add: duration_examples)
qed

end
