(* ===== verification/Callback.thy ===== *)
theory Callback
  imports Endpoint_Props Docker Log_Parser
begin

text \<open>
  The client of ContextMatrix, \<open>internal/callback/client.go\<close>: signed status and skill callbacks, the autonomous
  check, the retry loop they share, and the errors they return. The HTTP transport is the environment: \<open>answer i\<close> is the outcome
  of the i-th request of a call and \<open>clock i\<close> the time it is signed. The HMAC and the JSON of the two payloads
  and the header names belong to contextmatrix-protocol and are arguments; \<open>url.Parse\<close> is an argument too, as are the texts of
  the errors that the transport, \<open>url.Parse\<close> and the JSON decoder return, while \<open>url.PathEscape\<close> and \<open>URL.RequestURI\<close> are modelled.
\<close>

section \<open>Errors\<close>

text \<open>
  \<open>CtxCanceled\<close> and \<open>DeadlineExceeded\<close> stand for the errors for which \<open>errors.Is\<close> finds
  \<open>context.Canceled\<close> and \<open>context.DeadlineExceeded\<close>. The latter include the time-out of
  \<open>http.Client.Timeout\<close>, whose error type says so in its method \<open>Is\<close>. These and the other errors that come from
  outside carry their text. \<open>Wrapped\<close> is \<open>fmt.Errorf\<close> with a prefix and the verb \<open>%w\<close>, \<open>Exhausted\<close> the one of the
  retry loop; \<open>errors.Is\<close> and \<open>errors.AsType\<close> look through both.
\<close>

datatype cb_error =
    CtxCanceled string
  | DeadlineExceeded string
  | StatusError (se_url: string) (se_status: int) (se_detail: string)
  | OtherError string
  | Wrapped string cb_error
  | Exhausted string cb_error

definition maxDetailBytes :: nat where "maxDetailBytes = 2048"

fun isClientError :: "cb_error \<Rightarrow> bool" where
  "isClientError (CtxCanceled t) = True"
| "isClientError (DeadlineExceeded t) = True"
| "isClientError (StatusError u code d) = (400 \<le> code \<and> code < 500)"
| "isClientError (OtherError t) = False"
| "isClientError (Wrapped p e) = isClientError e"
| "isClientError (Exhausted l e) = isClientError e"

definition maxRetries :: nat where "maxRetries = 3"

text \<open>\<open>Error()\<close> of every error, and the detail of a status error for the debug log.\<close>

fun Error_text :: "cb_error \<Rightarrow> string" where
  "Error_text (CtxCanceled t) = t"
| "Error_text (DeadlineExceeded t) = t"
| "Error_text (StatusError u code d) = ''callback to '' @ u @ '' returned status '' @ dec_int code"
| "Error_text (OtherError t) = t"
| "Error_text (Wrapped p e) = p @ Error_text e"
| "Error_text (Exhausted l e) = l @ '' failed after '' @ dec maxRetries @ '' attempts: '' @ Error_text e"

definition DetailForLog :: "cb_error \<Rightarrow> string" where
  "DetailForLog e = (case e of StatusError u code d \<Rightarrow> d | _ \<Rightarrow> [])"

section \<open>URLs\<close>

record cb_url =
  cu_scheme :: string
  cu_opaque :: string
  cu_user :: "string option"
  cu_host :: string
  cu_path :: string
  cu_escaped :: string
  cu_force_query :: bool
  cu_query :: string

text \<open>\<open>URL.RequestURI\<close>: \<open>cu_escaped\<close> is \<open>EscapedPath\<close>, the encoding of \<open>cu_path\<close>.\<close>

definition RequestURI :: "cb_url \<Rightarrow> string" where
  "RequestURI u =
     (let r = (if cu_opaque u = [] then (if cu_escaped u = [] then ''/'' else cu_escaped u)
               else if take 2 (cu_opaque u) = ''//'' then cu_scheme u @ '':'' @ cu_opaque u else cu_opaque u)
      in if cu_force_query u \<or> cu_query u \<noteq> [] then r @ ''?'' @ cu_query u else r)"

definition deriveURI :: "(string \<Rightarrow> cb_url option) \<Rightarrow> string \<Rightarrow> string option" where
  "deriveURI parse raw = (case parse raw of
       None \<Rightarrow> None
     | Some u \<Rightarrow> Some (RequestURI (if cu_path u = [] then u\<lparr>cu_path := ''/'', cu_escaped := ''/''\<rparr> else u)))"

definition sanitizeURLForError :: "(string \<Rightarrow> cb_url option) \<Rightarrow> string \<Rightarrow> string" where
  "sanitizeURLForError parse full = (case parse full of
       None \<Rightarrow> ''<invalid-url>''
     | Some u \<Rightarrow> if cu_scheme u = [] \<or> cu_host u = [] then ''<invalid-url>''
                 else cu_scheme u @ ''://'' @ cu_host u @ cu_path u)"

definition newError :: "(string \<Rightarrow> cb_url option) \<Rightarrow> string \<Rightarrow> int \<Rightarrow> bytes \<Rightarrow> cb_error" where
  "newError parse full code body = StatusError (sanitizeURLForError parse full) code (take maxDetailBytes body)"

text \<open>\<open>url.PathEscape\<close>: letters, digits, \<open>-_.~$&+=:@\<close> stay, every other byte is percent-encoded.\<close>

definition path_plain :: "char \<Rightarrow> bool" where
  "path_plain c \<longleftrightarrow> is_alnum c \<or> c \<in> set ''-_.~$&+=:@''"

definition upper_hex :: "nat \<Rightarrow> char" where
  "upper_hex d = (if d < 10 then char_of (48 + d) else char_of (55 + d))"

definition PathEscape :: "string \<Rightarrow> string" where
  "PathEscape s = concat (map (\<lambda>c. if path_plain c then [c]
     else [CHR ''%'', upper_hex (byte c div 16), upper_hex (byte c mod 16)]) s)"

section \<open>Retrying\<close>

datatype retry_event = Attempt nat | Backoff duration

text \<open>
  Attempt \<open>i\<close> of \<open>retryWithBackoff\<close>, with \<open>n\<close> attempts left including this one. \<open>ctx_end i\<close> is the context's error
  if it ends during the sleep that follows attempt \<open>i\<close>.
\<close>

fun retry_from :: "string \<Rightarrow> (nat \<Rightarrow> cb_error + 'a) \<Rightarrow> (nat \<Rightarrow> cb_error option) \<Rightarrow> nat \<Rightarrow> nat \<Rightarrow> (cb_error + 'a) \<times> retry_event list" where
  "retry_from lbl attempt ctx_end i n =
     (case attempt i of
        Inr a \<Rightarrow> (Inr a, [Attempt i])
      | Inl e \<Rightarrow>
          if isClientError e then (Inl e, [Attempt i])
          else (case n of
             0 \<Rightarrow> (Inl (Exhausted lbl e), [Attempt i])
           | Suc 0 \<Rightarrow> (Inl (Exhausted lbl e), [Attempt i])
           | Suc k \<Rightarrow>
               (case ctx_end i of
                  Some c \<Rightarrow> (Inl c, [Attempt i, Backoff (2 ^ i * second)])
                | None \<Rightarrow> apsnd (\<lambda>es. Attempt i # Backoff (2 ^ i * second) # es)
                            (retry_from lbl attempt ctx_end (i + 1) k))))"

declare retry_from.simps [simp del]

definition retryWithBackoff :: "string \<Rightarrow> (nat \<Rightarrow> cb_error + 'a) \<Rightarrow> (nat \<Rightarrow> cb_error option) \<Rightarrow> (cb_error + 'a) \<times> retry_event list" where
  "retryWithBackoff lbl attempt ctx_end = retry_from (TrimSpace (lbl @ '' callback'')) attempt ctx_end 0 maxRetries"

section \<open>Requests\<close>

datatype http_answer =
    SendFailed cb_error
  | ReadFailed cb_error
  | Answer int bytes

record http_request =
  hr_method :: string
  hr_url :: string
  hr_headers :: "(string \<times> string) list"
  hr_body :: bytes

record cb_client =
  cl_url :: string
  cl_api_key :: string
  cl_use_hmac :: bool

record cb_env =
  clock :: "nat \<Rightarrow> int"
  http :: "nat \<Rightarrow> http_answer"
  ctx_end :: "nat \<Rightarrow> cb_error option"
  cb_parse :: "string \<Rightarrow> cb_url option"
  signature_header :: string
  timestamp_header :: string
  hmac_sign :: "string \<Rightarrow> string \<Rightarrow> string \<Rightarrow> bytes \<Rightarrow> string \<Rightarrow> string"
  status_json :: "string \<Rightarrow> string \<Rightarrow> string \<Rightarrow> string \<Rightarrow> bytes"
  skill_json :: "string \<Rightarrow> string \<Rightarrow> string \<Rightarrow> bytes"
  card_autonomous :: "bytes \<Rightarrow> bool option"
  json_failure :: "bytes \<Rightarrow> string"
  parse_failure :: "string \<Rightarrow> string"
  quoted_url :: "string \<Rightarrow> string"

text \<open>
  The body of a response is read up to one MiB. \<open>what\<close> names the call in the texts of its errors; it is empty for the
  status callback.
\<close>

definition call_text :: "string \<Rightarrow> string \<Rightarrow> string \<Rightarrow> string" where
  "call_text verb what noun = verb @ (if what = [] then [] else CHR '' '' # what) @ CHR '' '' # noun @ '': ''"

definition response_of :: "(string \<Rightarrow> cb_url option) \<Rightarrow> string \<Rightarrow> string \<Rightarrow> http_answer \<Rightarrow> cb_error + bytes" where
  "response_of parse url what a = (case a of
       SendFailed e \<Rightarrow> Inl (Wrapped (call_text ''send'' what ''request'') e)
     | ReadFailed e \<Rightarrow> Inl (Wrapped (call_text ''read'' what ''response'') e)
     | Answer code body \<Rightarrow>
         let b = take (2 ^ 20) body
         in if code \<ge> 400 then Inl (newError parse url code b) else Inr b)"

definition signed_headers :: "cb_client \<Rightarrow> cb_env \<Rightarrow> string \<Rightarrow> string \<Rightarrow> bytes \<Rightarrow> nat \<Rightarrow> (string \<times> string) list" where
  "signed_headers cl E meth uri body i =
     (let ts = dec_int (clock E i)
      in [(signature_header E, ''sha256='' @ hmac_sign E (cl_api_key cl) meth uri body ts), (timestamp_header E, ts)])"

text \<open>The requests a call has sent: one for each attempt it made.\<close>

fun attempts :: "retry_event list \<Rightarrow> nat list" where
  "attempts [] = []"
| "attempts (Attempt i # es) = i # attempts es"
| "attempts (Backoff d # es) = attempts es"

definition post_callback ::
  "cb_client \<Rightarrow> cb_env \<Rightarrow> string \<Rightarrow> string \<Rightarrow> bytes \<Rightarrow> (cb_error + unit) \<times> retry_event list \<times> http_request list" where
  "post_callback cl E lbl path body =
     (case deriveURI (cb_parse E) (cl_url cl @ path) of
        None \<Rightarrow> (Inl (OtherError (''parse url '' @ quoted_url E (cl_url cl @ path) @ '': '' @ parse_failure E (cl_url cl @ path))), [], [])
      | Some uri \<Rightarrow>
          (case retryWithBackoff lbl
                  (\<lambda>i. map_sum id (\<lambda>b. ()) (response_of (cb_parse E) (cl_url cl @ path) lbl (http E i))) (ctx_end E) of
             (r, es) \<Rightarrow> (r, es, map (\<lambda>i. \<lparr>hr_method = ''POST'', hr_url = cl_url cl @ path,
                 hr_headers = (''Content-Type'', ''application/json'') # signed_headers cl E ''POST'' uri body i,
                 hr_body = body\<rparr>) (attempts es))))"

definition ReportStatus ::
  "cb_client \<Rightarrow> cb_env \<Rightarrow> string \<Rightarrow> string \<Rightarrow> string \<Rightarrow> string \<Rightarrow> (cb_error + unit) \<times> retry_event list \<times> http_request list" where
  "ReportStatus cl E cardID project status message =
     post_callback cl E [] ''/api/runner/status'' (status_json E cardID project status message)"

definition ReportSkillEngaged ::
  "cb_client \<Rightarrow> cb_env \<Rightarrow> string \<Rightarrow> string \<Rightarrow> string \<Rightarrow> (cb_error + unit) \<times> retry_event list \<times> http_request list" where
  "ReportSkillEngaged cl E cardID project skill =
     post_callback cl E ''skill-engaged'' ''/api/runner/skill-engaged'' (skill_json E cardID project skill)"

definition verify_url :: "cb_client \<Rightarrow> string \<Rightarrow> string \<Rightarrow> string" where
  "verify_url cl project cardID =
     cl_url cl @ ''/api/v1/cards/'' @ PathEscape project @ ''/'' @ PathEscape cardID @ ''/autonomous''"

text \<open>The headers of one autonomous check; \<open>None\<close>: the URL does not parse, and nothing is sent.\<close>

definition verify_headers :: "cb_client \<Rightarrow> cb_env \<Rightarrow> string \<Rightarrow> nat \<Rightarrow> (string \<times> string) list option" where
  "verify_headers cl E url i =
     (if cb_parse E url = None then None
      else if cl_use_hmac cl
      then map_option (\<lambda>uri. signed_headers cl E ''GET'' uri [] i) (deriveURI (cb_parse E) url)
      else Some [(''Authorization'', ''Bearer '' @ cl_api_key cl)])"

definition doVerifyAutonomous :: "cb_client \<Rightarrow> cb_env \<Rightarrow> string \<Rightarrow> nat \<Rightarrow> cb_error + bool" where
  "doVerifyAutonomous cl E url i =
     (case verify_headers cl E url i of
        None \<Rightarrow> Inl (OtherError (''create verify-autonomous request: '' @ parse_failure E url))
      | Some hs \<Rightarrow>
          (case response_of (cb_parse E) url ''verify-autonomous'' (http E i) of
             Inl e \<Rightarrow> Inl e
           | Inr b \<Rightarrow>
               (case card_autonomous E b of
                  None \<Rightarrow> Inl (OtherError (''parse verify-autonomous response: '' @ json_failure E b))
                | Some a \<Rightarrow> Inr a)))"

definition VerifyAutonomous ::
  "cb_client \<Rightarrow> cb_env \<Rightarrow> string \<Rightarrow> string \<Rightarrow> (cb_error + bool) \<times> retry_event list \<times> http_request list" where
  "VerifyAutonomous cl E project cardID =
     (let url = verify_url cl project cardID in
      case retryWithBackoff ''verify-autonomous'' (doVerifyAutonomous cl E url) (ctx_end E) of
        (r, es) \<Rightarrow> (r, es, concat (map (\<lambda>i. case verify_headers cl E url i of
             None \<Rightarrow> []
           | Some hs \<Rightarrow> [\<lparr>hr_method = ''GET'', hr_url = url, hr_headers = hs, hr_body = []\<rparr>]) (attempts es))))"

text \<open>The label of the retry counter, and the log limiter of the Bearer fallback: the time of the last log and whether this call logs.\<close>

definition endpointLabel :: "string \<Rightarrow> string" where
  "endpointLabel status = (if status \<in> set [''running'', ''failed'', ''completed''] then status else ''status'')"

definition logBearerFallback :: "int \<Rightarrow> int \<Rightarrow> bool \<times> int" where
  "logBearerFallback unix_now last_log = (if unix_now - last_log < 5 * 60 then (False, last_log) else (True, unix_now))"

section \<open>The retry loop\<close>

definition transient :: "(nat \<Rightarrow> cb_error + 'a) \<Rightarrow> nat \<Rightarrow> bool" where
  "transient att i \<longleftrightarrow> (case att i of Inl e \<Rightarrow> \<not> isClientError e | Inr a \<Rightarrow> False)"

text \<open>Attempt \<open>i\<close> is made: all earlier ones failed in a way worth retrying, and no sleep between them was cut short.\<close>

definition reached :: "(nat \<Rightarrow> cb_error + 'a) \<Rightarrow> (nat \<Rightarrow> cb_error option) \<Rightarrow> nat \<Rightarrow> bool" where
  "reached att ce i \<longleftrightarrow> (\<forall>j < i. transient att j \<and> ce j = None)"

lemma reached_simps [simp]:
  "reached att ce 0"
  "reached att ce (Suc i) \<longleftrightarrow> reached att ce i \<and> transient att i \<and> ce i = None"
  by (auto simp: reached_def less_Suc_eq)

lemma reached_iff:
  assumes "reached att ce k" "\<not> transient att k \<or> ce k \<noteq> None"
  shows "reached att ce i \<longleftrightarrow> i \<le> k"
  using assms unfolding reached_def by (meson dual_order.strict_trans1 not_le)

lemma retry_cases:
  obtains (first) "\<not> transient att 0" "retryWithBackoff n att ce = (att 0, [Attempt 0])"
  | (cut1) c where "transient att 0" "ce 0 = Some c" "retryWithBackoff n att ce = (Inl c, [Attempt 0, Backoff second])"
  | (second) "transient att 0" "ce 0 = None" "\<not> transient att 1"
      "retryWithBackoff n att ce = (att 1, [Attempt 0, Backoff second, Attempt 1])"
  | (cut2) c where "transient att 0" "ce 0 = None" "transient att 1" "ce 1 = Some c"
      "retryWithBackoff n att ce = (Inl c, [Attempt 0, Backoff second, Attempt 1, Backoff (2 * second)])"
  | (third) "transient att 0" "ce 0 = None" "transient att 1" "ce 1 = None" "\<not> transient att 2"
      "retryWithBackoff n att ce = (att 2, [Attempt 0, Backoff second, Attempt 1, Backoff (2 * second), Attempt 2])"
  | (exhausted) e l where "transient att 0" "ce 0 = None" "transient att 1" "ce 1 = None" "transient att 2" "att 2 = Inl e"
      "retryWithBackoff n att ce = (Inl (Exhausted l e), [Attempt 0, Backoff second, Attempt 1, Backoff (2 * second), Attempt 2])"
proof -
  have u: "retry_from l att ce i (Suc k) =
      (if transient att i
       then if k = 0 then (Inl (Exhausted l (projl (att i))), [Attempt i])
         else case ce i of Some c \<Rightarrow> (Inl c, [Attempt i, Backoff (2 ^ i * second)])
           | None \<Rightarrow> apsnd (\<lambda>es. Attempt i # Backoff (2 ^ i * second) # es) (retry_from l att ce (i + 1) k)
       else (att i, [Attempt i]))" for l i k
    by (subst retry_from.simps) (auto simp: transient_def split: sum.splits nat.splits)
  have three: "maxRetries = Suc (Suc (Suc 0))" by (simp add: maxRetries_def)
  note e = retryWithBackoff_def three u
  show thesis
  proof (cases "transient att 0")
    case t0: True
    show thesis
    proof (cases "ce 0")
      case c0: None
      show thesis
      proof (cases "transient att 1")
        case t1: True
        show thesis
        proof (cases "ce 1")
          case c1: None
          show thesis
          proof (cases "transient att 2")
            case t2: True
            then obtain x where "att 2 = Inl x" by (auto simp: transient_def split: sum.splits)
            then show thesis
              using exhausted[of x] t0 c0 t1 c1 t2 by (simp add: e numeral_2_eq_2)
          next
            case False
            then show thesis using third t0 c0 t1 c1 by (simp add: e numeral_2_eq_2)
          qed
        next
          case (Some c)
          then show thesis using cut2 t0 c0 t1 by (simp add: e)
        qed
      next
        case False
        then show thesis using second t0 c0 by (simp add: e)
      qed
    next
      case (Some c)
      then show thesis using cut1 t0 by (simp add: e)
    qed
  next
    case False
    then show thesis using first by (simp add: e)
  qed
qed

lemma retry_exhausted:
  assumes "\<And>i. i < 3 \<Longrightarrow> \<exists>e. att i = Inl e \<and> \<not> isClientError e" and "\<And>i. i < 3 \<Longrightarrow> reached att ce i"
    and "r = Inl (Exhausted l e)" and "es = [Attempt 0, Backoff second, Attempt 1, Backoff (2 * second), Attempt 2]"
  shows "(\<forall>i. i \<in> set (attempts es) \<longleftrightarrow> i < 3 \<and> reached att ce i) \<and> attempts es = [0..<length (attempts es)] \<and>
    es = take (length es) [Attempt 0, Backoff second, Attempt 1, Backoff (2 * second), Attempt 2] \<and>
    (\<forall>a. r = Inr a \<longleftrightarrow> (\<exists>i < 3. reached att ce i \<and> att i = Inr a)) \<and>
    (\<forall>i < 3. \<forall>e. reached att ce i \<and> att i = Inl e \<and> isClientError e \<longrightarrow> r = Inl e \<and> last (attempts es) = i)"
proof (intro conjI)
  have up: "[0..<3] = [0, 1, 2 :: nat]" by (simp add: upt_rec numeral_3_eq_3)
  have "i \<in> {0, 1, 2} \<longleftrightarrow> i < 3" for i :: nat by auto
  then show "\<forall>i. i \<in> set (attempts es) \<longleftrightarrow> i < 3 \<and> reached att ce i" using assms(2) by (auto simp: assms(4))
  show "attempts es = [0..<length (attempts es)]"
    "es = take (length es) [Attempt 0, Backoff second, Attempt 1, Backoff (2 * second), Attempt 2]"
    by (simp_all add: assms(4) up)
  show "\<forall>a. r = Inr a \<longleftrightarrow> (\<exists>i < 3. reached att ce i \<and> att i = Inr a)"
    "\<forall>i < 3. \<forall>e. reached att ce i \<and> att i = Inl e \<and> isClientError e \<longrightarrow> r = Inl e \<and> last (attempts es) = i"
    using assms(1) by (fastforce simp: assms(3))+
qed

text \<open>
  C24. Every callback ends after at most three requests and three seconds of sleep. Attempt \<open>i\<close> is made exactly when
  the earlier ones failed with errors worth retrying and the context outlived the sleeps; the call succeeds
  exactly when an attempt that is made succeeds, with its answer; and a client error (a 4xx, a cancellation, a
  deadline) is returned at once, as it is.
\<close>

theorem callback_retry:
  assumes "retryWithBackoff n att ce = (r, es)"
  shows "(\<forall>i. i \<in> set (attempts es) \<longleftrightarrow> i < 3 \<and> reached att ce i) \<and> attempts es = [0..<length (attempts es)] \<and>
    es = take (length es) [Attempt 0, Backoff second, Attempt 1, Backoff (2 * second), Attempt 2] \<and>
    (\<forall>a. r = Inr a \<longleftrightarrow> (\<exists>i < 3. reached att ce i \<and> att i = Inr a)) \<and>
    (\<forall>i < 3. \<forall>e. reached att ce i \<and> att i = Inl e \<and> isClientError e \<longrightarrow> r = Inl e \<and> last (attempts es) = i)"
proof -
  have r1: "reached att ce 1 \<longleftrightarrow> transient att 0 \<and> ce 0 = None" using reached_simps(2)[of att ce 0] by simp
  have r2: "reached att ce 2 \<longleftrightarrow> reached att ce 1 \<and> transient att 1 \<and> ce 1 = None"
    using reached_simps(2)[of att ce 1] by (simp add: numeral_2_eq_2)
  have up: "[0..<1] = [0]" "[0..<2] = [0, 1]" "[0..<3] = [0, 1, 2 :: nat]"
    by (simp_all add: upt_rec numeral_2_eq_2 numeral_3_eq_3)
  have le: "i \<le> 0 \<longleftrightarrow> i = 0" "i \<le> 1 \<longleftrightarrow> i = 0 \<or> i = 1" "i \<le> 2 \<longleftrightarrow> i = 0 \<or> i = 1 \<or> i = 2" "i < 3 \<longleftrightarrow> i \<le> 2" for i :: nat by auto
  have tr: "transient att i \<Longrightarrow> \<exists>e. att i = Inl e \<and> \<not> isClientError e" for i by (auto simp: transient_def split: sum.splits)
  have ce: "\<not> transient att i \<Longrightarrow> att i = Inl e \<Longrightarrow> isClientError e" for i e by (simp add: transient_def)
  show ?thesis
  proof (cases rule: retry_cases[of att n ce])
    case first
    have re: "reached att ce i \<longleftrightarrow> i = 0" for i using reached_iff[of att ce 0 i] first by simp
    show ?thesis using assms first ce[of 0] by (auto simp: re up)
  next
    case (cut1 c)
    have re: "reached att ce i \<longleftrightarrow> i = 0" for i using reached_iff[of att ce 0 i] cut1 by simp
    show ?thesis using assms cut1 tr[of 0] by (auto simp: re up)
  next
    case second
    have re: "reached att ce i \<longleftrightarrow> i = 0 \<or> i = 1" for i using reached_iff[of att ce 1 i] second r1 by (auto simp: le_Suc_eq)
    show ?thesis using assms second tr[of 0] ce[of 1] by (auto simp: re up intro: exI[of _ "Suc 0"])
  next
    case (cut2 c)
    have re: "reached att ce i \<longleftrightarrow> i = 0 \<or> i = 1" for i using reached_iff[of att ce 1 i] cut2 r1 by (auto simp: le_Suc_eq)
    show ?thesis using assms cut2 tr[of 0] tr[of 1] by (auto simp: re up)
  next
    case third
    have re: "reached att ce i \<longleftrightarrow> i = 0 \<or> i = 1 \<or> i = 2" for i using reached_iff[of att ce 2 i] third r1 r2 by (simp add: le)
    show ?thesis using assms third tr[of 0] tr[of 1] ce[of 2] by (auto simp: re up intro: exI[of _ 2])
  next
    case (exhausted e l)
    have "reached att ce i" if "i < 3" for i using that exhausted r1 r2 by (auto simp: le)
    moreover have "\<exists>e. att i = Inl e \<and> \<not> isClientError e" if "i < 3" for i
      using that tr[of 0] tr[of 1] tr[of 2] exhausted(1,3,5) by (auto simp: le)
    moreover have "r = Inl (Exhausted l e)" "es = [Attempt 0, Backoff second, Attempt 1, Backoff (2 * second), Attempt 2]"
      using assms exhausted(7) by simp_all
    ultimately show ?thesis by (intro retry_exhausted)
  qed
qed

text \<open>A request that times out is not retried, although it is a transient error in the documentation's sense.\<close>

lemma timeout_not_retried: "att 0 = Inl (Wrapped p (DeadlineExceeded t)) \<Longrightarrow>
  retryWithBackoff n att ce = (Inl (Wrapped p (DeadlineExceeded t)), [Attempt 0])"
  by (rule retry_cases[of att n ce]) (simp_all add: transient_def)

theorem callback_retry_witness:
  "fst (retryWithBackoff [] (\<lambda>i. if i = 0 then Inl (OtherError ''reset'') else Inr True) (\<lambda>i. None)) = Inr True"
proof -
  let ?a = "\<lambda>i :: nat. if i = 0 then Inl (OtherError ''reset'') else Inr True"
  obtain r es where r: "retryWithBackoff [] ?a (\<lambda>i. None) = (r, es)" by fastforce
  have "reached ?a (\<lambda>i. None) (Suc 0)" by (simp add: transient_def)
  then have "\<exists>i < 3. reached ?a (\<lambda>i. None) i \<and> ?a i = Inr True" by (intro exI[of _ "Suc 0"]) simp
  then show ?thesis using callback_retry[OF r] r by auto
qed

section \<open>The autonomous check\<close>

lemma retry_success:
  assumes "retryWithBackoff n att ce = (Inr a, es)"
  obtains i where "i < 3" "att i = Inr a" "i \<in> set (attempts es)"
proof (cases rule: retry_cases[of att n ce])
  case first
  then show ?thesis using assms that[of 0] by simp
next
  case second
  then show ?thesis using assms that[of 1] by simp
next
  case third
  then show ?thesis using assms that[of 2] by simp
qed (use assms in auto)

definition verify_answer :: "cb_client \<Rightarrow> cb_env \<Rightarrow> string \<Rightarrow> string \<Rightarrow> bool option" where
  "verify_answer cl E project cardID =
     (case fst (VerifyAutonomous cl E project cardID) of Inr b \<Rightarrow> Some b | Inl e \<Rightarrow> None)"

lemma verify_confirmed:
  assumes "verify_answer cl E project cardID = Some True"
  shows "\<exists>i < 3. \<exists>code body. i \<in> set (attempts (fst (snd (VerifyAutonomous cl E project cardID)))) \<and>
    http E i = Answer code body \<and> code < 400 \<and> card_autonomous E (take (2 ^ 20) body) = Some True"
proof -
  obtain es where r: "retryWithBackoff ''verify-autonomous'' (doVerifyAutonomous cl E (verify_url cl project cardID)) (ctx_end E) = (Inr True, es)"
    using assms by (auto simp: verify_answer_def VerifyAutonomous_def Let_def case_prod_unfold prod_eq_iff split: sum.splits)
  then obtain i where i: "i < 3" "doVerifyAutonomous cl E (verify_url cl project cardID) i = Inr True" "i \<in> set (attempts es)"
    by (rule retry_success)
  then show ?thesis using r
    by (intro exI[of _ i])
      (auto simp: doVerifyAutonomous_def VerifyAutonomous_def response_of_def Let_def
        split: option.splits sum.splits http_answer.splits if_splits)
qed

lemma attempts_bounded: "retryWithBackoff n att ce = (r, es) \<Longrightarrow> set (attempts es) \<subseteq> {..<3}"
  by (rule retry_cases[of att n ce]) auto

text \<open>What the check sends, request by request.\<close>

lemma verify_requests:
  assumes "rq \<in> set (snd (snd (VerifyAutonomous cl E project cardID)))"
  shows "hr_method rq = ''GET'' \<and> hr_body rq = [] \<and> hr_url rq = verify_url cl project cardID \<and>
    (cl_use_hmac cl \<longrightarrow> (\<exists>j < 3. \<exists>uri. deriveURI (cb_parse E) (verify_url cl project cardID) = Some uri \<and>
       hr_headers rq = [(signature_header E, ''sha256='' @
           hmac_sign E (cl_api_key cl) ''GET'' uri [] (dec_int (clock E j))), (timestamp_header E, dec_int (clock E j))]))"
proof -
  obtain r es where e: "retryWithBackoff ''verify-autonomous'' (doVerifyAutonomous cl E (verify_url cl project cardID)) (ctx_end E) = (r, es)"
    by fastforce
  obtain j hs where "j \<in> set (attempts es)" and h: "verify_headers cl E (verify_url cl project cardID) j = Some hs"
    and rq: "rq = \<lparr>hr_method = ''GET'', hr_url = verify_url cl project cardID, hr_headers = hs, hr_body = []\<rparr>"
    using assms by (fastforce simp: VerifyAutonomous_def Let_def e split: option.splits)
  then have "j < 3" using attempts_bounded[OF e] by auto
  then show ?thesis using h rq
    by (auto simp: verify_headers_def signed_headers_def Let_def split: if_splits)
qed

text \<open>
  C23. A promotion is confirmed by ContextMatrix. If \<open>/promote\<close> touches a container, one of at most three GET
  requests for exactly that card was answered with a status below 400 and a body whose autonomous flag is set;
  errors, timeouts, malformed bodies and a flag that is not set never promote. The check itself sends nothing but
  body-less GETs, and while signing is on each of them carries exactly two headers, the HMAC over the method, the
  request URI, the empty body and the time of that attempt, and that time; so no request carries the key.
\<close>

theorem promotion_confirmed_upstream:
  assumes "h_tracker (snd (handlePromote cfg (env\<lparr>verify_autonomous := verify_answer cl E\<rparr>) b s)) \<noteq> h_tracker s"
  shows "\<exists>p i code body. dec_card env b = Some p \<and> i < 3 \<and>
    i \<in> set (attempts (fst (snd (VerifyAutonomous cl E (cp_project p) (cp_card p))))) \<and>
    http E i = Answer code body \<and> code < 400 \<and> card_autonomous E (take (2 ^ 20) body) = Some True \<and>
    (\<forall>rq \<in> set (snd (snd (VerifyAutonomous cl E (cp_project p) (cp_card p)))).
       hr_method rq = ''GET'' \<and> hr_body rq = [] \<and> hr_url rq = verify_url cl (cp_project p) (cp_card p) \<and>
       (cl_use_hmac cl \<longrightarrow> (\<exists>j < 3. \<exists>uri. deriveURI (cb_parse E) (verify_url cl (cp_project p) (cp_card p)) = Some uri \<and>
          hr_headers rq = [(signature_header E, ''sha256='' @
              hmac_sign E (cl_api_key cl) ''GET'' uri [] (dec_int (clock E j))), (timestamp_header E, dec_int (clock E j))])))"
proof -
  obtain p where p: "dec_card (env\<lparr>verify_autonomous := verify_answer cl E\<rparr>) b = Some p"
    "verify_autonomous (env\<lparr>verify_autonomous := verify_answer cl E\<rparr>) (cp_project p) (cp_card p) = Some True"
    using assms by (rule promote_checked)
  then have "verify_answer cl E (cp_project p) (cp_card p) = Some True" "dec_card env b = Some p" by simp_all
  then show ?thesis
    using verify_confirmed[of cl E "cp_project p" "cp_card p"] verify_requests[of _ cl E "cp_project p" "cp_card p"]
    by blast
qed

fun hex_of :: "char \<Rightarrow> nat" where
  "hex_of c = (if is_digit c then byte c - 48 else byte c - 55)"

fun PathUnescape :: "string \<Rightarrow> string" where
  "PathUnescape [] = []"
| "PathUnescape (c # s) = (if c = CHR ''%'' \<and> 2 \<le> length s
     then char_of (16 * hex_of (s ! 0) + hex_of (s ! 1)) # PathUnescape (drop 2 s) else c # PathUnescape s)"

lemma hex_of_upper: "d < 16 \<Longrightarrow> hex_of (upper_hex d) = d"
  by (auto simp: upper_hex_def is_digit_def between_def)

lemma PathUnescape_escape: "PathUnescape (PathEscape s) = s"
proof (induction s)
  case (Cons c s)
  have "path_plain (CHR ''%'') = False" by code_simp
  moreover have "byte c div 16 < 16" using nat_of_char_less_256[of c] by (simp add: less_mult_imp_div_less)
  ultimately show ?case using Cons
    by (auto simp: PathEscape_def hex_of_upper simp del: hex_of.simps)
qed (simp add: PathEscape_def)

lemma upper_hex_plain: "d < 16 \<Longrightarrow> path_plain (upper_hex d)"
  by (auto simp: path_plain_def upper_hex_def is_alnum_def is_digit_def is_upper_def between_def)

lemma PathEscape_chars: "c \<in> set (PathEscape s) \<Longrightarrow> path_plain c \<or> c = CHR ''%''"
proof -
  have "byte x div 16 < 16" for x :: char using nat_of_char_less_256[of x] by (simp add: less_mult_imp_div_less)
  then show "c \<in> set (PathEscape s) \<Longrightarrow> path_plain c \<or> c = CHR ''%''"
    by (auto simp: PathEscape_def upper_hex_plain split: if_splits)
qed

lemma PathEscape_no_slash: "CHR ''/'' \<notin> set (PathEscape s)"
proof
  assume "CHR ''/'' \<in> set (PathEscape s)"
  then have "path_plain (CHR ''/'') \<or> CHR ''/'' = CHR ''%''" by (rule PathEscape_chars)
  moreover have "\<not> path_plain (CHR ''/'')" by code_simp
  ultimately show False by simp
qed

lemma slash_split:
  assumes "x @ CHR ''/'' # y = x' @ CHR ''/'' # y'" "CHR ''/'' \<notin> set x" "CHR ''/'' \<notin> set x'"
  shows "x = x' \<and> y = y'"
  using assms by (induction x arbitrary: x') (auto simp: Cons_eq_append_conv append_eq_Cons_conv)

text \<open>
  The check asks for the right card. Whatever bytes the project and the card id contain, the URL decodes to them
  and to nothing else: a slash, a query or a fragment in a name cannot redirect the request to another card, and
  different cards have different URLs.
\<close>

theorem verify_url_identifies_card:
  "(verify_url cl p c = verify_url cl p' c' \<longleftrightarrow> p = p' \<and> c = c') \<and>
   PathUnescape (PathEscape p) = p \<and>
   (\<forall>ch \<in> set (PathEscape p). ch \<noteq> CHR ''/'' \<and> ch \<noteq> CHR ''?'' \<and> ch \<noteq> CHR 0x23)"
proof -
  have "PathEscape p @ CHR ''/'' # PathEscape c = PathEscape p' @ CHR ''/'' # PathEscape c'"
    if "verify_url cl p c = verify_url cl p' c'"
    using that by (simp add: verify_url_def)
  then have inj: "p = p' \<and> c = c'" if "verify_url cl p c = verify_url cl p' c'"
    using that slash_split[OF _ PathEscape_no_slash PathEscape_no_slash] PathUnescape_escape by metis
  have "\<not> path_plain (CHR ''/'')" "\<not> path_plain (CHR ''?'')" "\<not> path_plain (CHR 0x23)" by code_simp+
  then have "\<forall>ch \<in> set (PathEscape p). ch \<noteq> CHR ''/'' \<and> ch \<noteq> CHR ''?'' \<and> ch \<noteq> CHR 0x23"
    by (intro ballI) (drule PathEscape_chars, auto)
  then show ?thesis using inj PathUnescape_escape by blast
qed

theorem verify_url_identifies_card_witness:
  "verify_url cl ''a/b'' ''c'' \<noteq> verify_url cl ''a'' ''b/c''"
  using verify_url_identifies_card[of cl "''a/b''" "''c''" "''a''" "''b/c''"] by simp

section \<open>What leaves the process\<close>

text \<open>
  What a caller can see of a result: its value, or the text of its error. Two attempts are alike if they look alike
  and fail in the same class; two environments are, if they differ only in the bodies of answers with an error status.
\<close>

definition visible :: "cb_error + 'a \<Rightarrow> string + 'a" where
  "visible r = map_sum Error_text id r"

definition alike :: "cb_error + 'a \<Rightarrow> cb_error + 'a \<Rightarrow> bool" where
  "alike x y \<longleftrightarrow> map_sum (\<lambda>e. (Error_text e, isClientError e)) id x = map_sum (\<lambda>e. (Error_text e, isClientError e)) id y"

fun same_answer :: "http_answer \<Rightarrow> http_answer \<Rightarrow> bool" where
  "same_answer (Answer c b) (Answer c' b') = (c = c' \<and> (c < 400 \<longrightarrow> b = b'))"
| "same_answer x y = (x = y)"

definition error_bodies_differ :: "cb_env \<Rightarrow> cb_env \<Rightarrow> bool" where
  "error_bodies_differ E E' \<longleftrightarrow> (\<exists>h. E' = E\<lparr>http := h\<rparr> \<and> (\<forall>i. same_answer (http E i) (h i)))"

lemma alike_refl [simp]: "alike x x"
  by (simp add: alike_def)

lemma alike_map: "alike x y \<Longrightarrow> alike (map_sum id f x) (map_sum id f y)"
  by (cases x; cases y) (auto simp: alike_def)

lemma alike_response: "same_answer a b \<Longrightarrow> alike (response_of parse url what a) (response_of parse url what b)"
  by (cases a; cases b) (auto simp: response_of_def newError_def alike_def Let_def)

lemma retry_alike:
  assumes "\<And>i. alike (att i) (att' i)"
  shows "visible (fst (retry_from l att ce i n)) = visible (fst (retry_from l att' ce i n)) \<and>
    snd (retry_from l att ce i n) = snd (retry_from l att' ce i n)"
proof (induction n arbitrary: i)
  case 0
  show ?case using assms[of i]
    by (subst (1 2 3 4) retry_from.simps) (auto simp: alike_def visible_def split: sum.splits)
next
  case (Suc n)
  show ?case using assms[of i] Suc[of "i + 1"]
    by (subst (1 2 3 4) retry_from.simps) (cases n; auto simp: alike_def visible_def split: sum.splits option.splits)
qed

lemma http_headers [simp]:
  "signed_headers cl (E\<lparr>http := h\<rparr>) = signed_headers cl E" "verify_headers cl (E\<lparr>http := h\<rparr>) = verify_headers cl E"
proof -
  show s: "signed_headers cl (E\<lparr>http := h\<rparr>) = signed_headers cl E" by (intro ext) (simp add: signed_headers_def)
  show "verify_headers cl (E\<lparr>http := h\<rparr>) = verify_headers cl E" by (intro ext) (simp add: verify_headers_def s)
qed

lemma verify_alike:
  assumes "error_bodies_differ E E'"
  shows "alike (doVerifyAutonomous cl E url i) (doVerifyAutonomous cl E' url i)"
proof -
  obtain h where h: "E' = E\<lparr>http := h\<rparr>" "same_answer (http E i) (h i)" using assms by (auto simp: error_bodies_differ_def)
  show ?thesis using alike_response[OF h(2), of "cb_parse E" url "''verify-autonomous''"]
    by (auto simp: doVerifyAutonomous_def h(1) alike_def split: option.split sum.splits)
qed

lemma post_alike:
  assumes "error_bodies_differ E E'"
  shows "visible (fst (post_callback cl E lbl path body)) = visible (fst (post_callback cl E' lbl path body)) \<and>
    snd (post_callback cl E lbl path body) = snd (post_callback cl E' lbl path body)"
proof -
  obtain h where h: "E' = E\<lparr>http := h\<rparr>" "\<And>i. same_answer (http E i) (h i)" using assms by (auto simp: error_bodies_differ_def)
  let ?att = "\<lambda>E i. map_sum id (\<lambda>b. ()) (response_of (cb_parse E) (cl_url cl @ path) lbl (http E i)) :: cb_error + unit"
  have "alike (?att E i) (?att E' i)" for i using alike_map[OF alike_response[OF h(2)]] by (simp add: h(1))
  from retry_alike[of "?att E" "?att E'" "TrimSpace (lbl @ '' callback'')" "ctx_end E" 0 maxRetries, OF this] show ?thesis
    by (auto simp: post_callback_def h(1) retryWithBackoff_def case_prod_unfold split: option.split)
qed

lemma key_only_signs:
  assumes "cl_use_hmac cl" and "hmac_sign E (cl_api_key cl) = hmac_sign E k"
  shows "VerifyAutonomous (cl\<lparr>cl_api_key := k\<rparr>) E p c = VerifyAutonomous cl E p c"
    and "post_callback (cl\<lparr>cl_api_key := k\<rparr>) E = post_callback cl E"
proof -
  have h: "signed_headers (cl\<lparr>cl_api_key := k\<rparr>) E = signed_headers cl E"
    by (intro ext) (simp add: signed_headers_def assms(2))
  have v: "verify_headers (cl\<lparr>cl_api_key := k\<rparr>) E = verify_headers cl E"
    by (intro ext) (simp add: verify_headers_def h assms(1))
  have d: "doVerifyAutonomous (cl\<lparr>cl_api_key := k\<rparr>) E = doVerifyAutonomous cl E"
    by (intro ext) (simp add: doVerifyAutonomous_def v)
  show "VerifyAutonomous (cl\<lparr>cl_api_key := k\<rparr>) E p c = VerifyAutonomous cl E p c"
    by (simp add: VerifyAutonomous_def v d verify_url_def)
  show "post_callback (cl\<lparr>cl_api_key := k\<rparr>) E = post_callback cl E"
    by (intro ext) (simp add: post_callback_def h split: option.split)
qed


section \<open>An instance\<close>

definition example_client :: cb_client where
  "example_client = \<lparr>cl_url = ''http://cm'', cl_api_key = ''key'', cl_use_hmac = True\<rparr>"

definition example_url :: cb_url where
  "example_url = \<lparr>cu_scheme = ''http'', cu_opaque = [], cu_user = None, cu_host = ''cm'', cu_path = ''/api'',
     cu_escaped = ''/api'', cu_force_query = False, cu_query = []\<rparr>"

definition example_cb :: cb_env where
  "example_cb = \<lparr>clock = (\<lambda>i. 1700000000 + int i), http = (\<lambda>i. Answer 200 ''{}''), ctx_end = (\<lambda>i. None),
     cb_parse = (\<lambda>u. Some example_url), signature_header = ''S'', timestamp_header = ''T'',
     hmac_sign = (\<lambda>k m u b t. ''00''), status_json = (\<lambda>c p s m. []), skill_json = (\<lambda>c p s. []),
     card_autonomous = (\<lambda>b. Some True), json_failure = (\<lambda>b. ''unexpected end of JSON input''),
     parse_failure = (\<lambda>u. ''missing protocol scheme''), quoted_url = (\<lambda>u. CHR 0x22 # u @ [CHR 0x22])\<rparr>"

lemma example_verified: "verify_answer example_client example_cb = (\<lambda>p c. Some True)"
proof (intro ext)
  fix p c
  have a: "doVerifyAutonomous example_client example_cb (verify_url example_client p c) i = Inr True" for i
    by (simp add: doVerifyAutonomous_def verify_headers_def deriveURI_def example_client_def example_cb_def
        response_of_def Let_def)
  have "fst (retryWithBackoff ''verify-autonomous'' (doVerifyAutonomous example_client example_cb (verify_url example_client p c))
      (ctx_end example_cb)) = Inr True"
    by (rule retry_cases[of "doVerifyAutonomous example_client example_cb (verify_url example_client p c)" "''verify-autonomous''" "ctx_end example_cb"])
      (simp_all add: a transient_def)
  then show "verify_answer example_client example_cb p c = Some True"
    by (simp add: verify_answer_def VerifyAutonomous_def Let_def case_prod_unfold)
qed

theorem promotion_confirmed_upstream_witness:
  "\<exists>i code body. i < 3 \<and> http example_cb i = Answer code body \<and> code < 400 \<and>
     h_tracker (snd (handlePromote example_cfg (example_call\<lparr>verify_autonomous := verify_answer example_client example_cb\<rparr>) [] example_served))
       \<noteq> h_tracker example_served"
proof -
  have e: "example_call\<lparr>verify_autonomous := verify_answer example_client example_cb\<rparr> = example_call"
    unfolding example_verified by (simp add: example_call_def example_env_def call_env.defs)
  have c: "h_tracker (snd (handlePromote example_cfg (example_call\<lparr>verify_autonomous := verify_answer example_client example_cb\<rparr>) [] example_served))
       \<noteq> h_tracker example_served"
    unfolding e by (rule example_promoted)
  show ?thesis using promotion_confirmed_upstream[OF c] c by blast
qed


end
