(* ===== verification/Health.thy ===== *)
theory Health
  imports Reconcile Config Callback
begin

text \<open>
  What watches the dependencies: the dockerd health monitor (\<open>internal/container/health_monitor.go\<close>), the
  preflight checks (\<open>internal/preflight/preflight.go\<close>, wired by \<open>buildProbes\<close> of \<open>main.go\<close> and, for
  ContextMatrix, by \<open>Client.Ping\<close>) and the maintenance loop of \<open>main.go\<close>. A loop reads the list of the
  events its \<open>select\<close> sees, one per round; a probe answers \<open>Ok\<close>, \<open>Fail\<close> or panics.
\<close>

section \<open>The dockerd health monitor\<close>

definition healthFailureLimit :: nat where "healthFailureLimit = 3"

text \<open>A failed ping carries whether its error is \<open>context.Canceled\<close> and whether the parent context has ended.\<close>

datatype ping_result = PingOk | PingFailed bool bool | PingPanics

datatype monitor_event = MonitorDone | MonitorTick ping_result

text \<open>One round: (exit, exitForce) and the failure counter. \<open>exitFn(1)\<close> is called exactly when exitForce is set.\<close>

definition count_failure :: "nat \<Rightarrow> (bool \<times> bool) \<times> nat" where
  "count_failure failures = ((False, failures + 1 \<ge> healthFailureLimit), failures + 1)"

fun runOneIteration :: "monitor_event \<Rightarrow> nat \<Rightarrow> (bool \<times> bool) \<times> nat" where
  "runOneIteration MonitorDone failures = ((True, False), failures)"
| "runOneIteration (MonitorTick PingOk) failures = ((False, False), 0)"
| "runOneIteration (MonitorTick (PingFailed canceled ended)) failures =
     (if canceled \<or> ended then ((True, False), failures) else count_failure failures)"
| "runOneIteration (MonitorTick PingPanics) failures = count_failure failures"

datatype monitor_state = Watching nat | Stopped | Exited int

fun MonitorDockerd :: "monitor_event list \<Rightarrow> nat \<Rightarrow> monitor_state" where
  "MonitorDockerd [] failures = Watching failures"
| "MonitorDockerd (e # es) failures =
     (case runOneIteration e failures of
        ((exit, exitForce), failures') \<Rightarrow>
          if exitForce then Exited 1 else if exit then Stopped else MonitorDockerd es failures')"

section \<open>Preflight\<close>

definition defaultDockerPingTimeout :: duration where "defaultDockerPingTimeout = 5 * second"
definition defaultImageInspectTimeout :: duration where "defaultImageInspectTimeout = 5 * second"
definition defaultGitHubTokenTimeout :: duration where "defaultGitHubTokenTimeout = 10 * second"
definition defaultContextMatrixTimeout :: duration where "defaultContextMatrixTimeout = 5 * second"
definition DefaultRetryInterval :: duration where "DefaultRetryInterval = 30 * second"

text \<open>A probe gets its timeout and the number of the preflight run it belongs to: its answer may change from run to run.\<close>

type_synonym probe = "duration \<Rightarrow> nat \<Rightarrow> unit answer"

record probes =
  DockerPing :: "probe option"
  ImageInspect :: "probe option"
  GitHubToken :: "probe option"
  ContextMatrixPing :: "probe option"
  DockerTimeout :: duration
  ImageInspectTimeout :: duration
  GitHubTimeout :: duration
  ContextMatrixTimeout :: duration

record preflight_result =
  DockerErr :: "string option"
  ImageInspectErr :: "string option"
  GitHubErr :: "string option"
  ContextMatrixErr :: "string option"

definition preflight_OK :: "preflight_result \<Rightarrow> bool" where
  "preflight_OK r \<longleftrightarrow> DockerErr r = None \<and> ImageInspectErr r = None \<and> GitHubErr r = None \<and> ContextMatrixErr r = None"

definition preflight_Err :: "preflight_result \<Rightarrow> string option" where
  "preflight_Err r = (case (DockerErr r, ImageInspectErr r, GitHubErr r, ContextMatrixErr r) of
       (Some e, _) \<Rightarrow> Some (''docker ping: '' @ e)
     | (None, Some e, _) \<Rightarrow> Some (''image inspect: '' @ e)
     | (None, None, Some e, _) \<Rightarrow> Some (''github token: '' @ e)
     | (None, None, None, Some e) \<Rightarrow> Some (''contextmatrix ping: '' @ e)
     | (None, None, None, None) \<Rightarrow> None)"

definition firstNonZero :: "duration \<Rightarrow> duration \<Rightarrow> duration" where
  "firstNonZero d fallback = (if d > 0 then d else fallback)"

text \<open>The error of the probe, \<open>None\<close> for \<open>nil\<close>; a panic unwinds.\<close>

definition runProbe :: "nat \<Rightarrow> probe option \<Rightarrow> duration \<Rightarrow> string option answer" where
  "runProbe n fn timeout = (case fn of
       None \<Rightarrow> Ok None
     | Some f \<Rightarrow> (case f timeout n of Ok _ \<Rightarrow> Ok None | Fail e \<Rightarrow> Ok (Some e) | Panic p \<Rightarrow> Panic p))"

definition and_then :: "'a answer \<Rightarrow> ('a \<Rightarrow> 'b answer) \<Rightarrow> 'b answer" where
  "and_then a f = (case a of Ok x \<Rightarrow> f x | Fail e \<Rightarrow> Fail e | Panic p \<Rightarrow> Panic p)"

definition preflight_Run :: "probes \<Rightarrow> nat \<Rightarrow> preflight_result answer" where
  "preflight_Run p n =
     and_then (runProbe n (DockerPing p) (firstNonZero (DockerTimeout p) defaultDockerPingTimeout)) (\<lambda>docker.
     and_then (runProbe n (ImageInspect p) (firstNonZero (ImageInspectTimeout p) defaultImageInspectTimeout)) (\<lambda>image.
     and_then (runProbe n (GitHubToken p) (firstNonZero (GitHubTimeout p) defaultGitHubTokenTimeout)) (\<lambda>github.
     and_then (runProbe n (ContextMatrixPing p) (firstNonZero (ContextMatrixTimeout p) defaultContextMatrixTimeout)) (\<lambda>cm.
       Ok \<lparr>DockerErr = docker, ImageInspectErr = image, GitHubErr = github, ContextMatrixErr = cm\<rparr>))))"

text \<open>The flag that \<open>/readyz\<close> reads and the number of \<open>onSuccess\<close> calls.\<close>

record preflight_state =
  passed :: bool
  successes :: nat

definition preflight_pass :: "preflight_state \<Rightarrow> preflight_state" where
  "preflight_pass s = s\<lparr>passed := True, successes := successes s + 1\<rparr>"

datatype retry_round = RetryDone | RetryTick

datatype loop_end = Retrying nat | LoopPassed | LoopCancelled | LoopPanicked string

fun retryLoop :: "probes \<Rightarrow> nat \<Rightarrow> retry_round list \<Rightarrow> preflight_state \<Rightarrow> loop_end \<times> preflight_state" where
  "retryLoop p n [] s = (Retrying n, s)"
| "retryLoop p n (RetryDone # rs) s = (LoopCancelled, s)"
| "retryLoop p n (RetryTick # rs) s =
     (case preflight_Run p n of
        Ok r \<Rightarrow> if preflight_OK r then (LoopPassed, preflight_pass s) else retryLoop p (n + 1) rs s
      | Fail e \<Rightarrow> retryLoop p (n + 1) rs s
      | Panic e \<Rightarrow> (LoopPanicked e, s))"

text \<open>The first run is number 0, on the caller's goroutine, where a panic is not recovered: \<open>None\<close>.\<close>

definition preflight_Loop :: "probes \<Rightarrow> retry_round list \<Rightarrow> preflight_state \<Rightarrow> (loop_end \<times> preflight_state) option" where
  "preflight_Loop p rs s = (case preflight_Run p 0 of
       Ok r \<Rightarrow> Some (if preflight_OK r then (LoopPassed, preflight_pass s) else retryLoop p 1 rs s)
     | Fail e \<Rightarrow> Some (retryLoop p 1 rs s)
     | Panic e \<Rightarrow> None)"

definition buildProbes :: "config \<Rightarrow> probe \<Rightarrow> (string \<Rightarrow> probe) \<Rightarrow> probe \<Rightarrow> probe \<Rightarrow> probes" where
  "buildProbes cfg ping inspect generate_token cm_ping =
     \<lparr>DockerPing = Some ping,
      ImageInspect = (if c_image_pull_policy cfg = PullNever then Some (inspect (c_base_image cfg)) else None),
      GitHubToken = Some generate_token, ContextMatrixPing = Some cm_ping,
      DockerTimeout = 0, ImageInspectTimeout = 0, GitHubTimeout = 0, ContextMatrixTimeout = 0\<rparr>"

section \<open>The reachability probe of ContextMatrix\<close>

text \<open>\<open>net.SplitHostPort\<close> and \<open>net.JoinHostPort\<close> of the standard library.\<close>

definition SplitHostPort :: "string \<Rightarrow> (string \<times> string) option" where
  "SplitHostPort hp =
     (if CHR '':'' \<notin> set hp then None
      else
        let port = rev (takeWhile (\<lambda>c. c \<noteq> CHR '':'') (rev hp));
            i = length hp - length port - 1
        in if hd hp = CHR ''['' then
             (if CHR '']'' \<notin> set hp then None
              else let e = length (takeWhile (\<lambda>c. c \<noteq> CHR '']'') hp) in
                if e + 1 = length hp \<or> e + 1 \<noteq> i then None
                else if CHR ''['' \<in> set (drop 1 hp) \<or> CHR '']'' \<in> set (drop (e + 1) hp) then None
                else Some (take (e - 1) (drop 1 hp), port))
           else if CHR '':'' \<in> set (take i hp) \<or> CHR ''['' \<in> set hp \<or> CHR '']'' \<in> set hp then None
           else Some (take i hp, port))"

definition JoinHostPort :: "string \<Rightarrow> string \<Rightarrow> string" where
  "JoinHostPort host port =
     (if CHR '':'' \<in> set host then ''['' @ host @ '']:'' @ port else host @ '':'' @ port)"

text \<open>The address \<open>Client.Ping\<close> dials, and its result for a \<open>dial\<close> that answers per address.\<close>

definition ping_address :: "cb_url \<Rightarrow> string" where
  "ping_address u = (case SplitHostPort (cu_host u) of
       Some _ \<Rightarrow> cu_host u
     | None \<Rightarrow> JoinHostPort (cu_host u) (if cu_scheme u = ''https'' then ''443'' else ''80''))"

definition client_Ping :: "(string \<Rightarrow> cb_url option) \<Rightarrow> (string \<Rightarrow> string option) \<Rightarrow> cb_client \<Rightarrow> string option" where
  "client_Ping parse dial c = (case parse (cl_url c) of
       None \<Rightarrow> Some ''parse contextmatrix_url''
     | Some u \<Rightarrow>
         if cu_host u = [] then Some (''contextmatrix_url has empty host: '' @ cl_url c)
         else map_option (\<lambda>e. ''dial contextmatrix '' @ ping_address u @ '': '' @ e) (dial (ping_address u)))"

section \<open>The maintenance loop\<close>

definition maintenanceSweepResumeAge :: duration where "maintenanceSweepResumeAge = 3600 * second"

text \<open>What a tick sees of the world: Docker, the prune call, the file system and the clock.\<close>

record maintenance_env =
  me_docker :: docker_env
  me_prune_ok :: bool
  me_read_dir :: "string \<Rightarrow> (string \<times> time option) list option"
  me_join :: "string \<Rightarrow> string \<Rightarrow> string"
  me_tmp :: string
  me_now :: time

definition runMaintenanceTick :: "manager_config \<Rightarrow> maintenance_env \<Rightarrow> manager \<Rightarrow> manager" where
  "runMaintenanceTick cfg e m =
     SweepStaleChatResumeDirs cfg (me_read_dir e) (me_join e) (me_tmp e) (me_now e) maintenanceSweepResumeAge
       (snd (PruneImages (me_prune_ok e) (snd (CleanupOrphans (me_docker e) m))))"

text \<open>
  A round is the end of the context or a tick with the drain flag and the world of that moment. Between rounds
  the rest of the runner works on the manager (\<open>MaintOther\<close>).
\<close>

datatype maintenance_round = MaintDone | MaintTick bool maintenance_env | MaintOther "manager \<Rightarrow> manager"

datatype loop_state = LoopWaiting | LoopReturned

fun maintenance_rounds :: "manager_config \<Rightarrow> maintenance_round list \<Rightarrow> manager \<Rightarrow> loop_state \<times> manager" where
  "maintenance_rounds cfg [] m = (LoopWaiting, m)"
| "maintenance_rounds cfg (MaintDone # rs) m = (LoopReturned, m)"
| "maintenance_rounds cfg (MaintOther f # rs) m = maintenance_rounds cfg rs (f m)"
| "maintenance_rounds cfg (MaintTick draining e # rs) m =
     (if draining then (LoopReturned, m) else maintenance_rounds cfg rs (runMaintenanceTick cfg e m))"

fun wait_done :: "maintenance_round list \<Rightarrow> manager \<Rightarrow> loop_state \<times> manager" where
  "wait_done [] m = (LoopWaiting, m)"
| "wait_done (MaintDone # rs) m = (LoopReturned, m)"
| "wait_done (MaintOther f # rs) m = wait_done rs (f m)"
| "wait_done (MaintTick _ _ # rs) m = wait_done rs m"

definition runMaintenanceLoop ::
  "manager_config \<Rightarrow> duration \<Rightarrow> maintenance_round list \<Rightarrow> manager \<Rightarrow> loop_state \<times> manager" where
  "runMaintenanceLoop cfg interval rs m =
     (if interval \<le> 0 then wait_done rs m else maintenance_rounds cfg rs m)"

section \<open>The monitor restarts the runner exactly on three failures in a row\<close>

definition bad_probe :: "monitor_event \<Rightarrow> bool" where
  "bad_probe e \<longleftrightarrow> e = MonitorTick PingPanics \<or> e = MonitorTick (PingFailed False False)"

definition ends_watch :: "monitor_event \<Rightarrow> bool" where
  "ends_watch e \<longleftrightarrow> (e = MonitorDone \<or> (\<exists>a b. e = MonitorTick (PingFailed a b) \<and> (a \<or> b)))"

definition good_probe :: "monitor_event \<Rightarrow> bool" where
  "good_probe e \<longleftrightarrow> e = MonitorTick PingOk"

lemma event_kinds:
  obtains (bad) "bad_probe e" "\<not> ends_watch e" "runOneIteration e n = count_failure n"
  | (ends) "\<not> bad_probe e" "ends_watch e" "runOneIteration e n = ((True, False), n)"
  | (good) "\<not> bad_probe e" "\<not> ends_watch e" "runOneIteration e n = ((False, False), 0)"
proof (cases e)
  case MonitorDone
  then show ?thesis using ends by (simp add: bad_probe_def ends_watch_def)
next
  case (MonitorTick r)
  then show ?thesis
    using bad ends good by (cases r) (auto simp: bad_probe_def ends_watch_def split: if_splits)
qed

text \<open>Three bad probes in a row before the watch ends; \<open>strikes n\<close>: where \<open>n\<close> have just been seen.\<close>

definition strikes :: "nat \<Rightarrow> monitor_event list \<Rightarrow> bool" where
  "strikes n es \<longleftrightarrow> (\<exists>pre bad post. es = pre @ bad @ post \<and> list_all bad_probe bad \<and>
     length bad + (if pre = [] then n else 0) = healthFailureLimit \<and> \<not> list_ex ends_watch pre)"

lemma strikes_Nil: "n < healthFailureLimit \<Longrightarrow> \<not> strikes n []"
  by (simp add: strikes_def)

lemma strikes_ends: "ends_watch e \<Longrightarrow> \<not> bad_probe e \<Longrightarrow> n < healthFailureLimit \<Longrightarrow> \<not> strikes n (e # es)"
  by (auto simp: strikes_def Cons_eq_append_conv)

lemma strikes_later:
  assumes "\<not> ends_watch e" and "strikes 0 es"
  shows "strikes n (e # es)"
proof -
  obtain pre bad post where "es = pre @ bad @ post" "list_all bad_probe bad" "length bad = healthFailureLimit"
      "\<not> list_ex ends_watch pre"
    using assms(2) by (auto simp: strikes_def split: if_splits)
  then show ?thesis
    unfolding strikes_def using assms(1)
    by (intro exI[of _ "e # pre"] exI[of _ bad] exI[of _ post]) simp
qed

lemma strikes_good:
  assumes "\<not> ends_watch e" and "\<not> bad_probe e" and "n < healthFailureLimit"
  shows "strikes n (e # es) \<longleftrightarrow> strikes 0 es"
proof
  assume "strikes n (e # es)"
  then show "strikes 0 es"
    using assms unfolding strikes_def by (fastforce simp: Cons_eq_append_conv)
qed (rule strikes_later[OF assms(1)])

lemma strikes_bad:
  assumes bad: "bad_probe e" and notend: "\<not> ends_watch e" and n: "n < healthFailureLimit"
  shows "strikes n (e # es) \<longleftrightarrow> n + 1 = healthFailureLimit \<or> strikes (n + 1) es"
proof
  assume "strikes n (e # es)"
  then obtain pre b post where s: "e # es = pre @ b @ post" "list_all bad_probe b"
      "length b + (if pre = [] then n else 0) = healthFailureLimit" "\<not> list_ex ends_watch pre"
    by (auto simp: strikes_def)
  show "n + 1 = healthFailureLimit \<or> strikes (n + 1) es"
  proof (cases pre)
    case Nil
    with s n obtain b' where b: "b = e # b'" "es = b' @ post" by (cases b) auto
    show ?thesis
      unfolding strikes_def using s Nil b by (intro disjI2 exI[of _ "[]"] exI[of _ b'] exI[of _ post]) simp
  next
    case (Cons x pre')
    show ?thesis
    proof (cases pre')
      case Nil
      have b: "b = take (healthFailureLimit - (n + 1)) b @ drop (healthFailureLimit - (n + 1)) b"
          "length (take (healthFailureLimit - (n + 1)) b) = healthFailureLimit - (n + 1)"
        using s(3) Cons by simp_all
      then obtain b1 b2 where b: "b = b1 @ b2" "length b1 = healthFailureLimit - (n + 1)" by blast
      show ?thesis
        unfolding strikes_def using s Cons Nil b n
        by (intro disjI2 exI[of _ "[]"] exI[of _ b1] exI[of _ "b2 @ post"]) simp
    next
      case Cons': (Cons y pre'')
      show ?thesis
        unfolding strikes_def using s Cons Cons'
        by (intro disjI2 exI[of _ pre'] exI[of _ b] exI[of _ post]) simp
    qed
  qed
next
  assume "n + 1 = healthFailureLimit \<or> strikes (n + 1) es"
  then show "strikes n (e # es)"
  proof
    assume "n + 1 = healthFailureLimit"
    then show ?thesis
      unfolding strikes_def using bad by (intro exI[of _ "[]"] exI[of _ "[e]"] exI[of _ es]) simp
  next
    assume "strikes (n + 1) es"
    then obtain pre b post where s: "es = pre @ b @ post" "list_all bad_probe b"
        "length b + (if pre = [] then n + 1 else 0) = healthFailureLimit" "\<not> list_ex ends_watch pre"
      unfolding strikes_def by blast
    show ?thesis
    proof (cases pre)
      case Nil
      then show ?thesis
        unfolding strikes_def using s bad by (intro exI[of _ "[]"] exI[of _ "e # b"] exI[of _ post]) simp
    next
      case (Cons x pre')
      then show ?thesis
        unfolding strikes_def using s notend by (intro exI[of _ "e # pre"] exI[of _ b] exI[of _ post]) simp
    qed
  qed
qed

lemma monitor_strikes:
  assumes "n < healthFailureLimit"
  shows "MonitorDockerd es n = Exited 1 \<longleftrightarrow> strikes n es"
  using assms
proof (induction es arbitrary: n)
  case (Cons e es)
  have zero: "0 < healthFailureLimit" by (simp add: healthFailureLimit_def)
  show ?case
  proof (cases rule: event_kinds[of e n])
    case bad
    then show ?thesis
      using Cons strikes_bad[OF bad(1,2) Cons.prems] by (auto simp: count_failure_def)
  next
    case ends
    then show ?thesis using strikes_ends Cons.prems by simp
  next
    case good
    then show ?thesis using Cons.IH[OF zero] strikes_good Cons.prems by simp
  qed
qed (simp add: strikes_Nil)

lemma monitor_exit_code: "MonitorDockerd es n = Exited c \<Longrightarrow> c = 1"
  by (induction es n rule: MonitorDockerd.induct) (auto split: prod.splits if_splits)

text \<open>
  C27. The dockerd monitor kills the process exactly when it has to. For every sequence of probe outcomes, panics
  included, the runner exits (always with code 1) if and only if three failed or panicking probes follow one
  another before the context ends or a probe is cut short by its end; single failures with a success between
  them never add up, and an orderly shutdown is never turned into an exit.
\<close>

theorem monitor_restart_exact:
  "(\<exists>code. MonitorDockerd es 0 = Exited code) \<longleftrightarrow>
    (\<exists>pre bad post. es = pre @ bad @ post \<and> list_all bad_probe bad \<and> length bad = 3 \<and> \<not> list_ex ends_watch pre)"
proof -
  have "(\<exists>code. MonitorDockerd es 0 = Exited code) \<longleftrightarrow> strikes 0 es"
    using monitor_strikes[of 0 es] monitor_exit_code by (auto simp: healthFailureLimit_def)
  then show ?thesis by (simp add: strikes_def healthFailureLimit_def)
qed

section \<open>Readiness follows the dependencies\<close>

definition run_ok :: "probes \<Rightarrow> nat \<Rightarrow> bool" where
  "run_ok p n = (case preflight_Run p n of Ok r \<Rightarrow> preflight_OK r | _ \<Rightarrow> False)"

definition run_fails :: "probes \<Rightarrow> nat \<Rightarrow> bool" where
  "run_fails p n = (case preflight_Run p n of Ok r \<Rightarrow> \<not> preflight_OK r | Fail e \<Rightarrow> True | Panic e \<Rightarrow> False)"

definition ticks :: "retry_round list \<Rightarrow> nat" where
  "ticks rs = length (takeWhile (\<lambda>r. r = RetryTick) rs)"

definition recovers_at :: "probes \<Rightarrow> nat \<Rightarrow> nat \<Rightarrow> bool" where
  "recovers_at p n k \<longleftrightarrow> run_ok p (n + k) \<and> (\<forall>j<k. run_fails p (n + j))"

lemma ticks_simps [simp]:
  "ticks [] = 0" "ticks (RetryDone # rs) = 0" "ticks (RetryTick # rs) = Suc (ticks rs)"
  by (simp_all add: ticks_def)

lemma recovers_0 [simp]: "recovers_at p n 0 = run_ok p n"
  by (simp add: recovers_at_def)

lemma recovers_Suc: "recovers_at p n (Suc k) \<longleftrightarrow> run_fails p n \<and> recovers_at p (Suc n) k"
  by (auto simp: recovers_at_def less_Suc_eq_0_disj)

lemma recovers_split:
  "(\<exists>k < Suc t. recovers_at p n k) \<longleftrightarrow> run_ok p n \<or> run_fails p n \<and> (\<exists>k < t. recovers_at p (Suc n) k)"
  by (auto simp: less_Suc_eq_0_disj recovers_Suc)

lemma run_kinds: "run_ok p n \<Longrightarrow> \<not> run_fails p n"
  by (simp add: run_ok_def run_fails_def split: answer.splits)

lemma retry_gate:
  "snd (retryLoop p n rs s) = (if \<exists>k < ticks rs. recovers_at p n k then preflight_pass s else s)"
proof (induction p n rs s rule: retryLoop.induct)
  case (3 p n rs s)
  show ?case
  proof (cases "preflight_Run p n")
    case (Ok r)
    then show ?thesis
      using 3(1)[OF Ok] by (cases "preflight_OK r") (simp_all add: recovers_split run_ok_def run_fails_def)
  next
    case (Fail e)
    then show ?thesis using 3(2)[OF Fail] by (simp add: recovers_split run_ok_def run_fails_def)
  next
    case (Panic e)
    then show ?thesis by (simp add: recovers_split run_ok_def run_fails_def)
  qed
qed simp_all

lemma loop_gate:
  assumes "preflight_Loop p rs s = Some (e, s')"
  shows "s' = (if \<exists>k < Suc (ticks rs). recovers_at p 0 k then preflight_pass s else s)"
proof -
  have later: "snd (retryLoop p 1 rs s) = (if \<exists>k < ticks rs. recovers_at p (Suc 0) k then preflight_pass s else s)"
    using retry_gate[of p 1 rs s] by simp
  have s': "s' = snd (the (preflight_Loop p rs s))" using assms by simp
  show ?thesis
  proof (cases "preflight_Run p 0")
    case (Ok r)
    then show ?thesis
      using later unfolding s'
      by (cases "preflight_OK r") (simp_all add: preflight_Loop_def recovers_split run_ok_def run_fails_def)
  next
    case (Fail e)
    then show ?thesis
      using later unfolding s' by (simp add: preflight_Loop_def recovers_split run_ok_def run_fails_def)
  qed (use assms in \<open>simp add: preflight_Loop_def\<close>)
qed

text \<open>What one run of the production probes finds.\<close>

definition all_reachable ::
  "config \<Rightarrow> probe \<Rightarrow> (string \<Rightarrow> probe) \<Rightarrow> probe \<Rightarrow> probe \<Rightarrow> nat \<Rightarrow> bool" where
  "all_reachable cfg ping inspect token cm n \<longleftrightarrow>
     ping (5 * second) n = Ok () \<and> token (10 * second) n = Ok () \<and> cm (5 * second) n = Ok () \<and>
     (c_image_pull_policy cfg = PullNever \<longrightarrow> inspect (c_base_image cfg) (5 * second) n = Ok ())"

definition panic_free :: "'a answer \<Rightarrow> bool" where
  "panic_free a = (case a of Panic _ \<Rightarrow> False | _ \<Rightarrow> True)"

lemmas probe_defs = preflight_Run_def buildProbes_def runProbe_def and_then_def firstNonZero_def preflight_OK_def
  defaultDockerPingTimeout_def defaultImageInspectTimeout_def defaultGitHubTokenTimeout_def
  defaultContextMatrixTimeout_def

lemma built_run_ok:
  "run_ok (buildProbes cfg ping inspect token cm) n \<longleftrightarrow> all_reachable cfg ping inspect token cm n"
  by (auto simp: run_ok_def all_reachable_def probe_defs split: answer.splits)

lemma built_run_fails:
  assumes "panic_free (ping (5 * second) n)" "panic_free (token (10 * second) n)" "panic_free (cm (5 * second) n)"
    and "panic_free (inspect (c_base_image cfg) (5 * second) n)"
  shows "run_fails (buildProbes cfg ping inspect token cm) n \<longleftrightarrow> \<not> all_reachable cfg ping inspect token cm n"
  using assms
  by (auto simp: run_fails_def all_reachable_def probe_defs panic_free_def split: answer.splits)

abbreviation preflight_start :: preflight_state where
  "preflight_start \<equiv> \<lparr>passed = False, successes = 0\<rparr>"

text \<open>
  C26. The runner reports ready exactly when its dependencies have been seen to work. For the probes that
  \<open>main.go\<close> wires and every sequence of retry ticks, \<open>/readyz\<close> answers 200 if and only if the runner is not
  draining and some preflight run among the first and the ticks before the context ended found dockerd, the
  GitHub credential, ContextMatrix and (under the policy \<open>never\<close>, and only then) the base image all answering
  within their own timeouts, every earlier run having ended with an error and not a panic; otherwise it answers
  503, and the success callback ran exactly once if preflight passed and never otherwise.
\<close>

theorem ready_needs_dependencies:
  assumes "preflight_Loop (buildProbes cfg ping inspect token cm) rs preflight_start = Some (e, s)"
    and "h_health hs = Some \<lparr>PreflightPassed = passed s, Draining = d\<rparr>"
  shows "(rs_status (handleReadyz hs) = 200 \<longleftrightarrow>
      \<not> d \<and> (\<exists>k \<le> ticks rs. all_reachable cfg ping inspect token cm k \<and>
                (\<forall>j<k. run_fails (buildProbes cfg ping inspect token cm) j))) \<and>
    rs_status (handleReadyz hs) = (if passed s \<and> \<not> d then 200 else 503) \<and>
    successes s = (if passed s then 1 else 0)"
proof -
  have s: "s = (if \<exists>k < Suc (ticks rs). recovers_at (buildProbes cfg ping inspect token cm) 0 k
                then preflight_pass preflight_start else preflight_start)"
    using loop_gate[OF assms(1)] .
  then have "passed s \<longleftrightarrow> (\<exists>k < Suc (ticks rs). recovers_at (buildProbes cfg ping inspect token cm) 0 k)"
    by (simp add: preflight_pass_def)
  then have p: "passed s \<longleftrightarrow> (\<exists>k \<le> ticks rs. all_reachable cfg ping inspect token cm k \<and>
                (\<forall>j<k. run_fails (buildProbes cfg ping inspect token cm) j))"
    by (simp add: recovers_at_def built_run_ok less_Suc_eq_le)
  have "rs_status (handleReadyz hs) = (if passed s \<and> \<not> d then 200 else 503)"
    using assms(2) by (simp add: handleReadyz_def respond_def)
  moreover have "successes s = (if passed s then 1 else 0)"
    using s by (simp add: preflight_pass_def)
  ultimately show ?thesis using p by auto
qed

text \<open>
  A panic in a retried probe pins the runner at 503. The deferred recover of \<open>retryLoop\<close> sits outside its
  loop, so once a run after the first panics, no later tick runs a probe: whatever the dependencies answer from
  then on, preflight is never passed and \<open>/readyz\<close> stays at 503 until the process is restarted.
\<close>

theorem preflight_panic_is_final:
  assumes "0 < k" and "\<forall>j<k. run_fails p j" and "preflight_Run p k = Panic msg"
    and "preflight_Loop p rs preflight_start = Some (e, s)"
    and "h_health hs = Some \<lparr>PreflightPassed = passed s, Draining = d\<rparr>"
  shows "\<not> passed s \<and> rs_status (handleReadyz hs) = 503"
proof -
  have "\<not> recovers_at p 0 j" for j
  proof (cases j k rule: linorder_cases)
    case less
    then show ?thesis using assms(2) run_kinds by (auto simp: recovers_at_def)
  next
    case equal
    then show ?thesis using assms(3) by (simp add: recovers_at_def run_ok_def)
  next
    case greater
    then have "\<not> run_fails p k \<and> k < j" using assms(3) by (simp add: run_fails_def)
    then show ?thesis by (auto simp: recovers_at_def)
  qed
  then have "\<not> passed s" using loop_gate[OF assms(4)] by simp
  then show ?thesis using assms(5) by (simp add: handleReadyz_def respond_def)
qed

section \<open>The address that is dialled\<close>

definition host_chars :: "string \<Rightarrow> bool" where
  "host_chars h \<longleftrightarrow> CHR ''['' \<notin> set h \<and> CHR '']'' \<notin> set h"

lemma takeWhile_until: "c \<notin> set xs \<Longrightarrow> takeWhile (\<lambda>x. x \<noteq> c) (xs @ c # ys) = xs"
  by (induction xs) auto

lemma last_colon:
  "CHR '':'' \<notin> set p \<Longrightarrow> rev (takeWhile (\<lambda>c. c \<noteq> CHR '':'') (rev (h @ CHR '':'' # p))) = p"
  by (simp add: takeWhile_until)

lemma split_join:
  assumes "host_chars h" and "host_chars p" and "CHR '':'' \<notin> set p"
  shows "SplitHostPort (JoinHostPort h p) = Some (h, p)"
proof (cases "CHR '':'' \<in> set h")
  case True
  have tail: "takeWhile (\<lambda>c. c \<noteq> CHR '']'') (CHR ''['' # h @ CHR '']'' # CHR '':'' # p) = CHR ''['' # h"
    using assms(1) by (simp add: takeWhile_until host_chars_def)
  show ?thesis
    using True assms last_colon[of p "CHR ''['' # h @ [CHR '']'']"] tail
    by (simp add: SplitHostPort_def JoinHostPort_def Let_def host_chars_def)
next
  case False
  have hd: "hd (h @ CHR '':'' # p) \<noteq> CHR ''[''"
    using assms(1) by (cases h) (auto simp: host_chars_def)
  show ?thesis
    using False assms last_colon[of p h] hd
    by (simp add: SplitHostPort_def JoinHostPort_def Let_def host_chars_def)
qed

lemma split_no_colon: "CHR '':'' \<notin> set h \<Longrightarrow> SplitHostPort h = None"
  by (simp add: SplitHostPort_def)

text \<open>
  The ContextMatrix probe dials the address that the URL means. For a URL whose host is a name without a
  port, or any host and port joined the way \<open>net/url\<close> writes them, the dialled address splits back into exactly
  that host and the given port, the default being 443 for \<open>https\<close> and 80 otherwise; an empty host or a
  URL that does not parse is an error that dials nothing.
\<close>

theorem ping_dials_the_url:
  assumes "parse (cl_url c) = Some u" and "cu_host u \<noteq> []" and "host_chars h"
    and "cu_host u = h \<and> CHR '':'' \<notin> set h \<and> p = (if cu_scheme u = ''https'' then ''443'' else ''80'') \<or>
         cu_host u = JoinHostPort h p \<and> host_chars p \<and> CHR '':'' \<notin> set p"
  shows "SplitHostPort (ping_address u) = Some (h, p) \<and>
    (client_Ping parse dial c = None \<longleftrightarrow> dial (ping_address u) = None)"
proof -
  have "ping_address u = JoinHostPort h p \<and> host_chars p \<and> CHR '':'' \<notin> set p"
    using assms(4)
  proof
    assume "cu_host u = h \<and> CHR '':'' \<notin> set h \<and> p = (if cu_scheme u = ''https'' then ''443'' else ''80'')"
    then show ?thesis by (auto simp: ping_address_def split_no_colon host_chars_def)
  next
    assume "cu_host u = JoinHostPort h p \<and> host_chars p \<and> CHR '':'' \<notin> set p"
    then show ?thesis using split_join[OF assms(3)] by (simp add: ping_address_def)
  qed
  then have "SplitHostPort (ping_address u) = Some (h, p)"
    using split_join[OF assms(3)] by simp
  then show ?thesis using assms(1,2) by (simp add: client_Ping_def)
qed

lemma bracketed_split: "host_chars ip \<Longrightarrow> SplitHostPort (CHR ''['' # ip @ '']'') = None"
  by (auto simp: SplitHostPort_def Let_def host_chars_def takeWhile_until)

lemma double_bracket_split:
  "host_chars ip \<Longrightarrow> SplitHostPort (''[['' @ ip @ '']]:'' @ p) = None"
proof -
  assume ip: "host_chars ip"
  have "takeWhile (\<lambda>c. c \<noteq> CHR '']'') (''[['' @ ip @ '']]:'' @ p) = ''[['' @ ip"
    using ip by (simp add: takeWhile_until host_chars_def)
  then show ?thesis by (simp add: SplitHostPort_def Let_def)
qed

text \<open>
  A ContextMatrix URL with an IPv6 address and no port never becomes ready. The host of such a URL keeps its
  brackets, \<open>net.JoinHostPort\<close> adds a second pair, and no dialler accepts the address: the probe fails in every
  run and \<open>/readyz\<close> answers 503 for ever, however healthy the dependencies are.
\<close>

theorem ipv6_url_never_ready:
  assumes "parse (cl_url c) = Some u" and "cu_host u = CHR ''['' # ip @ '']''" and "host_chars ip" and "CHR '':'' \<in> set ip"
    and dial: "\<And>n a. SplitHostPort a = None \<Longrightarrow> dial n a \<noteq> None"
    and probe: "\<And>t n. cm t n = (case client_Ping parse (dial n) c of None \<Rightarrow> Ok () | Some err \<Rightarrow> Fail err)"
    and "preflight_Loop (buildProbes cfg ping inspect token cm) rs preflight_start = Some (e, s)"
    and "h_health hs = Some \<lparr>PreflightPassed = passed s, Draining = d\<rparr>"
  shows "rs_status (handleReadyz hs) = 503"
proof -
  have "ping_address u = ''[['' @ ip @ '']]:'' @ (if cu_scheme u = ''https'' then ''443'' else ''80'')"
    using assms(2-4) bracketed_split by (simp add: ping_address_def JoinHostPort_def)
  then have "SplitHostPort (ping_address u) = None"
    using double_bracket_split[OF assms(3)] by simp
  then have "client_Ping parse (dial n) c \<noteq> None" for n
    using assms(1,2) dial by (auto simp: client_Ping_def)
  then have "cm t n \<noteq> Ok ()" for t n
    using probe by (auto split: option.split)
  then have "\<not> recovers_at (buildProbes cfg ping inspect token cm) 0 k" for k
    by (simp add: recovers_at_def built_run_ok all_reachable_def)
  then have "\<not> passed s" using loop_gate[OF assms(7)] by simp
  then show ?thesis using assms(8) by (simp add: handleReadyz_def respond_def)
qed

section \<open>The maintenance loop spares what is tracked\<close>

lemma sweep_dir_spares:
  "\<exists>xs. sweep_dir read_dir join t maxAge parent m = m\<lparr>m_events := m_events m @ xs\<rparr> \<and>
    (\<forall>x \<in> set xs. \<exists>e. swept t maxAge e \<and> x = EvRemoveAll (join parent (fst e)))"
proof (cases "read_dir parent")
  case None
  then show ?thesis by (intro exI[of _ "[]"]) (simp add: sweep_dir_def)
next
  case (Some es)
  have s: "sweep_entry join t maxAge parent e m = (if swept t maxAge e then ev (EvRemoveAll (join parent (fst e))) m else m)" for e m
    by (auto simp: sweep_entry_def swept_def split: option.split prod.split)
  have "fold (sweep_entry join t maxAge parent) es m =
      m\<lparr>m_events := m_events m @ map (\<lambda>e. EvRemoveAll (join parent (fst e))) (filter (swept t maxAge) es)\<rparr>"
    by (induction es arbitrary: m) (simp_all add: s ev_def)
  then show ?thesis
    using Some
    by (intro exI[of _ "map (\<lambda>e. EvRemoveAll (join parent (fst e))) (filter (swept t maxAge) es)"])
      (auto simp: sweep_dir_def)
qed

lemma cleanup_spares:
  "\<exists>xs. snd (CleanupOrphans d m) = m\<lparr>m_events := m_events m @ xs\<rparr> \<and>
    (\<forall>x \<in> set xs. x = EvList runner_filter \<or> (\<exists>cs c. list_answer d runner_filter = Some cs \<and> c \<in> set cs \<and>
       \<not> tracked_container (m_tracker m) c \<and> (x = EvStop (dc_id c) 5 \<or> x = EvRemove (dc_id c))))"
proof (cases "list_answer d runner_filter")
  case None
  then show ?thesis
    by (intro exI[of _ "[EvList runner_filter]"]) (simp add: CleanupOrphans_def ev_def)
next
  case (Some cs)
  show ?thesis using cleanup_effect[OF Some, of m] Some by auto
qed

definition listed :: "maintenance_env \<Rightarrow> docker_container list" where
  "listed e = (case list_answer (me_docker e) runner_filter of None \<Rightarrow> [] | Some cs \<Rightarrow> cs)"

text \<open>What a maintenance tick may do, given the registry of that moment.\<close>

definition tick_may :: "maintenance_env \<Rightarrow> tracker \<Rightarrow> mgr_event \<Rightarrow> bool" where
  "tick_may e t x = (case x of
       EvList fs \<Rightarrow> fs = runner_filter
     | EvPrune age \<Rightarrow> age = ''24h''
     | EvStop cid grace \<Rightarrow> \<exists>c \<in> set (listed e). dc_id c = cid \<and> \<not> tracked_container t c
     | EvRemove cid \<Rightarrow> \<exists>c \<in> set (listed e). dc_id c = cid \<and> \<not> tracked_container t c
     | EvRemoveAll path \<Rightarrow> \<exists>parent name u. path = me_join e parent name \<and> take 16 name = ''cmr-chat-resume-'' \<and>
         u + 3600 * second < me_now e
     | _ \<Rightarrow> False)"

lemma tick_events:
  "\<exists>xs. runMaintenanceTick cfg e m = m\<lparr>m_events := m_events m @ xs\<rparr> \<and> list_all (tick_may e (m_tracker m)) xs \<and>
    EvPrune ''24h'' \<in> set xs"
proof -
  let ?m1 = "snd (CleanupOrphans (me_docker e) m)"
  let ?m2 = "snd (PruneImages (me_prune_ok e) ?m1)"
  obtain xs where xs: "?m1 = m\<lparr>m_events := m_events m @ xs\<rparr>" "\<forall>x \<in> set xs. tick_may e (m_tracker m) x"
    using cleanup_spares[of "me_docker e" m] by (fastforce simp: tick_may_def listed_def)
  have m2: "?m2 = m\<lparr>m_events := m_events m @ xs @ [EvPrune ''24h'']\<rparr>"
    by (simp add: PruneImages_def ev_def xs(1) imagePruneMaxAge_def)
  have sw: "\<exists>ys. sweep_dir (me_read_dir e) (me_join e) (me_now e) maintenanceSweepResumeAge parent u =
      u\<lparr>m_events := m_events u @ ys\<rparr> \<and> (\<forall>x \<in> set ys. tick_may e (m_tracker m) x)" for parent u
  proof -
    have "swept (me_now e) maintenanceSweepResumeAge f \<Longrightarrow> tick_may e (m_tracker m) (EvRemoveAll (me_join e parent (fst f)))" for f
      unfolding tick_may_def mgr_event.case
      by (intro exI[of _ parent] exI[of _ "fst f"] exI[of _ "the (snd f)"])
        (auto simp: swept_def maintenanceSweepResumeAge_def split: option.splits)
    then show ?thesis
      using sweep_dir_spares[of "me_read_dir e" "me_join e" "me_now e" maintenanceSweepResumeAge parent u] by metis
  qed
  obtain ys zs where "runMaintenanceTick cfg e m = ?m2\<lparr>m_events := (m_events ?m2 @ ys) @ zs\<rparr>"
      "\<forall>x \<in> set ys. tick_may e (m_tracker m) x" "\<forall>x \<in> set zs. tick_may e (m_tracker m) x"
  proof -
    let ?s = "if SecretsDir cfg = [] then ''/var/run/cm-runner/secrets'' else SecretsDir cfg"
    obtain ys where ys: "sweep_dir (me_read_dir e) (me_join e) (me_now e) maintenanceSweepResumeAge ?s ?m2 =
        ?m2\<lparr>m_events := m_events ?m2 @ ys\<rparr>" "\<forall>x \<in> set ys. tick_may e (m_tracker m) x"
      using sw by blast
    obtain zs where zs: "sweep_dir (me_read_dir e) (me_join e) (me_now e) maintenanceSweepResumeAge
          (me_join e (me_tmp e) ''cm-runner-chat-resume'') (?m2\<lparr>m_events := m_events ?m2 @ ys\<rparr>) =
        ?m2\<lparr>m_events := (m_events ?m2 @ ys) @ zs\<rparr>" "\<forall>x \<in> set zs. tick_may e (m_tracker m) x"
      using sw[of "me_join e (me_tmp e) ''cm-runner-chat-resume''" "?m2\<lparr>m_events := m_events ?m2 @ ys\<rparr>"] by auto
    show ?thesis
      by (rule that[of ys zs]) (simp_all add: runMaintenanceTick_def SweepStaleChatResumeDirs_def Let_def ys zs)
  qed
  then show ?thesis
    using xs(2) by (intro exI[of _ "xs @ [EvPrune ''24h''] @ ys @ zs"])
      (auto simp: m2 list_all_iff tick_may_def)
qed

text \<open>Draining ends the loop, and a disabled loop does nothing at all.\<close>

lemma drained_loop_stops:
  assumes "interval > 0"
  shows "runMaintenanceLoop cfg interval (pre @ MaintTick True e # post) m =
    (LoopReturned, snd (runMaintenanceLoop cfg interval pre m))"
proof -
  have "maintenance_rounds cfg (pre @ MaintTick True e # post) m = (LoopReturned, snd (maintenance_rounds cfg pre m))"
    by (induction cfg pre m rule: maintenance_rounds.induct) simp_all
  then show ?thesis using assms by (simp add: runMaintenanceLoop_def)
qed

definition elsewhere :: "maintenance_round \<Rightarrow> manager \<Rightarrow> manager" where
  "elsewhere r m = (case r of MaintOther f \<Rightarrow> f m | _ \<Rightarrow> m)"

definition is_done :: "maintenance_round \<Rightarrow> bool" where
  "is_done r = (case r of MaintDone \<Rightarrow> True | _ \<Rightarrow> False)"

lemma disabled_loop_idle:
  assumes "interval \<le> 0"
  shows "runMaintenanceLoop cfg interval rs m =
    (if list_ex is_done rs then LoopReturned else LoopWaiting, fold elsewhere (takeWhile (\<lambda>r. \<not> is_done r) rs) m)"
proof -
  have "wait_done rs m =
      (if list_ex is_done rs then LoopReturned else LoopWaiting, fold elsewhere (takeWhile (\<lambda>r. \<not> is_done r) rs) m)"
    by (induction rs m rule: wait_done.induct) (simp_all add: is_done_def elsewhere_def)
  then show ?thesis using assms by (simp add: runMaintenanceLoop_def)
qed

section \<open>Witnesses\<close>

definition example_probe :: "unit answer \<Rightarrow> probe" where
  "example_probe first = (\<lambda>timeout n. if n = 0 then Fail ''down'' else if n = 1 then first else Ok ())"

definition example_probes :: "unit answer \<Rightarrow> probes" where
  "example_probes first =
     buildProbes initial_config (example_probe first) (\<lambda>img t n. Ok ()) (\<lambda>t n. Ok ()) (\<lambda>t n. Ok ())"

definition ready_handler :: "bool \<Rightarrow> bool \<Rightarrow> handler_state" where
  "ready_handler ok d = \<lparr>h_tracker = tracker_New, h_replay = None, h_dedup = None, h_bcast = None,
     h_health = Some \<lparr>PreflightPassed = ok, Draining = d\<rparr>, h_calls = []\<rparr>"

lemma loop_returns:
  assumes "\<And>q. preflight_Run p 0 \<noteq> Panic q"
  obtains e s where "preflight_Loop p rs s0 = Some (e, s)"
proof -
  have "preflight_Loop p rs s0 \<noteq> None"
    using assms by (auto simp: preflight_Loop_def split: answer.splits)
  then show ?thesis using that by fastforce
qed

lemma example_run_0: "run_fails (example_probes a) 0"
  by (simp add: example_probes_def example_probe_def run_fails_def probe_defs)

theorem ready_needs_dependencies_witness:
  "\<exists>e s. preflight_Loop (example_probes (Ok ())) [RetryTick] preflight_start = Some (e, s) \<and>
     rs_status (handleReadyz (ready_handler (passed s) False)) = 200"
proof -
  have d: "example_probes (Ok ()) = buildProbes initial_config (example_probe (Ok ())) (\<lambda>img t n. Ok ()) (\<lambda>t n. Ok ()) (\<lambda>t n. Ok ())"
    by (simp add: example_probes_def)
  have "preflight_Run (example_probes (Ok ())) 0 \<noteq> Panic p" for p
    using example_run_0[of "Ok ()"] by (auto simp: run_fails_def)
  then obtain e s where l: "preflight_Loop (example_probes (Ok ())) [RetryTick] preflight_start = Some (e, s)"
    using loop_returns by blast
  have h: "h_health (ready_handler (passed s) False) = Some \<lparr>PreflightPassed = passed s, Draining = False\<rparr>"
    by (simp add: ready_handler_def)
  have "all_reachable initial_config (example_probe (Ok ())) (\<lambda>img t n. Ok ()) (\<lambda>t n. Ok ()) (\<lambda>t n. Ok ()) 1"
    by (simp add: all_reachable_def example_probe_def)
  moreover have "\<forall>j<1. run_fails (example_probes (Ok ())) j" using example_run_0 by simp
  ultimately have "\<exists>k \<le> ticks [RetryTick]. all_reachable initial_config (example_probe (Ok ())) (\<lambda>img t n. Ok ())
      (\<lambda>t n. Ok ()) (\<lambda>t n. Ok ()) k \<and> (\<forall>j<k. run_fails (example_probes (Ok ())) j)"
    by (intro exI[of _ 1]) simp
  then show ?thesis
    using ready_needs_dependencies[OF l[unfolded d] h] l unfolding d by blast
qed

theorem preflight_panic_is_final_witness:
  "\<exists>e s. preflight_Loop (example_probes (Panic ''nil map'')) [RetryTick, RetryTick, RetryTick] preflight_start = Some (e, s) \<and>
     run_ok (example_probes (Panic ''nil map'')) 2 \<and> rs_status (handleReadyz (ready_handler (passed s) False)) = 503"
proof -
  let ?p = "example_probes (Panic ''nil map'')"
  have "preflight_Run ?p 0 \<noteq> Panic q" for q
    using example_run_0[of "Panic ''nil map''"] by (auto simp: run_fails_def)
  then obtain e s where l: "preflight_Loop ?p [RetryTick, RetryTick, RetryTick] preflight_start = Some (e, s)"
    using loop_returns by blast
  have h: "h_health (ready_handler (passed s) False) = Some \<lparr>PreflightPassed = passed s, Draining = False\<rparr>"
    by (simp add: ready_handler_def)
  have "preflight_Run ?p 1 = Panic ''nil map''"
    by (simp add: example_probes_def example_probe_def probe_defs)
  moreover have "\<forall>j<1. run_fails ?p j" using example_run_0 by simp
  moreover have "run_ok ?p 2"
    by (simp add: example_probes_def built_run_ok all_reachable_def example_probe_def)
  ultimately show ?thesis
    using preflight_panic_is_final[OF _ _ _ l h, of 1 "''nil map''"] l by auto
qed

definition url_of :: "string \<Rightarrow> string \<Rightarrow> cb_url" where
  "url_of scheme host = \<lparr>cu_scheme = scheme, cu_opaque = [], cu_user = None, cu_host = host, cu_path = [],
     cu_escaped = [], cu_force_query = False, cu_query = []\<rparr>"

definition ping_client :: cb_client where
  "ping_client = \<lparr>cl_url = ''https://cm.local'', cl_api_key = ''k'', cl_use_hmac = True\<rparr>"

theorem ping_dials_the_url_witness:
  "SplitHostPort (ping_address (url_of ''https'' ''cm.local'')) = Some (''cm.local'', ''443'') \<and>
   SplitHostPort (ping_address (url_of ''https'' ''[::1]:8443'')) = Some (''::1'', ''8443'')"
  using ping_dials_the_url[of "\<lambda>raw. Some (url_of ''https'' ''cm.local'')" ping_client "url_of ''https'' ''cm.local''" "''cm.local''" "''443''"]
    ping_dials_the_url[of "\<lambda>raw. Some (url_of ''https'' ''[::1]:8443'')" ping_client "url_of ''https'' ''[::1]:8443''" "''::1''" "''8443''"]
  by (simp add: url_of_def host_chars_def JoinHostPort_def)

theorem ipv6_url_never_ready_witness:
  "\<exists>e s. preflight_Loop (buildProbes initial_config (\<lambda>t n. Ok ()) (\<lambda>img t n. Ok ()) (\<lambda>t n. Ok ())
        (\<lambda>t n. case client_Ping (\<lambda>raw. Some (url_of ''https'' ''[::1]'')) (\<lambda>a. if SplitHostPort a = None then Some ''bad address'' else None)
           ping_client of None \<Rightarrow> Ok () | Some err \<Rightarrow> Fail err)) [RetryTick] preflight_start = Some (e, s) \<and>
     rs_status (handleReadyz (ready_handler (passed s) False)) = 503"
proof -
  let ?dial = "\<lambda>n :: nat. \<lambda>a. if SplitHostPort a = None then Some ''bad address'' else None"
  let ?parse = "\<lambda>raw :: string. Some (url_of ''https'' ''[::1]'')"
  let ?cm = "\<lambda>t :: int. \<lambda>n :: nat. case client_Ping ?parse (?dial n) ping_client of None \<Rightarrow> Ok () | Some err \<Rightarrow> Fail err"
  let ?p = "buildProbes initial_config (\<lambda>t n. Ok ()) (\<lambda>img t n. Ok ()) (\<lambda>t n. Ok ()) ?cm"
  have "preflight_Run ?p 0 \<noteq> Panic q" for q
    by (auto simp: probe_defs split: answer.splits option.splits)
  then obtain e s where l: "preflight_Loop ?p [RetryTick] preflight_start = Some (e, s)"
    using loop_returns by blast
  have h: "h_health (ready_handler (passed s) False) = Some \<lparr>PreflightPassed = passed s, Draining = False\<rparr>"
    by (simp add: ready_handler_def)
  have "rs_status (handleReadyz (ready_handler (passed s) False)) = 503"
    by (rule ipv6_url_never_ready[where parse = ?parse and dial = ?dial and c = ping_client and cm = ?cm and ip = "''::1''", OF _ _ _ _ _ _ l h])
      (auto simp: url_of_def host_chars_def)
  then show ?thesis using l by blast
qed

end
