(* ===== verification/Shutdown.thy ===== *)
theory Shutdown
  imports Reconcile "HOL-Library.Sublist"
begin

text \<open>
  The graceful shutdown of \<open>cmd/contextmatrix-runner/main.go\<close>: drain flag, HTTP listener, one kill per tracked
  container, the wait for the manager's goroutines, and the force-cleanup of what is left. What the rest of the
  runner does meanwhile is a parameter: the handlers that finish while the listener drains, the workers that run
  between two kills, and those that run until the drain deadline. A call that waits for a lock for ever is \<open>None\<close>.
\<close>

section \<open>The sequence\<close>

record shutdown_env =
  se_http :: "manager \<Rightarrow> manager"
  se_between :: "manager \<Rightarrow> manager"
  se_drain :: "manager \<Rightarrow> manager"
  se_held :: "nat \<Rightarrow> bool"
  se_close_io :: "string \<Rightarrow> string option"
  se_stop_ok :: "string \<Rightarrow> bool"
  se_remove_ok :: "string \<Rightarrow> bool"

text \<open>
  \<open>se_held p\<close>: the lock of stdin \<open>p\<close> is held by a write that does not return. \<open>CloseStdinChat\<close> takes that lock
  with no bound on the wait, and reaches it only for a tracked session that has a stdin.
\<close>

definition lock_stuck :: "shutdown_env \<Rightarrow> string \<Rightarrow> tracker \<Rightarrow> bool" where
  "lock_stuck e sessionID t = (case capture (chatKey sessionID) t of Inl _ \<Rightarrow> False | Inr p \<Rightarrow> se_held e p)"

definition shutdown_one :: "shutdown_env \<Rightarrow> container_snapshot \<Rightarrow> manager \<Rightarrow> manager option" where
  "shutdown_one e info m =
     (if sn_SessionID info \<noteq> [] then
        (if lock_stuck e (sn_SessionID info) (m_tracker m) then None
         else Some (snd (KillChat (se_stop_ok e) (se_remove_ok e) (se_close_io e (sn_SessionID info)) (sn_SessionID info) m)))
      else Some (ev (EvStatus (sn_CardID info) (sn_Project info) ''failed'' ''runner shutting down'')
                    (snd (Kill (sn_Project info) (sn_CardID info) m))))"

fun shutdown_each :: "shutdown_env \<Rightarrow> container_snapshot list \<Rightarrow> manager \<Rightarrow> manager option" where
  "shutdown_each e [] m = Some m"
| "shutdown_each e (i # is) m =
     (case shutdown_one e i (se_between e m) of None \<Rightarrow> None | Some m' \<Rightarrow> shutdown_each e is m')"

definition force_one :: "shutdown_env \<Rightarrow> container_snapshot \<Rightarrow> manager \<Rightarrow> manager" where
  "force_one e info m =
     (if sn_ContainerID info = [] then m
      else snd (ForceKillContainer (se_stop_ok e) (se_remove_ok e) (sn_ContainerID info) m))"

definition shutdown :: "shutdown_env \<Rightarrow> health_state \<times> manager \<Rightarrow> (health_state \<times> manager) option" where
  "shutdown e s = (case s of (h, m) \<Rightarrow>
     let h1 = StartDraining h;
         m2 = se_http e m
     in case shutdown_each e (AllSnapshots (m_tracker m2)) m2 of
          None \<Rightarrow> None
        | Some m4 \<Rightarrow>
            let m5 = se_drain e m4
            in Some (h1, fold (force_one e) (AllSnapshots (m_tracker m5)) m5))"

section \<open>Progress\<close>

text \<open>
  \<open>grows m m'\<close>: events and effects were only added. Nothing is said of the registry: the handlers that outlive the
  deadline of the listener may still register a run, and a run that ends removes its entry.
\<close>

definition grows :: "manager \<Rightarrow> manager \<Rightarrow> bool" where
  "grows m m' \<longleftrightarrow> prefix (m_events m) (m_events m') \<and> suffix (trace (m_tracker m)) (trace (m_tracker m'))"

definition background :: "(manager \<Rightarrow> manager) \<Rightarrow> bool" where
  "background f \<longleftrightarrow> (\<forall>m. grows m (f m))"

text \<open>What was added to the trace of the registry (newest first).\<close>

definition new_effects :: "manager \<Rightarrow> manager \<Rightarrow> effect list" where
  "new_effects m m' = take (length (trace (m_tracker m')) - length (trace (m_tracker m))) (trace (m_tracker m'))"

lemma grows_refl [simp]: "grows m m"
  by (simp add: grows_def)

lemma grows_trans: "grows a b \<Longrightarrow> grows b c \<Longrightarrow> grows a c"
  unfolding grows_def by (meson prefix_order.trans suffix_order.trans)

lemma grows_event:
  assumes "grows b c" and "m_events b = m_events a @ es" and "x \<in> set es"
  shows "x \<in> set (news a c)"
  using assms by (auto simp: grows_def news_def prefix_def)

lemma grows_effect:
  assumes "grows b c" and "trace (m_tracker b) = xs @ trace (m_tracker a)" and "x \<in> set xs"
  shows "x \<in> set (new_effects a c)"
  using assms by (auto simp: grows_def new_effects_def suffix_def)

lemma same_lookup: "containers t' = containers t \<Longrightarrow> lookup_key k t' = lookup_key k t"
  by (simp add: lookup_key_def)

lemma kill_effect:
  "m_events (snd (Kill pr ca m)) = m_events m \<and> containers (m_tracker (snd (Kill pr ca m))) = containers (m_tracker m) \<and>
   trace (m_tracker (snd (Kill pr ca m))) =
     (case lookup_key (tkey pr ca) (m_tracker m) of None \<Rightarrow> [] | Some i \<Rightarrow> (case CancelFn i of None \<Rightarrow> [] | Some c \<Rightarrow> [Cancelled c]))
     @ trace (m_tracker m)"
proof -
  have "map (\<lambda>(j, i). (j, if j = tkey pr ca then id i else i)) xs = xs" for xs :: "(string \<times> container_info) list"
    by (induction xs) auto
  then show ?thesis
    by (auto simp: Kill_def tracker_Cancel_def cancel_all_def cancel_map_def update_info_def emit_def split: option.split)
qed

lemma close_effect:
  "containers (snd (CloseStdinChat sid io t)) = containers t \<and> suffix (trace t) (trace (snd (CloseStdinChat sid io t)))"
  by (auto simp: CloseStdinChat_def close_key_def close_locked_def set_writer_def emit_def suffix_def split: sum.split option.split)

lemma stop_effect:
  "snd (Manager_Stop so ro cid m) = m\<lparr>m_events := m_events m @ [EvStop cid stopGracePeriod, EvRemove cid]\<rparr>"
  by (simp add: Manager_Stop_def ev_def)

lemma killchat_effect:
  "m_events (snd (KillChat so ro io sid m)) = m_events m @
     (case lookup_key (chatKey sid) (m_tracker m) of None \<Rightarrow> []
      | Some i \<Rightarrow> [EvStop (ContainerID i) stopGracePeriod, EvRemove (ContainerID i)]) \<and>
   containers (m_tracker (snd (KillChat so ro io sid m))) = containers (m_tracker m) \<and>
   suffix (trace (m_tracker m)) (trace (m_tracker (snd (KillChat so ro io sid m))))"
  using close_effect[of sid io "m_tracker m"]
  by (auto simp: KillChat_def SnapshotChat_def stop_effect snapshotLocked_def on_tracker_def split: option.split)

lemma one_containers: "shutdown_one e i m = Some m' \<Longrightarrow> containers (m_tracker m') = containers (m_tracker m)"
  using killchat_effect kill_effect by (auto simp: shutdown_one_def ev_def split: if_splits)

lemma one_grows:
  assumes one: "shutdown_one e i m = Some m'"
  shows "grows m m'"
proof (cases "sn_SessionID i = []")
  case True
  then have "m' = ev (EvStatus (sn_CardID i) (sn_Project i) ''failed'' ''runner shutting down'')
      (snd (Kill (sn_Project i) (sn_CardID i) m))"
    using one by (simp add: shutdown_one_def)
  then show ?thesis
    using kill_effect[of "sn_Project i" "sn_CardID i" m] by (simp add: ev_def suffix_def grows_def)
next
  case False
  then have "m' = snd (KillChat (se_stop_ok e) (se_remove_ok e) (se_close_io e (sn_SessionID i)) (sn_SessionID i) m)"
    using one by (simp add: shutdown_one_def split: if_splits)
  then show ?thesis using killchat_effect[of _ _ _ "sn_SessionID i" m] by (simp add: grows_def)
qed

text \<open>The turns of the loop: each snapshot with the state in which its kill is issued.\<close>

fun turns :: "shutdown_env \<Rightarrow> container_snapshot list \<Rightarrow> manager \<Rightarrow> (container_snapshot \<times> manager) list" where
  "turns e [] m = []"
| "turns e (i # is) m =
     (i, se_between e m) # (case shutdown_one e i (se_between e m) of None \<Rightarrow> [] | Some m' \<Rightarrow> turns e is m')"

lemma each_grows: "background (se_between e) \<Longrightarrow> shutdown_each e is m = Some m' \<Longrightarrow> grows m m'"
proof (induction "is" arbitrary: m)
  case (Cons i "is")
  then obtain m1 where "shutdown_one e i (se_between e m) = Some m1" "shutdown_each e is m1 = Some m'"
    by (auto split: option.splits)
  then show ?case
    using Cons one_grows grows_trans unfolding background_def by metis
qed simp

lemma each_turns:
  assumes "background (se_between e)" and "shutdown_each e is m = Some m'"
  shows "map fst (turns e is m) = is" and "(i, a) \<in> set (turns e is m) \<Longrightarrow> \<exists>b. shutdown_one e i a = Some b \<and> grows b m'"
proof -
  have "map fst (turns e is m) = is \<and> (\<forall>(i, a) \<in> set (turns e is m). \<exists>b. shutdown_one e i a = Some b \<and> grows b m')"
    using assms
  proof (induction "is" arbitrary: m)
    case (Cons x "is")
    then obtain m1 where m1: "shutdown_one e x (se_between e m) = Some m1" "shutdown_each e is m1 = Some m'"
      by (auto split: option.splits)
    then show ?case using Cons.IH[OF Cons.prems(1) m1(2)] each_grows[OF Cons.prems(1) m1(2)] by auto
  qed simp
  then show "map fst (turns e is m) = is"
    "(i, a) \<in> set (turns e is m) \<Longrightarrow> \<exists>b. shutdown_one e i a = Some b \<and> grows b m'" by blast+
qed

lemma force_each:
  "m_tracker (fold (force_one e) is m) = m_tracker m \<and>
   m_events (fold (force_one e) is m) = m_events m @
     concat (map (\<lambda>i. if sn_ContainerID i = [] then [] else [EvStop (sn_ContainerID i) 0, EvRemove (sn_ContainerID i)]) is)"
  by (induction "is" arbitrary: m) (simp_all add: force_one_def ForceKillContainer_def ev_def)

lemma force_hits:
  "(\<forall>(k, j) \<in> set (containers t). ContainerID j \<noteq> [] \<longrightarrow>
     EvStop (ContainerID j) 0 \<in> set (es @ concat (map (\<lambda>i. if sn_ContainerID i = [] then []
       else [EvStop (sn_ContainerID i) 0, EvRemove (sn_ContainerID i)]) (AllSnapshots t))) \<and>
     EvRemove (ContainerID j) \<in> set (es @ concat (map (\<lambda>i. if sn_ContainerID i = [] then []
       else [EvStop (sn_ContainerID i) 0, EvRemove (sn_ContainerID i)]) (AllSnapshots t))))"
  by (force simp: AllSnapshots_def snapshotLocked_def)

section \<open>Every container is accounted for\<close>

lemma card_told:
  assumes "shutdown_one e i a = Some b" and "grows b c" and "sn_SessionID i = []"
  shows "EvStatus (sn_CardID i) (sn_Project i) ''failed'' ''runner shutting down'' \<in> set (news a c)"
    and "lookup_key (tkey (sn_Project i) (sn_CardID i)) (m_tracker a) = Some j \<Longrightarrow> CancelFn j = Some f \<Longrightarrow>
         Cancelled f \<in> set (new_effects a c)"
proof -
  have b: "b = ev (EvStatus (sn_CardID i) (sn_Project i) ''failed'' ''runner shutting down'') (snd (Kill (sn_Project i) (sn_CardID i) a))"
    using assms(1,3) by (simp add: shutdown_one_def)
  show "EvStatus (sn_CardID i) (sn_Project i) ''failed'' ''runner shutting down'' \<in> set (news a c)"
    using grows_event[OF assms(2)] kill_effect[of "sn_Project i" "sn_CardID i" a] by (simp add: b ev_def)
  show "Cancelled f \<in> set (new_effects a c)"
    if "lookup_key (tkey (sn_Project i) (sn_CardID i)) (m_tracker a) = Some j" "CancelFn j = Some f"
    using grows_effect[OF assms(2), of "[Cancelled f]"] kill_effect[of "sn_Project i" "sn_CardID i" a] that by (simp add: b ev_def)
qed

lemma chat_told:
  assumes "shutdown_one e i a = Some b" and "grows b c" and "sn_SessionID i \<noteq> []"
    and "lookup_key (chatKey (sn_SessionID i)) (m_tracker a) = Some j"
  shows "{EvStop (ContainerID j) stopGracePeriod, EvRemove (ContainerID j)} \<subseteq> set (news a c)"
proof -
  have b: "b = snd (KillChat (se_stop_ok e) (se_remove_ok e) (se_close_io e (sn_SessionID i)) (sn_SessionID i) a)"
    using assms(1,3) by (simp add: shutdown_one_def split: if_splits)
  show ?thesis
    using grows_event[OF assms(2), of a] killchat_effect[of _ _ _ "sn_SessionID i" a] assms(4) by (simp add: b)
qed

lemma grows_forced:
  assumes "background (se_drain e)"
  shows "grows m (fold (force_one e) is (se_drain e m))"
proof -
  have "grows m (se_drain e m)" using assms by (simp add: background_def)
  moreover have "grows (se_drain e m) (fold (force_one e) is (se_drain e m))" by (simp add: grows_def force_each)
  ultimately show ?thesis by (rule grows_trans)
qed

text \<open>
  C13. Shutdown leaves no container unaccounted for. Whenever the sequence returns, whatever the rest of the runner
  does meanwhile (the handlers that are still running may even register new runs): the drain flag is up, and every run
  that was registered when the listener had drained gets its turn. From its turn on, the failure of a card is
  reported to ContextMatrix, and the cancel function of the entry registered at its turn is called; a chat whose entry
  is registered at its turn has its container stopped with the grace period and removed. A turn itself removes no entry
  from the registry, so only the end of the run itself can make an entry be missing at its turn. Whatever is registered
  at the end of the drain wait and has a container has been stopped without grace and force-removed.
\<close>

theorem shutdown_accounts:
  assumes "shutdown e (h, m) = Some (h', m')" and "background (se_between e)" and "background (se_drain e)"
    and "entries_ok (m_tracker (se_http e m))"
  shows "Draining h' \<and>
    (\<forall>(k, i) \<in> set (containers (m_tracker (se_http e m))).
       \<exists>a. (snapshotLocked i, a) \<in> set (turns e (AllSnapshots (m_tracker (se_http e m))) (se_http e m)) \<and>
         (if SessionID i = []
          then EvStatus (CardID i) (Project i) ''failed'' ''runner shutting down'' \<in> set (news a m') \<and>
            (\<forall>j f. lookup_key k (m_tracker a) = Some j \<and> CancelFn j = Some f \<longrightarrow> Cancelled f \<in> set (new_effects a m'))
          else (\<forall>j. lookup_key k (m_tracker a) = Some j \<longrightarrow>
            {EvStop (ContainerID j) stopGracePeriod, EvRemove (ContainerID j)} \<subseteq> set (news a m')))) \<and>
    (\<forall>(i, a) \<in> set (turns e (AllSnapshots (m_tracker (se_http e m))) (se_http e m)). \<forall>b.
       shutdown_one e i a = Some b \<longrightarrow> containers (m_tracker b) = containers (m_tracker a)) \<and>
    (\<forall>(k, j) \<in> set (containers (m_tracker m')). ContainerID j \<noteq> [] \<longrightarrow>
       EvStop (ContainerID j) 0 \<in> set (m_events m') \<and> EvRemove (ContainerID j) \<in> set (m_events m'))"
proof -
  let ?m2 = "se_http e m"
  let ?is = "AllSnapshots (m_tracker ?m2)"
  obtain m4 where m4: "shutdown_each e ?is ?m2 = Some m4" and h': "h' = StartDraining h"
      and m': "m' = fold (force_one e) (AllSnapshots (m_tracker (se_drain e m4))) (se_drain e m4)"
    using assms(1) by (auto simp: shutdown_def Let_def split: option.splits)
  have forced: "\<forall>(k, j) \<in> set (containers (m_tracker m')). ContainerID j \<noteq> [] \<longrightarrow>
       EvStop (ContainerID j) 0 \<in> set (m_events m') \<and> EvRemove (ContainerID j) \<in> set (m_events m')"
    unfolding m' force_each[THEN conjunct1] force_each[THEN conjunct2] by (rule force_hits)
  have later: "grows m4 m'" unfolding m' by (rule grows_forced[OF assms(3)])
  note t = each_turns[OF assms(2) m4]
  have turn: "\<exists>a. (snapshotLocked i, a) \<in> set (turns e ?is ?m2) \<and>
         (if SessionID i = []
          then EvStatus (CardID i) (Project i) ''failed'' ''runner shutting down'' \<in> set (news a m') \<and>
            (\<forall>j f. lookup_key k (m_tracker a) = Some j \<and> CancelFn j = Some f \<longrightarrow> Cancelled f \<in> set (new_effects a m'))
          else (\<forall>j. lookup_key k (m_tracker a) = Some j \<longrightarrow>
            {EvStop (ContainerID j) stopGracePeriod, EvRemove (ContainerID j)} \<subseteq> set (news a m')))"
    if "(k, i) \<in> set (containers (m_tracker ?m2))" for k i
  proof -
    have "snapshotLocked i \<in> set ?is" using that by (force simp: AllSnapshots_def)
    then have "snapshotLocked i \<in> fst ` set (turns e ?is ?m2)" using t(1) by (metis set_map)
    then obtain a where a: "(snapshotLocked i, a) \<in> set (turns e ?is ?m2)" by force
    then obtain b where b: "shutdown_one e (snapshotLocked i) a = Some b" "grows b m'"
      using t(2) grows_trans[OF _ later] by blast
    have k: "k = (if SessionID i = [] then tkey (Project i) (CardID i) else chatKey (SessionID i))"
      using that assms(4) by (auto simp: entries_ok_def entry_ok_def ident_ok_def)
    show ?thesis
      using a card_told[OF b] chat_told[OF b] by (intro exI[of _ a]) (auto simp: k snapshotLocked_def)
  qed
  have "Draining h'" using h' by (simp add: StartDraining_def)
  moreover have "\<forall>(i, a) \<in> set (turns e ?is ?m2). \<forall>b. shutdown_one e i a = Some b \<longrightarrow>
      containers (m_tracker b) = containers (m_tracker a)"
    using one_containers by blast
  ultimately show ?thesis
    by (intro conjI forced, simp) (rule ballI, rule case_prodI2, rule turn, simp)
qed

section \<open>When the sequence returns\<close>

lemma lock_stuck_same: "containers t' = containers t \<Longrightarrow> lock_stuck e sid t' = lock_stuck e sid t"
  by (simp add: lock_stuck_def capture_def lookup_key_def)

definition stuck_snapshot :: "shutdown_env \<Rightarrow> tracker \<Rightarrow> container_snapshot \<Rightarrow> bool" where
  "stuck_snapshot e t i \<longleftrightarrow> sn_SessionID i \<noteq> [] \<and> lock_stuck e (sn_SessionID i) t"

lemma each_returns:
  assumes "\<And>m. se_between e m = m"
  shows "shutdown_each e is m = None \<longleftrightarrow> list_ex (stuck_snapshot e (m_tracker m)) is"
proof (induction "is" arbitrary: m)
  case (Cons i "is")
  show ?case
  proof (cases "shutdown_one e i m")
    case None
    then show ?thesis by (simp add: assms shutdown_one_def stuck_snapshot_def split: if_splits)
  next
    case (Some m1)
    then have "\<not> stuck_snapshot e (m_tracker m) i" by (auto simp: shutdown_one_def stuck_snapshot_def)
    moreover have "stuck_snapshot e (m_tracker m1) = stuck_snapshot e (m_tracker m)"
      unfolding stuck_snapshot_def using lock_stuck_same[OF one_containers[OF Some]] by simp
    ultimately show ?thesis using Cons[of m1] Some by (simp add: assms)
  qed
qed simp


section \<open>Witnesses\<close>

definition shutdown_chat :: container_info where
  "shutdown_chat = \<lparr>ContainerID = ''c1'', CardID = [], Project = [], SessionID = ''sess-1'', Image = [], StartedAt = 0,
     CancelFn = None, reason = [], stdin_ptr = Some 0\<rparr>"

definition shutdown_card :: container_info where
  "shutdown_card = \<lparr>ContainerID = ''c2'', CardID = ''ALPHA-001'', Project = ''alpha'', SessionID = [], Image = [], StartedAt = 0,
     CancelFn = Some 5, reason = [], stdin_ptr = None\<rparr>"

definition shutdown_manager :: manager where
  "shutdown_manager = NewManager \<lparr>containers = [(chatKey ''sess-1'', shutdown_chat), (''alpha/ALPHA-001'', shutdown_card)],
     stdins = [\<lparr>ss_stdin = Some 7, ss_onClose = None\<rparr>], trace = []\<rparr> None"

text \<open>The drain lets the cancelled card run remove its entry, and the chat does not go away.\<close>

definition shutdown_world :: "bool \<Rightarrow> shutdown_env" where
  "shutdown_world stuck = \<lparr>se_http = id, se_between = id,
     se_drain = on_tracker (\<lambda>t. t\<lparr>containers := filter (\<lambda>(k, i). k \<noteq> ''alpha/ALPHA-001'') (containers t)\<rparr>),
     se_held = (\<lambda>p. stuck), se_close_io = (\<lambda>s. None), se_stop_ok = (\<lambda>c. True), se_remove_ok = (\<lambda>c. True)\<rparr>"

lemma world_background: "background (se_between (shutdown_world b))" "background (se_drain (shutdown_world b))"
  by (simp_all add: background_def grows_def shutdown_world_def on_tracker_def)

lemma world_ok:
  "entries_ok (m_tracker (se_http (shutdown_world b) shutdown_manager))" "tracker_ok (m_tracker (se_http (shutdown_world b) shutdown_manager))"
  by (simp_all add: shutdown_world_def shutdown_manager_def NewManager_def entries_ok_def entry_ok_def tracker_ok_def shutdown_chat_def
      shutdown_card_def tkey_def chatKey_def ident_ok_def char_classes of_char_def)

text \<open>Nothing runs between the kills here, so each turn sees the entry that was registered.\<close>

lemma world_turns:
  assumes "(i, a) \<in> set (turns (shutdown_world b) is m)"
  shows "containers (m_tracker a) = containers (m_tracker m)"
  using assms
proof (induction "is" arbitrary: m)
  case (Cons x "is")
  have b: "se_between (shutdown_world b) u = u" for u by (simp add: shutdown_world_def)
  show ?case
    using Cons by (auto simp: b one_containers split: option.splits)
qed simp

theorem shutdown_accounts_witness:
  "\<exists>h' m'. shutdown (shutdown_world False) (\<lparr>PreflightPassed = True, Draining = False\<rparr>, shutdown_manager) = Some (h', m') \<and>
     Draining h' \<and> (\<exists>a. EvStatus ''ALPHA-001'' ''alpha'' ''failed'' ''runner shutting down'' \<in> set (news a m') \<and>
       Cancelled 5 \<in> set (new_effects a m')) \<and> (\<exists>a. EvStop ''c1'' stopGracePeriod \<in> set (news a m'))"
proof -
  let ?e = "shutdown_world False"
  let ?m = "se_http ?e shutdown_manager"
  have "se_between ?e u = u" for u by (simp add: shutdown_world_def)
  then have "shutdown_each ?e (AllSnapshots (m_tracker ?m)) ?m \<noteq> None"
    by (auto simp: each_returns list_ex_iff stuck_snapshot_def lock_stuck_def shutdown_world_def split: sum.splits)
  then obtain h' m' where s: "shutdown ?e (\<lparr>PreflightPassed = True, Draining = False\<rparr>, shutdown_manager) = Some (h', m')"
    by (auto simp: shutdown_def Let_def)
  have c: "(chatKey ''sess-1'', shutdown_chat) \<in> set (containers (m_tracker ?m))"
      "(''alpha/ALPHA-001'', shutdown_card) \<in> set (containers (m_tracker ?m))"
    by (simp_all add: shutdown_world_def shutdown_manager_def NewManager_def)
  have look: "lookup_key k (m_tracker a) = lookup_key k (m_tracker ?m)"
    if "(i, a) \<in> set (turns ?e (AllSnapshots (m_tracker ?m)) ?m)" for i a k
    using world_turns[OF that] by (rule same_lookup)
  have l: "lookup_key (chatKey ''sess-1'') (m_tracker ?m) = Some shutdown_chat"
      "lookup_key ''alpha/ALPHA-001'' (m_tracker ?m) = Some shutdown_card"
    by (simp_all add: lookup_key_def shutdown_world_def shutdown_manager_def NewManager_def chatKey_def)
  note facts = shutdown_accounts[OF s world_background world_ok(1)]
  have f: "SessionID shutdown_card = []" "CardID shutdown_card = ''ALPHA-001''" "Project shutdown_card = ''alpha''"
      "CancelFn shutdown_card = Some 5" "SessionID shutdown_chat \<noteq> []" "ContainerID shutdown_chat = ''c1''"
    by (simp_all add: shutdown_chat_def shutdown_card_def)
  have card: "\<exists>a. EvStatus ''ALPHA-001'' ''alpha'' ''failed'' ''runner shutting down'' \<in> set (news a m') \<and>
      Cancelled 5 \<in> set (new_effects a m')"
    using bspec[OF facts[THEN conjunct2, THEN conjunct1] c(2)] f look l by fastforce
  have chat: "\<exists>a. EvStop ''c1'' stopGracePeriod \<in> set (news a m')"
    using bspec[OF facts[THEN conjunct2, THEN conjunct1] c(1)] f look l by fastforce
  show ?thesis using facts[THEN conjunct1] card chat s by blast
qed


end
