(* ===== verification/Sse.thy ===== *)
theory Sse
  imports Server Stream_Msg "HOL-Library.Sublist"
begin

text \<open>
  The event stream of \<open>GET /logs\<close>: \<open>handleLogs\<close> of \<open>internal/webhook/handler.go\<close> after the subscription, as a
  loop over what its \<open>select\<close> sees, and a reader of event streams as the client has it. \<open>json.Marshal\<close> of an entry
  (whose struct the protocol package declares) is a parameter. The loop reads the subscription's channel
  in the broadcaster's state, so publications, drops and unsubscription are those of the broadcaster.
\<close>

section \<open>The loop\<close>

text \<open>A write to the connection completes, or fails after some of the bytes.\<close>

datatype sse_write = Written | Broken nat

definition put :: "bytes \<Rightarrow> sse_write \<Rightarrow> bytes" where
  "put frame w = (case w of Written \<Rightarrow> frame | Broken n \<Rightarrow> take (min n (length frame - 1)) frame)"

definition LF :: char where "LF = CHR 0x0A"

definition connected_frame :: bytes where "connected_frame = '': connected'' @ [LF, LF]"
definition keepalive_frame :: bytes where "keepalive_frame = '': keepalive'' @ [LF, LF]"
definition data_frame :: "bytes \<Rightarrow> bytes" where "data_frame d = ''data: '' @ d @ [LF, LF]"

text \<open>What the handler's \<open>select\<close> takes, and what others do to the broadcaster in between.\<close>

datatype logs_event =
    LDrain
  | LGone
  | LTick sse_write
  | LReady sse_write
  | LPublish log_entry
  | LJoin string string
  | LLeave nat

datatype logs_end = Streaming | LogsDrained | LogsGone | LogsWriteFailed | LogsChannelClosed

fun logs_loop ::
  "(log_entry \<Rightarrow> bytes option) \<Rightarrow> bool \<Rightarrow> nat \<Rightarrow> logs_event list \<Rightarrow> bytes \<Rightarrow> broadcaster \<Rightarrow> logs_end \<times> bytes \<times> broadcaster" where
  "logs_loop marshal health i [] sent b = (Streaming, sent, b)"
| "logs_loop marshal health i (LDrain # evs) sent b =
     (if health then (LogsDrained, sent, b) else logs_loop marshal health i evs sent b)"
| "logs_loop marshal health i (LGone # evs) sent b = (LogsGone, sent, b)"
| "logs_loop marshal health i (LTick w # evs) sent b =
     (if w = Written then logs_loop marshal health i evs (sent @ put keepalive_frame w) b
      else (LogsWriteFailed, sent @ put keepalive_frame w, b))"
| "logs_loop marshal health i (LReady w # evs) sent b =
     (case receive i b of
        (None, b') \<Rightarrow>
          if ch_closed (heap b ! i) then (LogsChannelClosed, sent, b) else logs_loop marshal health i evs sent b
      | (Some e, b') \<Rightarrow>
          (case marshal e of
             None \<Rightarrow> logs_loop marshal health i evs sent b'
           | Some d \<Rightarrow>
               if w = Written then logs_loop marshal health i evs (sent @ put (data_frame d) w) b'
               else (LogsWriteFailed, sent @ put (data_frame d) w, b')))"
| "logs_loop marshal health i (LPublish e # evs) sent b = logs_loop marshal health i evs sent (Publish e b)"
| "logs_loop marshal health i (LJoin project session # evs) sent b =
     logs_loop marshal health i evs sent (snd (subscribeInternal project session b))"
| "logs_loop marshal health i (LLeave j # evs) sent b = logs_loop marshal health i evs sent (unsubscribe j b)"

text \<open>The whole handler: the subscription, the first comment, the loop, the deferred unsubscribe.\<close>

definition handleLogs ::
  "(log_entry \<Rightarrow> bytes option) \<Rightarrow> string \<times> string \<Rightarrow> sse_write \<Rightarrow> logs_event list \<Rightarrow> handler_state \<Rightarrow>
    response \<times> (logs_end \<times> bytes) option \<times> handler_state" where
  "handleLogs marshal q first evs s = (case open_logs q s of
     (resp, s1) \<Rightarrow>
       (case (rs_body resp, h_bcast s1) of
          (BStream i, Some b) \<Rightarrow>
            (case (if first = Written then logs_loop marshal (h_health s1 \<noteq> None) i evs connected_frame b
                   else (LogsWriteFailed, put connected_frame first, b)) of
               (en, sent, b1) \<Rightarrow>
                 (resp, Some (en, sent), s1\<lparr>h_bcast := Some (if en = Streaming then b1 else unsubscribe i b1)\<rparr>))
        | _ \<Rightarrow> (resp, None, s1)))"

section \<open>A reader of event streams\<close>

text \<open>
  The client's side: lines, of which a comment starts with a colon; \<open>data:\<close> adds a line to the event, the optional
  space removed; an empty line dispatches the event; what is not dispatched at the end is discarded.
\<close>

record sse_reader =
  sr_line :: string
  sr_data :: "string list"
  sr_events :: "string list"

definition eol :: "char \<Rightarrow> bool" where
  "eol c \<longleftrightarrow> c = LF \<or> c = CHR 0x0D"

definition drop_space :: "string \<Rightarrow> string" where
  "drop_space s = (case s of [] \<Rightarrow> [] | c # r \<Rightarrow> if c = CHR '' '' then r else s)"

definition join_lines :: "string list \<Rightarrow> string" where
  "join_lines ls = (case ls of [] \<Rightarrow> [] | l # r \<Rightarrow> l @ concat (map ((#) LF) r))"

definition end_line :: "sse_reader \<Rightarrow> sse_reader" where
  "end_line r =
     (if sr_line r = [] then
        (if sr_data r = [] then r else r\<lparr>sr_data := [], sr_events := sr_events r @ [join_lines (sr_data r)]\<rparr>)
      else if take 5 (sr_line r) = ''data:'' then r\<lparr>sr_line := [], sr_data := sr_data r @ [drop_space (drop 5 (sr_line r))]\<rparr>
      else r\<lparr>sr_line := []\<rparr>)"

definition sse_step :: "char \<Rightarrow> sse_reader \<Rightarrow> sse_reader" where
  "sse_step c r = (if eol c then end_line r else r\<lparr>sr_line := sr_line r @ [c]\<rparr>)"

definition sse_start :: "string list \<Rightarrow> sse_reader" where
  "sse_start evs = \<lparr>sr_line = [], sr_data = [], sr_events = evs\<rparr>"

definition sse_read :: "bytes \<Rightarrow> string list" where
  "sse_read bs = sr_events (fold sse_step bs (sse_start []))"

lemma step_line:
  "list_all (\<lambda>c. \<not> eol c) l \<Longrightarrow> fold sse_step l r = r\<lparr>sr_line := sr_line r @ l\<rparr>"
  by (induction l arbitrary: r) (simp_all add: sse_step_def)

lemma eol_LF [simp]: "eol LF"
  by (simp add: eol_def)

lemma not_eol: "\<not> eol c \<longleftrightarrow> c \<noteq> CHR 0x0A \<and> c \<noteq> CHR 0x0D"
  by (auto simp: eol_def LF_def)

text \<open>A line and an empty line: the line takes effect, then the event is dispatched.\<close>

lemma comment_frame:
  assumes "list_all (\<lambda>c. \<not> eol c) l" and "take 5 l \<noteq> ''data:''" and "l \<noteq> []"
  shows "fold sse_step (l @ [LF, LF]) (sse_start evs) = sse_start evs"
  using assms by (simp add: step_line[OF assms(1)] sse_start_def sse_step_def end_line_def)

lemma read_data_frame:
  assumes "list_all (\<lambda>c. \<not> eol c) d"
  shows "fold sse_step (data_frame d) (sse_start evs) = sse_start (evs @ [d])"
proof -
  define l where "l = ''data: '' @ d"
  have l: "list_all (\<lambda>c. \<not> eol c) l" using assms by (simp add: l_def not_eol)
  have "take 5 l = ''data:''" "drop_space (drop 5 l) = d" "l \<noteq> []" by (simp_all add: l_def drop_space_def)
  moreover have "data_frame d = l @ [LF, LF]" by (simp add: data_frame_def l_def)
  ultimately show ?thesis
    by (simp add: step_line[OF l] sse_start_def sse_step_def end_line_def join_lines_def)
qed

text \<open>A frame that is cut short dispatches nothing.\<close>

lemma cut_frame:
  assumes "list_all (\<lambda>c. \<not> eol c) l" and "l \<noteq> []" and "n < length (l @ [LF, LF])"
  shows "sr_events (fold sse_step (take n (l @ [LF, LF])) (sse_start evs)) = evs"
proof (cases "n \<le> length l")
  case True
  have "list_all (\<lambda>c. \<not> eol c) (take n l)" using assms(1) by (auto simp: list_all_iff dest: in_set_takeD)
  then show ?thesis using True by (simp add: step_line sse_start_def)
next
  case False
  then have "n = Suc (length l)" using assms(3) by simp
  then have "take n (l @ [LF, LF]) = l @ [LF]" by simp
  then show ?thesis
    using assms(2) by (simp add: step_line[OF assms(1)] sse_start_def sse_step_def end_line_def)
qed

lemma put_read:
  assumes "list_all (\<lambda>c. \<not> eol c) l" and "l \<noteq> []"
  shows "sr_events (fold sse_step (put (l @ [LF, LF]) (Broken n)) (sse_start evs)) = evs"
proof -
  have "min n (length (l @ [LF, LF]) - 1) < length (l @ [LF, LF])" by (simp add: min_def)
  then show ?thesis unfolding put_def sse_write.case by (rule cut_frame[OF assms])
qed

lemmas frame_defs = connected_frame_def keepalive_frame_def data_frame_def

lemma plain_comments: "list_all (\<lambda>c. \<not> eol c) '': connected''" "list_all (\<lambda>c. \<not> eol c) '': keepalive''"
  by (simp_all add: not_eol)

section \<open>The subscription under the loop\<close>

definition wanted :: "string \<Rightarrow> string \<Rightarrow> log_entry \<Rightarrow> bool" where
  "wanted project session e \<longleftrightarrow>
     (if session \<noteq> [] then le_session e = session else project = [] \<or> project = le_project e)"

lemma sub_wanted: "sub_matches s e \<longleftrightarrow> wanted (sb_project s) (sb_session s) e"
  by (simp add: sub_matches_def wanted_def)

definition fill :: "log_entry \<Rightarrow> subscriber \<Rightarrow> subscriber" where
  "fill e s = (if sub_matches s e \<and> length (ch_buf s) < subscriberBufferSize then s\<lparr>ch_buf := ch_buf s @ [e]\<rparr> else s)"

text \<open>Subscriber \<open>i\<close> is subscribed and open, with this filter and this channel content.\<close>

definition live :: "nat \<Rightarrow> string \<Rightarrow> string \<Rightarrow> log_entry list \<Rightarrow> broadcaster \<Rightarrow> bool" where
  "live i project session buf b \<longleftrightarrow> distinct (subscribers b) \<and> i \<in> set (subscribers b) \<and>
     (\<forall>j \<in> set (subscribers b). j < length (heap b)) \<and> \<not> b_closed b \<and>
     heap b ! i = \<lparr>sb_project = project, sb_session = session, sb_closed = False, ch_buf = buf, ch_closed = False\<rparr>"

lemma send_frame:
  "subscribers (send_one j e b) = subscribers b \<and> b_closed (send_one j e b) = b_closed b \<and>
   length (heap (send_one j e b)) = length (heap b) \<and> (j \<noteq> i \<longrightarrow> heap (send_one j e b) ! i = heap b ! i)"
  by (auto simp: send_one_def trySend_def set_sub_def Let_def)

lemma send_self:
  assumes "i < length (heap b)" and "\<not> sb_closed (heap b ! i)" and "\<not> ch_closed (heap b ! i)"
  shows "heap (send_one i e b) ! i = fill e (heap b ! i)"
  using assms by (auto simp: send_one_def trySend_def set_sub_def Let_def fill_def)

lemma fold_send:
  assumes "distinct js" and "i < length (heap b)" and "\<not> sb_closed (heap b ! i)" and "\<not> ch_closed (heap b ! i)"
  shows "subscribers (fold run_btask (map (\<lambda>j. BSend j e) js) b) = subscribers b \<and>
    b_closed (fold run_btask (map (\<lambda>j. BSend j e) js) b) = b_closed b \<and>
    length (heap (fold run_btask (map (\<lambda>j. BSend j e) js) b)) = length (heap b) \<and>
    heap (fold run_btask (map (\<lambda>j. BSend j e) js) b) ! i = (if i \<in> set js then fill e (heap b ! i) else heap b ! i)"
  using assms
proof (induction js arbitrary: b)
  case (Cons j js)
  have f: "\<not> sb_closed (fill e (heap b ! i))" "\<not> ch_closed (fill e (heap b ! i))"
    using Cons.prems by (simp_all add: fill_def)
  show ?case
  proof (cases "j = i")
    case True
    then show ?thesis
      using Cons.IH[of "send_one j e b"] Cons.prems send_self[OF Cons.prems(2-4)] f send_frame[of j e b i] by auto
  next
    case False
    then show ?thesis
      using Cons.IH[of "send_one j e b"] Cons.prems send_frame[of j e b i] by auto
  qed
qed simp

definition shortened :: "log_entry \<Rightarrow> log_entry" where
  "shortened e = e\<lparr>le_content := truncate_content (le_content e)\<rparr>"

lemma publish_live:
  assumes "live i project session buf b"
  shows "live i project session
    (if wanted project session (shortened e) \<and> length buf < subscriberBufferSize then buf @ [shortened e] else buf) (Publish e b)"
proof -
  have i: "i < length (heap b)" "\<not> sb_closed (heap b ! i)" "\<not> ch_closed (heap b ! i)" "distinct (subscribers b)"
      "i \<in> set (subscribers b)" "\<not> b_closed b"
    using assms by (auto simp: live_def)
  have p: "Publish e b = fold run_btask (map (\<lambda>j. BSend j (shortened e)) (subscribers b)) b"
    using i(6) by (simp add: Publish_def publish_map_def shortened_def)
  have f: "fill (shortened e) (heap b ! i) = \<lparr>sb_project = project, sb_session = session, sb_closed = False,
      ch_buf = (if wanted project session (shortened e) \<and> length buf < subscriberBufferSize then buf @ [shortened e] else buf),
      ch_closed = False\<rparr>"
    using assms by (simp add: live_def fill_def sub_wanted)
  show ?thesis
    using fold_send[OF i(4,1-3), of "shortened e"] assms i(5) f unfolding p live_def by simp
qed

lemma join_live:
  assumes "live i project session buf b"
  shows "live i project session buf (snd (subscribeInternal p' s' b))"
proof -
  have "\<forall>j \<in> set (subscribers b). j < length (heap b)" "i \<in> set (subscribers b)" using assms by (simp_all add: live_def)
  then have "i < length (heap b)" "length (heap b) \<notin> set (subscribers b)" by auto
  then show ?thesis
    using assms by (auto simp: live_def subscribeInternal_def Let_def nth_append)
qed

lemma leave_live:
  assumes "live i project session buf b" and "j \<noteq> i"
  shows "live i project session buf (unsubscribe j b)"
  using assms by (auto simp: live_def unsubscribe_def unsubscribe_map_def close_sub_def set_sub_def Let_def)

lemma receive_live:
  assumes "live i project session buf b"
  shows "receive i b = (case buf of [] \<Rightarrow> (None, b)
    | e # es \<Rightarrow> (Some e, snd (receive i b))) \<and> live i project session (tl buf) (snd (receive i b))"
proof -
  have "i < length (heap b)" using assms by (auto simp: live_def)
  then show ?thesis
    using assms by (auto simp: live_def receive_def set_sub_def split: list.split)
qed

section \<open>What the client reads\<close>

definition published :: "logs_event list \<Rightarrow> log_entry list" where
  "published evs = concat (map (\<lambda>ev. case ev of LPublish e \<Rightarrow> [shortened e] | _ \<Rightarrow> []) evs)"

definition payloads :: "(log_entry \<Rightarrow> bytes option) \<Rightarrow> log_entry list \<Rightarrow> bytes list" where
  "payloads marshal es = concat (map (\<lambda>e. case marshal e of None \<Rightarrow> [] | Some d \<Rightarrow> [d]) es)"

lemma published_simps [simp]:
  "published [] = []" "published (LPublish e # evs) = shortened e # published evs"
  "(\<And>e. ev \<noteq> LPublish e) \<Longrightarrow> published (ev # evs) = published evs"
  by (auto simp: published_def split: logs_event.split)

lemma payloads_simps [simp]:
  "payloads marshal [] = []"
  "payloads marshal (e # es) = (case marshal e of None \<Rightarrow> payloads marshal es | Some d \<Rightarrow> d # payloads marshal es)"
  "payloads marshal (es @ es') = payloads marshal es @ payloads marshal es'"
  by (simp_all add: payloads_def split: option.split)

text \<open>
  The events read after those already dispatched: a subsequence of what is in the channel and what is published,
  a prefix of it as long as nothing had to be dropped, and all of it once the channel is empty.
\<close>

definition delivers ::
  "(log_entry \<Rightarrow> bytes option) \<Rightarrow> string \<Rightarrow> string \<Rightarrow> logs_event list \<Rightarrow> log_entry list \<Rightarrow> logs_end \<Rightarrow> log_entry list \<Rightarrow> bytes list \<Rightarrow> bool" where
  "delivers marshal project session evs buf en buf' X \<longleftrightarrow>
     (let due = filter (wanted project session) (published evs);
          all = payloads marshal buf @ payloads marshal due
      in subseq X all \<and>
         (length buf + length due \<le> subscriberBufferSize \<longrightarrow>
            (\<exists>Y. all = X @ Y \<and> (en = Streaming \<longrightarrow> Y = payloads marshal buf'))))"

lemma delivers_stop: "en \<noteq> Streaming \<Longrightarrow> delivers marshal project session evs buf en buf' []"
  by (simp add: delivers_def Let_def)

lemma delivers_skip:
  assumes "delivers marshal project session evs buf en buf' X" and "\<And>e. ev \<noteq> LPublish e"
  shows "delivers marshal project session (ev # evs) buf en buf' X"
  using assms by (simp add: delivers_def)

lemma delivers_publish:
  assumes "delivers marshal project session evs
    (if wanted project session (shortened e) \<and> length buf < subscriberBufferSize then buf @ [shortened e] else buf) en buf' X"
  shows "delivers marshal project session (LPublish e # evs) buf en buf' X"
proof (cases "wanted project session (shortened e) \<and> \<not> length buf < subscriberBufferSize")
  case True
  let ?due = "filter (wanted project session) (published evs)"
  have "subseq X (payloads marshal buf @ payloads marshal ?due)"
    using assms True by (simp add: delivers_def Let_def)
  moreover have "subseq (payloads marshal buf @ payloads marshal ?due) (payloads marshal buf @ payloads marshal (shortened e # ?due))"
    by (auto simp: subseq_append' split: option.split)
  ultimately show ?thesis
    using True subseq_order.trans by (fastforce simp: delivers_def Let_def)
next
  case False
  then show ?thesis
    using assms by (auto simp: delivers_def Let_def split: if_splits option.splits)
qed

lemma delivers_receive:
  assumes "delivers marshal project session evs es en buf' X"
  shows "delivers marshal project session (LReady w # evs) (e # es) en buf'
    (case marshal e of None \<Rightarrow> X | Some d \<Rightarrow> d # X)"
  using assms by (auto simp: delivers_def Let_def split: option.split)

lemma read_comment:
  assumes "fold sse_step sent (sse_start []) = sse_start E"
  shows "fold sse_step (sent @ put keepalive_frame Written) (sse_start []) = sse_start E"
    and "sse_read (sent @ put keepalive_frame (Broken n)) = E"
  using assms comment_frame[OF plain_comments(2)] put_read[OF plain_comments(2)]
  by (simp_all add: put_def keepalive_frame_def sse_read_def)

lemma read_data:
  assumes "fold sse_step sent (sse_start []) = sse_start E" and "list_all (\<lambda>c. \<not> eol c) d"
  shows "fold sse_step (sent @ put (data_frame d) Written) (sse_start []) = sse_start (E @ [d])"
    and "sse_read (sent @ put (data_frame d) (Broken n)) = E"
proof -
  show "fold sse_step (sent @ put (data_frame d) Written) (sse_start []) = sse_start (E @ [d])"
    using assms(1) read_data_frame[OF assms(2)] by (simp add: put_def)
  have "list_all (\<lambda>c. \<not> eol c) (''data: '' @ d)" using assms(2) by (simp add: not_eol)
  moreover have "data_frame d = (''data: '' @ d) @ [LF, LF]" by (simp add: data_frame_def)
  ultimately show "sse_read (sent @ put (data_frame d) (Broken n)) = E"
    using assms(1) put_read[of "''data: '' @ d" n E] by (simp add: sse_read_def)
qed

lemma read_clean: "fold sse_step sent (sse_start []) = sse_start E \<Longrightarrow> sse_read sent = E"
  by (simp add: sse_read_def sse_start_def)

lemma loop_delivers:
  assumes clean: "\<And>e d. marshal e = Some d \<Longrightarrow> list_all (\<lambda>c. \<not> eol c) d"
    and "live i project session buf b" and "fold sse_step sent (sse_start []) = sse_start E"
    and "LLeave i \<notin> set evs" and "logs_loop marshal health i evs sent b = (en, sent', b')"
  shows "\<exists>X buf'. sse_read sent' = E @ X \<and> live i project session buf' b' \<and> delivers marshal project session evs buf en buf' X"
  using assms(2-)
proof (induction evs arbitrary: sent b E buf)
  case Nil
  then show ?case
    by (intro exI[of _ "[]"] exI[of _ buf]) (simp add: read_clean delivers_def)
next
  case (Cons ev evs)
  have stop: ?case if "sse_read sent1 = E" "live i project session buf' b1" "en \<noteq> Streaming" "(sent', b') = (sent1, b1)"
    for buf' sent1 b1
    using that delivers_stop[OF that(3)] by (intro exI[of _ "[]"] exI[of _ buf']) simp
  have skip: ?case if "logs_loop marshal health i evs sent1 b1 = (en, sent', b')" "live i project session buf b1"
      "fold sse_step sent1 (sse_start []) = sse_start E" "\<And>e. ev \<noteq> LPublish e" for sent1 b1
    using Cons.IH[OF that(2,3) _ that(1)] Cons.prems(3) delivers_skip that(4) by fastforce
  note live = Cons.prems(1)
  show ?case
  proof (cases ev)
    case LDrain
    then show ?thesis
      using Cons.prems stop[OF _ live] skip[OF _ live] read_clean by (auto split: if_splits)
  next
    case LGone
    then show ?thesis using Cons.prems stop[OF _ live] read_clean by auto
  next
    case (LTick w)
    show ?thesis
    proof (cases w)
      case Written
      then show ?thesis
        using Cons.prems(4) LTick skip[OF _ live read_comment(1)[OF Cons.prems(2)]] by simp
    next
      case (Broken n)
      then show ?thesis
        using Cons.prems(4) LTick stop[OF _ live] read_comment(2)[OF Cons.prems(2), of n] by auto
    qed
  next
    case (LPublish e)
    then show ?thesis
      using Cons.IH[OF publish_live[OF live, of e] Cons.prems(2)] Cons.prems(3,4) delivers_publish by fastforce
  next
    case (LJoin p' s')
    then show ?thesis using Cons.prems(4) skip[OF _ join_live[OF live] Cons.prems(2)] by simp
  next
    case (LLeave j)
    then show ?thesis using Cons.prems(3,4) skip[OF _ leave_live[OF live] Cons.prems(2)] by simp
  next
    case (LReady w)
    show ?thesis
    proof (cases buf)
      case Nil
      then have "receive i b = (None, b)" "\<not> ch_closed (heap b ! i)"
        using receive_live[OF live] live by (simp_all add: live_def)
      then show ?thesis using Cons.prems(4) LReady skip[OF _ live Cons.prems(2)] by simp
    next
      case buf: (Cons e es)
      obtain b1 where b1: "b1 = snd (receive i b)" by simp
      have rc: "receive i b = (Some e, b1)" and l1: "live i project session es b1"
        using receive_live[OF live] buf by (simp_all add: b1)
      have go: ?thesis if r: "logs_loop marshal health i evs sent1 b1 = (en, sent', b')"
          and f: "fold sse_step sent1 (sse_start []) = sse_start (E @ (case marshal e of None \<Rightarrow> [] | Some d \<Rightarrow> [d]))" for sent1
      proof -
        obtain X buf' where X: "sse_read sent' = (E @ (case marshal e of None \<Rightarrow> [] | Some d \<Rightarrow> [d])) @ X"
            "live i project session buf' b'" "delivers marshal project session evs es en buf' X"
          using Cons.IH[OF l1 f _ r] Cons.prems(3) by auto
        then show ?thesis
          using delivers_receive[OF X(3), of w e] LReady buf by (auto split: option.splits)
      qed
      show ?thesis
      proof (cases "marshal e")
        case None
        then show ?thesis using go Cons.prems(2,4) LReady rc by simp
      next
        case (Some d)
        show ?thesis
        proof (cases w)
          case Written
          then show ?thesis
            using go[OF _ ] Some Cons.prems(4) LReady rc read_data(1)[OF Cons.prems(2) clean[OF Some]] by simp
        next
          case (Broken n)
          then show ?thesis
            using stop[OF _ l1] Some Cons.prems(4) LReady rc read_data(2)[OF Cons.prems(2) clean[OF Some], of n] by auto
        qed
      qed
    qed
  qed
qed

lemma subscribe_live:
  assumes "b_ok (b, [])" and "\<not> b_closed b"
  shows "live (length (heap b)) project session [] (snd (subscribeInternal project session b))"
    and "fst (subscribeInternal project session b) = length (heap b)"
proof -
  have s: "distinct (subscribers b)" "\<forall>j \<in> set (subscribers b). j < length (heap b)"
    using assms(1) by (simp_all add: b_ok_def)
  then have "length (heap b) \<notin> set (subscribers b)" by auto
  then show "live (length (heap b)) project session [] (snd (subscribeInternal project session b))"
    using assms(2) s by (auto simp: live_def subscribeInternal_def Let_def)
  show "fst (subscribeInternal project session b) = length (heap b)"
    by (simp add: subscribeInternal_def Let_def)
qed

lemma unsubscribe_gone: "i \<notin> set (subscribers (unsubscribe i b))"
  by (auto simp: unsubscribe_def unsubscribe_map_def close_sub_def set_sub_def Let_def)

lemma opened_stream:
  assumes "handleLogs marshal (project, session) Written evs s = (resp, Some (en, sent), s')"
    and "h_bcast s = Some b" "b_ok (b, [])" "\<not> b_closed b"
  shows "open_logs (project, session) s =
    (respond 200 (BStream (length (heap b))), s\<lparr>h_bcast := Some (snd (subscribeInternal project session b))\<rparr>)"
proof -
  have one: "\<not> (project \<noteq> [] \<and> session \<noteq> [])"
  proof
    assume "project \<noteq> [] \<and> session \<noteq> []"
    then have "open_logs (project, session) s =
        (writeError 400 CodeInvalidField ''project and session_id are mutually exclusive'', s)"
      by (simp add: open_logs_def)
    then show False using assms(1) by (simp add: handleLogs_def writeError_def respond_def)
  qed
  have "(if session \<noteq> [] then SubscribeWithSessionID session b else Subscribe project b) =
      (length (heap b), snd (subscribeInternal project session b))"
    using one subscribe_live(2)[OF assms(3,4), of project session]
    by (auto simp: SubscribeWithSessionID_def Subscribe_def prod_eq_iff)
  moreover have "open_logs (project, session) s =
      (case (if session \<noteq> [] then SubscribeWithSessionID session b else Subscribe project b) of
         (i, b') \<Rightarrow> (respond 200 (BStream i), s\<lparr>h_bcast := Some b'\<rparr>))"
    using one assms(2) by (auto simp: open_logs_def)
  ultimately show ?thesis by simp
qed

text \<open>
  C19. The log stream is lossless up to declared drops. Whatever the keepalives, the other subscribers and the
  moment the connection breaks (also in the middle of a frame), an event-stream client of \<open>/logs\<close> reads
  entries that were published after the subscription and match its filter, each whole, in order and at most
  once; as long as no more than 256 matching entries are published it misses none before the end, and an
  idle stream has delivered all of them; a finished stream has given its subscription back. The one thing
  asked of \<open>json.Marshal\<close> is that it writes no raw line end.
\<close>

theorem log_stream_lossless:
  assumes open_ok: "handleLogs marshal (project, session) Written evs s = (resp, Some (en, sent), s')"
    and b: "h_bcast s = Some b" "b_ok (b, [])" "\<not> b_closed b"
    and clean: "\<And>e d. marshal e = Some d \<Longrightarrow> list_all (\<lambda>c. \<not> eol c) d"
    and others: "LLeave (length (heap b)) \<notin> set evs"
  defines "due \<equiv> payloads marshal (filter (wanted project session) (published evs))"
  shows "subseq (sse_read sent) due \<and>
    (length (filter (wanted project session) (published evs)) \<le> 256 \<longrightarrow> prefix (sse_read sent) due) \<and>
    (\<exists>b'. h_bcast s' = Some b' \<and>
       (en \<noteq> Streaming \<longrightarrow> length (heap b) \<notin> set (subscribers b')) \<and>
       (en = Streaming \<and> ch_buf (heap b' ! length (heap b)) = [] \<and> length (filter (wanted project session) (published evs)) \<le> 256
          \<longrightarrow> sse_read sent = due))"
proof -
  let ?i = "length (heap b)"
  let ?b1 = "snd (subscribeInternal project session b)"
  note op = opened_stream[OF open_ok b]
  obtain en1 sent1 b2 where lp: "logs_loop marshal (h_health s \<noteq> None) ?i evs connected_frame ?b1 = (en1, sent1, b2)"
    by (metis prod_cases3)
  have eqs: "en1 = en" "sent1 = sent" "h_bcast s' = Some (if en = Streaming then b2 else unsubscribe ?i b2)"
    using open_ok lp by (auto simp: handleLogs_def op respond_def)
  have start: "fold sse_step connected_frame (sse_start []) = sse_start []"
    unfolding connected_frame_def by (rule comment_frame[OF plain_comments(1)]) simp_all
  have "\<exists>X buf'. sse_read sent1 = [] @ X \<and> live ?i project session buf' b2 \<and> delivers marshal project session evs [] en1 buf' X"
    by (rule loop_delivers[OF _ subscribe_live(1)[OF b(2,3)] start others lp]) (erule clean)
  then obtain X buf' where X: "sse_read sent = X" "live ?i project session buf' b2" "delivers marshal project session evs [] en buf' X"
    using eqs by auto
  have buf: "ch_buf (heap b2 ! ?i) = buf'" using X(2) by (simp add: live_def)
  show ?thesis
    using X(3) unsubscribe_gone[of ?i b2] buf
    by (auto simp: X(1) eqs(3) delivers_def Let_def due_def subscriberBufferSize_def)
qed

text \<open>A marshaller in the shape of the protocol's, with the fields the filters use.\<close>

definition marshal_example :: "log_entry \<Rightarrow> bytes option" where
  "marshal_example e = Some (''{'' @ json_string (le_session e) @ '':'' @ json_string (le_content e) @ ''}'')"

lemma json_no_eol: "list_all (\<lambda>c. \<not> eol c) (json_string s)"
proof -
  have "\<not> eol c" if "c \<in> set (json_escape s)" for c
    using json_escape_printable[OF that] by (auto simp: eol_def LF_def)
  then show ?thesis by (auto simp: json_string_def QUOTE_def list_all_iff not_eol)
qed

definition logs_entry :: "string \<Rightarrow> bytes \<Rightarrow> log_entry" where
  "logs_entry session content = \<lparr>le_project = [], le_session = session, le_card = [], le_kind = ''text'', le_content = content, le_model = [], le_usage = None\<rparr>"

definition logs_handler :: handler_state where
  "logs_handler = \<lparr>h_tracker = tracker_New, h_replay = None, h_dedup = None, h_bcast = Some NewBroadcaster, h_health = None, h_calls = []\<rparr>"

lemma short_content: "length s \<le> 65536 \<Longrightarrow> truncate_content s = s"
  by (simp add: truncate_content_def maxLogEntryContentBytes_def)

definition logs_script :: "logs_event list" where
  "logs_script = [LPublish (logs_entry ''s1'' (''a'' @ [LF])), LTick Written, LPublish (logs_entry ''s2'' ''b''), LReady Written,
     LPublish (logs_entry ''s1'' ''c''), LReady (Broken 12)]"

theorem log_stream_lossless_witness:
  "\<exists>resp en sent s'. handleLogs marshal_example ([], ''s1'') Written logs_script logs_handler = (resp, Some (en, sent), s') \<and>
     prefix (sse_read sent) [the (marshal_example (logs_entry ''s1'' (''a'' @ [LF]))), the (marshal_example (logs_entry ''s1'' ''c''))]"
proof -
  have new: "h_bcast logs_handler = Some NewBroadcaster" "b_ok (NewBroadcaster, [])" "\<not> b_closed NewBroadcaster"
    by (simp_all add: logs_handler_def NewBroadcaster_def b_ok_def)
  obtain resp en sent s' where h: "handleLogs marshal_example ([], ''s1'') Written logs_script logs_handler = (resp, Some (en, sent), s')"
  proof -
    obtain i b1 where o: "open_logs ([], ''s1'') logs_handler = (respond 200 (BStream i), logs_handler\<lparr>h_bcast := Some b1\<rparr>)"
      by (cases "SubscribeWithSessionID ''s1'' NewBroadcaster") (simp add: open_logs_def new(1))
    obtain en sent b2 where "logs_loop marshal_example (h_health logs_handler \<noteq> None) i logs_script connected_frame b1 = (en, sent, b2)"
      by (metis prod_cases3)
    then have "handleLogs marshal_example ([], ''s1'') Written logs_script logs_handler =
        (respond 200 (BStream i), Some (en, sent),
         logs_handler\<lparr>h_bcast := Some (if en = Streaming then b2 else unsubscribe i b2)\<rparr>)"
      by (simp add: handleLogs_def o respond_def)
    then show ?thesis by (rule that)
  qed
  have clean: "list_all (\<lambda>c. \<not> eol c) d" if "marshal_example e = Some d" for e d
  proof -
    have "d = ''{'' @ json_string (le_session e) @ '':'' @ json_string (le_content e) @ ''}''"
      using that by (simp add: marshal_example_def)
    moreover have "\<not> eol (CHR ''{'')" "\<not> eol (CHR '':'')" "\<not> eol (CHR ''}'')" by (simp_all add: not_eol)
    ultimately show ?thesis by (simp add: json_no_eol)
  qed
  have short: "truncate_content ''c'' = ''c''" "truncate_content (''a'' @ [LF]) = ''a'' @ [LF]" "truncate_content ''b'' = ''b''"
    by (simp_all add: short_content)
  have w: "filter (wanted [] ''s1'') (published logs_script) = [logs_entry ''s1'' (''a'' @ [LF]), logs_entry ''s1'' ''c'']"
    using short by (simp add: logs_script_def logs_entry_def wanted_def shortened_def)
  have o: "LLeave (length (heap NewBroadcaster)) \<notin> set logs_script" by (simp add: logs_script_def)
  have p: "payloads marshal_example [logs_entry ''s1'' (''a'' @ [LF]), logs_entry ''s1'' ''c''] =
      [the (marshal_example (logs_entry ''s1'' (''a'' @ [LF]))), the (marshal_example (logs_entry ''s1'' ''c''))]"
    by (simp add: marshal_example_def)
  show ?thesis
    using log_stream_lossless[OF h new clean o] h unfolding w p by auto
qed

end
