(* ===== verification/Middleware.thy ===== *)
theory Middleware
  imports Server
begin

text \<open>
  The middleware around every handler (\<open>internal/webhook/middleware.go\<close>): correlation ids, the recorder of the
  response status and the labels of the request metrics, with the endpoint allowlist of
  \<open>internal/metrics/metrics.go\<close>; the admin server's routes (\<open>buildAdminServer\<close> of \<open>main.go\<close>) and the reader that
  feeds the idle watchdog (\<open>internal/container/progressreader.go\<close>).
\<close>

section \<open>Correlation ids\<close>

text \<open>The id of the request, put on the context and echoed; \<open>fresh\<close> is the new UUID.\<close>

definition withCorrelation :: "string \<Rightarrow> string \<Rightarrow> string" where
  "withCorrelation fresh header = (if header = [] then fresh else header)"

section \<open>Metric labels\<close>

definition endpointAllowlist :: "string list" where
  "endpointAllowlist = [''/trigger'', ''/kill'', ''/stop-all'', ''/message'', ''/promote'', ''/end-session'', ''/chat/start'',
     ''/chat/end'', ''/logs'', ''/containers'', ''/health'', ''/readyz'', ''/metrics'', ''/ready'']"

definition NormalizeEndpoint :: "string \<Rightarrow> string" where
  "NormalizeEndpoint path = (if path \<in> set endpointAllowlist then path else ''other'')"

definition strip_slash :: "string \<Rightarrow> string" where
  "strip_slash s = (case s of [] \<Rightarrow> [] | c # r \<Rightarrow> if c = CHR ''/'' then r else s)"

text \<open>What the handler does to the response, and what the recorder keeps and passes on.\<close>

datatype response_call = CallWriteHeader int | CallWrite bytes | CallFlush

record status_recorder =
  sr_status :: int
  sr_wrote :: bool
  sr_passed :: "response_call list"

definition new_recorder :: status_recorder where
  "new_recorder = \<lparr>sr_status = 200, sr_wrote = False, sr_passed = []\<rparr>"

definition pass_on :: "response_call \<Rightarrow> status_recorder \<Rightarrow> status_recorder" where
  "pass_on c sr = sr\<lparr>sr_passed := sr_passed sr @ [c]\<rparr>"

fun recorder_call :: "response_call \<Rightarrow> status_recorder \<Rightarrow> status_recorder" where
  "recorder_call (CallWriteHeader code) sr =
     pass_on (CallWriteHeader code) (if sr_wrote sr then sr else sr\<lparr>sr_status := code, sr_wrote := True\<rparr>)"
| "recorder_call (CallWrite b) sr =
     pass_on (CallWrite b) (if sr_wrote sr then sr else sr\<lparr>sr_status := 200, sr_wrote := True\<rparr>)"
| "recorder_call CallFlush sr = pass_on CallFlush sr"

text \<open>The labels of one request: endpoint, status and class.\<close>

definition status_class :: "int \<Rightarrow> string" where
  "status_class status =
     (let code = (if status \<ge> 400 then ''error'' else ''success'')
      in if status = 429 then ''rate_limited'' else code)"

definition withMetrics :: "string \<Rightarrow> response_call list \<Rightarrow> (string \<times> int \<times> string) \<times> status_recorder" where
  "withMetrics path calls =
     (let sr = fold recorder_call calls new_recorder
      in ((strip_slash (NormalizeEndpoint path), sr_status sr, status_class (sr_status sr)), sr))"

text \<open>The span name of the tracing wrapper.\<close>

definition span_name :: "string \<Rightarrow> string \<Rightarrow> string" where
  "span_name meth path = meth @ '' '' @ NormalizeEndpoint path"

section \<open>The admin server\<close>

datatype admin_route = AdminMetrics | AdminReady

definition admin_route_of :: "string \<Rightarrow> string \<Rightarrow> admin_route option" where
  "admin_route_of meth path =
     (if meth = ''GET'' \<or> meth = ''HEAD'' then map_of [(''/metrics'', AdminMetrics), (''/ready'', AdminReady)] path else None)"

definition AdminAuth ::
  "handler_config \<Rightarrow> verifier \<Rightarrow> time \<Rightarrow> (bytes \<Rightarrow> handler_state \<Rightarrow> response option \<times> handler_state) \<Rightarrow>
    request \<Rightarrow> handler_state \<Rightarrow> response option \<times> handler_state" where
  "AdminAuth = hmacAuth"

section \<open>The progress reader\<close>

text \<open>A read of \<open>n\<close> bytes: its result is passed on, and a read that brought data counts as progress.\<close>

definition progress_Read :: "int \<times> string option \<Rightarrow> nat \<Rightarrow> (int \<times> string option) \<times> nat" where
  "progress_Read r progress = (case r of (n, err) \<Rightarrow> ((n, err), if n > 0 then progress + 1 else progress))"

section \<open>What the labels tell\<close>

text \<open>The status a client sees: the first one written, 200 if the handler only writes a body or nothing.\<close>

fun client_status :: "response_call list \<Rightarrow> int" where
  "client_status [] = 200"
| "client_status (CallWriteHeader code # cs) = code"
| "client_status (CallWrite b # cs) = 200"
| "client_status (CallFlush # cs) = client_status cs"

lemma recorder_wrote: "sr_wrote sr \<Longrightarrow> sr_status (fold recorder_call cs sr) = sr_status sr"
proof (induction cs arbitrary: sr)
  case (Cons c cs)
  then show ?case by (cases c) (simp_all add: pass_on_def)
qed simp

lemma recorder_status:
  "\<not> sr_wrote sr \<Longrightarrow> sr_status sr = 200 \<Longrightarrow> sr_status (fold recorder_call cs sr) = client_status cs"
proof (induction cs arbitrary: sr)
  case (Cons c cs)
  then show ?case by (cases c) (simp_all add: pass_on_def recorder_wrote)
qed simp

lemma recorder_transparent: "sr_passed (fold recorder_call cs sr) = sr_passed sr @ cs"
proof (induction cs arbitrary: sr)
  case (Cons c cs)
  then show ?case by (cases c) (simp_all add: pass_on_def)
qed simp

lemma served_allowed: "route_of meth path = Some r \<Longrightarrow> path \<in> set endpointAllowlist"
  by (auto simp: route_of_def endpointAllowlist_def split: if_splits)

lemma admin_allowed: "admin_route_of meth path = Some r \<Longrightarrow> path \<in> set endpointAllowlist"
  by (auto simp: admin_route_of_def endpointAllowlist_def split: if_splits)

text \<open>
  Metrics describe every request and cannot be inflated from outside. For every path and every way a
  handler writes its response, the endpoint label is one of fifteen, the status label is the status the client
  sees, the class is one of three, and the response passes through unchanged; every route that the runner or its
  admin server serves keeps a label of its own.
\<close>

theorem metric_labels_sound:
  "(case withMetrics path calls of ((endpoint, status, class), sr) \<Rightarrow>
     endpoint \<in> strip_slash ` set endpointAllowlist \<union> {''other''} \<and> status = client_status calls \<and>
     class \<in> {''success'', ''error'', ''rate_limited''} \<and> (class = ''success'' \<longleftrightarrow> status < 400) \<and> sr_passed sr = calls) \<and>
   card (strip_slash ` set endpointAllowlist \<union> {''other''}) = 15 \<and>
   {path. \<exists>meth r. route_of meth path = Some r} \<union> {path. \<exists>meth r. admin_route_of meth path = Some r} = set endpointAllowlist \<and>
   (NormalizeEndpoint path = path \<longleftrightarrow> path \<in> set endpointAllowlist \<union> {''other''})"
proof -
  have served: "{path. \<exists>meth r. route_of meth path = Some r} \<union> {path. \<exists>meth r. admin_route_of meth path = Some r} = set endpointAllowlist"
  proof (intro equalityI subsetI)
    fix p assume "p \<in> {path. \<exists>meth r. route_of meth path = Some r} \<union> {path. \<exists>meth r. admin_route_of meth path = Some r}"
    then show "p \<in> set endpointAllowlist" using served_allowed admin_allowed by blast
  next
    fix p assume "p \<in> set endpointAllowlist"
    then have "route_of ''POST'' p \<noteq> None \<or> route_of ''GET'' p \<noteq> None \<or> admin_route_of ''GET'' p \<noteq> None"
      by (auto simp: endpointAllowlist_def route_of_def admin_route_of_def)
    then show "p \<in> {path. \<exists>meth r. route_of meth path = Some r} \<union> {path. \<exists>meth r. admin_route_of meth path = Some r}" by blast
  qed
  have labels: "card (strip_slash ` set endpointAllowlist \<union> {''other''}) = 15"
    by (simp add: endpointAllowlist_def strip_slash_def)
  have st: "sr_status (fold recorder_call calls new_recorder) = client_status calls"
    by (rule recorder_status) (simp_all add: new_recorder_def)
  have pa: "sr_passed (fold recorder_call calls new_recorder) = calls"
    by (simp add: recorder_transparent new_recorder_def)
  have ep: "strip_slash (NormalizeEndpoint path) \<in> strip_slash ` set endpointAllowlist \<union> {''other''}"
    by (auto simp: NormalizeEndpoint_def) (simp add: strip_slash_def)
  show ?thesis
    using served labels ep by (auto simp: withMetrics_def Let_def st pa status_class_def NormalizeEndpoint_def)
qed

end
