(* ===== verification/Startup.thy ===== *)
theory Startup
  imports Health Config_Props
begin

text \<open>
  The boot of the runner: \<open>main\<close> of \<open>cmd/contextmatrix-runner/main.go\<close> up to its listeners, with \<open>StartTokenRefresher\<close> and
  \<open>InitSharedSecrets\<close> of \<open>internal/container/manager.go\<close>, and the environment of the task-skills pull. Every way
  out before the listeners is \<open>BootExit\<close> (the code of \<open>os.Exit\<close>); a panic of the first preflight run is not
  recovered.
\<close>

section \<open>The shared secrets\<close>

datatype start_error = NoTokenProvider | MkdirFailed | InitialRefreshFailed secrets_error

definition InitSharedSecrets :: "string \<Rightarrow> bool \<Rightarrow> start_error option" where
  "InitSharedSecrets secrets_dir mkdir_ok =
     (if secrets_dir = [] then None else if mkdir_ok then None else Some MkdirFailed)"

text \<open>The refresher is disabled without a secrets directory.\<close>

definition refresher_disabled :: "manager_config \<Rightarrow> bool" where
  "refresher_disabled cfg = (SecretsDir cfg = [])"

text \<open>The first refresh is synchronous and its failure is the caller's.\<close>

definition StartTokenRefresher ::
  "manager_config \<Rightarrow> bool \<Rightarrow> bool \<Rightarrow> refresh_env \<Rightarrow> secrets_fs \<Rightarrow> start_error option \<times> secrets_fs" where
  "StartTokenRefresher cfg has_token mkdir_ok env s =
     (if \<not> has_token then (Some NoTokenProvider, s)
      else case InitSharedSecrets (SecretsDir cfg) mkdir_ok of
        Some e \<Rightarrow> (Some e, s)
      | None \<Rightarrow>
          if refresher_disabled cfg then (None, s)
          else (case doOneRefresh env (buildStaticAuthEnv cfg) s of
             (RefreshError e, ss) \<Rightarrow> (Some (InitialRefreshFailed e), last ss)
           | (Refreshed changed expires, ss) \<Rightarrow> (None, last ss)))"

section \<open>Boot\<close>

record boot_env =
  be_config :: config_env
  be_tracing_ok :: bool
  be_docker_ok :: bool
  be_app_ok :: "github_config \<Rightarrow> bool"
  be_pat_ok :: "github_config \<Rightarrow> bool"
  be_mkdir_ok :: bool
  be_refresh :: refresh_env
  be_secrets :: secrets_fs
  be_ping :: probe
  be_inspect :: "string \<Rightarrow> probe"
  be_mint_probe :: probe
  be_cm_ping :: probe
  be_docker :: docker_env

record boot_state =
  bs_config :: config
  bs_secrets :: secrets_fs
  bs_loop :: loop_end
  bs_health :: health_state
  bs_manager :: manager

datatype boot_result = BootExit int string | BootPanics | Booted boot_state

text \<open>The choice of the GitHub credential; the third branch is the one that \<open>Validate\<close> is to exclude.\<close>

definition token_provider :: "boot_env \<Rightarrow> github_config \<Rightarrow> string option" where
  "token_provider E g =
     (if gh_auth_mode g = ''app'' then (if be_app_ok E g then None else Some ''failed to construct GitHub App provider'')
      else if gh_auth_mode g = ''pat'' then (if be_pat_ok E g then None else Some ''failed to construct GitHub PAT provider'')
      else Some ''unreachable: invalid auth_mode after Validate()'')"

text \<open>
  The synchronous part of \<open>main\<close>: the retries of preflight run later, so here the loop sees no tick. The boot-time
  sweep only logs its errors.
\<close>

definition boot :: "boot_env \<Rightarrow> boot_result" where
  "boot E = (case config_Load (be_config E) of
     Inl e \<Rightarrow> BootExit 1 e
   | Inr cfg \<Rightarrow>
       if \<not> be_tracing_ok E then BootExit 1 ''failed to init tracing''
       else if \<not> be_docker_ok E then BootExit 1 ''failed to create Docker client''
       else case token_provider E (c_github cfg) of
         Some e \<Rightarrow> BootExit 1 e
       | None \<Rightarrow>
           (let mcfg = manager_config_of cfg;
                m0 = NewManager tracker_New (Some NewBroadcaster)
            in case StartTokenRefresher mcfg True (be_mkdir_ok E) (be_refresh E) (be_secrets E) of
              (Some e, s) \<Rightarrow> BootExit 1 ''failed to start token refresher''
            | (None, s) \<Rightarrow>
                (case preflight_Loop (buildProbes cfg (be_ping E) (be_inspect E) (be_mint_probe E) (be_cm_ping E)) []
                        \<lparr>passed = PreflightPassed NewHealthState, successes = 0\<rparr> of
                   None \<Rightarrow> BootPanics
                 | Some (en, pf) \<Rightarrow>
                     Booted \<lparr>bs_config = cfg, bs_secrets = s, bs_loop = en,
                       bs_health = NewHealthState\<lparr>PreflightPassed := passed pf\<rparr>,
                       bs_manager = snd (CleanupOrphans (be_docker E) m0)\<rparr>)))"

section \<open>The environment of the task-skills pull\<close>

text \<open>
  \<open>git_env\<close> is the process environment, \<open>remote\<close> the trimmed \<open>remote.origin.url\<close> (\<open>None\<close> when git cannot tell),
  \<open>parse\<close> gives scheme and host, \<open>b64\<close> is \<open>base64.StdEncoding\<close>.
\<close>

definition pullSkillsEnv ::
  "(string \<Rightarrow> (string \<times> string) option) \<Rightarrow> (string \<Rightarrow> string) \<Rightarrow> string list \<Rightarrow> string option \<Rightarrow> string \<Rightarrow> string list" where
  "pullSkillsEnv parse b64 git_env remote token =
     (let parent = git_env @ [''GIT_TERMINAL_PROMPT=0'', ''GIT_ASKPASS=true'']
      in case remote of
        None \<Rightarrow> parent
      | Some url \<Rightarrow>
          if url = [] then parent
          else case parse url of
            None \<Rightarrow> parent
          | Some (scheme, host) \<Rightarrow>
              if go_lower scheme \<noteq> ''https'' \<or> host = [] then parent
              else parent @
                [''GIT_CONFIG_COUNT=1'',
                 ''GIT_CONFIG_KEY_0=http.https://'' @ host @ ''/.extraheader'',
                 ''GIT_CONFIG_VALUE_0=Authorization: Basic '' @ b64 (''x-access-token:'' @ token)])"

text \<open>What \<open>pullSkillsRepo\<close> runs, if anything: the arguments and the environment.\<close>

datatype git_dir = GitDirMissing | GitDirError | GitDirThere

definition pullSkillsRepo ::
  "(string \<Rightarrow> (string \<times> string) option) \<Rightarrow> (string \<Rightarrow> string) \<Rightarrow> string list \<Rightarrow> string option \<Rightarrow> git_dir \<Rightarrow> bool \<Rightarrow> string \<Rightarrow> string \<Rightarrow>
    string option \<times> (string list \<times> string list) option" where
  "pullSkillsRepo parse b64 git_env remote gd pull_ok dir token = (case gd of
     GitDirMissing \<Rightarrow> (None, None)
   | GitDirError \<Rightarrow> (Some ''stat'', None)
   | GitDirThere \<Rightarrow>
       (if pull_ok then None else Some ''git pull'',
        Some ([''git'', ''-C'', dir, ''pull'', ''--ff-only''], pullSkillsEnv parse b64 git_env remote token)))"

section \<open>What a finished boot guarantees\<close>

lemma loaded_auth_mode:
  assumes "config_Load E = Inr c"
  shows "gh_auth_mode (c_github c) = ''app'' \<or> gh_auth_mode (c_github c) = ''pat''"
proof -
  obtain c1 where v: "config_Validate E (load_defaults E c1) = Inr c" using Load_accepts[OF assms] by blast
  obtain d' where d': "list_all (\<lambda>e. e = None) (config_errors E d')"
    "c = d'\<lparr>c_unpinned_image_refs := unpinned_refs d', c_log_format := go_lower (c_log_format d'),
          c_container_timeout_duration :=
            (case ParseDuration (float_part E) (c_container_timeout d') of Some d \<Rightarrow> d | None \<Rightarrow> 0)\<rparr>"
    using Validate_accepts[OF v] by blast
  have "list_all (\<lambda>e. e = None) (github_errors E (c_github d'))"
    using d'(1) by (simp add: config_errors_def)
  then show ?thesis by (auto simp: github_errors_def d'(2) split: if_splits)
qed

lemma refreshed_file:
  assumes "doOneRefresh env static s = (Refreshed ch exp, ss)"
  shows "\<exists>token body. minted_token env = Some (token, exp) \<and> renderSecretsFile token static = Inr body \<and>
    fs_path (last ss) = Some body"
  using assms
  by (cases "file_outcome env")
    (auto simp: doOneRefresh_def writeSecretsFileAtomic_def Let_def split: option.splits prod.splits sum.splits if_splits)

lemma started_refresher:
  assumes "StartTokenRefresher cfg True mkdir_ok env s = (None, s')" and "SecretsDir cfg \<noteq> []"
  shows "\<exists>token exp body. minted_token env = Some (token, exp) \<and> renderSecretsFile token (buildStaticAuthEnv cfg) = Inr body \<and>
    fs_path s' = Some body"
proof -
  obtain ch exp ss where r: "doOneRefresh env (buildStaticAuthEnv cfg) s = (Refreshed ch exp, ss)" "s' = last ss"
    using assms by (auto simp: StartTokenRefresher_def refresher_disabled_def split: option.splits prod.splits refresh_result.splits)
  then show ?thesis using refreshed_file[OF r(1)] by blast
qed

lemma booted:
  assumes "boot E = Booted b"
  obtains cfg s en pf where "config_Load (be_config E) = Inr cfg"
    "StartTokenRefresher (manager_config_of cfg) True (be_mkdir_ok E) (be_refresh E) (be_secrets E) = (None, s)"
    "preflight_Loop (buildProbes cfg (be_ping E) (be_inspect E) (be_mint_probe E) (be_cm_ping E)) [] preflight_start = Some (en, pf)"
    "b = \<lparr>bs_config = cfg, bs_secrets = s, bs_loop = en, bs_health = NewHealthState\<lparr>PreflightPassed := passed pf\<rparr>,
       bs_manager = snd (CleanupOrphans (be_docker E) (NewManager tracker_New (Some NewBroadcaster)))\<rparr>"
  using assms
  by (auto simp: boot_def Let_def NewHealthState_def split: sum.splits option.splits prod.splits if_splits)

lemma nothing_tracked: "\<not> tracked_container tracker_New c"
  by (simp add: tracked_container_def Has_def HasChat_def lookup_key_def tracker_New_def)

text \<open>
  C20. The listeners open only on a sound runner. If boot gets that far, the configuration is one that loads and
  names a credential mode, a runner with a secrets directory has the file written with the token just
  minted and the static credentials, so no container can start before it, \<open>/readyz\<close> starts as ready exactly
  when every dependency answered the first preflight, nothing is tracked or draining, and, if Docker's list could be
  had, every container on it that an earlier process left has been stopped and removed. A list that fails is
  only logged, and boot goes on without the sweep; without a secrets directory there is no file to write.
\<close>

theorem boot_gates:
  assumes "boot E = Booted b"
  shows "config_Load (be_config E) = Inr (bs_config b) \<and>
    (c_secrets_dir (bs_config b) \<noteq> [] \<longrightarrow>
      (\<exists>token exp body. minted_token (be_refresh E) = Some (token, exp) \<and>
        renderSecretsFile token (buildStaticAuthEnv (manager_config_of (bs_config b))) = Inr body \<and> fs_path (bs_secrets b) = Some body)) \<and>
    (PreflightPassed (bs_health b) \<longleftrightarrow>
      all_reachable (bs_config b) (be_ping E) (be_inspect E) (be_mint_probe E) (be_cm_ping E) 0) \<and>
    \<not> Draining (bs_health b) \<and> m_tracker (bs_manager b) = tracker_New \<and>
    (\<forall>cs. list_answer (be_docker E) runner_filter = Some cs \<longrightarrow>
      (\<forall>c \<in> set cs. EvStop (dc_id c) 5 \<in> set (m_events (bs_manager b)) \<and> EvRemove (dc_id c) \<in> set (m_events (bs_manager b))))"
proof -
  obtain cfg s en pf where b: "config_Load (be_config E) = Inr cfg"
    "StartTokenRefresher (manager_config_of cfg) True (be_mkdir_ok E) (be_refresh E) (be_secrets E) = (None, s)"
    "preflight_Loop (buildProbes cfg (be_ping E) (be_inspect E) (be_mint_probe E) (be_cm_ping E)) [] preflight_start = Some (en, pf)"
    "b = \<lparr>bs_config = cfg, bs_secrets = s, bs_loop = en, bs_health = NewHealthState\<lparr>PreflightPassed := passed pf\<rparr>,
       bs_manager = snd (CleanupOrphans (be_docker E) (NewManager tracker_New (Some NewBroadcaster)))\<rparr>"
    using booted[OF assms] .
  let ?m0 = "NewManager tracker_New (Some NewBroadcaster)"
  have t: "m_tracker ?m0 = tracker_New" by (simp add: NewManager_def)
  have pf: "passed pf \<longleftrightarrow> all_reachable cfg (be_ping E) (be_inspect E) (be_mint_probe E) (be_cm_ping E) 0"
    using loop_gate[OF b(3)] by (simp add: built_run_ok preflight_pass_def)
  have kept: "m_tracker (snd (CleanupOrphans (be_docker E) ?m0)) = tracker_New"
    using cleanup_spares[of "be_docker E" ?m0] t by auto
  have swept: "EvStop (dc_id c) 5 \<in> set (m_events (bs_manager b)) \<and> EvRemove (dc_id c) \<in> set (m_events (bs_manager b))"
    if "list_answer (be_docker E) runner_filter = Some cs" "c \<in> set cs" for cs c
    using that(2) by (auto simp: b(4) cleanup_effect[OF that(1), of ?m0] t nothing_tracked)
  have "SecretsDir (manager_config_of cfg) = c_secrets_dir cfg" by (simp add: manager_config_of_def)
  then show ?thesis
    using b(1) started_refresher[OF b(2)] pf kept swept by (auto simp: b(4) NewHealthState_def)
qed

text \<open>The branch that \<open>main\<close> calls unreachable is.\<close>

lemma boot_provider_known: "boot E \<noteq> BootExit 1 ''unreachable: invalid auth_mode after Validate()''"
proof
  assume b: "boot E = BootExit 1 ''unreachable: invalid auth_mode after Validate()''"
  show False
  proof (cases "config_Load (be_config E)")
    case (Inl e)
    then show ?thesis
      using b by (auto simp: boot_def config_Load_def split: if_splits option.splits sum.splits)
  next
    case (Inr c)
    then show ?thesis
      using b loaded_auth_mode[OF Inr]
      by (auto simp: boot_def token_provider_def Let_def split: if_splits option.splits prod.splits)
  qed
qed

section \<open>What the skills pull can leak\<close>

text \<open>
  The token is never an argument of git; its environment carries it only for an \<open>https\<close> remote, in one variable
  whose key restricts it to that host; and git is never left to ask for a password.
\<close>

lemma pull_confines_token:
  assumes "pullSkillsRepo parse b64 git_env remote gd ok dir token = (err, Some (args, en))"
  shows "args = [''git'', ''-C'', dir, ''pull'', ''--ff-only''] \<and> {''GIT_TERMINAL_PROMPT=0'', ''GIT_ASKPASS=true''} \<subseteq> set en \<and>
    (en = pullSkillsEnv parse b64 git_env remote token' \<or>
     (\<exists>url scheme host. remote = Some url \<and> parse url = Some (scheme, host) \<and> go_lower scheme = ''https'' \<and>
        en = butlast (pullSkillsEnv parse b64 git_env remote token') @
          [''GIT_CONFIG_VALUE_0=Authorization: Basic '' @ b64 (''x-access-token:'' @ token)] \<and>
        ''GIT_CONFIG_KEY_0=http.https://'' @ host @ ''/.extraheader'' \<in> set en))"
  using assms
  by (cases gd) (auto simp: pullSkillsRepo_def pullSkillsEnv_def Let_def butlast_append split: option.splits prod.splits)

section \<open>Witness\<close>

definition boot_example :: boot_env where
  "boot_example = \<lparr>be_config = example_config_env, be_tracing_ok = True, be_docker_ok = True, be_app_ok = (\<lambda>g. True),
     be_pat_ok = (\<lambda>g. True), be_mkdir_ok = True,
     be_refresh = \<lparr>minted_token = Some (''ghs_1'', None), read_fails = False, file_outcome = FileWritten\<rparr>,
     be_secrets = \<lparr>fs_path = None, fs_tmp = None\<rparr>, be_ping = (\<lambda>t n. Ok ()), be_inspect = (\<lambda>i t n. Ok ()),
     be_mint_probe = (\<lambda>t n. Ok ()), be_cm_ping = (\<lambda>t n. Ok ()), be_docker = example_docker\<rparr>"

lemma example_boots: "\<exists>b. boot boot_example = Booted b"
proof -
  obtain c where l: "config_Load example_config_env = Inr c" using example_loads by blast
  have "list_all token_char ''ghs_1''" by code_simp
  then obtain body where r: "renderSecretsFile ''ghs_1'' (buildStaticAuthEnv (manager_config_of c)) = Inr body"
    using render_loaded[OF l, of "''ghs_1''"] by auto
  have tp: "token_provider boot_example (c_github c) = None"
    using loaded_auth_mode[OF l] by (auto simp: token_provider_def boot_example_def)
  obtain s where st: "StartTokenRefresher (manager_config_of c) True (be_mkdir_ok boot_example) (be_refresh boot_example)
      (be_secrets boot_example) = (None, s)"
    by (cases "SecretsDir (manager_config_of c) = []")
      (simp_all add: StartTokenRefresher_def InitSharedSecrets_def refresher_disabled_def doOneRefresh_def r boot_example_def
        writeSecretsFileAtomic_def Let_def)
  let ?p = "buildProbes c (be_ping boot_example) (be_inspect boot_example) (be_mint_probe boot_example) (be_cm_ping boot_example)"
  have "preflight_Run ?p 0 \<noteq> Panic q" for q
    by (auto simp: boot_example_def probe_defs)
  then obtain en pf where "preflight_Loop ?p [] preflight_start = Some (en, pf)" using loop_returns by blast
  then show ?thesis
    using l tp st by (simp add: boot_def boot_example_def Let_def NewHealthState_def)
qed

theorem boot_gates_witness:
  "\<exists>b. boot boot_example = Booted b \<and> PreflightPassed (bs_health b) \<and> EvRemove ''c1'' \<in> set (m_events (bs_manager b))"
proof -
  obtain b where b: "boot boot_example = Booted b" using example_boots by blast
  have "all_reachable (bs_config b) (be_ping boot_example) (be_inspect boot_example) (be_mint_probe boot_example) (be_cm_ping boot_example) 0"
    by (simp add: all_reachable_def boot_example_def)
  moreover have "list_answer (be_docker boot_example) runner_filter = Some example_listed"
    by (simp add: boot_example_def example_docker_def)
  moreover have "hd example_listed \<in> set example_listed" "dc_id (hd example_listed) = ''c1''"
    by (simp_all add: example_listed_def)
  ultimately show ?thesis using boot_gates[OF b] b by metis
qed

end
