(* ===== verification/Drop_Reporter.thy ===== *)
theory Drop_Reporter
  imports Broadcaster
begin

text \<open>
  The goroutine of \<open>internal/logbroadcast/broadcaster.go\<close> that reports drops: \<open>startDropReporter\<close> with its respawn and
  \<open>runDropReporterOnce\<close> with its recover. An event is what its \<open>select\<close> sees, or a publication or the close by
  others; a logger that panics does so in the warning of \<open>flushDrops\<close>, after the counter was taken.
\<close>

datatype reporter_phase = Reporting | BackingOff | ReporterDone

record reporter =
  rp_phase :: reporter_phase
  rp_lost :: "nat list"

datatype reporter_event =
    RTicked bool
  | RClosedSeen bool
  | RBackoffOver
  | RPublished log_entry
  | RCloseCalled

text \<open>One flush: whether it returned, the broadcaster, and what a panic took with it.\<close>

definition flush_with :: "bool \<Rightarrow> broadcaster \<Rightarrow> bool \<times> broadcaster \<times> nat list" where
  "flush_with logger_ok b =
     (if dropCount b = 0 \<or> logger_ok then (True, flushDrops b, [])
      else (False, b\<lparr>dropCount := 0\<rparr>, [dropCount b]))"

text \<open>
  The inner loop: (whether it has returned, and if so whether \<open>closed\<close> was seen) as the next phase. After a panic the
  outer loop waits for \<open>closed\<close> or the backoff and starts the inner loop again.
\<close>

definition runDropReporterOnce :: "bool \<Rightarrow> bool \<Rightarrow> reporter \<times> broadcaster \<Rightarrow> reporter \<times> broadcaster" where
  "runDropReporterOnce closed logger_ok s = (case s of (r, b) \<Rightarrow>
     (case flush_with logger_ok b of (returned, b', lost) \<Rightarrow>
        (r\<lparr>rp_phase := (if \<not> returned then BackingOff else if closed then ReporterDone else Reporting),
           rp_lost := lost @ rp_lost r\<rparr>, b')))"

fun startDropReporter :: "reporter_event \<Rightarrow> reporter \<times> broadcaster \<Rightarrow> reporter \<times> broadcaster" where
  "startDropReporter (RTicked ok) (r, b) =
     (if rp_phase r = Reporting then runDropReporterOnce False ok (r, b) else (r, b))"
| "startDropReporter (RClosedSeen ok) (r, b) =
     (if \<not> b_closed b then (r, b)
      else case rp_phase r of
        Reporting \<Rightarrow> runDropReporterOnce True ok (r, b)
      | BackingOff \<Rightarrow> (r\<lparr>rp_phase := ReporterDone\<rparr>, b)
      | ReporterDone \<Rightarrow> (r, b))"
| "startDropReporter RBackoffOver (r, b) = (if rp_phase r = BackingOff then r\<lparr>rp_phase := Reporting\<rparr> else r, b)"
| "startDropReporter (RPublished e) (r, b) = (r, Publish e b)"
| "startDropReporter RCloseCalled (r, b) = (r, b_Close b)"

definition reporter_start :: "reporter \<times> broadcaster" where
  "reporter_start = (\<lparr>rp_phase = Reporting, rp_lost = []\<rparr>, NewBroadcaster)"

definition logger_panics :: "reporter_event \<Rightarrow> bool" where
  "logger_panics ev \<longleftrightarrow> ev = RTicked False \<or> ev = RClosedSeen False"

section \<open>Accounting\<close>

definition accounted :: "reporter \<times> broadcaster \<Rightarrow> bool" where
  "accounted s \<longleftrightarrow> (case s of (r, b) \<Rightarrow>
     drop_observed b = dropCount b + sum_list (drop_warnings b) + sum_list (rp_lost r) \<and> 0 \<notin> set (rp_lost r) \<and>
     (rp_phase r = ReporterDone \<longrightarrow> b_closed b))"

lemma send_counts:
  "\<exists>n. dropCount (send_one i e b) = dropCount b + n \<and> drop_observed (send_one i e b) = drop_observed b + n \<and>
     drop_warnings (send_one i e b) = drop_warnings b \<and> b_closed (send_one i e b) = b_closed b"
  by (auto simp: send_one_def trySend_def set_sub_def Let_def)

lemma publish_counts:
  "\<exists>n. dropCount (Publish e b) = dropCount b + n \<and> drop_observed (Publish e b) = drop_observed b + n \<and>
     drop_warnings (Publish e b) = drop_warnings b \<and> b_closed (Publish e b) = b_closed b"
proof -
  have *: "\<exists>n. dropCount (fold run_btask (map (\<lambda>i. BSend i e) is) b) = dropCount b + n \<and>
      drop_observed (fold run_btask (map (\<lambda>i. BSend i e) is) b) = drop_observed b + n \<and>
      drop_warnings (fold run_btask (map (\<lambda>i. BSend i e) is) b) = drop_warnings b \<and>
      b_closed (fold run_btask (map (\<lambda>i. BSend i e) is) b) = b_closed b" for "is" e b
  proof (induction "is" arbitrary: b)
    case (Cons i "is")
    obtain n where "dropCount (send_one i e b) = dropCount b + n" "drop_observed (send_one i e b) = drop_observed b + n"
        "drop_warnings (send_one i e b) = drop_warnings b" "b_closed (send_one i e b) = b_closed b"
      using send_counts by blast
    moreover obtain k where "dropCount (fold run_btask (map (\<lambda>i. BSend i e) is) (send_one i e b)) = dropCount (send_one i e b) + k"
        "drop_observed (fold run_btask (map (\<lambda>i. BSend i e) is) (send_one i e b)) = drop_observed (send_one i e b) + k"
        "drop_warnings (fold run_btask (map (\<lambda>i. BSend i e) is) (send_one i e b)) = drop_warnings (send_one i e b)"
        "b_closed (fold run_btask (map (\<lambda>i. BSend i e) is) (send_one i e b)) = b_closed (send_one i e b)"
      using Cons.IH[of "send_one i e b"] by blast
    ultimately show ?case by (intro exI[of _ "n + k"]) simp
  qed simp
  from *[of "e\<lparr>le_content := truncate_content (le_content e)\<rparr>" "subscribers b" b] show ?thesis
    by (cases "b_closed b") (simp_all add: Publish_def publish_map_def)
qed

lemma once_accounted:
  assumes "accounted (r, b)" and "closed \<longrightarrow> b_closed b"
  shows "accounted (runDropReporterOnce closed ok (r, b))"
  using assms by (auto simp: accounted_def runDropReporterOnce_def flush_with_def flushDrops_def)

lemma step_accounted:
  assumes "accounted s"
  shows "accounted (startDropReporter ev s)"
proof (cases s)
  case (Pair r b)
  note a = assms[unfolded Pair]
  show ?thesis
  proof (cases ev)
    case (RPublished e)
    obtain n where "dropCount (Publish e b) = dropCount b + n" "drop_observed (Publish e b) = drop_observed b + n"
        "drop_warnings (Publish e b) = drop_warnings b" "b_closed (Publish e b) = b_closed b"
      using publish_counts by blast
    then show ?thesis using a Pair RPublished by (simp add: accounted_def)
  next
    case (RClosedSeen ok)
    then show ?thesis
      using a Pair once_accounted[OF a, of True ok] by (auto simp: accounted_def split: reporter_phase.split)
  next
    case (RTicked ok)
    then show ?thesis using a Pair once_accounted[OF a, of False ok] by auto
  next
    case RBackoffOver
    then show ?thesis using a Pair by (simp add: accounted_def)
  next
    case RCloseCalled
    then show ?thesis using a Pair by (simp add: accounted_def b_Close_def)
  qed
qed

lemma quiet_step:
  assumes "\<not> logger_panics ev" and "rp_lost (fst s) = []" and "rp_phase (fst s) \<noteq> BackingOff"
  shows "rp_lost (fst (startDropReporter ev s)) = [] \<and> rp_phase (fst (startDropReporter ev s)) \<noteq> BackingOff"
  using assms
  by (cases s; cases ev) (auto simp: logger_panics_def runDropReporterOnce_def flush_with_def split: reporter_phase.split)

text \<open>
  Every dropped log entry is counted exactly once. After any history of publications, ticks, logger panics,
  respawns and a close, the drops observed are those pending, those reported in warnings, and those taken by a
  flush whose logger panicked; without such a panic none is missing and the reporter never leaves its loop
  before the broadcaster is closed.
\<close>

theorem drops_accounted:
  "case fold startDropReporter evs reporter_start of (r, b) \<Rightarrow>
     drop_observed b = dropCount b + sum_list (drop_warnings b) + sum_list (rp_lost r) \<and>
     (rp_phase r = ReporterDone \<longrightarrow> b_closed b) \<and>
     (\<not> list_ex logger_panics evs \<longrightarrow>
        rp_lost r = [] \<and> rp_phase r \<noteq> BackingOff \<and> drop_observed b = dropCount b + sum_list (drop_warnings b))"
proof -
  have acc: "accounted s \<Longrightarrow> accounted (fold startDropReporter evs s)" for s
    by (induction evs arbitrary: s) (simp_all add: step_accounted)
  have quiet: "\<not> list_ex logger_panics evs \<Longrightarrow> rp_lost (fst s) = [] \<Longrightarrow> rp_phase (fst s) \<noteq> BackingOff \<Longrightarrow>
      rp_lost (fst (fold startDropReporter evs s)) = [] \<and> rp_phase (fst (fold startDropReporter evs s)) \<noteq> BackingOff" for s
    by (induction evs arbitrary: s) (use quiet_step in \<open>simp_all\<close>)
  obtain r b where f: "fold startDropReporter evs reporter_start = (r, b)" by fastforce
  have "accounted reporter_start" by (simp add: accounted_def reporter_start_def NewBroadcaster_def)
  then have a: "accounted (r, b)" using acc[of reporter_start] f by simp
  have "\<not> list_ex logger_panics evs \<Longrightarrow> rp_lost r = [] \<and> rp_phase r \<noteq> BackingOff"
    using quiet[of reporter_start] f by (simp add: reporter_start_def)
  then show ?thesis using a f by (auto simp: accounted_def)
qed

theorem drops_accounted_witness:
  "case fold startDropReporter [RPublished \<lparr>le_project = [], le_session = [], le_card = [], le_kind = [], le_content = [], le_model = [], le_usage = None\<rparr>,
       RTicked True, RCloseCalled, RClosedSeen True] reporter_start of (r, b) \<Rightarrow> rp_lost r = []"
  using drops_accounted[of "[RPublished \<lparr>le_project = [], le_session = [], le_card = [], le_kind = [], le_content = [], le_model = [], le_usage = None\<rparr>,
       RTicked True, RCloseCalled, RClosedSeen True]"]
  by (auto simp: logger_panics_def)

end
