(* ===== verification/Metrics.thy ===== *)
theory Metrics
  imports Complex_Main Middleware Callback Card_Run
begin

text \<open>
  The metric set of \<open>internal/metrics/metrics.go\<close> and every place of the runner that observes it. Prometheus itself is
  the documented contract of its two panics: \<open>MustRegister\<close> on an invalid or already registered collector, and
  \<open>WithLabelValues\<close> on the wrong number of values.
\<close>

section \<open>The metric set\<close>

datatype goroutine =
    GoroutineRun | GoroutineStreamStdout | GoroutineStreamStderr | GoroutineLogparser | GoroutineMonitorDockerd
  | GoroutineMaintenanceLoop | GoroutineRunningContainers | GoroutineRunningStatusCallback
  | GoroutineSkillEngagedCallback | GoroutinePrimingWrite | GoroutineWaitAndCleanupChat | GoroutineIdleWatchdog
  | GoroutineDockerdMonitor | GoroutineTokenRefresher

fun goroutine_label :: "goroutine \<Rightarrow> string" where
  "goroutine_label GoroutineRun = ''run''"
| "goroutine_label GoroutineStreamStdout = ''stream_stdout''"
| "goroutine_label GoroutineStreamStderr = ''stream_stderr''"
| "goroutine_label GoroutineLogparser = ''logparser''"
| "goroutine_label GoroutineMonitorDockerd = ''monitor_dockerd''"
| "goroutine_label GoroutineMaintenanceLoop = ''maintenance_loop''"
| "goroutine_label GoroutineRunningContainers = ''running_containers_gauge''"
| "goroutine_label GoroutineRunningStatusCallback = ''running_status_callback''"
| "goroutine_label GoroutineSkillEngagedCallback = ''skill_engaged_callback''"
| "goroutine_label GoroutinePrimingWrite = ''priming_write''"
| "goroutine_label GoroutineWaitAndCleanupChat = ''wait_and_cleanup_chat''"
| "goroutine_label GoroutineIdleWatchdog = ''idle_watchdog''"
| "goroutine_label GoroutineDockerdMonitor = ''dockerd_monitor''"
| "goroutine_label GoroutineTokenRefresher = ''token_refresher''"

fun outcome_label :: "outcome \<Rightarrow> string" where
  "outcome_label OutcomeSuccess = ''success''"
| "outcome_label OutcomeFailure = ''failure''"
| "outcome_label OutcomeTimeout = ''timeout''"
| "outcome_label OutcomeKilled = ''killed''"
| "outcome_label OutcomeIdleTimeout = ''idle_timeout''"

datatype metric_kind = CounterVec "string list" | HistogramVec "rat list" "string list" | Gauge | Counter

record metric =
  mt_name :: string
  mt_kind :: metric_kind

definition vec_labels :: "metric \<Rightarrow> string list" where
  "vec_labels m = (case mt_kind m of CounterVec ls \<Rightarrow> ls | HistogramVec _ ls \<Rightarrow> ls | Gauge \<Rightarrow> [] | Counter \<Rightarrow> [])"

definition container_buckets :: "rat list" where
  "container_buckets = [1, 5, 15, 30, 60, 300, 600, 1800, 3600, 7200]"

text \<open>The bundle in the order of its registration; \<open>def_buckets\<close> is \<open>prometheus.DefBuckets\<close>.\<close>

definition cmr_metrics :: "rat list \<Rightarrow> metric list" where
  "cmr_metrics def_buckets =
     [\<lparr>mt_name = ''cmr_webhook_requests_total'', mt_kind = CounterVec [''endpoint'', ''status'', ''code'']\<rparr>,
      \<lparr>mt_name = ''cmr_webhook_request_duration_seconds'', mt_kind = HistogramVec def_buckets [''endpoint'']\<rparr>,
      \<lparr>mt_name = ''cmr_container_duration_seconds'', mt_kind = HistogramVec container_buckets [''outcome'']\<rparr>,
      \<lparr>mt_name = ''cmr_running_containers'', mt_kind = Gauge\<rparr>,
      \<lparr>mt_name = ''cmr_callback_retries_total'', mt_kind = CounterVec [''endpoint'']\<rparr>,
      \<lparr>mt_name = ''cmr_callback_bearer_fallback_total'', mt_kind = Counter\<rparr>,
      \<lparr>mt_name = ''cmr_broadcaster_drops_total'', mt_kind = Counter\<rparr>,
      \<lparr>mt_name = ''cmr_panic_recovered_total'', mt_kind = CounterVec [''goroutine'']\<rparr>,
      \<lparr>mt_name = ''cmr_replay_cache_hits_total'', mt_kind = Counter\<rparr>,
      \<lparr>mt_name = ''cmr_preflight_last_success_timestamp_seconds'', mt_kind = Gauge\<rparr>,
      \<lparr>mt_name = ''cmr_dns_lookup_timeouts_total'', mt_kind = Counter\<rparr>,
      \<lparr>mt_name = ''cmr_chat_rollback_failures_total'', mt_kind = Counter\<rparr>]"

text \<open>What the registry accepts: Prometheus names, no reserved label, ascending buckets, no name twice.\<close>

definition metric_first :: "char \<Rightarrow> bool" where
  "metric_first c \<longleftrightarrow> c \<in> set ''abcdefghijklmnopqrstuvwxyzABCDEFGHIJKLMNOPQRSTUVWXYZ_''"

definition metric_char :: "char \<Rightarrow> bool" where
  "metric_char c \<longleftrightarrow> metric_first c \<or> c \<in> set ''0123456789''"

definition prom_name :: "string \<Rightarrow> bool" where
  "prom_name s \<longleftrightarrow> s \<noteq> [] \<and> metric_first (hd s) \<and> list_all metric_char s"

definition prom_labels :: "string list \<Rightarrow> bool" where
  "prom_labels ls \<longleftrightarrow> distinct ls \<and> list_all (\<lambda>l. prom_name l \<and> take 2 l \<noteq> ''__'') ls"

definition registrable :: "string list \<Rightarrow> metric \<Rightarrow> bool" where
  "registrable names m \<longleftrightarrow> mt_name m \<notin> set names \<and> prom_name (mt_name m) \<and> prom_labels (vec_labels m) \<and>
     (case mt_kind m of HistogramVec bs ls \<Rightarrow> sorted_wrt (<) bs \<and> ''le'' \<notin> set ls | _ \<Rightarrow> True)"

fun register_all :: "string list \<Rightarrow> metric list \<Rightarrow> string list option" where
  "register_all names [] = Some names"
| "register_all names (m # ms) =
     (if registrable names m then register_all (names @ [mt_name m]) ms else None)"

text \<open>\<open>runtime\<close>: the names the Go and process collectors put on the registry first. \<open>None\<close> is a panic at boot.\<close>

definition metrics_New :: "string list \<Rightarrow> rat list \<Rightarrow> metric list option" where
  "metrics_New runtime def_buckets =
     map_option (\<lambda>_. cmr_metrics def_buckets) (register_all runtime (cmr_metrics def_buckets))"

section \<open>Observations\<close>

datatype retry_endpoint = RetryStatus string | RetrySkillEngaged | RetryVerifyAutonomous

fun retry_label :: "retry_endpoint \<Rightarrow> string" where
  "retry_label (RetryStatus status) = endpointLabel status"
| "retry_label RetrySkillEngaged = ''skill_engaged''"
| "retry_label RetryVerifyAutonomous = ''verify_autonomous''"

text \<open>Every call site of the bundle.\<close>

datatype observation =
    ObsRequest string "response_call list"
  | ObsContainer outcome
  | ObsRetry retry_endpoint
  | ObsPanic goroutine
  | ObsRunning nat
  | ObsBearerFallback
  | ObsDrop
  | ObsReporterPanic
  | ObsReplayHit
  | ObsPreflightSuccess
  | ObsDNSTimeout
  | ObsChatRollbackFailure

text \<open>The adapters through which the broadcaster counts its drops and the panics of its reporter; \<open>has_m\<close>: the metrics are set.\<close>

definition dropReporterLabel :: string where "dropReporterLabel = ''broadcaster_drop_reporter''"

definition ObserveDrop :: "bool \<Rightarrow> (string \<times> string list) list" where
  "ObserveDrop has_m = (if has_m then [(''cmr_broadcaster_drops_total'', [])] else [])"

definition ObservePanic :: "bool \<Rightarrow> string \<Rightarrow> (string \<times> string list) list" where
  "ObservePanic has_m lbl = (if has_m then [(''cmr_panic_recovered_total'', [lbl])] else [])"

lemmas adapter_defs = ObserveDrop_def ObservePanic_def dropReporterLabel_def

text \<open>The series an observation touches: the metric and the label values.\<close>

fun series_of :: "observation \<Rightarrow> (string \<times> string list) list" where
  "series_of (ObsRequest path calls) = (case fst (withMetrics path calls) of (endpoint, status, class) \<Rightarrow>
     [(''cmr_webhook_requests_total'', [endpoint, dec_int status, class]),
      (''cmr_webhook_request_duration_seconds'', [endpoint])])"
| "series_of (ObsContainer oc) = [(''cmr_container_duration_seconds'', [outcome_label oc])]"
| "series_of (ObsRetry r) = [(''cmr_callback_retries_total'', [retry_label r])]"
| "series_of (ObsPanic g) = [(''cmr_panic_recovered_total'', [goroutine_label g])]"
| "series_of (ObsRunning n) = [(''cmr_running_containers'', [])]"
| "series_of ObsBearerFallback = [(''cmr_callback_bearer_fallback_total'', [])]"
| "series_of ObsDrop = ObserveDrop True"
| "series_of ObsReporterPanic = ObservePanic True dropReporterLabel"
| "series_of ObsReplayHit = [(''cmr_replay_cache_hits_total'', [])]"
| "series_of ObsPreflightSuccess = [(''cmr_preflight_last_success_timestamp_seconds'', [])]"
| "series_of ObsDNSTimeout = [(''cmr_dns_lookup_timeouts_total'', [])]"
| "series_of ObsChatRollbackFailure = [(''cmr_chat_rollback_failures_total'', [])]"

text \<open>\<open>WithLabelValues\<close> panics unless the values are as many as the labels of the metric.\<close>

definition accepts_values :: "metric list \<Rightarrow> string \<times> string list \<Rightarrow> bool" where
  "accepts_values ms s = list_ex (\<lambda>m. mt_name m = fst s \<and> length (vec_labels m) = length (snd s)) ms"

definition observed :: "observation list \<Rightarrow> (string \<times> string list) list" where
  "observed obs = remdups (concat (map series_of obs))"

section \<open>Registration does not panic\<close>

definition cmr_prefixed :: "string \<Rightarrow> bool" where
  "cmr_prefixed s \<longleftrightarrow> take 4 s = ''cmr_''"

lemma register_all_ok:
  "list_all (registrable []) ms \<Longrightarrow> distinct (map mt_name ms) \<Longrightarrow> set names \<inter> mt_name ` set ms = {} \<Longrightarrow>
   register_all names ms = Some (names @ map mt_name ms)"
  by (induction ms arbitrary: names) (auto simp: registrable_def)

lemma cmr_names:
  "distinct (map mt_name (cmr_metrics bs))" "list_all (\<lambda>m. cmr_prefixed (mt_name m)) (cmr_metrics bs)"
  by (simp_all add: cmr_metrics_def cmr_prefixed_def)

lemma cmr_registrable: "sorted_wrt (<) bs \<Longrightarrow> list_all (registrable []) (cmr_metrics bs)"
  by (simp add: cmr_metrics_def registrable_def prom_name_def prom_labels_def vec_labels_def metric_char_def
      metric_first_def container_buckets_def)

lemma metrics_registered:
  assumes "sorted_wrt (<) def_buckets" and "\<not> list_ex cmr_prefixed runtime"
  shows "metrics_New runtime def_buckets = Some (cmr_metrics def_buckets)"
proof -
  have "set runtime \<inter> mt_name ` set (cmr_metrics def_buckets) = {}"
    using assms(2) cmr_names(2)[of def_buckets] by (auto simp: list_ex_iff list_all_iff)
  then show ?thesis
    using register_all_ok[OF cmr_registrable[OF assms(1)] cmr_names(1)] by (simp add: metrics_New_def)
qed

section \<open>The series are finitely many\<close>

definition endpoint_labels :: "string list" where
  "endpoint_labels = map strip_slash endpointAllowlist @ [''other'']"

text \<open>Every series whose labels do not depend on the status of a response.\<close>

definition fixed_series :: "(string \<times> string list) list" where
  "fixed_series =
     map (\<lambda>e. (''cmr_webhook_request_duration_seconds'', [e])) endpoint_labels @
     map (\<lambda>l. (''cmr_container_duration_seconds'', [l])) [''success'', ''failure'', ''timeout'', ''killed'', ''idle_timeout''] @
     map (\<lambda>l. (''cmr_callback_retries_total'', [l]))
       [''running'', ''failed'', ''completed'', ''status'', ''skill_engaged'', ''verify_autonomous''] @
     map (\<lambda>l. (''cmr_panic_recovered_total'', [l]))
       [''run'', ''stream_stdout'', ''stream_stderr'', ''logparser'', ''monitor_dockerd'', ''maintenance_loop'',
        ''running_containers_gauge'', ''running_status_callback'', ''skill_engaged_callback'', ''priming_write'',
        ''wait_and_cleanup_chat'', ''idle_watchdog'', ''dockerd_monitor'', ''token_refresher'', ''broadcaster_drop_reporter''] @
     map (\<lambda>n. (n, []))
       [''cmr_running_containers'', ''cmr_callback_bearer_fallback_total'', ''cmr_broadcaster_drops_total'',
        ''cmr_replay_cache_hits_total'', ''cmr_preflight_last_success_timestamp_seconds'',
        ''cmr_dns_lookup_timeouts_total'', ''cmr_chat_rollback_failures_total'']"

definition request_series :: "string \<times> int \<Rightarrow> string \<times> string list" where
  "request_series r = (case r of (endpoint, status) \<Rightarrow>
     (''cmr_webhook_requests_total'', [endpoint, dec_int status, status_class status]))"

lemma endpoint_labels_length: "length endpoint_labels = 15"
  by (simp add: endpoint_labels_def endpointAllowlist_def)

lemma fixed_series_length: "length fixed_series = 48"
  by (simp add: fixed_series_def endpoint_labels_length)

lemma endpoint_labelled: "strip_slash (NormalizeEndpoint path) \<in> set endpoint_labels"
  by (auto simp: NormalizeEndpoint_def endpoint_labels_def) (simp add: strip_slash_def)

lemma request_observed:
  "set (series_of (ObsRequest path calls)) =
     {request_series (strip_slash (NormalizeEndpoint path), client_status calls),
      (''cmr_webhook_request_duration_seconds'', [strip_slash (NormalizeEndpoint path)])}"
proof -
  have "sr_status (fold recorder_call calls new_recorder) = client_status calls"
    by (rule recorder_status) (simp_all add: new_recorder_def)
  then show ?thesis by (auto simp: withMetrics_def Let_def request_series_def)
qed

lemma other_observed:
  assumes "\<And>path calls. ob \<noteq> ObsRequest path calls"
  shows "set (series_of ob) \<subseteq> set fixed_series"
proof (cases ob)
  case (ObsContainer oc)
  then show ?thesis by (cases oc) (simp_all add: fixed_series_def)
next
  case (ObsRetry r)
  then show ?thesis by (cases r) (auto simp: fixed_series_def endpointLabel_def)
next
  case (ObsPanic g)
  then show ?thesis by (cases g) (simp_all add: fixed_series_def)
qed (use assms in \<open>simp_all add: fixed_series_def adapter_defs\<close>)

lemma series_where:
  "set (series_of ob) \<subseteq> set fixed_series \<union>
     request_series ` (set endpoint_labels \<times> {st. \<exists>path calls. ob = ObsRequest path calls \<and> st = client_status calls})"
proof (cases "\<exists>path calls. ob = ObsRequest path calls")
  case True
  then obtain path calls where ob: "ob = ObsRequest path calls" by blast
  have "(''cmr_webhook_request_duration_seconds'', [strip_slash (NormalizeEndpoint path)]) \<in> set fixed_series"
    using endpoint_labelled by (simp add: fixed_series_def)
  then show ?thesis using endpoint_labelled unfolding ob request_observed by blast
next
  case False
  then show ?thesis using other_observed by blast
qed

lemma fixed_accepted: "list_all (accepts_values (cmr_metrics bs)) fixed_series"
  by (simp add: fixed_series_def accepts_values_def cmr_metrics_def vec_labels_def endpoint_labels_def endpointAllowlist_def)

lemma request_accepted: "accepts_values (cmr_metrics bs) (request_series r)"
  by (cases r) (simp add: request_series_def accepts_values_def cmr_metrics_def vec_labels_def)

text \<open>
  C18. The metrics cannot take the runner down or grow without bound. On a fresh registry with the runtime
  collectors the registration of the bundle succeeds, no observation at any call site passes the wrong number of
  label values, and after any history, whatever paths were requested, there are at most 15 series per
  status code that was answered and 48 others.
\<close>

theorem metrics_cardinality:
  assumes "sorted_wrt (<) def_buckets" and "\<not> list_ex cmr_prefixed runtime" and "finite S"
    and "\<And>path calls. ObsRequest path calls \<in> set obs \<Longrightarrow> client_status calls \<in> S"
  shows "\<exists>ms. metrics_New runtime def_buckets = Some ms \<and> list_all (accepts_values ms) (observed obs) \<and>
    length (observed obs) \<le> 15 * card S + 48"
proof (intro exI conjI)
  show "metrics_New runtime def_buckets = Some (cmr_metrics def_buckets)" by (rule metrics_registered[OF assms(1,2)])
  have sub: "set (observed obs) \<subseteq> set fixed_series \<union> request_series ` (set endpoint_labels \<times> S)"
    using series_where assms(4) unfolding observed_def by (fastforce simp: subset_iff)
  then show "list_all (accepts_values (cmr_metrics def_buckets)) (observed obs)"
    using fixed_accepted[of def_buckets] request_accepted by (fastforce simp: list_all_iff)
  have "card (set (observed obs)) \<le> card (set fixed_series) + card (request_series ` (set endpoint_labels \<times> S))"
    using card_mono[OF _ sub] assms(3) card_Un_le le_trans by fastforce
  moreover have "card (request_series ` (set endpoint_labels \<times> S)) \<le> card (set endpoint_labels) * card S"
    using card_image_le[of "set endpoint_labels \<times> S" request_series] assms(3) by (simp add: card_cartesian_product)
  moreover have "card (set endpoint_labels) * card S \<le> 15 * card S"
    using card_length[of endpoint_labels] by (simp add: endpoint_labels_length)
  moreover have "card (set fixed_series) \<le> 48" using card_length[of fixed_series] by (simp add: fixed_series_length)
  moreover have "length (observed obs) = card (set (observed obs))" by (simp add: observed_def length_remdups_card_conv)
  ultimately show "length (observed obs) \<le> 15 * card S + 48" by linarith
qed

theorem metrics_cardinality_witness:
  "length (observed [ObsRequest ''/trigger'' [CallWriteHeader 202], ObsRequest ''/.env'' [CallWriteHeader 404],
     ObsRequest ''/wp-login'' [CallWriteHeader 404], ObsPanic GoroutineRun, ObsDrop]) \<le> 78"
proof -
  let ?obs = "[ObsRequest ''/trigger'' [CallWriteHeader 202], ObsRequest ''/.env'' [CallWriteHeader 404],
     ObsRequest ''/wp-login'' [CallWriteHeader 404], ObsPanic GoroutineRun, ObsDrop]"
  have "\<exists>ms. metrics_New [''go_goroutines'', ''process_cpu_seconds_total''] [1 / 200, 1 / 100, 1 / 40] = Some ms \<and>
      list_all (accepts_values ms) (observed ?obs) \<and> length (observed ?obs) \<le> 15 * card {202, 404 :: int} + 48"
    by (rule metrics_cardinality) (auto simp: cmr_prefixed_def)
  then show ?thesis by auto
qed

text \<open>
  The counter of callback retries counts failed attempts, the last one included: a callback that gives up after
  three attempts, of which two are retries, adds three.
\<close>

fun retry_observations :: "retry_endpoint \<Rightarrow> (nat \<Rightarrow> cb_error + 'a) \<Rightarrow> nat list \<Rightarrow> observation list" where
  "retry_observations r attempt [] = []"
| "retry_observations r attempt (i # is) =
     (case attempt i of
        Inl e \<Rightarrow> if isClientError e then [] else ObsRetry r # retry_observations r attempt is
      | Inr _ \<Rightarrow> [])"

lemma exhausted_counts_three:
  assumes "retryWithBackoff lbl (\<lambda>i. Inl (OtherError ''reset'') :: cb_error + unit) (\<lambda>i. None) = (r, es)"
  shows "length (filter (\<lambda>e. \<exists>d. e = Backoff d) es) = 2 \<and>
    retry_observations (RetryStatus st) (\<lambda>i. Inl (OtherError ''reset'') :: cb_error + unit) (attempts es) = replicate 3 (ObsRetry (RetryStatus st))"
  using assms by (auto simp: retryWithBackoff_def maxRetries_def numeral_eq_Suc retry_from.simps)

end
