(* ===== verification/Supervisor.thy ===== *)
theory Supervisor
  imports Health Metrics
begin

text \<open>
  The background goroutines of \<open>cmd/contextmatrix-runner/main.go\<close>: \<open>recoverBackgroundGoroutine\<close>, the
  respawn-with-backoff wrappers around the dockerd monitor, the maintenance loop and the poller of the
  running-containers gauge. A wrapper is a state machine over the events it sees; its body is a step function
  on a local state, fresh at every spawn, and a world that outlives it.
\<close>

section \<open>The wrapper\<close>

definition recoverBackgroundGoroutine :: "bool \<Rightarrow> goroutine \<Rightarrow> string option \<Rightarrow> observation list" where
  "recoverBackgroundGoroutine has_mx lbl r = (case r of
       None \<Rightarrow> []
     | Some _ \<Rightarrow> if has_mx then [ObsPanic lbl] else [])"

datatype body_end = BodyGoes | BodyReturns | BodyExits int

datatype sup_phase = BodyRunning | BackingOff | SupFinished | ProcessExited int

record ('l, 'w) supervised =
  sv_phase :: sup_phase
  sv_ctx_ended :: bool
  sv_local :: 'l
  sv_world :: 'w
  sv_observed :: "observation list"
  sv_spawns :: nat

text \<open>
  What can happen: the context (for the gauge, the stop channel) ends; the rest of the runner changes the world; the
  body takes a step; a panic escapes the body after it did \<open>f\<close>; the backoff timer fires; the wrapper sees the end of
  the context while it backs off.
\<close>

datatype ('e, 'w) sup_event =
    CtxEnds
  | WorldMoves "'w \<Rightarrow> 'w"
  | BodyStep 'e
  | BodyPanics "'w \<Rightarrow> 'w" string
  | BackoffTimer
  | BackoffDone

text \<open>
  \<open>bg_recheck\<close>: the wrapper looks at the context before it backs off, as those of the monitor and of maintenance do;
  the one of the gauge looks at the result of its body instead.
\<close>

record ('l, 'w, 'e) background =
  bg_label :: goroutine
  bg_fresh :: 'l
  bg_step :: "bool \<Rightarrow> 'e \<Rightarrow> 'l \<times> 'w \<Rightarrow> ('l \<times> 'w) \<times> body_end"
  bg_recheck :: bool

definition sup_start :: "('l, 'w, 'e) background \<Rightarrow> 'w \<Rightarrow> ('l, 'w) supervised" where
  "sup_start g w = \<lparr>sv_phase = BodyRunning, sv_ctx_ended = False, sv_local = bg_fresh g, sv_world = w,
     sv_observed = [], sv_spawns = 1\<rparr>"

definition after_return :: "bool \<Rightarrow> ('l, 'w) supervised \<Rightarrow> sup_phase" where
  "after_return recheck s = (if recheck \<longrightarrow> sv_ctx_ended s then SupFinished else BackingOff)"

definition after_panic :: "bool \<Rightarrow> ('l, 'w) supervised \<Rightarrow> sup_phase" where
  "after_panic recheck s = (if recheck \<and> sv_ctx_ended s then SupFinished else BackingOff)"

fun respawn_loop :: "('l, 'w, 'e) background \<Rightarrow> ('e, 'w) sup_event \<Rightarrow> ('l, 'w) supervised \<Rightarrow> ('l, 'w) supervised" where
  "respawn_loop g CtxEnds s = s\<lparr>sv_ctx_ended := True\<rparr>"
| "respawn_loop g (WorldMoves f) s = s\<lparr>sv_world := f (sv_world s)\<rparr>"
| "respawn_loop g (BodyStep e) s =
     (if sv_phase s \<noteq> BodyRunning then s
      else case bg_step g (sv_ctx_ended s) e (sv_local s, sv_world s) of
        ((l, w), fin) \<Rightarrow>
          s\<lparr>sv_local := l, sv_world := w,
            sv_phase := (case fin of BodyGoes \<Rightarrow> BodyRunning | BodyReturns \<Rightarrow> after_return (bg_recheck g) s
                         | BodyExits n \<Rightarrow> ProcessExited n)\<rparr>)"
| "respawn_loop g (BodyPanics f msg) s =
     (if sv_phase s \<noteq> BodyRunning then s
      else s\<lparr>sv_world := f (sv_world s), sv_phase := after_panic (bg_recheck g) s,
             sv_observed := sv_observed s @ recoverBackgroundGoroutine True (bg_label g) (Some msg)\<rparr>)"
| "respawn_loop g BackoffTimer s =
     (if sv_phase s \<noteq> BackingOff then s
      else s\<lparr>sv_phase := BodyRunning, sv_local := bg_fresh g, sv_spawns := Suc (sv_spawns s)\<rparr>)"
| "respawn_loop g BackoffDone s =
     (if sv_phase s = BackingOff \<and> sv_ctx_ended s then s\<lparr>sv_phase := SupFinished\<rparr> else s)"

definition supervise :: "('l, 'w, 'e) background \<Rightarrow> ('e, 'w) sup_event list \<Rightarrow> 'w \<Rightarrow> ('l, 'w) supervised" where
  "supervise g evs w = fold (respawn_loop g) evs (sup_start g w)"

section \<open>The three goroutines\<close>

text \<open>
  The monitor: its local state is the failure counter, and it is the only body that exits the process. Whether the
  context has ended when a probe fails is the state of the wrapper's context.
\<close>

fun monitor_seen :: "bool \<Rightarrow> monitor_event \<Rightarrow> monitor_event" where
  "monitor_seen ended (MonitorTick (PingFailed canceled _)) = MonitorTick (PingFailed canceled ended)"
| "monitor_seen ended e = e"

definition monitor_body :: "bool \<Rightarrow> monitor_event \<Rightarrow> nat \<times> unit \<Rightarrow> (nat \<times> unit) \<times> body_end" where
  "monitor_body ended e s =
     (if e = MonitorDone \<and> \<not> ended then (s, BodyGoes)
      else case runOneIteration (monitor_seen ended e) (fst s) of
        ((exit, exitForce), failures) \<Rightarrow>
          ((failures, ()), if exitForce then BodyExits 1 else if exit then BodyReturns else BodyGoes))"

definition monitor_goroutine :: "(nat, unit, monitor_event) background" where
  "monitor_goroutine = \<lparr>bg_label = GoroutineMonitorDockerd, bg_fresh = 0, bg_step = monitor_body, bg_recheck = True\<rparr>"

text \<open>Maintenance works on the manager, which the rest of the runner shares.\<close>

datatype maintenance_event = MaintCtxDone | MaintTicks bool maintenance_env

definition maintenance_body ::
  "manager_config \<Rightarrow> duration \<Rightarrow> bool \<Rightarrow> maintenance_event \<Rightarrow> unit \<times> manager \<Rightarrow> (unit \<times> manager) \<times> body_end" where
  "maintenance_body cfg interval ended e s = (case e of
       MaintCtxDone \<Rightarrow> (s, if ended then BodyReturns else BodyGoes)
     | MaintTicks draining env \<Rightarrow>
         if interval \<le> 0 then (s, BodyGoes)
         else if draining then (s, BodyReturns)
         else (((), runMaintenanceTick cfg env (snd s)), BodyGoes))"

definition maintenance_goroutine :: "manager_config \<Rightarrow> duration \<Rightarrow> (unit, manager, maintenance_event) background" where
  "maintenance_goroutine cfg interval = \<lparr>bg_label = GoroutineMaintenanceLoop, bg_fresh = (),
     bg_step = maintenance_body cfg interval, bg_recheck = True\<rparr>"

text \<open>The gauge poller: the world is the tracker and the published value.\<close>

datatype gauge_event = GaugeStop | GaugeTick

definition gauge_body :: "bool \<Rightarrow> gauge_event \<Rightarrow> unit \<times> (tracker \<times> nat) \<Rightarrow> (unit \<times> (tracker \<times> nat)) \<times> body_end" where
  "gauge_body stopped e s = (case e of
       GaugeStop \<Rightarrow> (s, if stopped then BodyReturns else BodyGoes)
     | GaugeTick \<Rightarrow> (case s of (_, (trk, g)) \<Rightarrow> (((), (trk, Count trk)), BodyGoes)))"

definition gauge_goroutine :: "(unit, tracker \<times> nat, gauge_event) background" where
  "gauge_goroutine = \<lparr>bg_label = GoroutineRunningContainers, bg_fresh = (), bg_step = gauge_body, bg_recheck = False\<rparr>"

text \<open>A non-positive interval starts no goroutine; the stop function closes the channel once, however often it is called.\<close>

definition startRunningContainersGauge ::
  "duration \<Rightarrow> (gauge_event, tracker \<times> nat) sup_event list \<Rightarrow> tracker \<times> nat \<Rightarrow> (unit, tracker \<times> nat) supervised option" where
  "startRunningContainersGauge interval evs w =
     (if interval \<le> 0 then None else Some (supervise gauge_goroutine evs w))"

section \<open>What a wrapper guarantees\<close>

text \<open>
  The contract of a body: where the wrapper does not look at the context again, the body returns only after its end.
  A harmless body never exits the process.
\<close>

locale background_loop =
  fixes g :: "('l, 'w, 'e) background"
  assumes returns_late: "snd (bg_step g ended e s) = BodyReturns \<Longrightarrow> bg_recheck g \<or> ended"
begin

lemma step_ctx: "sv_ctx_ended (respawn_loop g sev s) \<longleftrightarrow> sev = CtxEnds \<or> sv_ctx_ended s"
  by (cases sev) (auto split: prod.split)

lemma fold_ctx: "sv_ctx_ended (fold (respawn_loop g) evs s) \<longleftrightarrow> CtxEnds \<in> set evs \<or> sv_ctx_ended s"
  by (induction evs arbitrary: s) (auto simp: step_ctx)

lemma ctx_ended: "sv_ctx_ended (supervise g evs w) \<longleftrightarrow> CtxEnds \<in> set evs"
  by (simp add: supervise_def fold_ctx sup_start_def)

lemma step_finished:
  assumes "sv_phase (respawn_loop g sev s) = SupFinished"
  shows "sv_phase s = SupFinished \<or> sv_ctx_ended s"
proof (cases sev)
  case (BodyStep e)
  obtain l w fin where b: "bg_step g (sv_ctx_ended s) e (sv_local s, sv_world s) = ((l, w), fin)"
    by (metis prod.exhaust)
  then have "fin = BodyReturns \<Longrightarrow> bg_recheck g \<or> sv_ctx_ended s"
    using returns_late[of "sv_ctx_ended s" e "(sv_local s, sv_world s)"] by simp
  then show ?thesis
    using assms BodyStep b by (auto simp: after_return_def split: if_splits body_end.splits)
qed (use assms in \<open>auto simp: after_panic_def split: if_splits\<close>)

lemma fold_finished:
  "sv_phase (fold (respawn_loop g) evs s) = SupFinished \<Longrightarrow> sv_phase s \<noteq> SupFinished \<Longrightarrow>
   CtxEnds \<in> set evs \<or> sv_ctx_ended s"
proof (induction evs arbitrary: s)
  case (Cons sev evs)
  then show ?case
    using Cons.IH[of "respawn_loop g sev s"] step_finished[of sev s] step_ctx[of sev s] by auto
qed simp

lemma finishes_late: "sv_phase (supervise g evs w) = SupFinished \<Longrightarrow> CtxEnds \<in> set evs"
  using fold_finished[of evs "sup_start g w"] by (simp add: supervise_def sup_start_def)

lemma step_counts: "\<exists>n. sv_observed (respawn_loop g sev s) = sv_observed s @ replicate n (ObsPanic (bg_label g))"
proof (cases sev)
  case (BodyPanics f msg)
  then show ?thesis by (auto simp: recoverBackgroundGoroutine_def intro: exI[of _ 1] exI[of _ 0])
qed (auto intro: exI[of _ 0] split: prod.split)

lemma counts: "set (sv_observed (supervise g evs w)) \<subseteq> {ObsPanic (bg_label g)}"
proof -
  have "set (sv_observed s) \<subseteq> {ObsPanic (bg_label g)} \<Longrightarrow>
      set (sv_observed (fold (respawn_loop g) evs s)) \<subseteq> {ObsPanic (bg_label g)}" for s
  proof (induction evs arbitrary: s)
    case (Cons sev evs)
    obtain n where "sv_observed (respawn_loop g sev s) = sv_observed s @ replicate n (ObsPanic (bg_label g))"
      using step_counts by blast
    then show ?case using Cons by (auto simp: set_replicate_conv_if)
  qed simp
  then show ?thesis by (simp add: supervise_def sup_start_def)
qed

lemma alive_or_backing_off:
  assumes "CtxEnds \<notin> set evs" and "\<And>n. sv_phase (supervise g evs w) \<noteq> ProcessExited n"
  shows "sv_phase (supervise g evs w) = BodyRunning \<or> sv_phase (supervise g evs w) = BackingOff"
  using assms finishes_late[of evs w] by (cases "sv_phase (supervise g evs w)") auto

end

locale harmless_loop = background_loop +
  assumes never_exits: "snd (bg_step g ended e s) \<noteq> BodyExits n"
begin

lemma step_harmless: "sv_phase s \<noteq> ProcessExited n \<Longrightarrow> sv_phase (respawn_loop g sev s) \<noteq> ProcessExited n"
proof (cases sev)
  case (BodyStep e)
  obtain l w fin where b: "bg_step g (sv_ctx_ended s) e (sv_local s, sv_world s) = ((l, w), fin)"
    by (metis prod.exhaust)
  then have "fin \<noteq> BodyExits n"
    using never_exits[of "sv_ctx_ended s" e "(sv_local s, sv_world s)" n] by simp
  then show "sv_phase s \<noteq> ProcessExited n \<Longrightarrow> ?thesis"
    using BodyStep b by (auto simp: after_return_def split: body_end.splits)
qed (auto simp: after_panic_def)

lemma harmless: "sv_phase (supervise g evs w) \<noteq> ProcessExited n"
proof -
  have "sv_phase s \<noteq> ProcessExited n \<Longrightarrow> sv_phase (fold (respawn_loop g) evs s) \<noteq> ProcessExited n" for s
    by (induction evs arbitrary: s) (simp_all add: step_harmless)
  then show ?thesis by (simp add: supervise_def sup_start_def)
qed

lemma stays_alive:
  "CtxEnds \<notin> set evs \<Longrightarrow> sv_phase (supervise g evs w) = BodyRunning \<or> sv_phase (supervise g evs w) = BackingOff"
  using alive_or_backing_off harmless by blast

end

interpretation monitor: background_loop monitor_goroutine
  by unfold_locales (simp add: monitor_goroutine_def)

interpretation maint: harmless_loop "maintenance_goroutine cfg interval"
  by unfold_locales
    (auto simp: maintenance_goroutine_def maintenance_body_def split: maintenance_event.splits if_splits)

interpretation gauge: harmless_loop gauge_goroutine
  by unfold_locales (auto simp: gauge_goroutine_def gauge_body_def split: gauge_event.splits if_splits)

section \<open>The loops inside their wrappers\<close>

text \<open>Between two panics a supervised monitor is the monitor loop.\<close>

lemma monitor_supervised_run:
  assumes "sv_phase s = BodyRunning" and "MonitorDone \<in> set es \<longrightarrow> sv_ctx_ended s"
    and "\<And>e. e \<in> set es \<Longrightarrow> monitor_seen (sv_ctx_ended s) e = e"
  shows "sv_phase (fold (respawn_loop monitor_goroutine) (map BodyStep es) s) =
    (case MonitorDockerd es (sv_local s) of
       Watching failures \<Rightarrow> BodyRunning
     | Stopped \<Rightarrow> (if sv_ctx_ended s then SupFinished else BackingOff)
     | Exited n \<Rightarrow> ProcessExited n)"
  using assms
proof (induction es arbitrary: s)
  case (Cons e es)
  have stuck: "sv_phase t \<noteq> BodyRunning \<Longrightarrow> fold (respawn_loop monitor_goroutine) (map BodyStep es) t = t" for t es
    by (induction es) simp_all
  obtain exit exitForce failures where r: "runOneIteration e (sv_local s) = ((exit, exitForce), failures)"
    by (metis prod.exhaust)
  have st: "respawn_loop monitor_goroutine (BodyStep e) s =
      s\<lparr>sv_local := failures, sv_phase := (if exitForce then ProcessExited 1
        else if exit then (if sv_ctx_ended s then SupFinished else BackingOff) else BodyRunning)\<rparr>"
    using Cons.prems(1,2) Cons.prems(3)[of e] r by (auto simp: monitor_goroutine_def monitor_body_def after_return_def)
  show ?case
    using Cons.prems Cons.IH[of "s\<lparr>sv_local := failures, sv_phase := BodyRunning\<rparr>"]
    by (simp add: st r stuck del: respawn_loop.simps)
qed simp

text \<open>A life of the supervised maintenance loop is the maintenance loop, with the work of the others in between.\<close>

fun maint_sup_event :: "maintenance_round \<Rightarrow> (maintenance_event, manager) sup_event" where
  "maint_sup_event MaintDone = BodyStep MaintCtxDone"
| "maint_sup_event (MaintTick draining env) = BodyStep (MaintTicks draining env)"
| "maint_sup_event (MaintOther f) = WorldMoves f"

lemma maintenance_supervised_run:
  assumes "interval > 0" and "sv_phase s = BodyRunning" and "sv_ctx_ended s"
    and "\<And>r f. r \<in> set rs \<Longrightarrow> r \<noteq> MaintOther f"
  shows "(sv_phase (fold (respawn_loop (maintenance_goroutine cfg interval)) (map maint_sup_event rs) s),
          sv_world (fold (respawn_loop (maintenance_goroutine cfg interval)) (map maint_sup_event rs) s)) =
    (case runMaintenanceLoop cfg interval rs (sv_world s) of
       (LoopWaiting, m) \<Rightarrow> (BodyRunning, m) | (LoopReturned, m) \<Rightarrow> (SupFinished, m))"
  using assms(2-4)
proof (induction rs arbitrary: s)
  case Nil
  then show ?case using assms(1) by (simp add: runMaintenanceLoop_def)
next
  case (Cons r rs)
  have stuck: "sv_phase t = SupFinished \<Longrightarrow> (\<And>r f. r \<in> set rs \<Longrightarrow> r \<noteq> MaintOther f) \<Longrightarrow>
      fold (respawn_loop (maintenance_goroutine cfg interval)) (map maint_sup_event rs) t = t" for t rs
  proof (induction rs)
    case (Cons r rs)
    then show ?case by (cases r) auto
  qed simp
  have g: "bg_recheck (maintenance_goroutine cfg interval)"
    "bg_step (maintenance_goroutine cfg interval) = maintenance_body cfg interval"
    by (simp_all add: maintenance_goroutine_def)
  show ?case
  proof (cases r)
    case (MaintTick draining env)
    then show ?thesis
      using assms(1) Cons.prems Cons.IH[of "s\<lparr>sv_local := (), sv_world := runMaintenanceTick cfg env (sv_world s), sv_phase := BodyRunning\<rparr>"]
      by (auto simp: g maintenance_body_def after_return_def runMaintenanceLoop_def stuck)
  qed (use assms(1) Cons.prems in \<open>auto simp: g maintenance_body_def after_return_def runMaintenanceLoop_def stuck\<close>)
qed

section \<open>Background work survives panics\<close>

text \<open>
  What a wrapper owes its body: until the context ends, the body runs or one timer brings it back, with a fresh local
  state and the world as the panic left it; it ends only after the context, and then at its next event; a panic
  is counted once, under the label of the goroutine.
\<close>

definition keeps_running :: "('l, 'w, 'e) background \<Rightarrow> 'e \<Rightarrow> ('e, 'w) sup_event list \<Rightarrow> 'w \<Rightarrow> bool" where
  "keeps_running g done_event evs w \<longleftrightarrow>
     (let s = supervise g evs w; t = respawn_loop g BackoffTimer s in
        (CtxEnds \<notin> set evs \<longrightarrow> sv_phase t = BodyRunning \<and> sv_world t = sv_world s \<and>
           (sv_phase s = BackingOff \<longrightarrow> sv_local t = bg_fresh g)) \<and>
        (sv_phase s = SupFinished \<longrightarrow> CtxEnds \<in> set evs) \<and>
        (CtxEnds \<in> set evs \<longrightarrow> sv_phase (respawn_loop g BackoffDone (respawn_loop g (BodyStep done_event) s)) = SupFinished) \<and>
        set (sv_observed s) \<subseteq> {ObsPanic (bg_label g)} \<and>
        (\<forall>f msg. sv_phase s = BodyRunning \<longrightarrow>
           sv_observed (respawn_loop g (BodyPanics f msg) s) = sv_observed s @ [ObsPanic (bg_label g)] \<and>
           sv_world (respawn_loop g (BodyPanics f msg) s) = f (sv_world s)))"

context background_loop
begin

lemma wrapped:
  assumes "\<And>n. sv_phase (supervise g evs w) \<noteq> ProcessExited n"
    and "\<And>s. snd (bg_step g True done_event s) = BodyReturns"
  shows "keeps_running g done_event evs w"
proof -
  let ?s = "supervise g evs w"
  have fin: "sv_phase (respawn_loop g BackoffDone (respawn_loop g (BodyStep done_event) ?s)) = SupFinished" if "CtxEnds \<in> set evs"
  proof -
    have c: "sv_ctx_ended ?s" using that by (simp add: ctx_ended)
    obtain l x where b: "bg_step g True done_event (sv_local ?s, sv_world ?s) = ((l, x), BodyReturns)"
      using assms(2)[of "(sv_local ?s, sv_world ?s)"] by (metis prod.exhaust snd_conv)
    show ?thesis using assms(1) c b by (cases "sv_phase ?s") (auto simp: after_return_def)
  qed
  have "CtxEnds \<notin> set evs \<Longrightarrow> sv_phase ?s = BodyRunning \<or> sv_phase ?s = BackingOff"
    by (rule alive_or_backing_off[OF _ assms(1)])
  then show ?thesis
    using fin finishes_late[of evs w] counts[of evs w]
    by (auto simp: keeps_running_def Let_def recoverBackgroundGoroutine_def)
qed

end

text \<open>
  C16. A panic in the background never takes the runner down and never ends the work it hit. For every history of panics,
  backoffs, work of the rest of the runner and the end of the context, the maintenance loop and the gauge poller
  keep running in the sense of \<open>keeps_running\<close> and never exit the process; so does the dockerd monitor as long as it
  has not exited the process by its own rule of three failed probes in one life.
\<close>

theorem background_supervised:
  "keeps_running (maintenance_goroutine cfg interval) MaintCtxDone es m \<and>
   keeps_running gauge_goroutine GaugeStop gs trk \<and>
   (\<forall>n. sv_phase (supervise (maintenance_goroutine cfg interval) es m) \<noteq> ProcessExited n \<and>
        sv_phase (supervise gauge_goroutine gs trk) \<noteq> ProcessExited n) \<and>
   ((\<forall>n. sv_phase (supervise monitor_goroutine ms ()) \<noteq> ProcessExited n) \<longrightarrow>
      keeps_running monitor_goroutine MonitorDone ms ())"
proof (intro conjI impI allI)
  show "keeps_running (maintenance_goroutine cfg interval) MaintCtxDone es m"
    by (rule maint.wrapped[OF maint.harmless]) (simp add: maintenance_goroutine_def maintenance_body_def)
  show "keeps_running gauge_goroutine GaugeStop gs trk"
    by (rule gauge.wrapped[OF gauge.harmless]) (simp add: gauge_goroutine_def gauge_body_def)
  show "sv_phase (supervise (maintenance_goroutine cfg interval) es m) \<noteq> ProcessExited n" for n
    by (rule maint.harmless)
  show "sv_phase (supervise gauge_goroutine gs trk) \<noteq> ProcessExited n" for n by (rule gauge.harmless)
  assume "\<forall>n. sv_phase (supervise monitor_goroutine ms ()) \<noteq> ProcessExited n"
  then show "keeps_running monitor_goroutine MonitorDone ms ()"
    by (intro monitor.wrapped) (simp_all add: monitor_goroutine_def monitor_body_def)
qed

theorem background_supervised_witness:
  "sv_phase (respawn_loop monitor_goroutine BackoffTimer (supervise monitor_goroutine
     [BodyStep (MonitorTick (PingFailed False False)), BodyPanics id ''nil map''] ())) = BodyRunning"
proof -
  let ?ms = "[BodyStep (MonitorTick (PingFailed False False)), BodyPanics id ''nil map'']
    :: (monitor_event, unit) sup_event list"
  have "\<forall>n. sv_phase (supervise monitor_goroutine ?ms ()) \<noteq> ProcessExited n"
    by (simp add: supervise_def sup_start_def monitor_goroutine_def monitor_body_def count_failure_def
        healthFailureLimit_def after_panic_def)
  then have "keeps_running monitor_goroutine MonitorDone ?ms ()"
    using background_supervised[of undefined 0 "[]" undefined "[]" undefined ?ms] by blast
  then show ?thesis by (simp add: keeps_running_def Let_def)
qed

text \<open>
  While the runner drains its HTTP requests the maintenance loop returns before the context has ended; its wrapper takes
  that for a crash, and starts it again after the backoff.
\<close>

theorem drained_maintenance_respawns:
  assumes "interval > 0" and "sv_phase s = BodyRunning" and "\<not> sv_ctx_ended s"
  shows "fold (respawn_loop (maintenance_goroutine cfg interval)) [BodyStep (MaintTicks True env), BackoffTimer] s =
    s\<lparr>sv_local := (), sv_spawns := Suc (sv_spawns s)\<rparr>"
  using assms by (simp add: maintenance_goroutine_def maintenance_body_def after_return_def)

theorem drained_maintenance_respawns_witness:
  "sv_spawns (fold (respawn_loop (maintenance_goroutine cfg 60)) [BodyStep (MaintTicks True env), BackoffTimer]
     (sup_start (maintenance_goroutine cfg 60) m)) = 2"
  using drained_maintenance_respawns[of 60 "sup_start (maintenance_goroutine cfg 60) m" cfg env]
  by (simp add: sup_start_def)

text \<open>The gauge shows the number of tracked containers as of its last tick.\<close>

lemma gauge_tick_publishes:
  assumes "sv_phase s = BodyRunning"
  shows "snd (sv_world (respawn_loop gauge_goroutine (BodyStep GaugeTick) s)) = Count (fst (sv_world s))"
  using assms by (simp add: gauge_goroutine_def gauge_body_def split: prod.split)

end
