(* ===== verification/Process.thy ===== *)
theory Process
  imports Shutdown Supervisor
begin

text \<open>
  The rest of \<open>main\<close> of \<open>cmd/contextmatrix-runner/main.go\<close>, from the moment the listeners run: the two signal
  channels and the force-exit watcher, the shutdown sequence step by step, the tear-down, and the deferred cleanups,
  with the goroutines that can end the process meanwhile. The main goroutine is the list of what it has left to do.
\<close>

section \<open>The main goroutine\<close>

datatype cleanup =
    CloseDocker | CloseBroadcaster | DeferMonitorCancel | DeferReplayCancel | StopGauge | CloseForceDone | StopForceChannel

datatype main_action =
    AwaitSignal | NotifyForce | StopSignalChannel | StartForceWatcher
  | FlipDraining | CloseListener | CancelMonitor | SweepContainers | CancelReplay
  | CloseAdmin | FlushTracer
  | Deferred cleanup

text \<open>The cleanups in the order of their \<open>defer\<close> statements; they run in reverse.\<close>

definition deferred_cleanups :: "cleanup list" where
  "deferred_cleanups = [CloseDocker, CloseBroadcaster, DeferMonitorCancel, DeferReplayCancel, StopGauge, CloseForceDone, StopForceChannel]"

definition main_tail :: "main_action list" where
  "main_tail = [AwaitSignal, NotifyForce, StopSignalChannel, StartForceWatcher, FlipDraining, CloseListener, CancelMonitor,
     SweepContainers, CancelReplay, CloseAdmin, FlushTracer] @ map Deferred (rev deferred_cleanups)"

datatype proc_exit = ExitCode int | KilledBySignal

record process =
  pr_todo :: "main_action list"
  pr_sig_registered :: bool
  pr_force_registered :: bool
  pr_sig_pending :: bool
  pr_force_pending :: bool
  pr_watcher :: bool
  pr_force_done :: bool
  pr_listening :: bool
  pr_monitor :: "(nat, unit) supervised"
  pr_core :: "health_state \<times> manager"
  pr_exit :: "proc_exit option"

definition process_start :: "health_state \<times> manager \<Rightarrow> process" where
  "process_start core = \<lparr>pr_todo = main_tail, pr_sig_registered = True, pr_force_registered = False, pr_sig_pending = False,
     pr_force_pending = False, pr_watcher = False, pr_force_done = False, pr_listening = True,
     pr_monitor = sup_start monitor_goroutine (), pr_core = core, pr_exit = None\<rparr>"

text \<open>Steps 4 to 6 of \<open>shutdown\<close>; \<open>None\<close> when a kill waits for a lock for ever.\<close>

definition shutdown_sweep :: "shutdown_env \<Rightarrow> manager \<Rightarrow> manager option" where
  "shutdown_sweep e m =
     (case shutdown_each e (AllSnapshots (m_tracker m)) m of
        None \<Rightarrow> None
      | Some m4 \<Rightarrow> (let m5 = se_drain e m4 in Some (fold (force_one e) (AllSnapshots (m_tracker m5)) m5)))"

definition cancel_monitor :: "process \<Rightarrow> process" where
  "cancel_monitor p = p\<lparr>pr_monitor := respawn_loop monitor_goroutine CtxEnds (pr_monitor p)\<rparr>"

fun run_cleanup :: "cleanup \<Rightarrow> process \<Rightarrow> process" where
  "run_cleanup StopForceChannel p = p\<lparr>pr_force_registered := False\<rparr>"
| "run_cleanup CloseForceDone p = p\<lparr>pr_force_done := True\<rparr>"
| "run_cleanup DeferMonitorCancel p = cancel_monitor p"
| "run_cleanup StopGauge p = p"
| "run_cleanup DeferReplayCancel p = p"
| "run_cleanup CloseBroadcaster p = p"
| "run_cleanup CloseDocker p = p"

text \<open>One action; \<open>None\<close> while it blocks. The HTTP, admin and tracer shutdowns are bounded by their deadlines.\<close>

fun perform :: "shutdown_env \<Rightarrow> main_action \<Rightarrow> process \<Rightarrow> process option" where
  "perform e AwaitSignal p = (if pr_sig_pending p then Some (p\<lparr>pr_sig_pending := False\<rparr>) else None)"
| "perform e NotifyForce p = Some (p\<lparr>pr_force_registered := True\<rparr>)"
| "perform e StopSignalChannel p = Some (p\<lparr>pr_sig_registered := False\<rparr>)"
| "perform e StartForceWatcher p = Some (p\<lparr>pr_watcher := True\<rparr>)"
| "perform e FlipDraining p = Some (p\<lparr>pr_core := (StartDraining (fst (pr_core p)), snd (pr_core p))\<rparr>)"
| "perform e CloseListener p = Some (p\<lparr>pr_listening := False, pr_core := (fst (pr_core p), se_http e (snd (pr_core p)))\<rparr>)"
| "perform e CancelMonitor p = Some (cancel_monitor p)"
| "perform e SweepContainers p =
     map_option (\<lambda>m. p\<lparr>pr_core := (fst (pr_core p), m)\<rparr>) (shutdown_sweep e (snd (pr_core p)))"
| "perform e CancelReplay p = Some p"
| "perform e CloseAdmin p = Some p"
| "perform e FlushTracer p = Some p"
| "perform e (Deferred c) p = Some (run_cleanup c p)"

section \<open>The process\<close>

text \<open>
  The events: SIGINT or SIGTERM arrives; the main goroutine takes a step; the watcher receives a signal or sees that
  shutdown is done; a listener returns with an error; the monitor goroutine moves; the rest of the runner works.
\<close>

datatype proc_event =
    SignalArrives
  | MainStep
  | WatcherTakesSignal
  | WatcherTakesDone
  | ListenerFails
  | AdminFails
  | MonitorMoves "(monitor_event, unit) sup_event"
  | Works "manager \<Rightarrow> manager"

definition main_step :: "shutdown_env \<Rightarrow> process \<Rightarrow> process" where
  "main_step e p = (case pr_todo p of
       [] \<Rightarrow> p\<lparr>pr_exit := Some (ExitCode 0)\<rparr>
     | a # rest \<Rightarrow> (case perform e a p of None \<Rightarrow> p | Some p' \<Rightarrow> p'\<lparr>pr_todo := rest\<rparr>))"

text \<open>A signal goes to every channel registered for it; with none left its default disposition ends the process.\<close>

definition deliver_signal :: "process \<Rightarrow> process" where
  "deliver_signal p =
     (if \<not> pr_sig_registered p \<and> \<not> pr_force_registered p then p\<lparr>pr_exit := Some KilledBySignal\<rparr>
      else p\<lparr>pr_sig_pending := (pr_sig_pending p \<or> pr_sig_registered p),
             pr_force_pending := (pr_force_pending p \<or> pr_force_registered p)\<rparr>)"

definition monitor_moves :: "(monitor_event, unit) sup_event \<Rightarrow> process \<Rightarrow> process" where
  "monitor_moves sev p =
     (if sev = CtxEnds then p
      else let mon = respawn_loop monitor_goroutine sev (pr_monitor p)
           in p\<lparr>pr_monitor := mon,
                pr_exit := (case sv_phase mon of ProcessExited n \<Rightarrow> Some (ExitCode n) | _ \<Rightarrow> pr_exit p)\<rparr>)"

text \<open>The work of the rest of the runner during the shutdown sequence is part of \<open>shutdown_env\<close>.\<close>

fun proc_live_step :: "shutdown_env \<Rightarrow> proc_event \<Rightarrow> process \<Rightarrow> process" where
  "proc_live_step e SignalArrives p = deliver_signal p"
| "proc_live_step e MainStep p = main_step e p"
| "proc_live_step e WatcherTakesSignal p =
     (if pr_watcher p \<and> pr_force_pending p then p\<lparr>pr_exit := Some (ExitCode 1)\<rparr> else p)"
| "proc_live_step e WatcherTakesDone p = (if pr_watcher p \<and> pr_force_done p then p\<lparr>pr_watcher := False\<rparr> else p)"
| "proc_live_step e ListenerFails p = (if pr_listening p then p\<lparr>pr_exit := Some (ExitCode 1)\<rparr> else p)"
| "proc_live_step e AdminFails p = p"
| "proc_live_step e (MonitorMoves sev) p = monitor_moves sev p"
| "proc_live_step e (Works f) p =
     (if FlipDraining \<in> set (pr_todo p) then p\<lparr>pr_core := (fst (pr_core p), f (snd (pr_core p)))\<rparr> else p)"

definition proc_step :: "shutdown_env \<Rightarrow> proc_event \<Rightarrow> process \<Rightarrow> process" where
  "proc_step e pev p = (if pr_exit p \<noteq> None then p else proc_live_step e pev p)"

definition run_process :: "shutdown_env \<Rightarrow> health_state \<times> manager \<Rightarrow> proc_event list \<Rightarrow> process" where
  "run_process e core evs = fold (proc_step e) evs (process_start core)"

lemma shutdown_in_steps:
  "shutdown e core = map_option (Pair (StartDraining (fst core))) (shutdown_sweep e (se_http e (snd core)))"
  by (cases core) (simp add: shutdown_def shutdown_sweep_def Let_def split: option.split)

section \<open>Where the process is\<close>

text \<open>
  \<open>stage n k core p\<close>: after \<open>n\<close> signals and \<open>k\<close> actions of the main goroutine, \<open>core\<close> is the runner when it began to
  drain (or is now, before that).
\<close>

definition core_at :: "shutdown_env \<Rightarrow> nat \<Rightarrow> health_state \<times> manager \<Rightarrow> health_state \<times> manager \<Rightarrow> bool" where
  "core_at e k core cur \<longleftrightarrow>
     (if k \<le> 4 then cur = core
      else if k = 5 then cur = (StartDraining (fst core), snd core)
      else if k \<le> 7 then cur = (StartDraining (fst core), se_http e (snd core))
      else shutdown e core = Some cur)"

definition counted :: "nat \<Rightarrow> nat \<Rightarrow> process \<Rightarrow> bool" where
  "counted n k p \<longleftrightarrow> (pr_sig_pending p \<longrightarrow> 1 \<le> n) \<and> (1 \<le> k \<longrightarrow> 1 \<le> n) \<and> (pr_force_pending p \<longrightarrow> 2 \<le> n) \<and>
     (k = 0 \<and> 1 \<le> n \<longrightarrow> pr_sig_pending p)"

definition placed :: "shutdown_env \<Rightarrow> nat \<Rightarrow> health_state \<times> manager \<Rightarrow> process \<Rightarrow> bool" where
  "placed e k core p \<longleftrightarrow> k \<le> 18 \<and> pr_todo p = drop k main_tail \<and>
     (pr_sig_registered p \<longleftrightarrow> k < 3) \<and> (pr_force_registered p \<longleftrightarrow> 2 \<le> k \<and> k < 12) \<and>
     (pr_watcher p \<longrightarrow> 4 \<le> k) \<and> (4 \<le> k \<and> k < 12 \<longrightarrow> pr_watcher p \<and> \<not> pr_force_done p) \<and> (pr_force_done p \<longrightarrow> 13 \<le> k) \<and>
     (pr_listening p \<longleftrightarrow> k < 6) \<and> (sv_ctx_ended (pr_monitor p) \<longleftrightarrow> 7 \<le> k) \<and> core_at e k core (pr_core p)"

definition stage :: "shutdown_env \<Rightarrow> nat \<Rightarrow> nat \<Rightarrow> health_state \<times> manager \<Rightarrow> process \<Rightarrow> bool" where
  "stage e n k core p \<longleftrightarrow> placed e k core p \<and> counted n k p"

lemmas stage_simps = stage_def placed_def counted_def

lemma main_tail_length: "length main_tail = 18"
  by (simp add: main_tail_def deferred_cleanups_def)

lemma main_tail_nth:
  "main_tail ! 0 = AwaitSignal" "main_tail ! 1 = NotifyForce" "main_tail ! 2 = StopSignalChannel"
  "main_tail ! 3 = StartForceWatcher" "main_tail ! 4 = FlipDraining" "main_tail ! 5 = CloseListener"
  "main_tail ! 6 = CancelMonitor" "main_tail ! 7 = SweepContainers" "main_tail ! 8 = CancelReplay"
  "main_tail ! 9 = CloseAdmin" "main_tail ! 10 = FlushTracer" "main_tail ! 11 = Deferred StopForceChannel"
  "main_tail ! 12 = Deferred CloseForceDone" "main_tail ! 13 = Deferred StopGauge"
  "main_tail ! 14 = Deferred DeferReplayCancel" "main_tail ! 15 = Deferred DeferMonitorCancel"
  "main_tail ! 16 = Deferred CloseBroadcaster" "main_tail ! 17 = Deferred CloseDocker"
  by (simp_all add: main_tail_def deferred_cleanups_def)

lemma main_tail_drop: "k < 18 \<Longrightarrow> drop k main_tail = main_tail ! k # drop (Suc k) main_tail"
  by (simp add: Cons_nth_drop_Suc main_tail_length)

lemma position_cases:
  assumes "k \<le> (18 :: nat)"
  obtains "k = 0" | "k = 1" | "k = 2" | "k = 3" | "k = 4" | "k = 5" | "k = 6" | "k = 7" | "k = 8" | "k = 9" | "k = 10"
    | "k = 11" | "k = 12" | "k = 13" | "k = 14" | "k = 15" | "k = 16" | "k = 17" | "k = 18"
proof -
  have "k \<in> set [0..<19]" using assms by simp
  then have "k \<in> {0, 1, 2, 3, 4, 5, 6, 7, 8, 9, 10, 11, 12, 13, 14, 15, 16, 17, 18}" by (simp add: upt_rec numeral_eq_Suc)
  then show thesis using that by blast
qed

lemma flip_left: "k \<le> 18 \<Longrightarrow> FlipDraining \<in> set (drop k main_tail) \<longleftrightarrow> k \<le> 4"
  by (erule position_cases) (simp_all add: main_tail_def deferred_cleanups_def)

text \<open>The action at the head is performed, blocks, or there is none left.\<close>

lemma main_step_head:
  assumes "stage e n k core p" and "k < 18"
  shows "main_step e p = (case perform e (main_tail ! k) p of None \<Rightarrow> p | Some p' \<Rightarrow> p'\<lparr>pr_todo := drop (Suc k) main_tail\<rparr>)"
  using assms main_tail_drop[of k] by (simp add: main_step_def stage_def placed_def)

lemma main_step_stage:
  assumes st: "stage e n k core p" and k: "k < 18"
  shows "main_step e p = p \<or>
    stage e n (Suc k) core (main_step e p) \<and> pr_exit (main_step e p) = pr_exit p \<and>
    sv_phase (pr_monitor (main_step e p)) = sv_phase (pr_monitor p)"
proof -
  have "k \<le> 18" using k by simp
  then show ?thesis
    using main_step_head[OF st k] st k
    by (cases rule: position_cases)
      (auto simp: stage_simps core_at_def cancel_monitor_def shutdown_in_steps main_tail_nth main_tail_nth[unfolded One_nat_def] split: option.splits)
qed

lemma main_step_end: "stage e n 18 core p \<Longrightarrow> main_step e p = p\<lparr>pr_exit := Some (ExitCode 0)\<rparr>"
  by (simp add: stage_simps main_step_def main_tail_length)

section \<open>Every way the process ends\<close>

definition signals :: "proc_event list \<Rightarrow> nat" where
  "signals evs = length (filter (\<lambda>pev. pev = SignalArrives) evs)"

text \<open>The manager at the start of the drain is what the works of the history made of it.\<close>

definition worked :: "proc_event list \<Rightarrow> manager \<Rightarrow> manager \<Rightarrow> bool" where
  "worked evs m m' \<longleftrightarrow> (\<exists>fs. (\<forall>f \<in> set fs. Works f \<in> set evs) \<and> m' = fold (\<lambda>f. f) fs m)"

definition exit_cause :: "bool \<Rightarrow> nat \<Rightarrow> nat \<Rightarrow> process \<Rightarrow> proc_exit \<Rightarrow> bool" where
  "exit_cause failed n k p x \<longleftrightarrow> (case x of
       KilledBySignal \<Rightarrow> 12 \<le> k \<and> 2 \<le> n
     | ExitCode c \<Rightarrow> c = 0 \<and> k = 18 \<and> 1 \<le> n \<or>
         c = 1 \<and> (k < 6 \<and> failed \<or> 4 \<le> k \<and> 2 \<le> n \<or> sv_phase (pr_monitor p) = ProcessExited 1))"

definition ended_ok :: "bool \<Rightarrow> nat \<Rightarrow> nat \<Rightarrow> process \<Rightarrow> bool" where
  "ended_ok failed n k p \<longleftrightarrow> (case pr_exit p of
       None \<Rightarrow> (\<forall>c. sv_phase (pr_monitor p) \<noteq> ProcessExited c) | Some x \<Rightarrow> exit_cause failed n k p x)"

definition proc_inv :: "shutdown_env \<Rightarrow> health_state \<times> manager \<Rightarrow> proc_event list \<Rightarrow> process \<Rightarrow> bool" where
  "proc_inv e core evs p \<longleftrightarrow> (\<exists>n k m. stage e n k (fst core, m) p \<and> worked evs (snd core) m \<and>
     (pr_exit p = None \<longrightarrow> n = signals evs) \<and> ended_ok (ListenerFails \<in> set evs) (signals evs) k p)"

lemma signals_snoc: "signals (evs @ [pev]) = signals evs + (if pev = SignalArrives then 1 else 0)"
  by (simp add: signals_def)

lemma worked_more: "worked evs m m' \<Longrightarrow> worked (evs @ xs) m m'"
  unfolding worked_def by fastforce

lemma worked_snoc: "worked evs m m' \<Longrightarrow> worked (evs @ [Works f]) m (f m')"
proof -
  assume "worked evs m m'"
  then obtain fs where "\<forall>f \<in> set fs. Works f \<in> set evs" "m' = fold (\<lambda>f. f) fs m" by (auto simp: worked_def)
  then show ?thesis unfolding worked_def by (intro exI[of _ "fs @ [f]"]) auto
qed

lemma deliver_stage:
  assumes "stage e n k core p" and "pr_exit p = None" and mon: "\<And>c. sv_phase (pr_monitor p) \<noteq> ProcessExited c"
  shows "stage e (Suc n) k core (deliver_signal p) \<and> ended_ok f (Suc n) k (deliver_signal p)"
proof -
  have c: "counted n k p" "pr_sig_registered p \<longleftrightarrow> k < 3" "pr_force_registered p \<longleftrightarrow> 2 \<le> k \<and> k < 12" and pl: "placed e k core p"
    using assms(1) by (simp_all add: stage_def placed_def)
  have "counted (Suc n) k (deliver_signal p)" using c by (auto simp: counted_def deliver_signal_def)
  moreover have "placed e k core (deliver_signal p)" using pl by (simp add: placed_def deliver_signal_def)
  ultimately have "stage e (Suc n) k core (deliver_signal p)" by (simp add: stage_def)
  moreover have "ended_ok f (Suc n) k (deliver_signal p)"
    using c assms(2) mon by (auto simp: counted_def deliver_signal_def ended_ok_def exit_cause_def)
  ultimately show ?thesis by blast
qed

lemma ended_more: "ended_ok f n k p \<Longrightarrow> (f \<Longrightarrow> f') \<Longrightarrow> n \<le> n' \<Longrightarrow> ended_ok f' n' k p"
  by (auto simp: ended_ok_def exit_cause_def split: option.splits proc_exit.splits)

lemma start_stage: "stage e 0 0 core (process_start core)"
  by (simp add: stage_simps process_start_def core_at_def sup_start_def)

lemma start_inv: "proc_inv e core [] (process_start core)"
proof -
  have "worked [] (snd core) (snd core)" by (simp add: worked_def exI[of _ "[]"])
  moreover have "stage e 0 0 (fst core, snd core) (process_start core)" using start_stage by simp
  moreover have "pr_exit (process_start core) = None" "ended_ok f n k (process_start core)" for f n k
    by (simp_all add: ended_ok_def process_start_def sup_start_def)
  ultimately show ?thesis unfolding proc_inv_def by (intro exI[of _ 0] exI[of _ "snd core"]) (simp add: signals_def)
qed

text \<open>The monitor exits with code 1 only, and a monitor that has not exited is left alone by the rest.\<close>

lemma process_monitor_code:
  assumes "sv_phase (respawn_loop monitor_goroutine sev s) = ProcessExited c" and "\<And>d. sv_phase s \<noteq> ProcessExited d"
  shows "c = 1"
proof (cases sev)
  case (BodyStep x)
  then show ?thesis
    using assms by (auto simp: monitor_goroutine_def monitor_body_def after_return_def split: if_splits prod.splits)
qed (use assms in \<open>auto simp: after_panic_def split: if_splits\<close>)

lemma stage_exit: "stage e n k core (p\<lparr>pr_exit := x\<rparr>) = stage e n k core p"
  by (simp add: stage_def placed_def counted_def)

lemma main_stage:
  assumes st: "stage e n k core p" and none: "pr_exit p = None" and mon: "\<And>c. sv_phase (pr_monitor p) \<noteq> ProcessExited c"
  shows "\<exists>k'. stage e n k' core (main_step e p) \<and> ended_ok f n k' (main_step e p)"
proof (cases "k = 18")
  case True
  have "1 \<le> n" using st True by (simp add: stage_def counted_def)
  then show ?thesis
    using st True main_step_end[OF st[unfolded True]] by (intro exI[of _ 18]) (simp add: stage_exit ended_ok_def exit_cause_def)
next
  case False
  then have "k < 18" using st by (simp add: stage_def placed_def)
  then consider "main_step e p = p" | "stage e n (Suc k) core (main_step e p)" "pr_exit (main_step e p) = None"
      "sv_phase (pr_monitor (main_step e p)) = sv_phase (pr_monitor p)"
    using main_step_stage[OF st] none by auto
  then show ?thesis
  proof cases
    case 1
    then show ?thesis using st none mon by (intro exI[of _ k]) (simp add: ended_ok_def)
  next
    case 2
    then show ?thesis using mon by (intro exI[of _ "Suc k"]) (simp add: ended_ok_def)
  qed
qed

lemma works_stage:
  assumes "stage e n k (h, m) p" and "pr_exit p = None" and mon: "\<And>c. sv_phase (pr_monitor p) \<noteq> ProcessExited c"
  shows "\<exists>m'. m' \<in> {m, f m} \<and> stage e n k (h, m') (proc_live_step e (Works f) p) \<and> ended_ok x n k (proc_live_step e (Works f) p)"
proof -
  have k: "k \<le> 18" and todo: "pr_todo p = drop k main_tail" using assms by (simp_all add: stage_def placed_def)
  have e: "ended_ok x n k (proc_live_step e (Works f) p)" using assms(2) mon by (simp add: ended_ok_def)
  show ?thesis
  proof (cases "k \<le> 4")
    case True
    then have "stage e n k (h, f m) (proc_live_step e (Works f) p)"
      using assms(1) flip_left[OF k] todo by (auto simp: stage_def placed_def counted_def core_at_def)
    then show ?thesis using e by blast
  next
    case False
    then have "proc_live_step e (Works f) p = p" using flip_left[OF k] todo by simp
    then show ?thesis using e assms(1) by (intro exI[of _ m]) simp
  qed
qed

lemma monitor_stage:
  assumes "stage e n k core p" and "pr_exit p = None" and mon: "\<And>c. sv_phase (pr_monitor p) \<noteq> ProcessExited c"
  shows "stage e n k core (monitor_moves sev p) \<and> ended_ok f n k (monitor_moves sev p)"
proof
  have "sev \<noteq> CtxEnds \<Longrightarrow> sv_ctx_ended (respawn_loop monitor_goroutine sev (pr_monitor p)) = sv_ctx_ended (pr_monitor p)"
    by (simp add: monitor.step_ctx)
  then show "stage e n k core (monitor_moves sev p)"
    using assms(1) by (simp add: stage_def placed_def counted_def monitor_moves_def Let_def)
  show "ended_ok f n k (monitor_moves sev p)"
    using assms(2) mon process_monitor_code[OF _ mon, of sev]
    by (auto simp: ended_ok_def exit_cause_def monitor_moves_def Let_def split: sup_phase.splits)
qed

lemma quiet_stage:
  assumes "stage e n k core p" and none: "pr_exit p = None" and mon: "\<And>c. sv_phase (pr_monitor p) \<noteq> ProcessExited c"
    and quiet: "pev \<in> {WatcherTakesSignal, WatcherTakesDone, ListenerFails, AdminFails}"
  shows "stage e n k core (proc_live_step e pev p) \<and> ended_ok (pev = ListenerFails) n k (proc_live_step e pev p)"
proof
  have pl: "placed e k core p" and c: "counted n k p" using assms(1) by (simp_all add: stage_def)
  have facts: "pr_watcher p \<Longrightarrow> 4 \<le> k" "pr_listening p \<longleftrightarrow> k < 6" "pr_force_done p \<Longrightarrow> 13 \<le> k" "pr_force_pending p \<Longrightarrow> 2 \<le> n"
    using pl c by (simp_all add: placed_def counted_def)
  have "placed e k core (p\<lparr>pr_watcher := False\<rparr>)" if "pr_force_done p"
    using pl facts(3)[OF that] by (simp add: placed_def)
  moreover have "counted n k (p\<lparr>pr_watcher := False\<rparr>)" using c by (simp add: counted_def)
  ultimately show "stage e n k core (proc_live_step e pev p)" using assms(1) quiet by (auto simp: stage_exit) (auto simp: stage_def)
  show "ended_ok (pev = ListenerFails) n k (proc_live_step e pev p)"
    using quiet facts none mon by (auto simp: ended_ok_def exit_cause_def split: if_splits)
qed

lemma live_step:
  assumes "stage e n k (h, m) p" and "pr_exit p = None" and "\<And>c. sv_phase (pr_monitor p) \<noteq> ProcessExited c"
  shows "\<exists>k' m'. m' \<in> insert m {f m |f. pev = Works f} \<and>
    stage e (n + signals [pev]) k' (h, m') (proc_live_step e pev p) \<and>
    ended_ok (pev = ListenerFails) (n + signals [pev]) k' (proc_live_step e pev p)"
proof (cases pev)
  case SignalArrives
  then show ?thesis using deliver_stage[OF assms] by (auto simp: signals_def)
next
  case MainStep
  then show ?thesis using main_stage[OF assms] by (auto simp: signals_def)
next
  case (Works f)
  obtain m' where "m' \<in> {m, f m}" "stage e n k (h, m') (proc_live_step e (Works f) p)"
      "ended_ok False n k (proc_live_step e (Works f) p)"
    using works_stage[OF assms] by blast
  then show ?thesis unfolding Works by (intro exI[of _ k] exI[of _ m']) (auto simp: signals_def)
next
  case (MonitorMoves sev)
  then show ?thesis using monitor_stage[OF assms] by (auto simp: signals_def)
qed (use quiet_stage[OF assms, of pev] in \<open>auto simp: signals_def\<close>)

lemma proc_step_inv:
  assumes "proc_inv e core evs p"
  shows "proc_inv e core (evs @ [pev]) (proc_step e pev p)"
proof -
  let ?evs = "evs @ [pev]" and ?q = "proc_live_step e pev p"
  obtain n k m where st: "stage e n k (fst core, m) p" and w: "worked evs (snd core) m"
    and n: "pr_exit p = None \<Longrightarrow> n = signals evs" and ok: "ended_ok (ListenerFails \<in> set evs) (signals evs) k p"
    using assms by (auto simp: proc_inv_def)
  have sig: "signals ?evs = signals evs + signals [pev]" by (simp add: signals_def)
  show ?thesis
  proof (cases "pr_exit p")
    case (Some y)
    have "ended_ok (ListenerFails \<in> set ?evs) (signals ?evs) k p" by (rule ended_more[OF ok]) (simp_all add: sig)
    then show ?thesis
      using Some st worked_more[OF w, of "[pev]"] unfolding proc_inv_def by (auto simp: proc_step_def)
  next
    case None
    then have mon: "\<And>c. sv_phase (pr_monitor p) \<noteq> ProcessExited c" using ok by (simp add: ended_ok_def)
    obtain k' m' where l: "m' \<in> insert m {f m |f. pev = Works f}" "stage e (signals ?evs) k' (fst core, m') ?q"
        "ended_ok (pev = ListenerFails) (signals ?evs) k' ?q"
      using live_step[OF st None mon, of pev] n[OF None] sig by auto
    have "ended_ok (ListenerFails \<in> set ?evs) (signals ?evs) k' ?q" by (rule ended_more[OF l(3)]) auto
    moreover have "worked ?evs (snd core) m'" using l(1) worked_more[OF w, of "[pev]"] worked_snoc[OF w] by auto
    ultimately show ?thesis using l(2) None unfolding proc_inv_def by (auto simp: proc_step_def)
  qed
qed

lemma run_inv: "proc_inv e core evs (run_process e core evs)"
proof (induction evs rule: rev_induct)
  case Nil
  then show ?case by (simp add: run_process_def start_inv)
next
  case (snoc pev evs)
  then show ?case using proc_step_inv by (simp add: run_process_def)
qed

section \<open>Exits\<close>

lemma core_drained: "core_at e k core cur \<Longrightarrow> 8 \<le> k \<Longrightarrow> shutdown e core = Some cur"
  by (simp add: core_at_def)

text \<open>
  C14. The process ends in four ways only, for every interleaving of signals, the main goroutine, the watcher, the
  listeners, the monitor and the work of the runner. With exit code 0 a signal has arrived, the main goroutine has run
  every cleanup, and the shutdown sequence has run to its end on the runner as it was when the drain began (so that
  everything is accounted for); any other exit code is 1 and comes from the listener before it is closed, from the
  second signal after the watcher is armed, or from the monitor; a signal kills the process by its default
  disposition only once the whole sequence is over.
\<close>

theorem process_exits:
  assumes "p = run_process e core evs"
  shows "(pr_exit p = Some (ExitCode 0) \<longrightarrow>
      1 \<le> signals evs \<and> pr_todo p = [] \<and> (\<exists>m. worked evs (snd core) m \<and> shutdown e (fst core, m) = Some (pr_core p))) \<and>
    (\<forall>c. pr_exit p = Some (ExitCode c) \<and> c \<noteq> 0 \<longrightarrow>
      c = 1 \<and> (ListenerFails \<in> set evs \<and> pr_listening p \<or> 2 \<le> signals evs \<or> sv_phase (pr_monitor p) = ProcessExited 1)) \<and>
    (pr_exit p = Some KilledBySignal \<longrightarrow>
      2 \<le> signals evs \<and> (\<exists>m. worked evs (snd core) m \<and> shutdown e (fst core, m) = Some (pr_core p)))"
proof -
  obtain n k m where st: "stage e n k (fst core, m) p" and w: "worked evs (snd core) m"
    and ok: "ended_ok (ListenerFails \<in> set evs) (signals evs) k p"
    using run_inv[of e core evs] unfolding assms[symmetric] proc_inv_def by blast
  have facts: "pr_todo p = drop k main_tail" "core_at e k (fst core, m) (pr_core p)" "k < 6 \<Longrightarrow> pr_listening p"
    using st by (simp_all add: stage_def placed_def)
  show ?thesis
    using ok facts core_drained[OF facts(2)] w by (auto simp: ended_ok_def exit_cause_def main_tail_length)
qed

section \<open>Progress\<close>

lemma main_step_moves:
  assumes "stage e n k core p" and "pr_exit p = None" and "1 \<le> n" and "k < 18" and "\<And>m. shutdown_sweep e m \<noteq> None"
  shows "stage e n (Suc k) core (proc_step e MainStep p) \<and> pr_exit (proc_step e MainStep p) = None"
proof -
  have "k \<le> 18" and sig: "k = 0 \<Longrightarrow> pr_sig_pending p"
    using assms(1,3,4) by (simp_all add: stage_def counted_def)
  then have "perform e (main_tail ! k) p \<noteq> None"
    using assms(4,5) by (cases rule: position_cases) (simp_all add: main_tail_nth main_tail_nth[unfolded One_nat_def])
  then have "pr_todo (main_step e p) = drop (Suc k) main_tail"
    using main_step_head[OF assms(1,4)] by auto
  moreover have "pr_todo p = drop k main_tail" using assms(1) by (simp add: stage_def placed_def)
  moreover have "drop k main_tail \<noteq> drop (Suc k) main_tail"
  proof -
    have "length (drop k main_tail) \<noteq> length (drop (Suc k) main_tail)" using assms(4) by (simp add: main_tail_length)
    then show ?thesis by metis
  qed
  ultimately have "main_step e p \<noteq> p" by metis
  then show ?thesis using main_step_stage[OF assms(1,4)] assms(2) by (simp add: proc_step_def)
qed

lemma ended_stays: "pr_exit p = Some x \<Longrightarrow> fold (proc_step e) evs p = p"
  by (induction evs) (simp_all add: proc_step_def)

lemma steps_to_end:
  assumes "stage e n k core p" and "pr_exit p = None" and "1 \<le> n" and "\<And>m. shutdown_sweep e m \<noteq> None" and "19 \<le> k + j"
  shows "pr_exit (fold (proc_step e) (replicate j MainStep) p) = Some (ExitCode 0)"
  using assms
proof (induction "18 - k" arbitrary: k p j)
  case 0
  then have k: "k = 18" by (simp add: stage_def placed_def)
  then have "pr_exit (proc_step e MainStep p) = Some (ExitCode 0)"
    using 0 main_step_end[of e n core p] by (simp add: proc_step_def)
  moreover obtain i where "j = Suc i" using 0(6) k by (cases j) auto
  ultimately show ?case
    using ended_stays[of "proc_step e MainStep p" _ e "replicate i MainStep"] by (simp only: replicate_Suc fold_simps)
next
  case (Suc x)
  then have k: "k < 18" by simp
  obtain i where j: "j = Suc i" using Suc.prems(5) k by (cases j) auto
  note moved = main_step_moves[OF Suc.prems(1-3) k Suc.prems(4)]
  have "x = 18 - Suc k" using Suc.hyps(2) by simp
  then show ?case
    using Suc.hyps(1)[of "Suc k" "proc_step e MainStep p" i] moved Suc.prems(3,4,5)
    by (simp only: j replicate_Suc fold_simps) simp
qed

lemma free_locks_sweep:
  assumes "\<And>q. \<not> se_held e q"
  shows "shutdown_sweep e m \<noteq> None"
proof -
  have "shutdown_one e i u \<noteq> None" for i u using assms by (simp add: shutdown_one_def lock_stuck_def split: sum.split)
  then have "shutdown_each e is u \<noteq> None" for "is" u by (induction "is" arbitrary: u) (auto split: option.split)
  then show ?thesis by (simp add: shutdown_sweep_def Let_def split: option.split)
qed

text \<open>A sweep that blocks stays blocked: nothing else touches the runner, and the cancelled monitor does not exit any more.\<close>

definition sweep_stuck :: "shutdown_env \<Rightarrow> process \<Rightarrow> bool" where
  "sweep_stuck e p \<longleftrightarrow> pr_exit p = None \<and> (\<exists>rest. pr_todo p = SweepContainers # rest \<and> FlipDraining \<notin> set rest) \<and>
     shutdown_sweep e (snd (pr_core p)) = None \<and> \<not> pr_listening p \<and> sv_ctx_ended (pr_monitor p) \<and>
     pr_watcher p \<and> pr_force_registered p \<and> \<not> pr_force_done p \<and> (\<forall>c. sv_phase (pr_monitor p) \<noteq> ProcessExited c)"

lemma reached_wedge:
  assumes "pr_todo (run_process e core evs) = SweepContainers # rest" and "pr_exit (run_process e core evs) = None"
    and "shutdown_sweep e (snd (pr_core (run_process e core evs))) = None"
  shows "sweep_stuck e (run_process e core evs)"
proof -
  let ?p = "run_process e core evs"
  obtain n k m where st: "placed e k (fst core, m) ?p" and ok: "ended_ok (ListenerFails \<in> set evs) (signals evs) k ?p"
    using run_inv[of e core evs] by (auto simp: proc_inv_def stage_def)
  have "k \<le> 18" "drop k main_tail = SweepContainers # rest" using st assms(1) by (simp_all add: placed_def)
  then have "k = 7 \<and> FlipDraining \<notin> set rest"
    by (cases rule: position_cases) (auto simp: main_tail_def deferred_cleanups_def)
  then have "pr_watcher ?p" "pr_force_registered ?p" "\<not> pr_force_done ?p" "\<not> pr_listening ?p" "sv_ctx_ended (pr_monitor ?p)"
      "\<forall>c. sv_phase (pr_monitor ?p) \<noteq> ProcessExited c" "FlipDraining \<notin> set rest"
    using st ok assms(2) by (simp_all add: placed_def ended_ok_def)
  then show ?thesis using assms unfolding sweep_stuck_def by blast
qed

lemma ended_monitor_safe:
  assumes "sv_ctx_ended s" and "\<And>c. sv_phase s \<noteq> ProcessExited c" and "sev \<noteq> BodyStep (MonitorTick PingPanics)"
  shows "sv_phase (respawn_loop monitor_goroutine sev s) \<noteq> ProcessExited c \<and> sv_ctx_ended (respawn_loop monitor_goroutine sev s)"
proof (cases sev)
  case (BodyStep x)
  show ?thesis
  proof (cases x)
    case (MonitorTick r)
    then show ?thesis
      using assms BodyStep by (cases r) (auto simp: monitor_goroutine_def monitor_body_def after_return_def)
  qed (use assms BodyStep in \<open>auto simp: monitor_goroutine_def monitor_body_def after_return_def\<close>)
qed (use assms in \<open>auto simp: after_panic_def\<close>)

lemma sweep_stuck_step:
  assumes "sweep_stuck e p" and "\<not> pr_force_pending p" and "pev \<noteq> SignalArrives"
    and "pev \<noteq> MonitorMoves (BodyStep (MonitorTick PingPanics))"
  shows "sweep_stuck e (proc_step e pev p) \<and> \<not> pr_force_pending (proc_step e pev p)"
proof (cases pev)
  case MainStep
  have "main_step e p = p" using assms(1) by (auto simp: main_step_def sweep_stuck_def)
  then show ?thesis using assms MainStep by (simp add: proc_step_def)
next
  case (MonitorMoves sev)
  show ?thesis
  proof (cases "sev = CtxEnds")
    case True
    then show ?thesis using assms(1,2) MonitorMoves by (simp add: proc_step_def monitor_moves_def)
  next
    case False
    have "sev \<noteq> BodyStep (MonitorTick PingPanics)" using assms(4) MonitorMoves by simp
    moreover have "sv_ctx_ended (pr_monitor p)" "\<And>c. sv_phase (pr_monitor p) \<noteq> ProcessExited c" "pr_exit p = None"
      using assms(1) by (simp_all add: sweep_stuck_def)
    ultimately show ?thesis
      using assms(1,2) MonitorMoves False ended_monitor_safe[of "pr_monitor p" sev]
      by (auto simp: proc_step_def monitor_moves_def Let_def sweep_stuck_def split: sup_phase.split)
  qed
qed (use assms in \<open>auto simp: proc_step_def sweep_stuck_def\<close>)

text \<open>
  C15. A signal ends the process. If no stdin lock is held for ever, nineteen steps of the main goroutine after the first
  signal end it with code 0. If the sweep is stuck, the process stays alive through every event that is not a
  signal or a panicking Docker probe, and the second signal ends it with code 1.
\<close>

theorem signals_end_process:
  assumes "p = run_process e core evs" and "pr_exit p = None" and "1 \<le> signals evs"
  shows "((\<forall>q. \<not> se_held e q) \<longrightarrow> pr_exit (fold (proc_step e) (replicate 19 MainStep) p) = Some (ExitCode 0)) \<and>
    (\<forall>rest. pr_todo p = SweepContainers # rest \<and> shutdown_sweep e (snd (pr_core p)) = None \<longrightarrow>
       pr_exit (fold (proc_step e) [SignalArrives, WatcherTakesSignal] p) = Some (ExitCode 1) \<and>
       (\<not> pr_force_pending p \<longrightarrow> (\<forall>more. SignalArrives \<notin> set more \<and> MonitorMoves (BodyStep (MonitorTick PingPanics)) \<notin> set more \<longrightarrow>
          pr_exit (fold (proc_step e) more p) = None)))"
proof (intro conjI allI impI)
  obtain n k m where st: "stage e n k (fst core, m) p" and n: "n = signals evs"
    using run_inv[of e core evs] assms(2) unfolding assms(1)[symmetric] by (auto simp: proc_inv_def)
  show "pr_exit (fold (proc_step e) (replicate 19 MainStep) p) = Some (ExitCode 0)" if "\<forall>q. \<not> se_held e q"
    using steps_to_end[OF st assms(2)] n assms(3) free_locks_sweep that by simp
next
  fix rest
  assume "pr_todo p = SweepContainers # rest \<and> shutdown_sweep e (snd (pr_core p)) = None"
  then have w: "sweep_stuck e p" using reached_wedge[of e core evs rest] assms(1,2) by simp
  then show "pr_exit (fold (proc_step e) [SignalArrives, WatcherTakesSignal] p) = Some (ExitCode 1)"
    by (simp add: sweep_stuck_def proc_step_def deliver_signal_def)
  fix more
  assume "\<not> pr_force_pending p" "SignalArrives \<notin> set more \<and> MonitorMoves (BodyStep (MonitorTick PingPanics)) \<notin> set more"
  then have "sweep_stuck e (fold (proc_step e) more p)"
    using w sweep_stuck_step by (induction more arbitrary: p) auto
  then show "pr_exit (fold (proc_step e) more p) = None" by (simp add: sweep_stuck_def)
qed

lemma first_signal: "pr_exit (run_process e core [SignalArrives]) = None \<and> stage e 1 0 (fst core, snd core) (run_process e core [SignalArrives])"
  by (simp add: run_process_def proc_step_def deliver_signal_def process_start_def stage_def placed_def counted_def
      core_at_def sup_start_def)

lemma world_locks: "\<not> se_held (shutdown_world False) q"
  by (simp add: shutdown_world_def)

theorem process_exits_witness:
  "\<exists>p. p = run_process (shutdown_world False) (\<lparr>PreflightPassed = True, Draining = False\<rparr>, shutdown_manager)
       (SignalArrives # replicate 19 MainStep) \<and>
     pr_exit p = Some (ExitCode 0) \<and> pr_todo p = [] \<and> Draining (fst (pr_core p))"
proof -
  let ?e = "shutdown_world False" and ?core = "(\<lparr>PreflightPassed = True, Draining = False\<rparr>, shutdown_manager)"
  let ?p = "run_process ?e ?core (SignalArrives # replicate 19 MainStep)"
  have eq: "?p = fold (proc_step ?e) (replicate 19 MainStep) (run_process ?e ?core [SignalArrives])"
    unfolding run_process_def by (simp only: fold_simps)
  have x: "pr_exit ?p = Some (ExitCode 0)"
    unfolding eq
    by (rule steps_to_end[where n = 1 and k = 0 and core = ?core])
      (use first_signal[of ?e ?core] free_locks_sweep[OF world_locks] in simp_all)
  have "\<exists>m. shutdown ?e (fst ?core, m) = Some (pr_core ?p)" and "pr_todo ?p = []"
    using process_exits[of ?p ?e ?core "SignalArrives # replicate 19 MainStep"] x by blast+
  moreover from this have "fst (pr_core ?p) = StartDraining (fst ?core)"
    by (cases "pr_core ?p") (auto simp: shutdown_in_steps)
  ultimately show ?thesis using x by (auto simp: StartDraining_def)
qed

theorem signals_end_process_witness:
  "pr_exit (fold (proc_step (shutdown_world False)) (replicate 19 MainStep)
     (run_process (shutdown_world False) (\<lparr>PreflightPassed = True, Draining = False\<rparr>, shutdown_manager) [SignalArrives])) = Some (ExitCode 0)"
proof -
  have "1 \<le> signals [SignalArrives]" by (simp add: signals_def)
  then show ?thesis using signals_end_process[OF refl first_signal[THEN conjunct1]] world_locks by blast
qed

section \<open>Two gaps in the sequence\<close>

text \<open>
  The monitor is cancelled only after the HTTP drain. Three failed probes while the listener drains still exit the process
  with code 1: the runner is draining, and no container has been stopped or reported.
\<close>

theorem monitor_exits_while_draining:
  "pr_exit (run_process e core ([SignalArrives] @ replicate 5 MainStep @
     replicate 3 (MonitorMoves (BodyStep (MonitorTick (PingFailed False False)))))) = Some (ExitCode 1) \<and>
   pr_core (run_process e core ([SignalArrives] @ replicate 5 MainStep @
     replicate 3 (MonitorMoves (BodyStep (MonitorTick (PingFailed False False)))))) = (StartDraining (fst core), snd core)"
  by (simp add: run_process_def process_start_def proc_step_def deliver_signal_def main_step_def main_tail_def numeral_eq_Suc
      monitor_moves_def monitor_goroutine_def monitor_body_def sup_start_def count_failure_def healthFailureLimit_def)

text \<open>
  A second signal that arrives after the first was taken from its channel and before the force channel is registered
  goes to the channel that nobody reads again: the watcher never sees it.
\<close>

theorem early_second_signal_lost:
  "signals ([SignalArrives, MainStep, SignalArrives] @ replicate 6 MainStep) = 2 \<and>
   \<not> pr_force_pending (run_process e core ([SignalArrives, MainStep, SignalArrives] @ replicate 6 MainStep)) \<and>
   pr_exit (run_process e core ([SignalArrives, MainStep, SignalArrives] @ replicate 6 MainStep @ [WatcherTakesSignal])) = None \<and>
   hd (pr_todo (run_process e core ([SignalArrives, MainStep, SignalArrives] @ replicate 6 MainStep))) = SweepContainers"
  by (simp add: run_process_def process_start_def proc_step_def deliver_signal_def main_step_def main_tail_def numeral_eq_Suc
      signals_def cancel_monitor_def)

end
