(* ===== verification/Servers.thy ===== *)
theory Servers
  imports Startup Middleware Auth_Props Server_Example
begin

text \<open>
  The wiring of \<open>main\<close> between boot and the signal wait: the handler with its two caches and their sweepers, the public
  server, and the admin server (\<open>buildAdminServer\<close>). From here on the configuration, the caches, authentication and
  the handlers meet.
\<close>

section \<open>The handler as main wires it\<close>

text \<open>\<open>default_skew\<close> is the protocol's \<open>DefaultMaxClockSkew\<close>, which a configured skew replaces.\<close>

definition wired_config :: "duration \<Rightarrow> config \<Rightarrow> handler_config" where
  "wired_config default_skew cfg = \<lparr>apiKey = c_api_key cfg, maxConcurrent = c_max_concurrent cfg,
     replaySkew = c_webhook_replay_skew_seconds cfg * second, defaultMaxClockSkew = default_skew, has_cmClient = True\<rparr>"

definition wired_replay :: "config \<Rightarrow> replay_cache" where
  "wired_replay cfg = NewReplayCache (c_webhook_replay_skew_seconds cfg * second) (c_webhook_replay_cache_size cfg)"

definition wired_dedup :: "config \<Rightarrow> dedup_cache" where
  "wired_dedup cfg = NewMessageDedupCache (c_message_dedup_ttl_seconds cfg * second) (c_message_dedup_cache_size cfg)"

definition wired_state :: "boot_state \<Rightarrow> handler_state" where
  "wired_state b = \<lparr>h_tracker = m_tracker (bs_manager b), h_replay = Some (wired_replay (bs_config b)),
     h_dedup = Some (wired_dedup (bs_config b)), h_bcast = m_bcast (bs_manager b), h_health = Some (bs_health b), h_calls = []\<rparr>"

section \<open>The sweepers\<close>

text \<open>
  \<open>Run\<close> of both caches: sweep at every tick until the context ends. \<open>time.NewTicker\<close> panics on an interval that is not
  positive: \<open>None\<close>.
\<close>

datatype 'c sweep_event = SweepTick time | SweepDone | CacheUsed "'c \<Rightarrow> 'c"

fun sweep_loop :: "(time \<Rightarrow> 'c \<Rightarrow> 'c) \<Rightarrow> 'c sweep_event list \<Rightarrow> 'c \<Rightarrow> loop_state \<times> 'c" where
  "sweep_loop sweep [] c = (LoopWaiting, c)"
| "sweep_loop sweep (SweepDone # es) c = (LoopReturned, c)"
| "sweep_loop sweep (SweepTick t # es) c = sweep_loop sweep es (sweep t c)"
| "sweep_loop sweep (CacheUsed f # es) c = sweep_loop sweep es (f c)"

definition replay_Run :: "duration \<Rightarrow> replay_cache sweep_event list \<Rightarrow> replay_cache \<Rightarrow> (loop_state \<times> replay_cache) option" where
  "replay_Run interval es r = (if interval \<le> 0 then None else Some (sweep_loop replay_sweep es r))"

definition dedup_Run :: "duration \<Rightarrow> dedup_cache sweep_event list \<Rightarrow> dedup_cache \<Rightarrow> (loop_state \<times> dedup_cache) option" where
  "dedup_Run interval es c = (if interval \<le> 0 then None else Some (sweep_loop dedup_sweep es c))"

section \<open>The servers\<close>

record http_server =
  hs_addr :: string
  hs_read_header_timeout :: duration
  hs_read_timeout :: duration
  hs_write_timeout :: duration
  hs_idle_timeout :: duration

definition main_server :: "config \<Rightarrow> http_server" where
  "main_server cfg = \<lparr>hs_addr = '':'' @ dec_int (c_port cfg), hs_read_header_timeout = 10 * second,
     hs_read_timeout = 30 * second, hs_write_timeout = 30 * second, hs_idle_timeout = 120 * second\<rparr>"

definition buildAdminServer :: "config \<Rightarrow> http_server option" where
  "buildAdminServer cfg =
     (if c_admin_port cfg = 0 then None
      else Some \<lparr>hs_addr = ''127.0.0.1:'' @ dec_int (c_admin_port cfg), hs_read_header_timeout = 10 * second,
        hs_read_timeout = 30 * second, hs_write_timeout = 30 * second, hs_idle_timeout = 120 * second\<rparr>)"

text \<open>\<open>expose\<close> is the Prometheus handler; \<open>/ready\<close> is a probe without authentication.\<close>

definition admin_ready :: "tracker \<Rightarrow> string" where
  "admin_ready t = ''{'' @ [CHR 0x22] @ ''ok'' @ [CHR 0x22] @ '':true,'' @ [CHR 0x22] @ ''running_containers'' @ [CHR 0x22] @ '':''
     @ dec_int (int (Count t)) @ ''}''"

datatype admin_answer = AdminNotFound | AdminResponse "response option" | AdminProbe string

definition admin_serve ::
  "handler_config \<Rightarrow> verifier \<Rightarrow> time \<Rightarrow> (handler_state \<Rightarrow> response option \<times> handler_state) \<Rightarrow> request \<Rightarrow> handler_state \<Rightarrow>
    admin_answer \<times> handler_state" where
  "admin_serve hc verify t expose rq s = (case admin_route_of (rq_method rq) (rq_path rq) of
       None \<Rightarrow> (AdminNotFound, s)
     | Some AdminMetrics \<Rightarrow> apfst AdminResponse (AdminAuth hc verify t (\<lambda>_. expose) rq s)
     | Some AdminReady \<Rightarrow> (AdminProbe (admin_ready (h_tracker s)), s))"

section \<open>What boot gives the sweepers and the servers\<close>

lemma wired_bounds:
  assumes "boot E = Booted b"
  shows "1 \<le> c_webhook_replay_skew_seconds (bs_config b)" "1 \<le> c_webhook_replay_cache_size (bs_config b)"
    "1 \<le> c_message_dedup_ttl_seconds (bs_config b)" "1 \<le> c_message_dedup_cache_size (bs_config b)"
    "32 \<le> length (c_api_key (bs_config b))"
    "c_admin_port (bs_config b) \<noteq> c_port (bs_config b)"
proof -
  have "config_Load (be_config E) = Inr (bs_config b)" 
    by (rule booted[OF assms]) (simp only: boot_state.select_convs)
  note p = load_positive[OF this]
  show "1 \<le> c_webhook_replay_skew_seconds (bs_config b)" "1 \<le> c_webhook_replay_cache_size (bs_config b)"
    "1 \<le> c_message_dedup_ttl_seconds (bs_config b)" "1 \<le> c_message_dedup_cache_size (bs_config b)"
    "32 \<le> length (c_api_key (bs_config b))"
    "c_admin_port (bs_config b) \<noteq> c_port (bs_config b)"
    using p by simp_all
qed

lemma sweep_interval_positive: "1 \<le> n \<Longrightarrow> 0 < defaultSweepInterval (n * second)"
  by (simp add: defaultSweepInterval_def Let_def)

lemma sweepers_start:
  assumes "boot E = Booted b"
  shows "replay_Run (defaultSweepInterval (ttl (wired_replay (bs_config b)))) es r = Some (sweep_loop replay_sweep es r)"
    and "dedup_Run (defaultSweepInterval (ttl (wired_dedup (bs_config b)))) es' c = Some (sweep_loop dedup_sweep es' c)"
  using sweep_interval_positive wired_bounds(1,3)[OF assms]
  by (simp_all add: replay_Run_def dedup_Run_def wired_replay_def wired_dedup_def NewReplayCache_def NewMessageDedupCache_def
        new_store_def not_le)

text \<open>However sweeps and requests take turns, the sweeper's cache is a run of the cache's own operations.\<close>

lemma sweeper_is_run:
  assumes "\<forall>f r. CacheUsed f \<in> set es \<longrightarrow> (\<exists>ops. f r = replay_run ops r)"
  shows "\<exists>ops. snd (sweep_loop replay_sweep es r) = replay_run ops r"
  using assms
proof (induction es arbitrary: r)
  case Nil
  show ?case by (intro exI[of _ "[]"]) (simp add: replay_run_def)
next
  case (Cons e es)
  then have IH: "\<exists>ops. snd (sweep_loop replay_sweep es x) = replay_run ops x" for x by simp
  have glue: "\<exists>ops. replay_run b (replay_run a r) = replay_run ops r" for a b
    by (intro exI[of _ "a @ b"]) (simp add: replay_run_def)
  show ?case
  proof (cases e)
    case (SweepTick t)
    then have "replay_sweep t r = replay_run [RSweep t] r" by (simp add: replay_run_def)
    then show ?thesis using IH[of "replay_sweep t r"] glue SweepTick by fastforce
  next
    case SweepDone
    then show ?thesis by (intro exI[of _ "[]"]) (simp add: replay_run_def)
  next
    case (CacheUsed f)
    then obtain ops where "f r = replay_run ops r" using Cons.prems by auto
    then show ?thesis using IH[of "f r"] glue CacheUsed by fastforce
  qed
qed

lemma admin_loopback:
  "buildAdminServer cfg = Some srv \<Longrightarrow> take 10 (hs_addr srv) = ''127.0.0.1:'' \<and> c_admin_port cfg \<noteq> 0"
  by (auto simp: buildAdminServer_def split: if_splits)

lemma servers_time_out:
  "srv = main_server cfg \<or> buildAdminServer cfg = Some srv \<Longrightarrow>
    0 < hs_read_header_timeout srv \<and> hs_read_header_timeout srv \<le> hs_read_timeout srv \<and> 0 < hs_write_timeout srv \<and> 0 < hs_idle_timeout srv"
  by (auto simp: main_server_def buildAdminServer_def split: if_splits)

text \<open>Without a signature the exposition is not even run, whatever it is, and the server stays as it is.\<close>

lemma admin_metrics_need_signature:
  assumes "admin_route_of (rq_method rq) (rq_path rq) = Some AdminMetrics" and "\<nexists>content. authentic hc verify t rq content"
  shows "\<exists>r. admin_serve hc verify t expose rq s = (AdminResponse (Some r), s) \<and> rs_status r \<in> {401, 413}"
  using assms by (simp add: admin_serve_def AdminAuth_def hmacAuth_reject writeUnauthorized_def writeError_def respond_def)

lemma admin_unknown_path:
  "rq_path rq \<noteq> ''/metrics'' \<Longrightarrow> rq_path rq \<noteq> ''/ready'' \<Longrightarrow> admin_serve hc verify t expose rq s = (AdminNotFound, s)"
  by (simp add: admin_serve_def admin_route_of_def)

text \<open>The path cannot multiply the span names, but the method can: \<open>net/http\<close> passes on any token.\<close>

lemma span_names_by_path: "range (span_name meth) \<subseteq> (\<lambda>e. meth @ '' '' @ e) ` (set endpointAllowlist \<union> {''other''})"
  by (auto simp: span_name_def NormalizeEndpoint_def)

lemma span_names_by_method: "inj (\<lambda>meth. span_name meth path)"
  by (simp add: inj_def span_name_def)

section \<open>A booted runner is protected\<close>

lemma wired_effective:
  assumes "boot E = Booted b"
  shows "effective_skew (wired_config d (bs_config b)) = ttl (wired_replay (bs_config b))"
  using wired_bounds(1)[OF assms]
  by (simp add: effective_skew_def wired_config_def wired_replay_def NewReplayCache_def new_store_def)

text \<open>
  C12. Replay protection as it is deployed. Take any environment in which the runner boots, the handler and caches that
  \<open>main\<close> builds from its configuration, and any traffic up to an authenticated request. For the configured clock skew
  after it, the same signature is refused with 401, 409 or 413 and changes nothing, whatever the server did meanwhile, as
  long as fewer requests arrived than the cache holds. That time is the skew the verifier is given, it is at least a
  second, and no configuration that boots can turn it off. The promise ends there: a verifier that also takes timestamps
  from the future admits a request signed ahead of the clock once more after it (\<open>Auth_Props.replay_admitted_after_ttl\<close>).
\<close>

theorem wired_request_once:
  fixes d :: duration and verify :: verifier and before evs :: "server_event list" and env env' :: server_env
    and rq rq' :: request
  assumes "boot E = Booted b"
  defines "cfg \<equiv> wired_config d (bs_config b)"
    and "window \<equiv> c_webhook_replay_skew_seconds (bs_config b) * second"
  defines "s \<equiv> serve_all cfg verify before (wired_state b)"
  assumes "admitted cfg verify env rq s" and "trim_sha (rq_signature rq) \<noteq> []"
    and "protected_request rq'" and "trim_sha (rq_signature rq') = trim_sha (rq_signature rq)"
    and "\<forall>ev \<in> set evs. event_before (now env + window) ev" and "now env' - now env \<le> window"
    and "int (length (filter is_request evs)) < c_webhook_replay_cache_size (bs_config b)"
  defines "s1 \<equiv> serve_all cfg verify evs (snd (serve cfg verify env rq s))"
  shows "snd (serve cfg verify env' rq' s1) = s1 \<and>
    (\<exists>r. fst (serve cfg verify env' rq' s1) = Some r \<and> rs_status r \<in> {401, 409, 413}) \<and>
    effective_skew cfg = window \<and> second \<le> window"
proof -
  have "h_replay (wired_state b) = Some (wired_replay (bs_config b))" by (simp add: wired_state_def)
  then obtain ops where h: "h_replay s = Some (replay_run ops (NewReplayCache window (c_webhook_replay_cache_size (bs_config b))))"
    using serve_all_replay unfolding s_def wired_replay_def window_def by blast
  then have "\<not> admitted cfg verify env' rq' s1"
    unfolding s1_def
    by (intro not_admitted_again[OF h assms(5,7,8,6) disjI2[OF assms(9)] disjI2[OF assms(11)] disjI2[OF assms(10)]])
  from not_admitted[OF \<open>protected_request rq'\<close> this] show ?thesis
    using wired_effective[OF assms(1), of d] wired_bounds(1)[OF assms(1)]
    by (simp add: cfg_def window_def wired_replay_def NewReplayCache_def new_store_def)
qed

section \<open>Witness\<close>

lemma wired_example_admitted:
  assumes "boot E = Booted b"
  shows "admitted (wired_config d (bs_config b)) example_verify (example_env 0) (example_request ''/kill'') (wired_state b)"
proof -
  have w: "second \<le> effective_skew (wired_config d (bs_config b))"
    using wired_effective[OF assms, of d] wired_bounds(1)[OF assms] by (simp add: wired_replay_def NewReplayCache_def new_store_def)
  have "authentic (wired_config d (bs_config b)) example_verify 0 (example_request ''/kill'') ''{}''"
    using w by (simp add: authentic_def example_verify_def example_request_def maxRequestBodyBytes_def trim_sha_def)
  moreover have "\<not> fst (seen_opt 0 (trim_sha (rq_signature (example_request ''/kill''))) (wired_state b))"
    by (auto simp: seen_opt_def wired_state_def wired_replay_def Seen_def find_entry_def NewReplayCache_def new_store_def
        split: prod.split)
  moreover have "now (example_env 0) = 0" by (simp add: example_env_def)
  ultimately show ?thesis using example_protected unfolding admitted_def protected_request_def by metis
qed

theorem wired_request_once_witness:
  "\<exists>b. boot boot_example = Booted b \<and>
    (let cfg = wired_config second (bs_config b); rq = example_request ''/kill'';
         s1 = serve_all cfg example_verify [ReplaySweep 3] (snd (serve cfg example_verify (example_env 0) rq (wired_state b)))
     in snd (serve cfg example_verify (example_env 4) rq s1) = s1)"
proof -
  obtain b where b: "boot boot_example = Booted b" using example_boots by blast
  let ?rq = "example_request ''/kill''"
  have t: "now (example_env 4) = 4" "now (example_env 0) = 0" by (simp_all add: example_env_def)
  have n: "trim_sha (rq_signature ?rq) \<noteq> []" by (simp add: example_request_def trim_sha_def)
  have i: "serve_all c v [] s = s" for c v s by (simp add: serve_all_def)
  show ?thesis
    using wired_request_once[OF b, where d = second and verify = example_verify and before = "[]" and env = "example_env 0"
        and rq = ?rq and rq' = ?rq and evs = "[ReplaySweep 3]" and env' = "example_env 4"]
      wired_example_admitted[OF b] example_protected n wired_bounds(1,2)[OF b] b
    by (auto simp: t i Let_def)
qed

end
