(* ===== verification/Async_Callbacks.thy ===== *)
theory Async_Callbacks
  imports Metrics
begin

text \<open>
  The goroutines that \<open>internal/container/manager.go\<close> starts beside a run: the running-status and the skill-engaged
  callbacks, the recovery every child goroutine shares (\<open>handlePanic\<close>), and the bounded wait for the log stream. The
  budgets of the callbacks are those of the constants; the times of a callback are the sum of its backoffs.
\<close>

section \<open>Recovered panics\<close>

definition handlePanic :: "bool \<Rightarrow> goroutine \<Rightarrow> log_entry option \<Rightarrow> manager \<Rightarrow> observation list \<times> manager" where
  "handlePanic has_mx g sysEntry m =
     (if has_mx then [ObsPanic g] else [], case sysEntry of None \<Rightarrow> m | Some e \<Rightarrow> publish e m)"

text \<open>The system entry of a child goroutine of the log stream, stamped with the identity of the card.\<close>

definition stream_panic_entry :: "run_config \<Rightarrow> string \<Rightarrow> log_entry" where
  "stream_panic_entry rc child =
     (card_label rc)\<lparr>le_kind := ''system'', le_content := ''internal error: '' @ child @ '' panicked''\<rparr>"

definition stream_child_panics :: "bool \<Rightarrow> run_config \<Rightarrow> goroutine \<Rightarrow> manager \<Rightarrow> observation list \<times> manager" where
  "stream_child_panics has_mx rc g m =
     handlePanic has_mx g (Some (stream_panic_entry rc
       (if g = GoroutineStreamStdout then ''stdcopy'' else if g = GoroutineStreamStderr then ''stderr_scanner'' else ''logparser''))) m"

section \<open>The asynchronous callbacks\<close>

text \<open>Errors are only logged; a panic is recovered.\<close>

definition runningCallbackAsync :: "bool \<Rightarrow> 'a answer \<Rightarrow> manager \<Rightarrow> observation list \<times> manager" where
  "runningCallbackAsync has_mx result m = (case result of
       Panic e \<Rightarrow> handlePanic has_mx GoroutineRunningStatusCallback None m
     | Fail e \<Rightarrow> ([], m)
     | Ok x \<Rightarrow> ([], m))"

definition onSkillEngaged :: "bool \<Rightarrow> run_config \<Rightarrow> 'a answer \<Rightarrow> manager \<Rightarrow> observation list \<times> manager" where
  "onSkillEngaged has_mx rc result m = (case result of
       Panic e \<Rightarrow> handlePanic has_mx GoroutineSkillEngagedCallback (Some (stream_panic_entry rc ''skill-engaged callback'')) m
     | Fail e \<Rightarrow> ([], m)
     | Ok x \<Rightarrow> ([], m))"

section \<open>The wait for the log stream\<close>

definition logDrainTimeout :: duration where "logDrainTimeout = 5 * second"

text \<open>The time waited and whether the stream had ended, for a stream that ends after \<open>d\<close> or never.\<close>

definition drainLogs :: "duration option \<Rightarrow> duration \<times> bool" where
  "drainLogs log_done = (case log_done of
       Some d \<Rightarrow> if d \<le> logDrainTimeout then (d, True) else (logDrainTimeout, False)
     | None \<Rightarrow> (logDrainTimeout, False))"

lemma drain_bounded: "fst (drainLogs d) \<le> logDrainTimeout"
  by (simp add: drainLogs_def split: option.split)

section \<open>Budgets\<close>

definition callbackTimeout :: duration where "callbackTimeout = 10 * second"
definition runningStatusCallbackTimeout :: duration where "runningStatusCallbackTimeout = 30 * second"
definition requestTimeout :: duration where "requestTimeout = 10 * second"

fun backoff_time :: "retry_event list \<Rightarrow> duration" where
  "backoff_time [] = 0"
| "backoff_time (Attempt i # es) = backoff_time es"
| "backoff_time (Backoff d # es) = d + backoff_time es"

text \<open>The longest a callback can take when every attempt uses its request timeout.\<close>

definition ladder_time :: "retry_event list \<Rightarrow> duration" where
  "ladder_time es = requestTimeout * int (length (attempts es)) + backoff_time es"

text \<open>
  The context of the running callback ends before a full ladder of slow attempts does, although its comment says that the
  budget absorbs it; that of a final status does not survive the first of them.
\<close>

theorem ladder_exceeds_budgets:
  "snd (retryWithBackoff lbl (\<lambda>i. Inl (OtherError ''eof'') :: cb_error + unit) (\<lambda>i. None)) =
     [Attempt 0, Backoff second, Attempt 1, Backoff (2 * second), Attempt 2] \<and>
   ladder_time [Attempt 0, Backoff second, Attempt 1, Backoff (2 * second), Attempt 2] = 33 * second \<and>
   runningStatusCallbackTimeout < 33 * second \<and> callbackTimeout < ladder_time [Attempt 0, Backoff second, Attempt 1]"
  by (simp add: retryWithBackoff_def maxRetries_def numeral_eq_Suc retry_from.simps ladder_time_def
      requestTimeout_def runningStatusCallbackTimeout_def callbackTimeout_def)

section \<open>The order of status reports\<close>

text \<open>
  What ContextMatrix accepts of one callback started at \<open>t\<close>: the status, at the time of the successful attempt.
\<close>

definition status_accepted :: "time \<Rightarrow> string \<Rightarrow> (cb_error + unit) \<times> retry_event list \<times> http_request list \<Rightarrow> (time \<times> string) list" where
  "status_accepted t status r = (case r of (Inr _, es, _) \<Rightarrow> [(t + backoff_time es, status)] | (Inl _, _, _) \<Rightarrow> [])"

text \<open>The status that ContextMatrix shows last: the latest of those it accepted.\<close>

definition last_status :: "(time \<times> string) list \<Rightarrow> string option" where
  "last_status xs = (if xs = [] then None else Some (snd (last (sort_key fst xs))))"

lemma retry_second:
  assumes "att 0 = Inl e" and "\<not> isClientError e" and "ce 0 = None" and "att 1 = Inr a"
  shows "retryWithBackoff lbl att ce = (Inr a, [Attempt 0, Backoff second, Attempt 1])"
  using assms by (simp add: retryWithBackoff_def maxRetries_def numeral_eq_Suc retry_from.simps)

lemma retry_first: "att 0 = Inr a \<Longrightarrow> retryWithBackoff lbl att ce = (Inr a, [Attempt 0])"
  by (simp add: retryWithBackoff_def maxRetries_def numeral_eq_Suc retry_from.simps)

lemma report_answered:
  assumes "cb_parse E (cl_url cl @ ''/api/runner/status'') = Some u"
    and "http E 0 = Answer 502 b" and "http E 1 = Answer 200 b'" and "ctx_end E 0 = None"
  shows "\<exists>rs. ReportStatus cl E cid project st msg = (Inr (), [Attempt 0, Backoff second, Attempt 1], rs)"
proof -
  obtain uri where u: "deriveURI (cb_parse E) (cl_url cl @ ''/api/runner/status'') = Some uri"
    using assms(1) by (auto simp: deriveURI_def)
  let ?att = "\<lambda>i. map_sum id (\<lambda>b. ()) (response_of (cb_parse E) (cl_url cl @ ''/api/runner/status'') [] (http E i))"
  have "?att 0 = Inl (newError (cb_parse E) (cl_url cl @ ''/api/runner/status'') 502 (take (2 ^ 20) b))" "?att 1 = Inr ()"
    using assms(2,3) by (simp_all add: response_of_def Let_def)
  moreover have "\<not> isClientError (newError (cb_parse E) (cl_url cl @ ''/api/runner/status'') 502 (take (2 ^ 20) b))"
    by (simp add: newError_def)
  ultimately show ?thesis
    using retry_second[of ?att _ "ctx_end E" "()" "[]"] assms(4) u by (simp add: ReportStatus_def post_callback_def)
qed

lemma report_accepted:
  assumes "cb_parse E (cl_url cl @ ''/api/runner/status'') = Some u" and "http E 0 = Answer 200 b"
  shows "\<exists>rs. ReportStatus cl E cid project st msg = (Inr (), [Attempt 0], rs)"
proof -
  obtain uri where u: "deriveURI (cb_parse E) (cl_url cl @ ''/api/runner/status'') = Some uri"
    using assms(1) by (auto simp: deriveURI_def)
  let ?att = "\<lambda>i. map_sum id (\<lambda>b. ()) (response_of (cb_parse E) (cl_url cl @ ''/api/runner/status'') [] (http E i))"
  have "?att 0 = Inr ()" using assms(2) by (simp add: response_of_def Let_def)
  then show ?thesis
    using retry_first[of ?att "()" "[]" "ctx_end E"] u by (simp add: ReportStatus_def post_callback_def)
qed

text \<open>
  Nothing orders the asynchronous running callback before the final status of the same card. When ContextMatrix
  answers the first running report with a 502 and the container ends within the second of the backoff, the final
  status is accepted first and the card is shown as running from then on.
\<close>

theorem running_follows_final:
  assumes "cb_parse E1 (cl_url cl @ ''/api/runner/status'') = Some u1" and "cb_parse E2 (cl_url cl @ ''/api/runner/status'') = Some u2"
    and "http E1 0 = Answer 502 b" and "http E1 1 = Answer 200 b1" and "ctx_end E1 0 = None" and "http E2 0 = Answer 200 b2"
    and "t0 \<le> t1" and "t1 < t0 + second"
  shows "last_status (status_accepted t0 ''running'' (ReportStatus cl E1 cid project ''running'' ''container started'') @
     status_accepted t1 final (ReportStatus cl E2 cid project final msg)) = Some ''running''"
proof -
  obtain rs where r: "ReportStatus cl E1 cid project ''running'' ''container started'' = (Inr (), [Attempt 0, Backoff second, Attempt 1], rs)"
    using report_answered[OF assms(1,3-5)] by blast
  obtain qs where q: "ReportStatus cl E2 cid project final msg = (Inr (), [Attempt 0], qs)"
    using report_accepted[OF assms(2,6)] by blast
  show ?thesis using assms(8) by (simp add: r q status_accepted_def last_status_def)
qed

theorem running_follows_final_witness:
  "last_status (status_accepted 0 ''running'' (ReportStatus example_client (example_cb\<lparr>http := (\<lambda>i. Answer (if i = 0 then 502 else 200) [])\<rparr>)
       ''C-1'' ''alpha'' ''running'' ''container started'') @
      status_accepted 500000000 ''completed'' (ReportStatus example_client example_cb ''C-1'' ''alpha'' ''completed'' ''container exited normally'')) =
   Some ''running''"
  by (rule running_follows_final[of _ _ example_url _ example_url "[]" "[]" "''{}''"]) (simp_all add: example_cb_def)

section \<open>The callbacks do not touch the run\<close>

text \<open>
  Whatever an asynchronous callback or a child of the log stream does, panics included, the tracker, the
  events and the caches of the manager are as before; only log entries of this card may be published.
\<close>

theorem async_isolated:
  "\<exists>b. snd (runningCallbackAsync has_mx r m) = m \<and>
    snd (onSkillEngaged has_mx rc r m) \<in> {m, publish (stream_panic_entry rc ''skill-engaged callback'') m} \<and>
    snd (stream_child_panics has_mx rc g m) = m\<lparr>m_bcast := b\<rparr> \<and>
    list_all (\<lambda>ob. \<exists>g. ob = ObsPanic g)
      (fst (runningCallbackAsync has_mx r m) @ fst (onSkillEngaged has_mx rc r m) @ fst (stream_child_panics has_mx rc g m))"
  by (auto simp: runningCallbackAsync_def onSkillEngaged_def stream_child_panics_def handlePanic_def publish_def split: answer.split)

end
