(* ===== verification/Stream_Pipes.thy ===== *)
theory Stream_Pipes
  imports Async_Callbacks
begin

text \<open>
  The goroutines behind \<open>streamLogs\<close> and \<open>StreamChatLogs\<close> of \<open>internal/container/manager.go\<close>: the copier (\<open>stdcopy\<close>)
  that demultiplexes the log reader of Docker into two synchronous pipes, the log parser on the first and the stderr
  scanner on the second, each with its recovery. A write to an \<open>io.Pipe\<close> blocks until it is read or the read end
  is closed.
\<close>

section \<open>The pipeline\<close>

datatype std_stream = StdOut | StdErr

text \<open>What the log reader still delivers; on a malformed frame the copier returns an error or panics.\<close>

datatype docker_frame = Frame std_stream string | Malformed

datatype copier = CopierReads | CopierWrites std_stream string | CopierDone

record pipes =
  pp_frames :: "docker_frame list"
  pp_copier :: copier
  pp_parsing :: bool
  pp_scanning :: bool
  pp_parsed :: "string list"
  pp_scanned :: "string list"
  pp_failed :: bool

definition pipes_start :: "docker_frame list \<Rightarrow> pipes" where
  "pipes_start fs = \<lparr>pp_frames = fs, pp_copier = CopierReads, pp_parsing = True, pp_scanning = True,
     pp_parsed = [], pp_scanned = [], pp_failed = False\<rparr>"

text \<open>
  \<open>ended\<close>: Docker ends the stream after the last frame (the container has exited or the context is done). The parser runs on the outer
  goroutine, whose end closes the log reader, but not the read end of the first pipe; the scanner closes that of the second.
\<close>

inductive pipe_step :: "bool \<Rightarrow> pipes \<Rightarrow> pipes \<Rightarrow> bool" for ended where
  copier_reads:
    "pp_copier p = CopierReads \<Longrightarrow> pp_frames p = Frame s c # fs \<Longrightarrow>
      pipe_step ended p (p\<lparr>pp_frames := fs, pp_copier := CopierWrites s c\<rparr>)"
| copier_fails:
    "pp_copier p = CopierReads \<Longrightarrow> pp_frames p = Malformed # fs \<Longrightarrow>
      pipe_step ended p (p\<lparr>pp_frames := fs, pp_copier := CopierDone, pp_failed := True\<rparr>)"
| copier_ends:
    "pp_copier p = CopierReads \<Longrightarrow> pp_frames p = [] \<Longrightarrow> ended \<Longrightarrow> pipe_step ended p (p\<lparr>pp_copier := CopierDone\<rparr>)"
| reader_closed:
    "pp_copier p = CopierReads \<Longrightarrow> \<not> pp_parsing p \<Longrightarrow> pipe_step ended p (p\<lparr>pp_copier := CopierDone\<rparr>)"
| parser_reads:
    "pp_copier p = CopierWrites StdOut c \<Longrightarrow> pp_parsing p \<Longrightarrow>
      pipe_step ended p (p\<lparr>pp_copier := CopierReads, pp_parsed := pp_parsed p @ [c]\<rparr>)"
| scanner_reads:
    "pp_copier p = CopierWrites StdErr c \<Longrightarrow> pp_scanning p \<Longrightarrow>
      pipe_step ended p (p\<lparr>pp_copier := CopierReads, pp_scanned := pp_scanned p @ [c]\<rparr>)"
| write_refused:
    "pp_copier p = CopierWrites StdErr c \<Longrightarrow> \<not> pp_scanning p \<Longrightarrow> pipe_step ended p (p\<lparr>pp_copier := CopierDone\<rparr>)"
| parser_eof:
    "pp_copier p = CopierDone \<Longrightarrow> pp_parsing p \<Longrightarrow> pipe_step ended p (p\<lparr>pp_parsing := False\<rparr>)"
| scanner_eof:
    "pp_copier p = CopierDone \<Longrightarrow> pp_scanning p \<Longrightarrow> pipe_step ended p (p\<lparr>pp_scanning := False\<rparr>)"

text \<open>A recovered panic of the parser or of the scanner, at any moment while it runs.\<close>

inductive child_panics :: "pipes \<Rightarrow> pipes \<Rightarrow> bool" where
  parser_panics: "pp_parsing p \<Longrightarrow> child_panics p (p\<lparr>pp_parsing := False, pp_failed := True\<rparr>)"
| scanner_panics: "pp_scanning p \<Longrightarrow> child_panics p (p\<lparr>pp_scanning := False, pp_failed := True\<rparr>)"

definition stream_step :: "bool \<Rightarrow> pipes \<Rightarrow> pipes \<Rightarrow> bool" where
  "stream_step ended p q \<longleftrightarrow> pipe_step ended p q \<or> child_panics p q"

text \<open>
  \<open>done\<close> of the card stream is closed with its outer goroutine; \<open>Wait\<close> of the manager counts all three goroutines of a
  chat stream.
\<close>

definition card_done :: "pipes \<Rightarrow> bool" where "card_done p \<longleftrightarrow> \<not> pp_parsing p"

definition chat_drained :: "pipes \<Rightarrow> bool" where
  "chat_drained p \<longleftrightarrow> \<not> pp_parsing p \<and> \<not> pp_scanning p \<and> pp_copier p = CopierDone"

definition settled :: "bool \<Rightarrow> pipes \<Rightarrow> bool" where "settled ended p \<longleftrightarrow> (\<nexists>q. pipe_step ended p q)"

definition stream_wedged :: "pipes \<Rightarrow> bool" where
  "stream_wedged p \<longleftrightarrow> \<not> pp_parsing p \<and> (\<exists>c. pp_copier p = CopierWrites StdOut c)"

inductive_cases pipe_stepE: "pipe_step ended p q"
inductive_cases child_panicsE: "child_panics p q"

section \<open>Every run ends\<close>

fun copier_left :: "copier \<Rightarrow> nat" where
  "copier_left CopierReads = 1" | "copier_left (CopierWrites s c) = 2" | "copier_left CopierDone = 0"

definition pipe_measure :: "pipes \<Rightarrow> nat" where
  "pipe_measure p = 2 * length (pp_frames p) + copier_left (pp_copier p) +
     (if pp_parsing p then 1 else 0) + (if pp_scanning p then 1 else 0)"

lemma stream_step_measure: "stream_step ended p q \<Longrightarrow> pipe_measure q < pipe_measure p"
  by (auto simp: stream_step_def pipe_measure_def elim!: pipe_stepE child_panicsE)

lemma runs_bounded:
  assumes "(stream_step ended ^^ n) p q"
  shows "n + pipe_measure q \<le> pipe_measure p"
  using assms
proof (induction n arbitrary: q)
  case (Suc n)
  then obtain r where "(stream_step ended ^^ n) p r" "stream_step ended r q" by auto
  then show ?case using Suc.IH[of r] stream_step_measure[of ended r q] by linarith
qed simp

section \<open>Where a run ends\<close>

lemma settled_cases:
  assumes "settled True p"
  shows "chat_drained p \<or> stream_wedged p"
proof (rule ccontr)
  assume n: "\<not> (chat_drained p \<or> stream_wedged p)"
  have "\<exists>q. pipe_step True p q"
  proof (cases "pp_copier p")
    case CopierReads
    then show ?thesis
    proof (cases "pp_frames p")
      case (Cons f fs)
      then show ?thesis using CopierReads by (cases f) (blast intro: pipe_step.intros)+
    qed (blast intro: pipe_step.intros)
  next
    case (CopierWrites s c)
    then show ?thesis using n by (cases s; cases "pp_scanning p") (auto simp: stream_wedged_def intro: pipe_step.intros)
  next
    case CopierDone
    then show ?thesis using n by (auto simp: chat_drained_def intro: pipe_step.intros)
  qed
  then show False using assms by (simp add: settled_def)
qed

lemma wedged_forever:
  assumes "stream_wedged p" and "(stream_step ended)\<^sup>*\<^sup>* p q"
  shows "stream_wedged q"
  using assms(2,1)
  by (induction rule: rtranclp_induct) (auto simp: stream_step_def stream_wedged_def elim!: pipe_stepE child_panicsE)

section \<open>What the children read\<close>

fun of_stream :: "std_stream \<Rightarrow> docker_frame list \<Rightarrow> string list" where
  "of_stream s [] = []"
| "of_stream s (Malformed # fs) = of_stream s fs"
| "of_stream s (Frame s' c # fs) = (if s' = s then c # of_stream s fs else of_stream s fs)"

fun in_hand :: "std_stream \<Rightarrow> copier \<Rightarrow> string list" where
  "in_hand s (CopierWrites s' c) = (if s' = s then [c] else [])"
| "in_hand s _ = []"

text \<open>Nothing is lost, reordered or repeated on the way while nothing fails.\<close>

definition carried :: "docker_frame list \<Rightarrow> pipes \<Rightarrow> bool" where
  "carried fs p \<longleftrightarrow>
     (pp_failed p \<or>
       pp_scanned p @ in_hand StdErr (pp_copier p) @ of_stream StdErr (pp_frames p) = of_stream StdErr fs \<and>
       (pp_copier p = CopierDone \<longrightarrow> pp_frames p = []) \<and>
       (\<not> pp_parsing p \<or> \<not> pp_scanning p \<longrightarrow> pp_copier p = CopierDone)) \<and>
     (pp_copier p \<noteq> CopierDone \<or> pp_frames p = [] \<and> \<not> pp_failed p \<longrightarrow>
       pp_parsed p @ in_hand StdOut (pp_copier p) @ of_stream StdOut (pp_frames p) = of_stream StdOut fs) \<and>
     prefix (pp_parsed p) (of_stream StdOut fs)"

lemma carried_start: "carried fs (pipes_start fs)"
  by (simp add: carried_def pipes_start_def)

lemma carried_step: "carried fs p \<Longrightarrow> stream_step ended p q \<Longrightarrow> carried fs q"
  unfolding stream_step_def
  by (elim disjE pipe_stepE child_panicsE) (auto simp: carried_def prefix_def)

lemma carried_always: "(stream_step ended)\<^sup>*\<^sup>* (pipes_start fs) p \<Longrightarrow> carried fs p"
  by (induction rule: rtranclp_induct) (simp_all add: carried_start carried_step)

section \<open>Streams settle\<close>

text \<open>
  C17. The log stream of a container comes to rest. Every run of the three goroutines is finite, with at most two steps a frame and
  three more, whatever panics meanwhile. Once Docker has ended the stream and nothing can move, the stream of a
  card is done, so its cleanup and its watchdog go on; a chat stream has drained unless its copier is stuck in a write to the
  pipe of a parser that is gone. If nothing failed, both children have read all of their frames, in order; in any case
  what the parser has read is a beginning of the standard output.
\<close>

theorem streams_settle:
  assumes "(stream_step True ^^ n) (pipes_start fs) p"
  shows "n \<le> 2 * length fs + 3 \<and> prefix (pp_parsed p) (of_stream StdOut fs) \<and>
    (settled True p \<longrightarrow> card_done p \<and> (chat_drained p \<or> stream_wedged p) \<and>
      (\<not> pp_failed p \<longrightarrow> chat_drained p \<and> pp_parsed p = of_stream StdOut fs \<and> pp_scanned p = of_stream StdErr fs))"
proof -
  have c: "carried fs p" using carried_always[OF relpowp_imp_rtranclp[OF assms]] .
  have "pipe_measure (pipes_start fs) = 2 * length fs + 3" by (simp add: pipe_measure_def pipes_start_def)
  then have n: "n \<le> 2 * length fs + 3" using runs_bounded[OF assms] by linarith
  have f: "chat_drained p \<and> pp_parsed p = of_stream StdOut fs \<and> pp_scanned p = of_stream StdErr fs"
    if "settled True p" "\<not> pp_failed p"
    using settled_cases[OF that(1)] that(2) c by (auto simp: carried_def chat_drained_def stream_wedged_def)
  show ?thesis
    using n c settled_cases[of p] f by (auto simp: carried_def card_done_def chat_drained_def stream_wedged_def)
qed

text \<open>One frame of each stream, read to the end.\<close>

definition pipes_example :: pipes where
  "pipes_example = \<lparr>pp_frames = [], pp_copier = CopierDone, pp_parsing = False, pp_scanning = False,
     pp_parsed = [''out''], pp_scanned = [''err''], pp_failed = False\<rparr>"

lemma run_more: "pipe_step True p q \<Longrightarrow> (stream_step True ^^ n) q r \<Longrightarrow> (stream_step True ^^ Suc n) p r"
  by (rule relpowp_Suc_I2) (simp_all add: stream_step_def)

lemma pipes_example_run: "(stream_step True ^^ 7) (pipes_start [Frame StdErr ''err'', Frame StdOut ''out'']) pipes_example"
proof -
  let ?fs = "[Frame StdErr ''err'', Frame StdOut ''out'']"
  let ?p = "\<lambda>fs cp pa sc a b. \<lparr>pp_frames = fs, pp_copier = cp, pp_parsing = pa, pp_scanning = sc, pp_parsed = a, pp_scanned = b, pp_failed = False\<rparr>"
  have 1: "pipe_step True (pipes_start ?fs) (?p [Frame StdOut ''out''] (CopierWrites StdErr ''err'') True True [] [])"
    using pipe_step.copier_reads[of "pipes_start ?fs"] by (simp add: pipes_start_def)
  have 2: "pipe_step True (?p [Frame StdOut ''out''] (CopierWrites StdErr ''err'') True True [] []) (?p [Frame StdOut ''out''] CopierReads True True [] [''err''])"
    using pipe_step.scanner_reads[of "?p [Frame StdOut ''out''] (CopierWrites StdErr ''err'') True True [] []"] by simp
  have 3: "pipe_step True (?p [Frame StdOut ''out''] CopierReads True True [] [''err'']) (?p [] (CopierWrites StdOut ''out'') True True [] [''err''])"
    using pipe_step.copier_reads[of "?p [Frame StdOut ''out''] CopierReads True True [] [''err'']"] by simp
  have 4: "pipe_step True (?p [] (CopierWrites StdOut ''out'') True True [] [''err'']) (?p [] CopierReads True True [''out''] [''err''])"
    using pipe_step.parser_reads[of "?p [] (CopierWrites StdOut ''out'') True True [] [''err'']"] by simp
  have 5: "pipe_step True (?p [] CopierReads True True [''out''] [''err'']) (?p [] CopierDone True True [''out''] [''err''])"
    using pipe_step.copier_ends[of "?p [] CopierReads True True [''out''] [''err'']" True] by simp
  have 6: "pipe_step True (?p [] CopierDone True True [''out''] [''err'']) (?p [] CopierDone False True [''out''] [''err''])"
    using pipe_step.parser_eof[of "?p [] CopierDone True True [''out''] [''err'']"] by simp
  have 7: "pipe_step True (?p [] CopierDone False True [''out''] [''err'']) pipes_example"
    using pipe_step.scanner_eof[of "?p [] CopierDone False True [''out''] [''err'']"] by (simp add: pipes_example_def)
  have 8: "(stream_step True ^^ 0) pipes_example pipes_example" by simp
  show ?thesis
    using run_more[OF 1 run_more[OF 2 run_more[OF 3 run_more[OF 4 run_more[OF 5 run_more[OF 6 run_more[OF 7 8]]]]]]]
    by (simp add: numeral_eq_Suc)
qed

theorem streams_settle_witness:
  "settled True pipes_example \<and> chat_drained pipes_example \<and>
    pp_parsed pipes_example = of_stream StdOut [Frame StdErr ''err'', Frame StdOut ''out'']"
proof -
  have "settled True pipes_example" by (auto simp: settled_def pipes_example_def elim!: pipe_stepE)
  moreover have "\<not> pp_failed pipes_example" by (simp add: pipes_example_def)
  ultimately show ?thesis using streams_settle[OF pipes_example_run] by blast
qed

section \<open>What a panic leaves behind\<close>

text \<open>
  The parser's panic is recovered, but the read end of its pipe stays open: when more standard output follows, the copier
  blocks for good. The stream of a card is done and only leaks it; \<open>Wait\<close> counts the copier of a chat, so it never returns.
\<close>

lemma parser_panic_wedges:
  "\<exists>p. (stream_step True)\<^sup>*\<^sup>* (pipes_start (Frame StdOut c # fs)) p \<and> card_done p \<and> stream_wedged p \<and>
    (\<forall>q. (stream_step True)\<^sup>*\<^sup>* p q \<longrightarrow> \<not> chat_drained q)"
proof -
  let ?s = "pipes_start (Frame StdOut c # fs)"
  let ?p1 = "?s\<lparr>pp_frames := fs, pp_copier := CopierWrites StdOut c\<rparr>"
  let ?p = "?p1\<lparr>pp_parsing := False, pp_failed := True\<rparr>"
  have 1: "stream_step True ?s ?p1"
    using pipe_step.copier_reads[of ?s StdOut c fs True] by (simp add: stream_step_def pipes_start_def)
  have 2: "stream_step True ?p1 ?p"
    using child_panics.parser_panics[of ?p1] by (simp add: stream_step_def pipes_start_def)
  have w: "stream_wedged ?p" by (simp add: stream_wedged_def)
  have "\<not> chat_drained q" if "(stream_step True)\<^sup>*\<^sup>* ?p q" for q
    using wedged_forever[OF w that] by (auto simp: stream_wedged_def chat_drained_def)
  moreover have "(stream_step True)\<^sup>*\<^sup>* ?s ?p" using 1 2 by (meson converse_rtranclp_into_rtranclp r_into_rtranclp)
  ultimately show ?thesis using w by (auto simp: card_done_def)
qed

text \<open>
  Once the scanner is gone, the next line of standard error ends the copier, with it the standard output of a container that
  goes on, and with that the watchdog, which stops when the stream is done.
\<close>

lemma scanner_panic_ends_stdout:
  assumes "\<not> pp_scanning p" and "pp_copier p = CopierWrites StdErr c" and "pp_parsing p"
  shows "\<exists>q. (stream_step False)\<^sup>*\<^sup>* p q \<and> card_done q \<and> pp_parsed q = pp_parsed p \<and> pp_frames q = pp_frames p"
proof -
  have 1: "stream_step False p (p\<lparr>pp_copier := CopierDone\<rparr>)"
    using pipe_step.write_refused[OF assms(2,1)] by (simp add: stream_step_def)
  have 2: "stream_step False (p\<lparr>pp_copier := CopierDone\<rparr>) (p\<lparr>pp_copier := CopierDone, pp_parsing := False\<rparr>)"
    using pipe_step.parser_eof[of "p\<lparr>pp_copier := CopierDone\<rparr>" False] assms(3) by (simp add: stream_step_def)
  have "(stream_step False)\<^sup>*\<^sup>* p (p\<lparr>pp_copier := CopierDone, pp_parsing := False\<rparr>)"
    using 1 2 by (meson converse_rtranclp_into_rtranclp r_into_rtranclp)
  then show ?thesis by (intro exI[of _ "p\<lparr>pp_copier := CopierDone, pp_parsing := False\<rparr>"]) (simp add: card_done_def)
qed

end
