(* ===== verification/Docker_Client.thy ===== *)
theory Docker_Client
  imports Reconcile
begin

text \<open>
  \<open>RealDockerClient\<close> of \<open>internal/container/docker.go\<close>, the provider of the \<open>DockerClient\<close> interface. The SDK is a
  parameter: every method passes its call on; modelled are those that change the answer. \<open>'r\<close> stands for the fields of
  the SDK's container summary that the wrapper leaves out.
\<close>

record sdk_container =
  sc_id :: string
  sc_names :: "string list"
  sc_state :: string
  sc_created :: int
  sc_labels :: "(string \<times> string) list"

definition docker_container_of :: "'r sdk_container_scheme \<Rightarrow> docker_container" where
  "docker_container_of c = \<lparr>dc_id = sc_id c, dc_names = sc_names c, dc_state = sc_state c, dc_created = sc_created c,
     dc_labels = sc_labels c\<rparr>"

definition ContainerList :: "(string + 'r sdk_container_scheme list) \<Rightarrow> string + docker_container list" where
  "ContainerList answer = (case answer of Inl err \<Rightarrow> Inl err | Inr cs \<Rightarrow> Inr (map docker_container_of cs))"

text \<open>The write side of an attached connection and, if there is one, the release of the connection.\<close>

record hijacked =
  hj_conn :: writer
  hj_close :: "callback option"

definition ContainerAttach :: "(string + writer \<times> callback) \<Rightarrow> string + hijacked" where
  "ContainerAttach answer = (case answer of
       Inl err \<Rightarrow> Inl err
     | Inr (conn, close) \<Rightarrow> Inr \<lparr>hj_conn = conn, hj_close = Some close\<rparr>)"

text \<open>The callbacks that a call of \<open>Close\<close> runs.\<close>

definition HijackedResponse_Close :: "hijacked \<Rightarrow> callback list" where
  "HijackedResponse_Close h = (case hj_close h of None \<Rightarrow> [] | Some c \<Rightarrow> [c])"

definition real_Ping :: "string + 'p \<Rightarrow> string option" where
  "real_Ping answer = (case answer of Inl err \<Rightarrow> Some err | Inr _ \<Rightarrow> None)"

text \<open>What the manager sees of the daemon through the wrapper.\<close>

definition real_docker ::
  "(string list \<Rightarrow> string + 'r sdk_container_scheme list) \<Rightarrow> (string \<Rightarrow> bool) \<Rightarrow> (string \<Rightarrow> bool) \<Rightarrow> docker_env" where
  "real_docker list stop remove = \<lparr>list_answer = (\<lambda>fs. case ContainerList (list fs) of Inl _ \<Rightarrow> None | Inr cs \<Rightarrow> Some cs),
     stop_ok = stop, remove_ok = remove\<rparr>"

lemma list_answer_real: "list fs = Inr cs \<Longrightarrow> list_answer (real_docker list stop remove) fs = Some (map docker_container_of cs)"
  by (simp add: real_docker_def ContainerList_def)

lemma attach_closes: "ContainerAttach (Inr (conn, close)) = Inr h \<Longrightarrow> hj_conn h = conn \<and> HijackedResponse_Close h = [close]"
  by (auto simp: ContainerAttach_def HijackedResponse_Close_def)

lemma map_truncated: "map docker_container_of cs = map docker_container_of (map sdk_container.truncate cs)"
  by (simp add: docker_container_of_def sdk_container.defs comp_def)

text \<open>
  The sweep through the real client: the fields that the wrapper drops cannot change what is stopped and removed, and
  every container of the daemon's answer whose labels the tracker does not know is removed under its own id.
\<close>

lemma real_sweep_by_labels:
  assumes "map sdk_container.truncate (cs :: 'r sdk_container_scheme list) = map sdk_container.truncate (cs' :: 's sdk_container_scheme list)"
  shows "CleanupOrphans (real_docker (\<lambda>fs. Inr cs) stop remove) m = CleanupOrphans (real_docker (\<lambda>fs. Inr cs') stop remove) m"
proof -
  have "map docker_container_of cs = map docker_container_of cs'"
    unfolding map_truncated[of cs] map_truncated[of cs'] assms ..
  then show ?thesis by (simp add: real_docker_def ContainerList_def)
qed

lemma real_sweep_removes:
  assumes "c \<in> set cs" and "\<not> tracked_container (m_tracker m) (docker_container_of c)"
  shows "EvRemove (sc_id c) \<in> set (m_events (snd (CleanupOrphans (real_docker (\<lambda>fs. Inr cs) stop remove) m)))"
proof -
  have l: "list_answer (real_docker (\<lambda>fs. Inr cs) stop remove) runner_filter = Some (map docker_container_of cs)"
    by (rule list_answer_real) simp
  show ?thesis
    using assms by (auto simp: cleanup_effect[OF l, of m] docker_container_of_def intro: bexI[of _ c])
qed

end
