(* ===== verification/Spec2Isabelle.thy ===== *)
theory Spec2Isabelle
  imports Replay_Cache Dedup_Cache Dns_Cache Validate Tracker Stream_Msg Broadcaster Log_Parser Priming Handler_Props
    Retry Reconcile Secrets Config_Props Callback Health Shutdown Sse Middleware Startup Drop_Reporter
    Process Tracing Servers Stream_Pipes Docker_Client
begin

text \<open>
  Verification library for contextmatrix-runner, the Go service that runs Claude Code workers in Docker
  containers on behalf of a ContextMatrix server (CM). CM sends HMAC-signed webhooks; the runner starts, feeds,
  streams and stops containers, reports back over HTTP callbacks, and serves their redacted logs as
  server-sent events.

  Parts and how they interact. A request passes \<open>withMetrics\<close>, \<open>hmacAuth\<close> with the replay cache, and the
  validators, and reaches a handler; a handler reserves a slot in the tracker and hands the work to the manager, or
  writes to a container's stdin through the tracker, with the dedup cache remembering acknowledgements. The manager
  builds the container, streams its output through the log parser and redactor to the broadcaster, watches
  for idleness, and gives the slot back. Around them: the secrets refresher, the supervised background goroutines (dockerd
  monitor, maintenance, gauge), preflight, metrics and tracing, boot, the signal handling and shutdown.

  Theories, in the order of the imports, with the code they model:

  \<^item> \<open>Runner_Prelude\<close>, \<open>Utf8\<close>, \<open>Go_Parse\<close>: bytes, times in nanoseconds (\<open>int\<close>), shared lemmas and collections;
    the parts of \<open>unicode/utf8\<close>, \<open>strconv\<close>, \<open>strings\<close> and \<open>time\<close> the program uses.
  \<^item> \<open>Ttl_Store\<close>, \<open>Replay_Cache\<close>, \<open>Dedup_Cache\<close>, \<open>Dns_Cache\<close>: the map-plus-list caches of
    \<open>internal/webhook/replay_cache.go\<close>, \<open>message_dedup_cache.go\<close> and \<open>internal/container/dns_cache.go\<close>. \<open>Cache_Interface\<close>
    is their contract as a locale, interpreted on the latter two.
  \<^item> \<open>Validate\<close>: \<open>internal/webhook/validate.go\<close>, each regular expression as a recogniser.
  \<^item> \<open>Tracker\<close>: \<open>internal/tracker/tracker.go\<close>. An association list of entries, a heap of stdin states, a trace of
    effects; each operation in its locked phases (steps of \<open>tr_step\<close>) and run to completion. \<open>Registry_Interface\<close> is
    the contract of reservation and release, interpreted for cards and for chats.
  \<^item> \<open>Stream_Msg\<close>: \<open>internal/streammsg/user.go\<close>, with a reader for JSON string literals.
  \<^item> \<open>Broadcaster\<close>, \<open>Drop_Reporter\<close>: \<open>internal/logbroadcast/broadcaster.go\<close>; \<open>b_step\<close> interleaves publish, subscribe,
    unsubscribe, receive and close; the reporter goroutine with its respawn.
  \<^item> \<open>Bounded_Line\<close>, \<open>Redactor\<close>, \<open>Log_Parser\<close>: \<open>internal/logparser\<close> and \<open>internal/secretenv\<close>.
  \<^item> \<open>Docker\<close>, \<open>Container_Spec\<close>, \<open>Card_Run\<close>, \<open>Chat_Run\<close>, \<open>Reconcile\<close>: \<open>internal/container/manager.go\<close>. The manager's state
    is a record of tracker, broadcaster, DNS cache and chat clean-up maps; calls of Docker, of the file system and of
    CM are events in \<open>m_events\<close>, their answers are functions of the environment records.
  \<^item> \<open>Async_Callbacks\<close>, \<open>Stream_Pipes\<close>, \<open>Docker_Client\<close>: the goroutines beside a run (callbacks with their budgets, the
    shared recovery), the copier, parser and scanner of a log stream as a step relation over two synchronous pipes, and
    \<open>internal/container/docker.go\<close>.
  \<^item> \<open>Handler\<close>, \<open>Chat_Handler\<close>, \<open>Server\<close>, \<open>Sse\<close>, \<open>Middleware\<close>: \<open>internal/webhook\<close>, one definition per handler with the
    early returns of the code, the route table, sequences of requests, the loop of \<open>/logs\<close>, and the labels of the
    metrics. \<open>Priming\<close> is the bounded stdin write as a step relation of two goroutines over one lock.
  \<^item> \<open>Secrets\<close>: \<open>internal/container/secrets_refresher.go\<close>, rendering, atomic write, one refresh, the schedule.
  \<^item> \<open>Config\<close>: \<open>internal/config/config.go\<close>, from the decoded file through environment and defaults to validation.
  \<^item> \<open>Callback\<close>: \<open>internal/callback/client.go\<close>.
  \<^item> \<open>Health\<close>: \<open>health_monitor.go\<close>, \<open>internal/preflight/preflight.go\<close>, \<open>Client.Ping\<close>, the maintenance loop of \<open>main.go\<close>.
  \<^item> \<open>Startup\<close>, \<open>Servers\<close>, \<open>Supervisor\<close>, \<open>Shutdown\<close>, \<open>Process\<close>: \<open>cmd/contextmatrix-runner/main.go\<close> up to the listeners; the handler,
    caches and servers it wires; the respawning wrappers, with locales for the contract of their bodies; the shutdown
    sequence; and the main goroutine from the signal wait to the last deferred cleanup, interleaved with
    signals, the force-exit watcher, the listeners and the monitor.
  \<^item> \<open>Metrics\<close>, \<open>Tracing\<close>: \<open>internal/metrics/metrics.go\<close> with every observation of the runner, \<open>internal/tracing/tracing.go\<close> and
    the process logger.
  \<^item> \<open>Handler_Props\<close>, \<open>Auth_Props\<close>, \<open>Endpoint_Props\<close>, \<open>Chat_Props\<close>, \<open>Run_Props\<close>, \<open>Identity\<close>, \<open>Retry\<close>, \<open>Config_Props\<close>,
    \<open>Server_Example\<close>: properties that span components, and the examples that instantiate them.

  What the lemmas show.

  \<^item> Admission: a payload is accepted exactly within the field languages; nothing happens without a valid
    signature; a signed request takes effect once while its signature is remembered (for the clock skew, with fewer
    requests than the cache holds), in every configuration that boots; a retried message is answered from the cache
    and not written twice, while the cache holds it; the requests to a draining runner start and feed nothing.
  \<^item> Registry: under every interleaving of the phases the limit holds, no writer is closed twice or written after
    its close, and every writer and callback ends up closed, run, handed back or current; the sequential operations
    refine the step relation; a message reaches only the container it addresses.
  \<^item> Runs: a card run gives everything back on every path, panics included, and reports exactly one final status;
    idle containers are killed in time; chats release their state once, unless the wait panics; all containers have
    exactly the configured read-only mounts and no capabilities, and are pinned by digest in production.
  \<^item> Confidentiality: an injected secret of eight bytes or more does not appear in a string that the log parser logs
    or emits for a card, but for the places that the code leaves raw (the model of a usage entry, the name of a skill,
    the text of a decoder error, the parser's reports); the text of a callback error does not depend on the body of an
    error answer, and the key enters a request only through the HMAC while signing is on.
  \<^item> Streams: a client of \<open>/logs\<close> reads exactly the matching entries, whole and in order, up to declared drops;
    user messages, secrets files and verification URLs read back as what was written; the goroutines of a log stream
    always come to rest and lose nothing while none of them fails.
  \<^item> Life cycle: a configuration that loads is in range; boot opens the listeners only on a sound runner; \<open>/readyz\<close>
    follows the dependencies; the monitor exits exactly after three failures in a row; callbacks and the
    refresher end or back off as documented; background goroutines survive every panic; shutdown gives every run
    that was registered its turn and force-removes what is left; the process exits with 0 only after it, and a second signal ends a shutdown that is stuck.
  \<^item> Observation: registration and observation of metrics never panic and their series are bounded; tracing fails open.
  \<^item> Defects: a family of theorems states where the code does not do what it means to (a chat priming write or a
    shutdown that waits for a lock for ever, a replay accepted after the TTL, a late chat clean-up that untracks
    its successor, an orphan sweep that hits a starting chat, a preflight loop ended by a panic, an IPv6 URL
    that is never reachable, an empty variable that disables the watchdog, a monitor that may exit the process during the
    drain, a second signal that is lost, a maintenance loop that its wrapper restarts while the runner drains, a
    running status accepted after the final one, a chat that keeps its slot when the wait for its container
    panics, a log copier that blocks for ever after a panic of its parser, a model name that is published unredacted).

  Bounds and fuel. No definition runs on fuel: loops over input (the stream reader, the redactor, the line loop) recurse
  on what is left to read, with termination proved; loops that wait (refresher, monitors, preflight, \<open>/logs\<close>,
  maintenance, watchdog) recurse on the list of the events that their \<open>select\<close> sees, so a theorem over all lists
  covers every run of every length. A call that waits for a lock for ever is \<open>None\<close>. Numbers are \<open>int\<close> or
  \<open>nat\<close>; where the code relies on 64-bit limits (durations, parsed integers) the range check is written out, and the
  retry and backoff exponents are bounded by their clamps.

  Not modelled. Third-party code is an argument of the definitions that use it: the Docker SDK and the methods of
  \<open>RealDockerClient\<close> that return its call as it is, the file system and git, the resolver, \<open>encoding/json\<close> and the YAML
  decoder, \<open>net/url\<close>, HMAC signing and verification, the HTTP transport and server, Prometheus and OpenTelemetry (as the
  documented contracts of what the runner calls). Left out because they carry no decision of the program: the time stamps of log entries, log lines
  and their rate limits (but for the endpoint that tracing logs), and the enforcement of the server timeouts,
  which are values of \<open>http_server\<close>. Wall-clock time enters as the times of the operations and the events of
  timers; the Go memory model below the locks is not modelled: a critical section is one step, and so is the
  pair of atomic increments with which a failed send of the broadcaster counts its drop. Differences of times do not
  saturate, the removal of a temporary file is taken to succeed, and the durability of a synced file is not a claim.
\<close>

end
